(* ===== verification/Prelude.thy ===== *)
theory Prelude
  imports Main "HOL-Library.Char_ord" "HOL-Library.List_Lexorder"
begin

section \<open>Prelude: collections and generic lemmas\<close>

text \<open>
  The theorem collections of the development and the facts about lists, options and sums that
  several components share.

  \<^item> \<open>prog_simps\<close>: equations of the program combinators of theory \<open>Program\<close>;
  \<^item> \<open>hoare_intros\<close>: rules that decompose a triple over those combinators;
  \<^item> \<open>keep_intros\<close>: preservation facts, one per operation, for an invariant of the state.
\<close>

named_theorems prog_simps
named_theorems hoare_intros
named_theorems keep_intros

type_synonym pystr = string

subsection \<open>Lists with a key\<close>

lemma filter_key_in:
  "distinct (map f xs) \<Longrightarrow> x \<in> set xs \<Longrightarrow> filter (\<lambda>y. f y = f x) xs = [x]"
proof (induction xs)
  case Nil
  then show ?case by simp
next
  case (Cons a xs)
  show ?case
  proof (cases "x = a")
    case True
    with Cons.prems have "filter (\<lambda>y. f y = f x) xs = []"
      by (auto simp: filter_empty_conv intro: rev_image_eqI)
    with True show ?thesis by simp
  next
    case False
    with Cons.prems have "x \<in> set xs" "f a \<noteq> f x" by force+
    with Cons show ?thesis by simp
  qed
qed

lemma filter_key_cases:
  assumes "distinct (map f xs)"
  obtains "filter (\<lambda>y. f y = k) xs = []"
  | x where "x \<in> set xs" "f x = k" "filter (\<lambda>y. f y = k) xs = [x]"
proof (cases "\<exists>x \<in> set xs. f x = k")
  case True
  then obtain x where x: "x \<in> set xs" "f x = k" by blast
  with assms have "filter (\<lambda>y. f y = k) xs = [x]"
    using filter_key_in [of f xs x] by simp
  with x that(2) show thesis by blast
next
  case False
  then have "filter (\<lambda>y. f y = k) xs = []" by (simp add: filter_empty_conv)
  with that(1) show thesis by blast
qed

lemma length_filter_key_le_1:
  "distinct (map f xs) \<Longrightarrow> length (filter (\<lambda>y. f y = k) xs) \<le> 1"
  by (cases rule: filter_key_cases [of f xs k]) auto

lemma map_key_update:
  "(\<And>x. f (g x) = f x) \<Longrightarrow> map f (map (\<lambda>x. if P x then g x else x) xs) = map f xs"
  by (induction xs) auto

lemma filter_map_update_unaffected:
  "(\<And>x. Q (g x) = Q x) \<Longrightarrow>
     filter Q (map (\<lambda>x. if P x then g x else x) xs) = map (\<lambda>x. if P x then g x else x) (filter Q xs)"
  by (induction xs) auto

subsection \<open>Sums as results\<close>

lemma sum_split_neq: "(\<forall>e. r \<noteq> Inl e) \<longleftrightarrow> (\<exists>a. r = Inr a)"
  by (cases r) auto

lemma list_all2_right_member: "list_all2 R xs ys \<Longrightarrow> y \<in> set ys \<Longrightarrow> \<exists>x \<in> set xs. R x y"
  by (induction xs ys rule: list_all2_induct) auto

lemma list_all2_left_member: "list_all2 R xs ys \<Longrightarrow> x \<in> set xs \<Longrightarrow> \<exists>y \<in> set ys. R x y"
  by (induction xs ys rule: list_all2_induct) auto

end
