(* ===== verification/PyText.thy ===== *)
theory PyText
  imports Prelude "HOL-Library.Word"
begin

section \<open>Python strings, decimal numerals and UUIDs\<close>

text \<open>
  What the program uses of Python's \<open>str\<close>, \<open>int\<close> and \<open>uuid.UUID\<close>. A string is a list of
  characters, and a character is a code point below 256. \<open>py_str_int\<close> is \<open>str(i)\<close>, \<open>py_int\<close> is
  \<open>int(s, base)\<close> (surrounding whitespace, a sign, a \<open>0x\<close> prefix in base 16 and single
  underscores between digits are accepted; anything else is the \<open>ValueError\<close>, here \<open>None\<close>).
  \<open>uuid_str\<close> and \<open>uuid_parse\<close> are \<open>str(u)\<close> and \<open>UUID(s)\<close>.
\<close>

subsection \<open>Characters\<close>

definition is_space :: "char \<Rightarrow> bool" where
  "is_space c = (let n = of_char c :: nat in
     (9 \<le> n \<and> n \<le> 13) \<or> (28 \<le> n \<and> n \<le> 32) \<or> n = 133 \<or> n = 160)"

definition lower_char :: "char \<Rightarrow> char" where
  "lower_char c = (let n = of_char c :: nat in
     if (65 \<le> n \<and> n \<le> 90) \<or> (192 \<le> n \<and> n \<le> 222 \<and> n \<noteq> 215) then char_of (n + 32) else c)"

definition lower :: "pystr \<Rightarrow> pystr" where
  "lower s = map lower_char s"

lemma lower_char_upper [simp]:
  "lower_char CHR ''A'' = CHR ''a''" "lower_char CHR ''B'' = CHR ''b''" "lower_char CHR ''C'' = CHR ''c''" "lower_char CHR ''D'' = CHR ''d''" "lower_char CHR ''E'' = CHR ''e''"
  "lower_char CHR ''F'' = CHR ''f''" "lower_char CHR ''G'' = CHR ''g''" "lower_char CHR ''H'' = CHR ''h''" "lower_char CHR ''I'' = CHR ''i''" "lower_char CHR ''J'' = CHR ''j''"
  "lower_char CHR ''K'' = CHR ''k''" "lower_char CHR ''L'' = CHR ''l''" "lower_char CHR ''M'' = CHR ''m''" "lower_char CHR ''N'' = CHR ''n''" "lower_char CHR ''O'' = CHR ''o''"
  "lower_char CHR ''P'' = CHR ''p''" "lower_char CHR ''Q'' = CHR ''q''" "lower_char CHR ''R'' = CHR ''r''" "lower_char CHR ''S'' = CHR ''s''" "lower_char CHR ''T'' = CHR ''t''"
  "lower_char CHR ''U'' = CHR ''u''" "lower_char CHR ''V'' = CHR ''v''" "lower_char CHR ''W'' = CHR ''w''" "lower_char CHR ''X'' = CHR ''x''" "lower_char CHR ''Y'' = CHR ''y''"
  "lower_char CHR ''Z'' = CHR ''z''"
  by (simp_all add: lower_char_def char_of_def bit_simps bit_numeral_rec)

lemma lower_char_other [simp]:
  "lower_char CHR ''a'' = CHR ''a''" "lower_char CHR ''b'' = CHR ''b''" "lower_char CHR ''c'' = CHR ''c''" "lower_char CHR ''d'' = CHR ''d''" "lower_char CHR ''e'' = CHR ''e''"
  "lower_char CHR ''f'' = CHR ''f''" "lower_char CHR ''g'' = CHR ''g''" "lower_char CHR ''h'' = CHR ''h''" "lower_char CHR ''i'' = CHR ''i''" "lower_char CHR ''j'' = CHR ''j''"
  "lower_char CHR ''k'' = CHR ''k''" "lower_char CHR ''l'' = CHR ''l''" "lower_char CHR ''m'' = CHR ''m''" "lower_char CHR ''n'' = CHR ''n''" "lower_char CHR ''o'' = CHR ''o''"
  "lower_char CHR ''p'' = CHR ''p''" "lower_char CHR ''q'' = CHR ''q''" "lower_char CHR ''r'' = CHR ''r''" "lower_char CHR ''s'' = CHR ''s''" "lower_char CHR ''t'' = CHR ''t''"
  "lower_char CHR ''u'' = CHR ''u''" "lower_char CHR ''v'' = CHR ''v''" "lower_char CHR ''w'' = CHR ''w''" "lower_char CHR ''x'' = CHR ''x''" "lower_char CHR ''y'' = CHR ''y''"
  "lower_char CHR ''z'' = CHR ''z''" "lower_char CHR ''0'' = CHR ''0''" "lower_char CHR ''1'' = CHR ''1''" "lower_char CHR ''2'' = CHR ''2''" "lower_char CHR ''3'' = CHR ''3''" "lower_char CHR ''4'' = CHR ''4''"
  "lower_char CHR ''5'' = CHR ''5''" "lower_char CHR ''6'' = CHR ''6''" "lower_char CHR ''7'' = CHR ''7''" "lower_char CHR ''8'' = CHR ''8''" "lower_char CHR ''9'' = CHR ''9''" "lower_char CHR ''_'' = CHR ''_''" "lower_char CHR ''-'' = CHR ''-''" "lower_char CHR ''.'' = CHR ''.''" "lower_char CHR '' '' = CHR '' ''"
  by (simp_all add: lower_char_def)

definition lstrip :: "pystr \<Rightarrow> pystr" where
  "lstrip s = dropWhile is_space s"

definition rstrip_chars :: "(char \<Rightarrow> bool) \<Rightarrow> pystr \<Rightarrow> pystr" where
  "rstrip_chars P s = rev (dropWhile P (rev s))"

definition strip :: "pystr \<Rightarrow> pystr" where
  "strip s = rstrip_chars is_space (lstrip s)"

definition strip_chars :: "(char \<Rightarrow> bool) \<Rightarrow> pystr \<Rightarrow> pystr" where
  "strip_chars P s = rstrip_chars P (dropWhile P s)"

fun starts_with :: "pystr \<Rightarrow> pystr \<Rightarrow> bool" where
  "starts_with s [] = True"
| "starts_with [] (p # ps) = False"
| "starts_with (c # cs) (p # ps) = (c = p \<and> starts_with cs ps)"

fun contains :: "pystr \<Rightarrow> pystr \<Rightarrow> bool" where
  "contains [] p = (p = [])"
| "contains (c # cs) p = (starts_with (c # cs) p \<or> contains cs p)"

text \<open>\<open>s.replace(p, "")\<close> for a non-empty \<open>p\<close>.\<close>

function remove_sub :: "pystr \<Rightarrow> pystr \<Rightarrow> pystr" where
  "remove_sub p [] = []"
| "remove_sub p (c # cs) =
     (if p \<noteq> [] \<and> starts_with (c # cs) p then remove_sub p (drop (length p) (c # cs))
      else c # remove_sub p cs)"
  by pat_completeness auto
termination
  by (relation "measure (\<lambda>(p, s). length s)") auto

subsection \<open>Digits\<close>

definition digit_char :: "nat \<Rightarrow> char" where
  "digit_char d = (if d < 10 then char_of (48 + d) else char_of (87 + d))"

definition digit_val :: "nat \<Rightarrow> char \<Rightarrow> nat option" where
  "digit_val base c = (let n = of_char c :: nat;
      v = (if 48 \<le> n \<and> n \<le> 57 then Some (n - 48)
           else if 97 \<le> n \<and> n \<le> 122 then Some (n - 87)
           else if 65 \<le> n \<and> n \<le> 90 then Some (n - 55) else None)
    in case v of None \<Rightarrow> None | Some d \<Rightarrow> if d < base then Some d else None)"

lemma digit_val_char [simp]:
  assumes "d < base" and "base \<le> 36"
  shows "digit_val base (digit_char d) = Some d"
  using assms by (auto simp: digit_val_def digit_char_def Let_def)

lemma of_char_digit: "d < 36 \<Longrightarrow> of_char (digit_char d) = (if d < 10 then 48 + d else 87 + d)"
  by (simp add: digit_char_def)

lemma digit_chars [simp]:
  "digit_char 0 = CHR ''0''" "digit_char (Suc 0) = CHR ''1''" "digit_char 1 = CHR ''1''" "digit_char 2 = CHR ''2''" "digit_char 3 = CHR ''3''" "digit_char 4 = CHR ''4''"
  "digit_char 5 = CHR ''5''" "digit_char 6 = CHR ''6''" "digit_char 7 = CHR ''7''" "digit_char 8 = CHR ''8''" "digit_char 9 = CHR ''9''"
  by (simp_all add: digit_char_def char_of_def bit_simps bit_numeral_rec)

fun nat_digits :: "nat \<Rightarrow> pystr" where
  "nat_digits n = (if n < 10 then [digit_char n] else nat_digits (n div 10) @ [digit_char (n mod 10)])"

declare nat_digits.simps [simp del]

definition py_str_int :: "int \<Rightarrow> pystr" where
  "py_str_int i = (if i < 0 then CHR ''-'' # nat_digits (nat (- i)) else nat_digits (nat i))"

text \<open>\<open>prev\<close> says whether the character before was a digit: an underscore must stand between digits.\<close>

fun parse_digits :: "nat \<Rightarrow> nat \<Rightarrow> bool \<Rightarrow> pystr \<Rightarrow> nat option" where
  "parse_digits base acc prev [] = (if prev then Some acc else None)"
| "parse_digits base acc prev (c # cs) =
     (if c = CHR ''_'' then (if prev then parse_digits base acc False cs else None)
      else case digit_val base c of
             None \<Rightarrow> None
           | Some d \<Rightarrow> parse_digits base (acc * base + d) True cs)"

definition parse_unsigned :: "nat \<Rightarrow> pystr \<Rightarrow> nat option" where
  "parse_unsigned base s =
     (if base = 16 \<and> (starts_with s ''0x'' \<or> starts_with s ''0X'')
      then (case drop 2 s of
              [] \<Rightarrow> None
            | c # cs \<Rightarrow> if c = CHR ''_'' then parse_digits base 0 False cs
                        else parse_digits base 0 False (c # cs))
      else parse_digits base 0 False s)"

definition py_int :: "nat \<Rightarrow> pystr \<Rightarrow> int option" where
  "py_int base s =
     (case strip s of
        [] \<Rightarrow> None
      | c # cs \<Rightarrow>
          if c = CHR ''-'' then map_option (\<lambda>n. - int n) (parse_unsigned base cs)
          else if c = CHR ''+'' then map_option int (parse_unsigned base cs)
          else map_option int (parse_unsigned base (c # cs)))"

subsection \<open>UUIDs\<close>

type_synonym uuid = "128 word"

fun hex_digits :: "nat \<Rightarrow> nat \<Rightarrow> nat list" where
  "hex_digits 0 n = []"
| "hex_digits (Suc k) n = hex_digits k (n div 16) @ [n mod 16]"

definition uuid_hex :: "uuid \<Rightarrow> pystr" where
  "uuid_hex u = map digit_char (hex_digits 32 (unat u))"

definition uuid_str :: "uuid \<Rightarrow> pystr" where
  "uuid_str u = (let h = uuid_hex u in
     take 8 h @ ''-'' @ take 4 (drop 8 h) @ ''-'' @ take 4 (drop 12 h) @ ''-''
       @ take 4 (drop 16 h) @ ''-'' @ drop 20 h)"

definition uuid_parse :: "pystr \<Rightarrow> uuid option" where
  "uuid_parse s =
     (let h = filter (\<lambda>c. c \<noteq> CHR ''-'')
                (strip_chars (\<lambda>c. c = CHR ''{'' \<or> c = CHR ''}'')
                  (remove_sub ''uuid:'' (remove_sub ''urn:'' s)))
      in if length h \<noteq> 32 then None
         else case py_int 16 h of
                None \<Rightarrow> None
              | Some i \<Rightarrow> if 0 \<le> i \<and> i < 2 ^ 128 then Some (of_int i) else None)"

subsection \<open>UTF-8\<close>

text \<open>
  \<open>s.encode("utf-8")\<close> and \<open>b.decode("utf-8")\<close>. Bytes are characters as well, read as their codes; bytes
  that are not UTF-8 are the \<open>UnicodeDecodeError\<close>, here \<open>None\<close>, and so are the sequences of three and
  four bytes, whose code points the model leaves out.
\<close>

type_synonym bytes = "char list"

definition utf8_char :: "char \<Rightarrow> bytes" where
  "utf8_char c = (let n = of_char c :: nat in
     if n < 128 then [c] else [char_of (192 + n div 64), char_of (128 + n mod 64)])"

definition utf8_encode :: "pystr \<Rightarrow> bytes" where
  "utf8_encode s = concat (map utf8_char s)"

fun utf8_decode :: "bytes \<Rightarrow> pystr option" where
  "utf8_decode [] = Some []"
| "utf8_decode (b # bs) = (let n = of_char b :: nat in
     if n < 128 then map_option (Cons b) (utf8_decode bs)
     else if n = 194 \<or> n = 195 then
       (case bs of [] \<Rightarrow> None
        | b' # bs' \<Rightarrow> let k = of_char b' :: nat in
            if 128 \<le> k \<and> k < 192 then map_option (Cons (char_of ((n - 192) * 64 + (k - 128)))) (utf8_decode bs')
            else None)
     else None)"

lemma utf8_decode_char: "utf8_decode (utf8_char c @ bs) = map_option (Cons c) (utf8_decode bs)"
proof (cases "of_char c < (128 :: nat)")
  case True
  then show ?thesis by (simp add: utf8_char_def Let_def)
next
  case False
  define n where "n = (of_char c :: nat)"
  have n: "128 \<le> n" "n < 256" "char_of n = c" using False by (simp_all add: n_def)
  then have d: "n div 64 = 2 \<or> n div 64 = 3" by auto
  have codes: "of_char (char_of (192 + n div 64) :: char) = 192 + n div 64"
    "of_char (char_of (128 + n mod 64) :: char) = 128 + n mod 64"
    using d by auto
  have "(192 + n div 64 - 192) * 64 + (128 + n mod 64 - 128) = n" by simp
  with d n show ?thesis
    by (simp add: utf8_char_def n_def [symmetric] Let_def codes)
qed

lemma utf8_round_trip [simp]: "utf8_decode (utf8_encode s) = Some s"
  by (induction s) (simp_all add: utf8_encode_def utf8_decode_char)

subsection \<open>Parsing what was printed\<close>

abbreviation horner :: "nat \<Rightarrow> nat \<Rightarrow> nat list \<Rightarrow> nat" where
  "horner base acc ds \<equiv> foldl (\<lambda>a d. a * base + d) acc ds"

lemma digit_char_no_sign:
  assumes "d < 36"
  shows "digit_char d \<noteq> CHR ''_''" "digit_char d \<noteq> CHR ''-''" "digit_char d \<noteq> CHR ''+''"
    "\<not> is_space (digit_char d)"
proof -
  have n: "of_char (digit_char d) = (if d < 10 then 48 + d else 87 + d)"
    using assms by (rule of_char_digit)
  then have "of_char (digit_char d) \<noteq> (of_char CHR ''_'' :: nat)"
    and "of_char (digit_char d) \<noteq> (of_char CHR ''-'' :: nat)"
    and "of_char (digit_char d) \<noteq> (of_char CHR ''+'' :: nat)"
    using assms by (auto split: if_splits)
  then show "digit_char d \<noteq> CHR ''_''" "digit_char d \<noteq> CHR ''-''" "digit_char d \<noteq> CHR ''+''"
    by metis+
  show "\<not> is_space (digit_char d)"
    using n assms by (auto simp: is_space_def Let_def split: if_splits)
qed

lemma parse_digits_digits:
  assumes "\<forall>d \<in> set ds. d < base" and "base \<le> 36"
  shows "parse_digits base acc prev (map digit_char ds) =
           (if ds = [] \<and> \<not> prev then None else Some (horner base acc ds))"
  using assms
proof (induction ds arbitrary: acc prev)
  case Nil
  then show ?case by simp
next
  case (Cons d ds)
  then have "d < base" "d < 36" by auto
  with Cons show ?case by (simp add: digit_char_no_sign)
qed

lemma strip_no_space:
  assumes "\<forall>c \<in> set s. \<not> P c"
  shows "strip_chars P s = s"
proof -
  have keep: "dropWhile P t = t" if "\<forall>c \<in> set t. \<not> P c" for t
    using that by (cases t) auto
  have "dropWhile P s = s" "dropWhile P (rev s) = rev s"
    using assms by (auto intro!: keep)
  then show ?thesis by (simp add: strip_chars_def rstrip_chars_def)
qed

lemma strip_as_strip_chars: "strip s = strip_chars is_space s"
  by (simp add: strip_def strip_chars_def lstrip_def)

lemma starts_with_digits_0x:
  assumes "\<forall>d \<in> set ds. d < 16"
  shows "\<not> starts_with (map digit_char ds) ''0x''" "\<not> starts_with (map digit_char ds) ''0X''"
proof -
  have "digit_char d \<noteq> CHR ''x'' \<and> digit_char d \<noteq> CHR ''X''" if "d < 16" for d
  proof -
    have "of_char (digit_char d) \<noteq> (of_char CHR ''x'' :: nat)"
      "of_char (digit_char d) \<noteq> (of_char CHR ''X'' :: nat)"
      using that of_char_digit [of d] by (auto split: if_splits)
    then show ?thesis by metis
  qed
  with assms show "\<not> starts_with (map digit_char ds) ''0x''"
    "\<not> starts_with (map digit_char ds) ''0X''"
    by (cases ds; cases "tl ds"; auto)+
qed

lemma py_int_digits:
  assumes "ds \<noteq> []" and "\<forall>d \<in> set ds. d < base" and "base = 10 \<or> base = 16"
  shows "py_int base (map digit_char ds) = Some (int (horner base 0 ds))"
proof -
  from assms obtain d es where ds: "ds = d # es" by (cases ds) auto
  have lt: "\<forall>d \<in> set ds. d < 36" using assms by auto
  then have nosp: "strip (map digit_char ds) = map digit_char ds"
    unfolding strip_as_strip_chars by (intro strip_no_space) (auto simp: digit_char_no_sign)
  have "\<not> (base = 16 \<and> (starts_with (map digit_char ds) ''0x'' \<or> starts_with (map digit_char ds) ''0X''))"
    using starts_with_digits_0x assms(2) by blast
  then have "parse_unsigned base (map digit_char ds) = Some (horner base 0 ds)"
    unfolding parse_unsigned_def using assms by (auto simp: parse_digits_digits)
  with nosp lt show ?thesis
    by (simp add: py_int_def ds digit_char_no_sign)
qed

lemma nat_digits_ex:
  "\<exists>ds. nat_digits n = map digit_char ds \<and> ds \<noteq> [] \<and> (\<forall>d \<in> set ds. d < 10) \<and> horner 10 0 ds = n"
proof (induction n rule: nat_digits.induct)
  case (1 n)
  show ?case
  proof (cases "n < 10")
    case True
    then show ?thesis by (intro exI [of _ "[n]"]) (simp add: nat_digits.simps [of n])
  next
    case False
    with 1 obtain ds where "nat_digits (n div 10) = map digit_char ds" "ds \<noteq> []"
      "\<forall>d \<in> set ds. d < 10" "horner 10 0 ds = n div 10" by auto
    with False show ?thesis
      by (intro exI [of _ "ds @ [n mod 10]"]) (auto simp: nat_digits.simps [of n])
  qed
qed

lemma py_int_str_int [simp]: "py_int 10 (py_str_int i) = Some i"
proof (cases "i < 0")
  case False
  obtain ds where ds: "nat_digits (nat i) = map digit_char ds" "ds \<noteq> []" "\<forall>d \<in> set ds. d < 10"
    "horner 10 0 ds = nat i" using nat_digits_ex by blast
  with False show ?thesis by (simp add: py_str_int_def py_int_digits)
next
  case True
  obtain ds where ds: "nat_digits (nat (- i)) = map digit_char ds" "ds \<noteq> []" "\<forall>d \<in> set ds. d < 10"
    "horner 10 0 ds = nat (- i)" using nat_digits_ex by blast
  have "\<not> is_space CHR ''-''" by (simp add: is_space_def)
  moreover have "\<not> is_space (digit_char d)" if "d \<in> set ds" for d
    using ds(3) that by (intro digit_char_no_sign) fastforce
  ultimately have "\<forall>c \<in> set (CHR ''-'' # map digit_char ds). \<not> is_space c" by auto
  then have "strip (CHR ''-'' # map digit_char ds) = CHR ''-'' # map digit_char ds"
    unfolding strip_as_strip_chars by (rule strip_no_space)
  moreover have "parse_unsigned 10 (map digit_char ds) = Some (nat (- i))"
    using ds by (simp add: parse_unsigned_def parse_digits_digits)
  ultimately show ?thesis using True ds by (simp add: py_str_int_def py_int_def)
qed

lemma py_str_int_inject [simp]: "py_str_int i = py_str_int j \<longleftrightarrow> i = j"
  using py_int_str_int by (metis option.inject)

lemma hex_digits_props:
  "length (hex_digits k n) = k" "\<forall>d \<in> set (hex_digits k n). d < 16"
  "horner 16 0 (hex_digits k n) = n mod 16 ^ k"
proof (induction k arbitrary: n)
  case 0
  { case 1 show ?case by simp
  next case 2 show ?case by simp
  next case 3 show ?case by simp }
next
  case (Suc k)
  { case 1 show ?case by (simp add: Suc)
  next case 2 show ?case using Suc(2) by auto
  next case 3 show ?case
      by (simp add: Suc mod_mult2_eq mult.commute) }
qed

lemma remove_sub_absent:
  assumes "p0 \<notin> set s"
  shows "remove_sub (p0 # ps) s = s"
  using assms by (induction "p0 # ps" s rule: remove_sub.induct) auto

lemma uuid_hex_props:
  "length (uuid_hex u) = 32" "c \<in> set (uuid_hex u) \<Longrightarrow> \<exists>d < 16. c = digit_char d"
  by (simp add: uuid_hex_def hex_digits_props(1))
    (use hex_digits_props(2) [of 32 "unat u"] in \<open>auto simp: uuid_hex_def\<close>)

lemma uuid_str_chars: "c \<in> set (uuid_str u) \<Longrightarrow> c = CHR ''-'' \<or> (\<exists>d < 16. c = digit_char d)"
  unfolding uuid_str_def Let_def
  by (auto dest!: in_set_takeD in_set_dropD uuid_hex_props(2))

lemma uuid_str_dashes: "filter (\<lambda>c. c \<noteq> CHR ''-'') (uuid_str u) = uuid_hex u"
proof -
  have nod: "filter (\<lambda>c. c \<noteq> CHR ''-'') xs = xs" if "set xs \<subseteq> set (uuid_hex u)" for xs
  proof (rule filter_True, rule ballI)
    fix c
    assume "c \<in> set xs"
    with that obtain d where "d < 16" "c = digit_char d" using uuid_hex_props(2) by blast
    then show "c \<noteq> CHR ''-''" using digit_char_no_sign(2) [of d] by simp
  qed
  have "take 8 h @ take 4 (drop 8 h) @ take 4 (drop 12 h) @ take 4 (drop 16 h) @ drop 20 h = h"
    for h :: pystr
  proof -
    have "take 4 (drop k h) @ drop (k + 4) h = drop k h" for k
      using append_take_drop_id [of 4 "drop k h"] by (simp add: add.commute)
    from this [of 8] this [of 12] this [of 16] show ?thesis by simp
  qed
  then show ?thesis
    unfolding uuid_str_def Let_def
    by (simp add: nod set_take_subset order.trans [OF set_take_subset set_drop_subset] set_drop_subset)
qed

lemma uuid_parse_str [simp]: "uuid_parse (uuid_str u) = Some u"
proof -
  have no: "c \<notin> set (uuid_str u)" if "c \<in> {CHR ''u'', CHR ''{'', CHR ''}''}" for c
  proof
    assume "c \<in> set (uuid_str u)"
    then obtain d where "c = CHR ''-'' \<or> (d < 16 \<and> c = digit_char d)"
      using uuid_str_chars by blast
    with that have "of_char (digit_char d) = (of_char c :: nat)" "d < 16" by auto
    with that show False using of_char_digit [of d] by (auto split: if_splits)
  qed
  have "remove_sub ''uuid:'' (remove_sub ''urn:'' (uuid_str u)) = uuid_str u"
    using no by (simp add: remove_sub_absent)
  moreover have "strip_chars (\<lambda>c. c = CHR ''{'' \<or> c = CHR ''}'') (uuid_str u) = uuid_str u"
    using no by (intro strip_no_space) auto
  moreover have "unat u < 16 ^ 32"
    using unsigned_less [of u] by simp
  then have "py_int 16 (uuid_hex u) = Some (int (unat u))"
    unfolding uuid_hex_def
    by (subst py_int_digits) (auto simp: hex_digits_props length_0_conv [symmetric] simp del: length_0_conv)
  moreover have "int (unat u) < 2 ^ 128"
    using unsigned_less [of u] by simp
  ultimately show ?thesis
    by (simp add: uuid_parse_def uuid_str_dashes uuid_hex_props(1))
qed

lemma uuid_str_inject [simp]: "uuid_str u = uuid_str v \<longleftrightarrow> u = v"
  using uuid_parse_str by (metis option.inject)

end
