(* ===== verification/Decimal.thy ===== *)
theory Decimal
  imports PyText Complex_Main
begin

section \<open>Decimal amounts\<close>

text \<open>
  Python's \<open>decimal.Decimal\<close>: a coefficient and a power of ten, so that \<open>0.5\<close> and \<open>0.50\<close> are
  equal amounts with different texts. Sums are exact: the program's context keeps 28 significant
  digits, and an amount with more of them is outside the model. \<open>dec_val\<close> is the amount as a
  rational number, the specification of the comparison and of the sum.
\<close>

datatype decimal = Dec (dec_coeff: int) (dec_exp: int)

definition dec_zero :: decimal where
  "dec_zero = Dec 0 0"

definition dec_val :: "decimal \<Rightarrow> rat" where
  "dec_val d = of_int (dec_coeff d) * 10 powi dec_exp d"

definition scaled :: "int \<Rightarrow> decimal \<Rightarrow> int" where
  "scaled m d = dec_coeff d * 10 ^ nat (dec_exp d - m)"

definition dec_add :: "decimal \<Rightarrow> decimal \<Rightarrow> decimal" where
  "dec_add a b = (let m = min (dec_exp a) (dec_exp b) in Dec (scaled m a + scaled m b) m)"

definition dec_less :: "decimal \<Rightarrow> decimal \<Rightarrow> bool" where
  "dec_less a b = (let m = min (dec_exp a) (dec_exp b) in scaled m a < scaled m b)"

definition dec_equal :: "decimal \<Rightarrow> decimal \<Rightarrow> bool" where
  "dec_equal a b = (\<not> dec_less a b \<and> \<not> dec_less b a)"

text \<open>\<open>sum(xs, Decimal("0"))\<close>\<close>

fun dec_sum :: "decimal \<Rightarrow> decimal list \<Rightarrow> decimal" where
  "dec_sum acc [] = acc"
| "dec_sum acc (d # ds) = dec_sum (dec_add acc d) ds"

text \<open>\<open>str(d)\<close>\<close>

definition dec_str :: "decimal \<Rightarrow> pystr" where
  "dec_str d =
     (let ds = nat_digits (nat \<bar>dec_coeff d\<bar>);
          sign = (if dec_coeff d < 0 then ''-'' else []);
          n = int (length ds);
          point = n + dec_exp d;
          adjusted = point - 1
      in sign @
        (if dec_exp d \<le> 0 \<and> - 6 \<le> adjusted then
           (if dec_exp d = 0 then ds
            else if 0 < point then take (nat point) ds @ ''.'' @ drop (nat point) ds
            else ''0.'' @ replicate (nat (- point)) CHR ''0'' @ ds)
         else
           (case ds of [] \<Rightarrow> [] | c # cs \<Rightarrow> c # (if cs = [] then [] else CHR ''.'' # cs))
             @ ''E'' @ (if 0 \<le> adjusted then ''+'' else []) @ py_str_int adjusted))"

lemma scaled_val:
  assumes "m \<le> dec_exp d"
  shows "of_int (scaled m d) * 10 powi m = dec_val d"
proof -
  have "(10::rat) powi dec_exp d = 10 powi (dec_exp d - m) * 10 powi m"
    by (simp add: power_int_add [symmetric])
  moreover have "(10::rat) powi (dec_exp d - m) = 10 ^ nat (dec_exp d - m)"
    using assms by (simp add: power_int_def)
  ultimately show ?thesis by (simp add: scaled_def dec_val_def)
qed

lemma dec_val_zero [simp]: "dec_val dec_zero = 0"
  by (simp add: dec_val_def dec_zero_def)

lemma dec_val_add [simp]: "dec_val (dec_add a b) = dec_val a + dec_val b"
proof -
  let ?m = "min (dec_exp a) (dec_exp b)"
  have "dec_val (dec_add a b) = of_int (scaled ?m a) * 10 powi ?m + of_int (scaled ?m b) * 10 powi ?m"
    by (simp add: dec_add_def dec_val_def Let_def distrib_right)
  then show ?thesis by (simp add: scaled_val)
qed

lemma dec_less_val [simp]: "dec_less a b \<longleftrightarrow> dec_val a < dec_val b"
proof -
  let ?m = "min (dec_exp a) (dec_exp b)"
  have pos: "(0::rat) < 10 powi ?m" by simp
  have "dec_val a < dec_val b
      \<longleftrightarrow> (of_int (scaled ?m a) :: rat) * 10 powi ?m < of_int (scaled ?m b) * 10 powi ?m"
    by (simp add: scaled_val)
  also have "\<dots> \<longleftrightarrow> scaled ?m a < scaled ?m b"
    using pos by (simp only: mult_less_cancel_right_pos of_int_less_iff)
  finally show ?thesis by (simp add: dec_less_def Let_def)
qed

lemma dec_equal_val: "dec_equal a b \<longleftrightarrow> dec_val a = dec_val b"
  by (auto simp: dec_equal_def)

lemma dec_val_sum: "dec_val (dec_sum acc ds) = dec_val acc + sum_list (map dec_val ds)"
  by (induction ds arbitrary: acc) (simp_all add: add.assoc)

end
