(* ===== verification/Json.thy ===== *)
theory Json
  imports Decimal "HOL-Library.AList"
begin

section \<open>JSON values and their canonical text\<close>

text \<open>
  The values of \<open>dict[str, Any]\<close> payloads and event data: \<open>null\<close>, booleans, integers, floats,
  strings, lists and objects. An object is the list of its items in insertion order, as a Python
  \<open>dict\<close> keeps them. A finite float is a rational number, the others are \<open>JSpecial\<close>. The text Python
  prints for a float, the float it reads from a text, and the hexadecimal SHA-256 digest of bytes
  and their HMAC are the platform's and parameters of the model.
\<close>

datatype special_float = SNaN | SPosInf | SNegInf

datatype json =
    JNull
  | JBool bool
  | JInt int
  | JFloat rat
  | JSpecial special_float
  | JStr pystr
  | JList "json list"
  | JObj "(pystr \<times> json) list"

type_synonym items = "(pystr \<times> json) list"

record platform =
  float_repr :: "rat \<Rightarrow> pystr"
  float_parse :: "pystr \<Rightarrow> rat"
  sha256_hex :: "bytes \<Rightarrow> pystr"
  hmac_sha256_hex :: "bytes \<Rightarrow> bytes \<Rightarrow> pystr"

subsection \<open>Objects as dictionaries\<close>

abbreviation dget :: "items \<Rightarrow> pystr \<Rightarrow> json option" where
  "dget d k \<equiv> map_of d k"

text \<open>\<open>d.get(k)\<close>: a missing key reads as \<open>None\<close>.\<close>

definition dget_none :: "items \<Rightarrow> pystr \<Rightarrow> json" where
  "dget_none d k = (case dget d k of None \<Rightarrow> JNull | Some v \<Rightarrow> v)"

text \<open>\<open>d.update(e)\<close>: the keys already present keep their place.\<close>

definition dupdate :: "items \<Rightarrow> items \<Rightarrow> items" where
  "dupdate d e = fold (\<lambda>(k, v) acc. AList.update k v acc) e d"

fun truthy :: "json \<Rightarrow> bool" where
  "truthy JNull = False"
| "truthy (JBool b) = b"
| "truthy (JInt i) = (i \<noteq> 0)"
| "truthy (JFloat q) = (q \<noteq> 0)"
| "truthy (JSpecial x) = True"
| "truthy (JStr s) = (s \<noteq> [])"
| "truthy (JList xs) = (xs \<noteq> [])"
| "truthy (JObj d) = (d \<noteq> [])"

lemma dupdate_get: "dget (dupdate d e) k = (case dget (rev e) k of None \<Rightarrow> dget d k | Some v \<Rightarrow> Some v)"
proof (induction e arbitrary: d)
  case Nil
  then show ?case by (simp add: dupdate_def)
next
  case (Cons p e)
  obtain k' v' where p: "p = (k', v')" by (cases p)
  from Cons [of "AList.update k' v' d"] show ?case
    by (auto simp: p dupdate_def update_conv map_add_Some_iff map_of_append split: option.splits)
qed

subsection \<open>Canonical text\<close>

definition hex2 :: "nat \<Rightarrow> pystr" where
  "hex2 n = [digit_char (n div 16 mod 16), digit_char (n mod 16)]"

definition escape_char :: "bool \<Rightarrow> char \<Rightarrow> pystr" where
  "escape_char ascii c =
     (if c = CHR 0x22 then [CHR 0x5C, CHR 0x22]
      else if c = CHR 0x5C then [CHR 0x5C, CHR 0x5C]
      else if c = CHR 0x0A then [CHR 0x5C, CHR ''n'']
      else if c = CHR 0x0D then [CHR 0x5C, CHR ''r'']
      else if c = CHR 0x09 then [CHR 0x5C, CHR ''t'']
      else if c = CHR 0x0C then [CHR 0x5C, CHR ''f'']
      else if c = CHR 0x08 then [CHR 0x5C, CHR ''b'']
      else if of_char c < (32 :: nat) \<or> ascii \<and> 127 \<le> (of_char c :: nat)
        then [CHR 0x5C, CHR ''u'', CHR ''0'', CHR ''0''] @ hex2 (of_char c)
      else [c])"

definition quote :: "bool \<Rightarrow> pystr \<Rightarrow> pystr" where
  "quote ascii s = [CHR 0x22] @ concat (map (escape_char ascii) s) @ [CHR 0x22]"

text \<open>\<open>repr(s)\<close>, as an f-string with \<open>!r\<close> prints it\<close>

definition repr_str :: "pystr \<Rightarrow> pystr" where
  "repr_str s = (let q = (if CHR 0x27 \<in> set s \<and> CHR 0x22 \<notin> set s then CHR 0x22 else CHR 0x27) in
     [q] @ concat (map (\<lambda>c.
        if c = q \<or> c = CHR 0x5C then [CHR 0x5C, c]
        else if c = CHR 0x0A then [CHR 0x5C, CHR ''n'']
        else if c = CHR 0x0D then [CHR 0x5C, CHR ''r'']
        else if c = CHR 0x09 then [CHR 0x5C, CHR ''t'']
        else if of_char c < (32 :: nat) \<or> 127 \<le> (of_char c :: nat) \<and> (of_char c :: nat) \<le> 160 \<or> c = CHR 0xAD
          then [CHR 0x5C, CHR ''x''] @ hex2 (of_char c)
        else [c]) s) @ [q])"

fun join :: "pystr \<Rightarrow> pystr list \<Rightarrow> pystr" where
  "join sep [] = []"
| "join sep [x] = x"
| "join sep (x # y # ys) = x @ sep @ join sep (y # ys)"

lemma size_json_member [termination_simp]: "(k, v) \<in> set d \<Longrightarrow> size v < Suc (size_list (size_prod (\<lambda>_. 0) size) d)"
  by (induction d) auto

text \<open>
  \<open>json.dumps(v, sort_keys=True, ...)\<close>: the members of an object in the order of their keys. The styles
  are those that the program asks for: canonical text (compact, not restricted to ASCII), the compact
  ASCII text sent to a service, the text with an indent of two, and the default one. The number is the
  nesting level.
\<close>

record json_style =
  js_ascii :: bool
  js_indent :: "nat option"
  js_item_separator :: pystr
  js_key_separator :: pystr

definition compact_style :: json_style where
  "compact_style = \<lparr>js_ascii = False, js_indent = None, js_item_separator = '','', js_key_separator = '':''\<rparr>"

definition wire_style :: json_style where
  "wire_style = \<lparr>js_ascii = True, js_indent = None, js_item_separator = '','', js_key_separator = '':''\<rparr>"

definition indent_style :: json_style where
  "indent_style = \<lparr>js_ascii = True, js_indent = Some 2, js_item_separator = '','', js_key_separator = '': ''\<rparr>"

definition default_style :: json_style where
  "default_style = \<lparr>js_ascii = True, js_indent = None, js_item_separator = '', '', js_key_separator = '': ''\<rparr>"

definition newline :: "json_style \<Rightarrow> nat \<Rightarrow> pystr" where
  "newline st level = (case js_indent st of None \<Rightarrow> [] | Some n \<Rightarrow> CHR 0x0A # replicate (n * level) CHR '' '')"

fun special_text :: "special_float \<Rightarrow> pystr" where
  "special_text SNaN = ''NaN''"
| "special_text SPosInf = ''Infinity''"
| "special_text SNegInf = ''-Infinity''"

definition enclosed :: "json_style \<Rightarrow> nat \<Rightarrow> pystr \<Rightarrow> pystr \<Rightarrow> pystr list \<Rightarrow> pystr" where
  "enclosed st level opening closing parts = (if parts = [] then opening @ closing
     else opening @ newline st (Suc level) @ join (js_item_separator st @ newline st (Suc level)) parts
       @ newline st level @ closing)"

function dump_json :: "json_style \<Rightarrow> (rat \<Rightarrow> pystr) \<Rightarrow> nat \<Rightarrow> json \<Rightarrow> pystr" where
  "dump_json st fr level JNull = ''null''"
| "dump_json st fr level (JBool b) = (if b then ''true'' else ''false'')"
| "dump_json st fr level (JInt i) = py_str_int i"
| "dump_json st fr level (JFloat q) = fr q"
| "dump_json st fr level (JSpecial x) = special_text x"
| "dump_json st fr level (JStr s) = quote (js_ascii st) s"
| "dump_json st fr level (JList xs) = enclosed st level ''['' '']'' (map (dump_json st fr (Suc level)) xs)"
| "dump_json st fr level (JObj d) = enclosed st level ''{'' ''}'' (map snd (sort_key fst
     (map (\<lambda>(k, v). (k, quote (js_ascii st) k @ js_key_separator st @ dump_json st fr (Suc level) v)) d)))"
  by pat_completeness auto
termination dump_json
  by (relation "measure (\<lambda>(st, fr, level, j). size j)") (auto simp: size_json_member less_Suc_eq_le size_list_estimation')

definition dumps :: "(rat \<Rightarrow> pystr) \<Rightarrow> json \<Rightarrow> pystr" where
  "dumps fr v = dump_json compact_style fr 0 v"

end
