(* ===== verification/JsonText.thy ===== *)
theory JsonText
  imports Json
begin

section \<open>Reading JSON\<close>

text \<open>
  \<open>json.loads(text)\<close>: a parser that returns a value and the rest of the text, or \<open>None\<close> for the
  \<open>JSONDecodeError\<close>. An object with a repeated key keeps the place of the first and the value of the
  last. Escapes of code points from 256 on are outside the model's characters and refused. The
  comparisons of lengths in the recursive calls are for the termination proof: the rest a parser
  returns is always shorter than its text. The round trip theorem reads back what
  \<open>json.dumps\<close> prints in each of the program's styles.
\<close>

definition is_json_ws :: "char \<Rightarrow> bool" where
  "is_json_ws c = (c = CHR '' '' \<or> c = CHR 0x09 \<or> c = CHR 0x0A \<or> c = CHR 0x0D)"

definition skip_ws :: "pystr \<Rightarrow> pystr" where
  "skip_ws s = dropWhile is_json_ws s"

lemma skip_ws_simps [simp]:
  "skip_ws [] = []" "skip_ws (c # s) = (if is_json_ws c then skip_ws s else c # s)"
  by (simp_all add: skip_ws_def)

lemma length_skip_ws: "length (skip_ws s) \<le> length s"
  by (simp add: skip_ws_def length_dropWhile_le)

lemma skip_ws_Cons_length: "skip_ws s = c # r \<Longrightarrow> length r < length s"
  using length_skip_ws [of s] by simp

lemma skip_ws_less: "length s < Suc n \<Longrightarrow> 2 * length (skip_ws s) < Suc (Suc (2 * n))"
  and skip_ws_less': "length s < Suc n \<Longrightarrow> 2 * length (skip_ws s) < Suc (Suc (Suc (2 * n)))"
  using length_skip_ws [of s] by simp_all

subsection \<open>Strings\<close>

definition hex4 :: "pystr \<Rightarrow> nat option" where
  "hex4 ds = (if length ds = 4 then
     (case map (digit_val 16) ds of
        [Some a, Some b, Some c, Some d] \<Rightarrow> Some (((a * 16 + b) * 16 + c) * 16 + d) | _ \<Rightarrow> None)
   else None)"

definition simple_escape :: "char \<Rightarrow> char option" where
  "simple_escape c =
     (if c = CHR 0x22 \<or> c = CHR 0x5C \<or> c = CHR ''/'' then Some c
      else if c = CHR ''b'' then Some (CHR 0x08) else if c = CHR ''f'' then Some (CHR 0x0C)
      else if c = CHR ''n'' then Some (CHR 0x0A) else if c = CHR ''r'' then Some (CHR 0x0D)
      else if c = CHR ''t'' then Some (CHR 0x09) else None)"

fun parse_string :: "pystr \<Rightarrow> (pystr \<times> pystr) option" where
  "parse_string [] = None"
| "parse_string (c # cs) =
     (if c = CHR 0x22 then Some ([], cs)
      else if c = CHR 0x5C then
        (case cs of [] \<Rightarrow> None
         | e # es \<Rightarrow>
             if e = CHR ''u'' then
               (case hex4 (take 4 es) of None \<Rightarrow> None
                | Some n \<Rightarrow> if n < 256 then map_option (map_prod (Cons (char_of n)) id) (parse_string (drop 4 es)) else None)
             else (case simple_escape e of None \<Rightarrow> None
                   | Some d \<Rightarrow> map_option (map_prod (Cons d) id) (parse_string es)))
      else if of_char c < (32 :: nat) then None
      else map_option (map_prod (Cons c) id) (parse_string cs))"

subsection \<open>Numbers\<close>

definition is_digit :: "char \<Rightarrow> bool" where
  "is_digit c = (digit_val 10 c \<noteq> None)"

definition integer_part :: "pystr \<Rightarrow> (pystr \<times> pystr) option" where
  "integer_part s = (case s of [] \<Rightarrow> None
     | c # cs \<Rightarrow> if c = CHR ''0'' then Some ([c], cs)
                 else if is_digit c then Some (c # takeWhile is_digit cs, dropWhile is_digit cs) else None)"

definition fraction_part :: "pystr \<Rightarrow> pystr \<times> pystr" where
  "fraction_part s = (case s of
     c # d # ds \<Rightarrow> if c = CHR ''.'' \<and> is_digit d then (c # d # takeWhile is_digit ds, dropWhile is_digit ds) else ([], s)
   | _ \<Rightarrow> ([], s))"

definition exponent_part :: "pystr \<Rightarrow> pystr \<times> pystr" where
  "exponent_part s = (case s of [] \<Rightarrow> ([], s)
   | c # cs \<Rightarrow> if c = CHR ''e'' \<or> c = CHR ''E'' then
       (let sign = takeWhile (\<lambda>x. x = CHR ''+'' \<or> x = CHR ''-'') (take 1 cs); rest = drop (length sign) cs;
            ds = takeWhile is_digit rest
        in if ds = [] then ([], s) else (c # sign @ ds, dropWhile is_digit rest))
     else ([], s))"

definition parse_number :: "(pystr \<Rightarrow> rat) \<Rightarrow> pystr \<Rightarrow> (json \<times> pystr) option" where
  "parse_number fp s =
     (let sign = (if starts_with s ''-'' then ''-'' else []) in
      case integer_part (drop (length sign) s) of None \<Rightarrow> None
      | Some (ip, r1) \<Rightarrow>
          (case fraction_part r1 of (fp_text, r2) \<Rightarrow>
           case exponent_part r2 of (ex, r3) \<Rightarrow>
             if fp_text = [] \<and> ex = [] then map_option (\<lambda>i. (JInt i, r3)) (py_int 10 (sign @ ip))
             else Some (JFloat (fp (sign @ ip @ fp_text @ ex)), r3)))"

definition parse_literal :: "(pystr \<Rightarrow> rat) \<Rightarrow> pystr \<Rightarrow> (json \<times> pystr) option" where
  "parse_literal fp s =
     (if starts_with s ''null'' then Some (JNull, drop 4 s)
      else if starts_with s ''true'' then Some (JBool True, drop 4 s)
      else if starts_with s ''false'' then Some (JBool False, drop 5 s)
      else if starts_with s ''NaN'' then Some (JSpecial SNaN, drop 3 s)
      else if starts_with s ''Infinity'' then Some (JSpecial SPosInf, drop 8 s)
      else if starts_with s ''-Infinity'' then Some (JSpecial SNegInf, drop 9 s)
      else parse_number fp s)"

subsection \<open>Values\<close>

function parse_value :: "(pystr \<Rightarrow> rat) \<Rightarrow> pystr \<Rightarrow> (json \<times> pystr) option"
  and parse_elements :: "(pystr \<Rightarrow> rat) \<Rightarrow> pystr \<Rightarrow> (json list \<times> pystr) option"
  and parse_members :: "(pystr \<Rightarrow> rat) \<Rightarrow> pystr \<Rightarrow> (items \<times> pystr) option" where
  "parse_value fp s = (case s of [] \<Rightarrow> None
     | c # cs \<Rightarrow>
         if c = CHR 0x22 then map_option (map_prod JStr id) (parse_string cs)
         else if c = CHR ''['' then
           (case skip_ws cs of [] \<Rightarrow> None
            | d # ds \<Rightarrow> if d = CHR '']'' then Some (JList [], ds)
                        else map_option (map_prod JList id) (parse_elements fp (skip_ws cs)))
         else if c = CHR ''{'' then
           (case skip_ws cs of [] \<Rightarrow> None
            | d # ds \<Rightarrow> if d = CHR ''}'' then Some (JObj [], ds)
                        else map_option (map_prod (\<lambda>ms. JObj (dupdate [] ms)) id) (parse_members fp (skip_ws cs)))
         else parse_literal fp s)"
| "parse_elements fp s = (case parse_value fp s of None \<Rightarrow> None
     | Some (v, r) \<Rightarrow>
         (case skip_ws r of [] \<Rightarrow> None
          | c # r' \<Rightarrow>
              if c = CHR '']'' then Some ([v], r')
              else if c = CHR '','' \<and> length r' < length s
                then map_option (map_prod (Cons v) id) (parse_elements fp (skip_ws r'))
              else None))"
| "parse_members fp s = (case s of [] \<Rightarrow> None
     | q # cs \<Rightarrow>
         if q \<noteq> CHR 0x22 then None
         else (case parse_string cs of None \<Rightarrow> None
          | Some (k, r) \<Rightarrow>
             (case skip_ws r of [] \<Rightarrow> None
              | c # r1 \<Rightarrow>
                  if c = CHR '':'' \<and> length r1 < length s
                  then (case parse_value fp (skip_ws r1) of None \<Rightarrow> None
                   | Some (v, r2) \<Rightarrow>
                      (case skip_ws r2 of [] \<Rightarrow> None
                       | e # r3 \<Rightarrow>
                          if e = CHR ''}'' then Some ([(k, v)], r3)
                          else if e = CHR '','' \<and> length r3 < length s
                            then map_option (map_prod (Cons (k, v)) id) (parse_members fp (skip_ws r3))
                          else None))
                  else None)))"
  by pat_completeness auto
termination parse_value
  by (relation "measure (case_sum (\<lambda>(fp, s). 2 * length s)
        (case_sum (\<lambda>(fp, s). 2 * length s + 1) (\<lambda>(fp, s). 2 * length s + 1)))")
     (auto dest: skip_ws_Cons_length intro: skip_ws_less skip_ws_less' le_less_trans [OF length_skip_ws])

declare parse_value.simps [simp del] parse_elements.simps [simp del] parse_members.simps [simp del]

definition loads :: "(pystr \<Rightarrow> rat) \<Rightarrow> pystr \<Rightarrow> json option" where
  "loads fp s = (case parse_value fp (skip_ws s) of
     Some (v, r) \<Rightarrow> if skip_ws r = [] then Some v else None | None \<Rightarrow> None)"

subsection \<open>Reading back a string\<close>

lemma hex2_digits: "n < 256 \<Longrightarrow> map (digit_val 16) (hex2 n) = [Some (n div 16), Some (n mod 16)]"
  by (simp add: hex2_def)

lemma hex4_hex2: "n < 256 \<Longrightarrow> hex4 ([CHR ''0'', CHR ''0''] @ hex2 n) = Some n"
proof -
  assume n: "n < 256"
  have z: "digit_val 16 (CHR ''0'') = Some 0" using digit_val_char [of 0 16] by simp
  have "length (hex2 n) = 2" by (simp add: hex2_def)
  with hex2_digits [OF n] z show ?thesis by (simp add: hex4_def)
qed

lemma parse_string_escape:
  "parse_string (escape_char ascii c @ rest) = map_option (map_prod (Cons c) id) (parse_string rest)"
proof (cases "escape_char ascii c = [c]")
  case True
  then have "c \<noteq> CHR 0x22" "c \<noteq> CHR 0x5C" "\<not> of_char c < (32 :: nat)"
    by (auto simp: escape_char_def split: if_splits)
  with True show ?thesis by simp
next
  case False
  show ?thesis
  proof (cases "escape_char ascii c = [CHR 0x5C, CHR ''u'', CHR ''0'', CHR ''0''] @ hex2 (of_char c)")
    case True
    have l: "length (hex2 (of_char c)) = 2" by (simp add: hex2_def)
    then have "take 4 ([CHR ''0'', CHR ''0''] @ hex2 (of_char c) @ rest) = [CHR ''0'', CHR ''0''] @ hex2 (of_char c)"
      "drop 4 ([CHR ''0'', CHR ''0''] @ hex2 (of_char c) @ rest) = rest" by simp_all
    moreover have "hex4 ([CHR ''0'', CHR ''0''] @ hex2 (of_char c)) = Some (of_char c)"
      by (rule hex4_hex2) simp
    ultimately show ?thesis by (simp add: True)
  next
    case 2: False
    from False 2 show ?thesis
      by (auto simp: escape_char_def simple_escape_def split: if_splits)
  qed
qed

lemma parse_string_quote: "parse_string (concat (map (escape_char ascii) s) @ CHR 0x22 # rest) = Some (s, rest)"
  by (induction s) (simp_all add: parse_string_escape)

subsection \<open>Reading back a number\<close>

text \<open>\<open>number_end\<close>: the text after a number does not go on with it.\<close>

definition number_end :: "pystr \<Rightarrow> bool" where
  "number_end r \<longleftrightarrow> (case r of [] \<Rightarrow> True
     | c # _ \<Rightarrow> \<not> is_digit c \<and> c \<noteq> CHR ''.'' \<and> c \<noteq> CHR ''e'' \<and> c \<noteq> CHR ''E'')"

lemma is_digit_char: "d < 10 \<Longrightarrow> is_digit (digit_char d)"
  by (simp add: is_digit_def)

lemma number_end_parts: "number_end r \<Longrightarrow> fraction_part r = ([], r)" "number_end r \<Longrightarrow> exponent_part r = ([], r)"
  "number_end r \<Longrightarrow> takeWhile is_digit r = []" "number_end r \<Longrightarrow> dropWhile is_digit r = r"
  by (auto simp: number_end_def fraction_part_def exponent_part_def split: list.splits)

lemmas digits_0 = digit_chars(1)

lemma digit_char_inj: "digit_char d = digit_char e \<Longrightarrow> d < 10 \<Longrightarrow> e < 10 \<Longrightarrow> d = e"
  by (drule arg_cong [of _ _ "digit_val 10"]) (simp only: digit_val_char option.inject)

text \<open>A numeral without leading zero is read as an integer part.\<close>

lemma nat_digits_head: "\<exists>d ds. nat_digits n = digit_char d # ds \<and> d < 10 \<and> (d = 0 \<longrightarrow> ds = [])
    \<and> (\<forall>c \<in> set (nat_digits n). is_digit c)"
proof (induction n rule: nat_digits.induct)
  case (1 n)
  show ?case
  proof (cases "n < 10")
    case True
    then show ?thesis by (auto simp: nat_digits.simps [of n] is_digit_char)
  next
    case False
    with 1 obtain d ds where IH: "nat_digits (n div 10) = digit_char d # ds" "d < 10" "d = 0 \<longrightarrow> ds = []"
      "\<forall>c \<in> set (nat_digits (n div 10)). is_digit c" by blast
    have "d \<noteq> 0"
    proof
      assume d: "d = 0"
      obtain es where es: "nat_digits (n div 10) = map digit_char es" "\<forall>x \<in> set es. x < 10" "horner 10 0 es = n div 10"
        using nat_digits_ex by blast
      then obtain e where "es = [e]" "digit_char e = digit_char 0" "e < 10"
        using IH(1,3) d by (cases es) auto
      with es(3) digit_char_inj [of e 0] False show False by simp
    qed
    with IH False show ?thesis
      by (intro exI [of _ d] exI [of _ "ds @ [digit_char (n mod 10)]"]) (simp add: nat_digits.simps [of n] is_digit_char)
  qed
qed

lemma integer_part_digits: "number_end r \<Longrightarrow> integer_part (nat_digits n @ r) = Some (nat_digits n, r)"
proof -
  assume r: "number_end r"
  obtain d ds where h: "nat_digits n = digit_char d # ds" "d < 10" "d = 0 \<longrightarrow> ds = []"
    "\<forall>c \<in> set (nat_digits n). is_digit c" using nat_digits_head by blast
  then have ds: "\<forall>c \<in> set ds. is_digit c" by simp
  show ?thesis
  proof (cases "d = 0")
    case True
    with h digits_0 show ?thesis by (simp add: integer_part_def)
  next
    case False
    then have "digit_char d \<noteq> CHR ''0''" using digit_char_inj [of d 0] h(2) digits_0 by auto
    with h ds r show ?thesis
      by (simp add: integer_part_def is_digit_char number_end_parts takeWhile_append2 dropWhile_append2)
  qed
qed

lemma digit_no_prefix:
  assumes "is_digit c"
  shows "c \<noteq> CHR ''n''" "c \<noteq> CHR ''t''" "c \<noteq> CHR ''f''" "c \<noteq> CHR ''N''" "c \<noteq> CHR ''I''" "c \<noteq> CHR ''-''"
    "c \<noteq> CHR 0x22" "c \<noteq> CHR ''[''" "c \<noteq> CHR ''{''" "\<not> is_json_ws c" "c \<noteq> CHR '']''" "c \<noteq> CHR ''}''"
  using assms by (auto simp: is_digit_def digit_val_def is_json_ws_def)

lemma parse_number_int:
  assumes r: "number_end r"
  shows "parse_number fp (py_str_int i @ r) = Some (JInt i, r)"
proof -
  let ?n = "nat \<bar>i\<bar>"
  obtain d ds where h: "nat_digits ?n = digit_char d # ds" "d < 10" using nat_digits_head by blast
  note ip = integer_part_digits [OF r, of ?n]
  have shown: "py_str_int i = (if i < 0 then ''-'' else []) @ nat_digits ?n" by (simp add: py_str_int_def)
  have start: "\<not> starts_with (nat_digits ?n @ r) ''-''"
    using digit_no_prefix [OF is_digit_char [OF h(2)]] by (simp add: h(1))
  show ?thesis
  proof (cases "i < 0")
    case True
    with ip r shown show ?thesis
      using py_int_str_int [of i] by (simp add: parse_number_def number_end_parts)
  next
    case False
    with ip r shown start show ?thesis
      using py_int_str_int [of i] by (simp add: parse_number_def number_end_parts)
  qed
qed

subsection \<open>Reading back a value\<close>

definition float_reads :: "(rat \<Rightarrow> pystr) \<Rightarrow> (pystr \<Rightarrow> rat) \<Rightarrow> rat \<Rightarrow> bool" where
  "float_reads fr fp q \<longleftrightarrow> (\<exists>c s. fr q = c # s \<and> (c = CHR ''-'' \<or> is_digit c))
     \<and> (\<forall>r. number_end r \<longrightarrow> parse_literal fp (fr q @ r) = Some (JFloat q, r))"

fun printable :: "(rat \<Rightarrow> pystr) \<Rightarrow> (pystr \<Rightarrow> rat) \<Rightarrow> json \<Rightarrow> bool" where
  "printable fr fp (JFloat q) = float_reads fr fp q"
| "printable fr fp (JList xs) = (\<forall>x \<in> set xs. printable fr fp x)"
| "printable fr fp (JObj d) = (distinct (map fst d) \<and> (\<forall>(k, v) \<in> set d. printable fr fp v))"
| "printable fr fp _ = True"

text \<open>The value with the members of every object in the order of their keys.\<close>

fun canon :: "json \<Rightarrow> json" where
  "canon (JList xs) = JList (map canon xs)"
| "canon (JObj d) = JObj (sort_key fst (map (\<lambda>(k, v). (k, canon v)) d))"
| "canon v = v"

definition style_ok :: "json_style \<Rightarrow> bool" where
  "style_ok st \<longleftrightarrow> (\<exists>w. js_item_separator st = CHR '','' # w \<and> (\<forall>c \<in> set w. is_json_ws c))
     \<and> (\<exists>w. js_key_separator st = CHR '':'' # w \<and> (\<forall>c \<in> set w. is_json_ws c))"

lemma styles_ok [simp]: "style_ok compact_style" "style_ok wire_style" "style_ok indent_style" "style_ok default_style"
  by (simp_all add: style_ok_def compact_style_def wire_style_def indent_style_def default_style_def is_json_ws_def)

definition reads :: "(pystr \<Rightarrow> rat) \<Rightarrow> pystr \<Rightarrow> json \<Rightarrow> bool" where
  "reads fp t v \<longleftrightarrow> (\<exists>c s. t = c # s \<and> \<not> is_json_ws c \<and> c \<noteq> CHR '']'')
     \<and> (\<forall>r. number_end r \<longrightarrow> parse_value fp (t @ r) = Some (v, r))"

lemma skip_ws_append: "\<forall>c \<in> set w. is_json_ws c \<Longrightarrow> skip_ws (w @ s) = skip_ws s"
  by (simp add: skip_ws_def dropWhile_append2)

lemma newline_ws: "\<forall>c \<in> set (newline st l). is_json_ws c"
  by (auto simp: newline_def is_json_ws_def split: option.splits)

lemma reads_skip: "reads fp t v \<Longrightarrow> skip_ws (t @ r) = t @ r"
  by (auto simp: reads_def)

lemma number_end_ws: "\<forall>c \<in> set w. is_json_ws c \<Longrightarrow> number_end r \<Longrightarrow> number_end (w @ r)"
proof -
  have "is_json_ws c \<Longrightarrow> number_end (c # s)" for c s
    by (auto simp: is_json_ws_def number_end_def is_digit_def digit_val_def)
  then show "\<forall>c \<in> set w. is_json_ws c \<Longrightarrow> number_end r \<Longrightarrow> number_end (w @ r)" by (cases w) auto
qed

lemma number_end_punct [simp]: "number_end (CHR '','' # r)" "number_end (CHR '']'' # r)" "number_end (CHR ''}'' # r)" "number_end []"
  by (simp_all add: number_end_def is_digit_def digit_val_def)

lemma sort_key_map_value:
  "sort_key fst (map (\<lambda>(k, v). (k, g k v)) d) = map (\<lambda>(k, v). (k, g k v)) (sort_key fst d)"
proof -
  have ins: "insort_key fst (k, g k v) (map (\<lambda>(k, v). (k, g k v)) ys) = map (\<lambda>(k, v). (k, g k v)) (insort_key fst (k, v) ys)" for k v ys
    by (induction ys) auto
  show ?thesis by (induction d) (auto simp: ins)
qed

lemma dupdate_new: "distinct (map fst (d @ e)) \<Longrightarrow> dupdate d e = d @ e"
proof (induction e arbitrary: d)
  case Nil
  then show ?case by (simp add: dupdate_def)
next
  case (Cons p e)
  obtain k v where p: "p = (k, v)" by (cases p)
  have new: "k \<notin> fst ` set d \<Longrightarrow> AList.update k v d = d @ [(k, v)]" for d :: items
    by (induction d) auto
  from Cons.prems p have "k \<notin> fst ` set d" "distinct (map fst ((d @ [(k, v)]) @ e))" by auto
  with Cons.IH [of "d @ [(k, v)]"] new [of d] show ?case by (simp add: p dupdate_def)
qed

lemma parse_elements_join:
  assumes "\<forall>c \<in> set w. is_json_ws c" "\<forall>c \<in> set w'. is_json_ws c" "xs \<noteq> []" "\<forall>x \<in> set xs. reads fp (t x) (g x)"
  shows "parse_elements fp (join (CHR '','' # w) (map t xs) @ w' @ CHR '']'' # r) = Some (map g xs, r)"
  using assms(3,4)
proof (induction xs rule: induct_list012)
  case (2 x)
  then have "parse_value fp (t x @ w' @ CHR '']'' # r) = Some (g x, w' @ CHR '']'' # r)"
    using number_end_ws [OF assms(2)] by (simp add: reads_def)
  then show ?case
    by (subst parse_elements.simps) (simp add: skip_ws_append [OF assms(2)] is_json_ws_def)
next
  case (3 x y zs)
  let ?rest = "join (CHR '','' # w) (map t (y # zs)) @ w' @ CHR '']'' # r"
  have "parse_value fp (t x @ CHR '','' # w @ ?rest) = Some (g x, CHR '','' # w @ ?rest)"
    using 3 by (simp add: reads_def)
  moreover have "skip_ws (w @ ?rest) = ?rest"
  proof -
    obtain s where "?rest = t y @ s" by (cases zs) auto
    moreover have "skip_ws (t y @ s) = t y @ s" using 3(4) reads_skip [of fp "t y" "g y"] by simp
    ultimately show ?thesis by (simp only: skip_ws_append [OF assms(1)])
  qed
  ultimately show ?case using 3
    by (subst parse_elements.simps) (simp add: is_json_ws_def)
qed simp

lemma parse_members_join:
  assumes "\<forall>c \<in> set w. is_json_ws c" "\<forall>c \<in> set w'. is_json_ws c" "\<forall>c \<in> set wk. is_json_ws c"
    and "ms \<noteq> []" "\<forall>(k, v) \<in> set ms. reads fp (t k v) (g k v)"
  shows "parse_members fp (join (CHR '','' # w) (map (\<lambda>(k, v). quote b k @ CHR '':'' # wk @ t k v) ms) @ w' @ CHR ''}'' # r) =
    Some (map (\<lambda>(k, v). (k, g k v)) ms, r)"
  using assms(4,5)
proof (induction ms rule: induct_list012)
  case (2 m)
  obtain k v where m: "m = (k, v)" by (cases m)
  have rd: "reads fp (t k v) (g k v)" using 2 m by simp
  have "parse_value fp (t k v @ w' @ CHR ''}'' # r) = Some (g k v, w' @ CHR ''}'' # r)"
    using rd number_end_ws [OF assms(2)] by (simp add: reads_def)
  then show ?case
    by (subst parse_members.simps)
       (simp add: m quote_def parse_string_quote skip_ws_append [OF assms(2)] skip_ws_append [OF assms(3)]
         reads_skip [OF rd] is_json_ws_def)
next
  case (3 m n zs)
  obtain k v where m: "m = (k, v)" by (cases m)
  have rd: "reads fp (t k v) (g k v)" using 3 m by simp
  let ?rest = "join (CHR '','' # w) (map (\<lambda>(k, v). quote b k @ CHR '':'' # wk @ t k v) (n # zs)) @ w' @ CHR ''}'' # r"
  have "parse_value fp (t k v @ CHR '','' # w @ ?rest) = Some (g k v, CHR '','' # w @ ?rest)"
    using rd by (simp add: reads_def)
  moreover have "skip_ws (w @ ?rest) = ?rest"
    unfolding skip_ws_append [OF assms(1)] by (cases n; cases zs) (simp_all add: quote_def is_json_ws_def)
  ultimately show ?case using 3
    by (subst parse_members.simps)
       (simp add: m quote_def parse_string_quote skip_ws_append [OF assms(3)] reads_skip [OF rd] is_json_ws_def)
qed simp

lemma reads_enclosed_list:
  assumes "style_ok st" "\<forall>x \<in> set xs. reads fp (t x) (g x)"
  shows "reads fp (enclosed st l ''['' '']'' (map t xs)) (JList (map g xs))"
proof (cases "xs = []")
  case True
  then show ?thesis by (simp add: enclosed_def reads_def is_json_ws_def parse_value.simps)
next
  case False
  obtain w where w: "js_item_separator st = CHR '','' # w" "\<forall>c \<in> set w. is_json_ws c"
    using assms(1) by (auto simp: style_ok_def)
  have ws: "\<forall>c \<in> set (w @ newline st (Suc l)). is_json_ws c" using w newline_ws by auto
  note pe = parse_elements_join [OF ws newline_ws [of st l] False assms(2)]
  obtain c s where first: "join (CHR '','' # w @ newline st (Suc l)) (map t xs) = c # s" "\<not> is_json_ws c" "c \<noteq> CHR '']''"
    using False assms(2) by (cases xs; cases "tl xs") (auto simp: reads_def)
  have "parse_value fp (enclosed st l ''['' '']'' (map t xs) @ r) = Some (JList (map g xs), r)" for r
    using pe [of r] False first
    by (subst parse_value.simps) (simp add: enclosed_def w skip_ws_append [OF newline_ws])
  then show ?thesis by (simp add: reads_def enclosed_def False is_json_ws_def)
qed

lemma reads_enclosed_object:
  assumes "style_ok st" "\<forall>(k, v) \<in> set ms. reads fp (t k v) (g k v)" "distinct (map fst ms)"
  shows "reads fp (enclosed st l ''{'' ''}'' (map (\<lambda>(k, v). quote b k @ js_key_separator st @ t k v) ms))
    (JObj (map (\<lambda>(k, v). (k, g k v)) ms))"
proof (cases "ms = []")
  case True
  then show ?thesis by (simp add: enclosed_def reads_def is_json_ws_def parse_value.simps)
next
  case False
  obtain w wk where w: "js_item_separator st = CHR '','' # w" "\<forall>c \<in> set w. is_json_ws c"
    "js_key_separator st = CHR '':'' # wk" "\<forall>c \<in> set wk. is_json_ws c"
    using assms(1) by (auto simp: style_ok_def)
  have ws: "\<forall>c \<in> set (w @ newline st (Suc l)). is_json_ws c" using w newline_ws by auto
  note pe = parse_members_join [OF ws newline_ws [of st l] w(4) False assms(2)]
  obtain s where first: "join (CHR '','' # w @ newline st (Suc l))
      (map (\<lambda>(k, v). quote b k @ CHR '':'' # wk @ t k v) ms) = CHR 0x22 # s"
    using False by (cases ms; cases "tl ms") (auto simp: quote_def)
  have keys: "map fst (map (\<lambda>(k, v). (k, g k v)) ms) = map fst ms" by (induction ms) auto
  have "dupdate [] (map (\<lambda>(k, v). (k, g k v)) ms) = map (\<lambda>(k, v). (k, g k v)) ms"
    using assms(3) dupdate_new [of "[]" "map (\<lambda>(k, v). (k, g k v)) ms"] by (simp only: keys append_Nil)
  then have "parse_value fp (enclosed st l ''{'' ''}'' (map (\<lambda>(k, v). quote b k @ js_key_separator st @ t k v) ms) @ r) =
      Some (JObj (map (\<lambda>(k, v). (k, g k v)) ms), r)" for r
    using pe [of b r] False first
    by (subst parse_value.simps) (simp add: enclosed_def w skip_ws_append [OF newline_ws] is_json_ws_def)
  then show ?thesis by (simp add: reads_def enclosed_def False is_json_ws_def)
qed

lemma parse_value_literal: "c \<noteq> CHR 0x22 \<Longrightarrow> c \<noteq> CHR ''['' \<Longrightarrow> c \<noteq> CHR ''{'' \<Longrightarrow>
    parse_value fp (c # s) = parse_literal fp (c # s)"
  by (simp add: parse_value.simps)

lemma reads_literal:
  assumes "t = c # s" "c \<noteq> CHR 0x22" "c \<noteq> CHR ''[''" "c \<noteq> CHR ''{''" "\<not> is_json_ws c" "c \<noteq> CHR '']''"
    and "\<And>r. number_end r \<Longrightarrow> parse_literal fp (t @ r) = Some (v, r)"
  shows "reads fp t v"
  using assms by (simp add: reads_def parse_value_literal)

lemma reads_int: "reads fp (py_str_int i) (JInt i)"
proof -
  obtain d ds where h: "nat_digits (nat \<bar>i\<bar>) = digit_char d # ds" "d < 10" using nat_digits_head by blast
  then have dig: "is_digit (digit_char d)" by (simp add: is_digit_char)
  have shown: "py_str_int i = (if i < 0 then ''-'' else []) @ nat_digits (nat \<bar>i\<bar>)" by (simp add: py_str_int_def)
  have "parse_literal fp (py_str_int i @ r) = parse_number fp (py_str_int i @ r)" for r
    using h digit_no_prefix [OF dig] by (simp add: shown parse_literal_def)
  then have "parse_literal fp (py_str_int i @ r) = Some (JInt i, r)" if "number_end r" for r
    using parse_number_int [OF that] by simp
  with h digit_no_prefix [OF dig] show ?thesis
    by (intro reads_literal [of _ "hd (py_str_int i)" "tl (py_str_int i)"]) (auto simp: shown is_json_ws_def)
qed

lemma reads_words: "reads fp ''null'' JNull" "reads fp ''true'' (JBool True)" "reads fp ''false'' (JBool False)"
  "reads fp ''NaN'' (JSpecial SNaN)" "reads fp ''Infinity'' (JSpecial SPosInf)" "reads fp ''-Infinity'' (JSpecial SNegInf)"
  by (simp_all add: reads_def parse_value_literal parse_literal_def is_json_ws_def)

lemma reads_string: "reads fp (quote b s) (JStr s)"
  by (simp add: reads_def quote_def parse_value.simps parse_string_quote is_json_ws_def)

lemma reads_float:
  assumes "float_reads fr fp q"
  shows "reads fp (fr q) (JFloat q)"
proof -
  obtain c s where fr: "fr q = c # s" and c: "c = CHR ''-'' \<or> is_digit c"
    using assms unfolding float_reads_def by blast
  have start: "c \<noteq> CHR 0x22 \<and> c \<noteq> CHR ''['' \<and> c \<noteq> CHR ''{'' \<and> \<not> is_json_ws c \<and> c \<noteq> CHR '']''"
    using c
  proof
    assume "c = CHR ''-''"
    then show ?thesis by (simp add: is_json_ws_def)
  next
    assume "is_digit c"
    from digit_no_prefix [OF this] show ?thesis by (intro conjI)
  qed
  show ?thesis
  proof (rule reads_literal [OF fr])
    fix r
    assume "number_end r"
    then show "parse_literal fp (fr q @ r) = Some (JFloat q, r)"
      using assms unfolding float_reads_def by blast
  qed (use start in blast)+
qed

lemma dump_reads:
  assumes "style_ok st" "printable fr fp v"
  shows "reads fp (dump_json st fr l v) (canon v)"
  using assms
proof (induction st fr l v rule: dump_json.induct)
  case (4 st fr level q)
  then show ?case by (simp add: reads_float)
next
  case (5 st fr level x)
  then show ?case by (cases x) (simp_all add: reads_words)
next
  case (7 st fr level xs)
  then have "\<forall>x \<in> set xs. reads fp (dump_json st fr (Suc level) x) (canon x)" by simp
  from reads_enclosed_list [OF 7(2) this] show ?case by (simp add: comp_def)
next
  case (8 st fr level d)
  let ?t = "\<lambda>k v. dump_json st fr (Suc level) v"
  let ?ms = "sort_key fst d"
  have "map snd (sort_key fst (map (\<lambda>(k, v). (k, quote (js_ascii st) k @ js_key_separator st @ ?t k v)) d))
      = map (\<lambda>(k, v). quote (js_ascii st) k @ js_key_separator st @ ?t k v) ?ms"
    unfolding sort_key_map_value by auto
  moreover have "sort_key fst (map (\<lambda>(k, v). (k, canon v)) d) = map (\<lambda>(k, v). (k, canon v)) ?ms"
    by (rule sort_key_map_value)
  moreover have "\<forall>(k, v) \<in> set ?ms. reads fp (?t k v) (canon v)" using 8 by auto
  moreover have "distinct (map fst ?ms)" using 8 by (simp add: distinct_map)
  ultimately show ?case
    using reads_enclosed_object [OF 8(2), of ?ms fp ?t "\<lambda>k. canon" level "js_ascii st"] by simp
qed (simp_all add: reads_words reads_int reads_string)

lemma loads_dump: "style_ok st \<Longrightarrow> printable fr fp v \<Longrightarrow> loads fp (dump_json st fr l v) = Some (canon v)"
proof -
  assume "style_ok st" "printable fr fp v"
  then have r: "reads fp (dump_json st fr l v) (canon v)" by (rule dump_reads)
  then have "parse_value fp (dump_json st fr l v @ []) = Some (canon v, [])"
    unfolding reads_def using number_end_punct(4) by blast
  then show ?thesis using reads_skip [OF r, of "[]"] by (simp add: loads_def)
qed

lemma dump_canon: "dump_json st fr l (canon v) = dump_json st fr l v"
proof (induction st fr l v rule: dump_json.induct)
  case (7 st fr level xs)
  then have "map (dump_json st fr (Suc level)) (map canon xs) = map (dump_json st fr (Suc level)) xs" by simp
  then show ?case by (simp only: canon.simps dump_json.simps)
next
  case (8 st fr level d)
  let ?part = "\<lambda>k v. quote (js_ascii st) k @ js_key_separator st @ dump_json st fr (Suc level) v"
  let ?ms = "sort_key fst d"
  have same: "map (\<lambda>(k, v). ?part k (canon v)) ?ms = map (\<lambda>(k, v). ?part k v) ?ms"
    using 8 by auto
  have keys: "map fst (map (\<lambda>(k, v). (k, canon v)) ?ms) = map fst ?ms" by auto
  have "sorted (map fst (map (\<lambda>(k, v). (k, canon v)) ?ms))" unfolding keys by simp
  then have "sort_key fst (map (\<lambda>(k, v). (k, canon v)) ?ms) = map (\<lambda>(k, v). (k, canon v)) ?ms"
    by (rule sort_key_id_if_sorted)
  then have "map snd (sort_key fst (map (\<lambda>(k, v). (k, ?part k v)) (map (\<lambda>(k, v). (k, canon v)) ?ms)))
      = map (\<lambda>(k, v). ?part k (canon v)) ?ms"
    unfolding sort_key_map_value by (simp add: case_prod_unfold)
  also have "\<dots> = map snd (sort_key fst (map (\<lambda>(k, v). (k, ?part k v)) d))"
    unfolding sort_key_map_value same by (simp add: case_prod_unfold)
  finally show ?case unfolding canon.simps dump_json.simps sort_key_map_value by simp
qed simp_all

lemma dump_eq_iff:
  assumes "style_ok st" "printable fr fp v" "printable fr fp u"
  shows "dump_json st fr l v = dump_json st fr l u \<longleftrightarrow> canon v = canon u"
  using loads_dump [OF assms(1,2), of l] loads_dump [OF assms(1,3), of l] dump_canon [of st fr l v] dump_canon [of st fr l u]
  by (metis option.inject)

end
