(* ===== verification/Program.thy ===== *)
theory Program
  imports JsonText
begin

section \<open>Programs with exceptions and state\<close>

text \<open>
  A Python function that reads and changes a state of type \<open>'s\<close> is a value of
  \<open>('s, 'a) prog\<close>: it takes the state and gives the exception or the result, and the state it
  leaves. \<open>returnM\<close>, \<open>bindM\<close> and \<open>raiseM\<close> are sequencing and \<open>raise\<close>, \<open>try_exceptM\<close> is
  \<open>try ... except\<close> with a handler that may decline, and \<open>forM\<close> is a \<open>for\<close> loop without result.
  Exceptions are values of \<open>exc\<close>, one constructor per exception class the program raises, catches
  or lets through, with the parts that the program reads.
\<close>

datatype exc =
    ValueError pystr
  | TypeError pystr
  | KeyError pystr
  | AssertionError
  | OSError pystr
  | BuiltinTimeoutError
  | JobTimedOutError
  | JobCancelledError
  | TransientRunnerError
  | PolicyValidationError
  | EvalLabPayloadError pystr
  | GdevAgentPayloadError pystr
  | BudgetPolicyError pystr decimal decimal
  | ProviderCallBlockedError pystr decimal decimal
  | LiveBudgetRequiredError pystr decimal decimal
  | BudgetExceededError pystr decimal decimal
  | IdempotencyConflictError pystr
  | ArtifactIntegrityError pystr
  | MultipleResultsFound
  | IntegrityError pystr
  | DataError pystr
  | RedisResponseError pystr
  | RedisOtherError pystr
  | RuntimeError pystr
  | AttributeError pystr
  | JSONDecodeError
  | UnicodeDecodeError
  | HTTPException int pystr
  | UnsafeDatabaseResetError pystr
  | EvidenceVerificationError pystr
  | SmokeValidationError "pystr list"
  | ReliabilityProofValidationError "pystr list"
  | FullStackProofError pystr
  | FailureReportValidationError "pystr list"
  | CostRollupViolation pystr
  | FileNotFoundError pystr
  | OverflowError pystr
  | Exit int

text \<open>\<open>type(exc).__name__\<close>\<close>

fun class_name :: "exc \<Rightarrow> pystr" where
  "class_name (ValueError _) = ''ValueError''"
| "class_name (TypeError _) = ''TypeError''"
| "class_name (KeyError _) = ''KeyError''"
| "class_name AssertionError = ''AssertionError''"
| "class_name (OSError _) = ''OSError''"
| "class_name BuiltinTimeoutError = ''TimeoutError''"
| "class_name JobTimedOutError = ''JobTimedOutError''"
| "class_name JobCancelledError = ''JobCancelledError''"
| "class_name TransientRunnerError = ''TransientRunnerError''"
| "class_name PolicyValidationError = ''PolicyValidationError''"
| "class_name (EvalLabPayloadError _) = ''EvalLabPayloadError''"
| "class_name (GdevAgentPayloadError _) = ''GdevAgentPayloadError''"
| "class_name (BudgetPolicyError _ _ _) = ''BudgetPolicyError''"
| "class_name (ProviderCallBlockedError _ _ _) = ''ProviderCallBlockedError''"
| "class_name (LiveBudgetRequiredError _ _ _) = ''LiveBudgetRequiredError''"
| "class_name (BudgetExceededError _ _ _) = ''BudgetExceededError''"
| "class_name (IdempotencyConflictError _) = ''IdempotencyConflictError''"
| "class_name (ArtifactIntegrityError _) = ''ArtifactIntegrityError''"
| "class_name MultipleResultsFound = ''MultipleResultsFound''"
| "class_name (IntegrityError _) = ''IntegrityError''"
| "class_name (DataError _) = ''DataError''"
| "class_name (RedisResponseError _) = ''ResponseError''"
| "class_name (RedisOtherError _) = ''RedisError''"
| "class_name (RuntimeError _) = ''RuntimeError''"
| "class_name (AttributeError _) = ''AttributeError''"
| "class_name JSONDecodeError = ''JSONDecodeError''"
| "class_name UnicodeDecodeError = ''UnicodeDecodeError''"
| "class_name (HTTPException _ _) = ''HTTPException''"
| "class_name (UnsafeDatabaseResetError _) = ''UnsafeDatabaseResetError''"
| "class_name (EvidenceVerificationError _) = ''EvidenceVerificationError''"
| "class_name (SmokeValidationError _) = ''SmokeValidationError''"
| "class_name (ReliabilityProofValidationError _) = ''ReliabilityProofValidationError''"
| "class_name (FullStackProofError _) = ''FullStackProofError''"
| "class_name (FailureReportValidationError _) = ''FailureReportValidationError''"
| "class_name (CostRollupViolation _) = ''CostRollupViolation''"
| "class_name (FileNotFoundError _) = ''FileNotFoundError''"
| "class_name (OverflowError _) = ''OverflowError''"
| "class_name (Exit _) = ''Exit''"

text \<open>The subclasses of \<open>BudgetPolicyError\<close> (with their reason and amounts) and of \<open>RedisError\<close>.\<close>

fun budget_error :: "exc \<Rightarrow> (pystr \<times> decimal \<times> decimal) option" where
  "budget_error (BudgetPolicyError r a l) = Some (r, a, l)"
| "budget_error (ProviderCallBlockedError r a l) = Some (r, a, l)"
| "budget_error (LiveBudgetRequiredError r a l) = Some (r, a, l)"
| "budget_error (BudgetExceededError r a l) = Some (r, a, l)"
| "budget_error _ = None"

fun is_redis_error :: "exc \<Rightarrow> bool" where
  "is_redis_error (RedisResponseError _) = True"
| "is_redis_error (RedisOtherError _) = True"
| "is_redis_error _ = False"

text \<open>\<open>ValueError\<close> and its subclasses\<close>

fun is_value_error :: "exc \<Rightarrow> bool" where
  "is_value_error (ValueError _) = True"
| "is_value_error PolicyValidationError = True"
| "is_value_error (EvalLabPayloadError _) = True"
| "is_value_error (GdevAgentPayloadError _) = True"
| "is_value_error (IdempotencyConflictError _) = True"
| "is_value_error JSONDecodeError = True"
| "is_value_error UnicodeDecodeError = True"
| "is_value_error _ = False"

subsection \<open>Combinators\<close>

type_synonym ('s, 'a) prog = "'s \<Rightarrow> (exc + 'a) \<times> 's"

definition returnM :: "'a \<Rightarrow> ('s, 'a) prog" where
  "returnM a = (\<lambda>s. (Inr a, s))"

definition raiseM :: "exc \<Rightarrow> ('s, 'a) prog" where
  "raiseM e = (\<lambda>s. (Inl e, s))"

definition bindM :: "('s, 'a) prog \<Rightarrow> ('a \<Rightarrow> ('s, 'b) prog) \<Rightarrow> ('s, 'b) prog" where
  "bindM m f = (\<lambda>s. case m s of (Inl e, s') \<Rightarrow> (Inl e, s') | (Inr a, s') \<Rightarrow> f a s')"

definition thenM :: "('s, 'a) prog \<Rightarrow> ('s, 'b) prog \<Rightarrow> ('s, 'b) prog" where
  "thenM m n = bindM m (\<lambda>_. n)"

definition getM :: "('s \<Rightarrow> 'a) \<Rightarrow> ('s, 'a) prog" where
  "getM f = (\<lambda>s. (Inr (f s), s))"

definition modifyM :: "('s \<Rightarrow> 's) \<Rightarrow> ('s, unit) prog" where
  "modifyM f = (\<lambda>s. (Inr (), f s))"

definition liftM :: "exc + 'a \<Rightarrow> ('s, 'a) prog" where
  "liftM r = (\<lambda>s. (r, s))"

definition try_exceptM :: "('s, 'a) prog \<Rightarrow> (exc \<Rightarrow> ('s, 'a) prog option) \<Rightarrow> ('s, 'a) prog" where
  "try_exceptM m h = (\<lambda>s. case m s of
      (Inr a, s') \<Rightarrow> (Inr a, s')
    | (Inl e, s') \<Rightarrow> (case h e of None \<Rightarrow> (Inl e, s') | Some n \<Rightarrow> n s'))"

text \<open>\<open>try: m finally: n\<close>; an exception of \<open>n\<close> replaces that of \<open>m\<close>.\<close>

definition finallyM :: "('s, 'a) prog \<Rightarrow> ('s, unit) prog \<Rightarrow> ('s, 'a) prog" where
  "finallyM m n = (\<lambda>s. case m s of (r, s') \<Rightarrow>
     (case n s' of (Inl e, s'') \<Rightarrow> (Inl e, s'') | (Inr _, s'') \<Rightarrow> (r, s'')))"

definition whenM :: "bool \<Rightarrow> ('s, unit) prog \<Rightarrow> ('s, unit) prog" where
  "whenM b m = (if b then m else returnM ())"

fun forM :: "'a list \<Rightarrow> ('a \<Rightarrow> ('s, unit) prog) \<Rightarrow> ('s, unit) prog" where
  "forM [] f = returnM ()"
| "forM (x # xs) f = thenM (f x) (forM xs f)"

fun mapM :: "('a \<Rightarrow> ('s, 'b) prog) \<Rightarrow> 'a list \<Rightarrow> ('s, 'b list) prog" where
  "mapM f [] = returnM []"
| "mapM f (x # xs) = bindM (f x) (\<lambda>y. bindM (mapM f xs) (\<lambda>ys. returnM (y # ys)))"

text \<open>Running a program on a part of the state.\<close>

definition onM :: "('w \<Rightarrow> 's) \<Rightarrow> (('s \<Rightarrow> 's) \<Rightarrow> 'w \<Rightarrow> 'w) \<Rightarrow> ('s, 'a) prog \<Rightarrow> ('w, 'a) prog" where
  "onM get upd m = (\<lambda>w. case m (get w) of (r, s) \<Rightarrow> (r, upd (\<lambda>_. s) w))"

lemma prog_eqs [prog_simps, simp]:
  "returnM a s = (Inr a, s)"
  "raiseM e s = (Inl e, s)"
  "getM f s = (Inr (f s), s)"
  "modifyM g s = (Inr (), g s)"
  "liftM r s = (r, s)"
  by (simp_all add: returnM_def raiseM_def getM_def modifyM_def liftM_def)

lemma bindM_eq [prog_simps]: "bindM m f s = (case m s of (Inl e, s') \<Rightarrow> (Inl e, s') | (Inr a, s') \<Rightarrow> f a s')"
  by (simp add: bindM_def)

lemma bindM_Inr: "m s = (Inr a, s') \<Longrightarrow> bindM m f s = f a s'"
  and bindM_Inl: "m s = (Inl e, s') \<Longrightarrow> bindM m f s = (Inl e, s')"
  by (simp_all add: bindM_def)

lemma bindM_simple [simp]:
  "bindM (returnM a) f = f a"
  "bindM (raiseM e) f = raiseM e"
  "bindM (getM g) f s = f (g s) s"
  "bindM (liftM (Inr a)) f = f a"
  "bindM (liftM (Inl e)) f = raiseM e"
  by (simp_all add: bindM_def fun_eq_iff)

lemma bindM_modify [simp]: "bindM (modifyM h) f s = f () (h s)"
  by (simp add: bindM_def)

lemma bindM_assoc: "bindM (bindM m f) g = bindM m (\<lambda>a. bindM (f a) g)"
  by (simp add: bindM_def fun_eq_iff split: prod.splits sum.splits)

lemma bindM_return [simp]: "bindM m returnM = m"
  by (simp add: bindM_def fun_eq_iff split: prod.splits sum.splits)

lemma thenM_eq [prog_simps]: "thenM m n s = (case m s of (Inl e, s') \<Rightarrow> (Inl e, s') | (Inr a, s') \<Rightarrow> n s')"
  by (simp add: thenM_def bindM_def)

lemma thenM_simple [simp]:
  "thenM (returnM a) n = n"
  "thenM (raiseM e) n = raiseM e"
  "thenM (modifyM h) n s = n (h s)"
  by (simp_all add: thenM_def)

lemma bindM_InrE:
  assumes "bindM m f s = (Inr b, s'')"
  obtains a s' where "m s = (Inr a, s')" "f a s' = (Inr b, s'')"
  using assms by (auto simp: bindM_def split: prod.splits sum.splits)

lemma thenM_InrE:
  assumes "thenM m n s = (Inr b, s'')"
  obtains a s' where "m s = (Inr a, s')" "n s' = (Inr b, s'')"
  using assms by (auto simp: thenM_def elim: bindM_InrE)

lemma onM_InrE:
  assumes "onM g u m w = (Inr b, w')"
  obtains s' where "m (g w) = (Inr b, s')" "w' = u (\<lambda>_. s') w"
  using assms by (auto simp: onM_def split: prod.splits)

lemma bindM_onM_InrE:
  assumes "bindM (onM g u m) f w = (Inr b, w')"
  obtains a s' where "m (g w) = (Inr a, s')" "f a (u (\<lambda>_. s') w) = (Inr b, w')"
  using assms by (auto elim!: bindM_InrE onM_InrE)

lemma thenM_onM_InrE:
  assumes "thenM (onM g u m) n w = (Inr b, w')"
  obtains a s' where "m (g w) = (Inr a, s')" "n (u (\<lambda>_. s') w) = (Inr b, w')"
  using assms by (auto elim!: thenM_InrE onM_InrE)

lemma whenM_simps [simp]: "whenM True m = m" "whenM False m = returnM ()"
  by (simp_all add: whenM_def)

lemma try_exceptM_Inr: "m s = (Inr a, s') \<Longrightarrow> try_exceptM m h s = (Inr a, s')"
  and try_exceptM_Inl: "m s = (Inl e, s') \<Longrightarrow>
     try_exceptM m h s = (case h e of None \<Rightarrow> (Inl e, s') | Some n \<Rightarrow> n s')"
  by (simp_all add: try_exceptM_def)

subsection \<open>Preservation\<close>

text \<open>
  \<open>keeps I m\<close>: the program keeps the property \<open>I\<close> of its state, whether it returns or raises. The
  rules follow the combinators, so that an operation keeps an invariant when its parts do.
\<close>

definition keeps :: "('s \<Rightarrow> bool) \<Rightarrow> ('s, 'a) prog \<Rightarrow> bool" where
  "keeps I m \<longleftrightarrow> (\<forall>s. I s \<longrightarrow> I (snd (m s)))"

lemma keepsI: "(\<And>s. I s \<Longrightarrow> I (snd (m s))) \<Longrightarrow> keeps I m"
  by (simp add: keeps_def)

lemma keepsD: "keeps I m \<Longrightarrow> I s \<Longrightarrow> m s = (r, s') \<Longrightarrow> I s'"
  by (auto simp: keeps_def dest!: spec [of _ s])

lemma keeps_snd: "keeps I m \<Longrightarrow> I s \<Longrightarrow> I (snd (m s))"
  by (simp add: keeps_def)

lemma keeps_return [keep_intros]: "keeps I (returnM a)"
  and keeps_raise [keep_intros]: "keeps I (raiseM e)"
  and keeps_get [keep_intros]: "keeps I (getM f)"
  and keeps_lift [keep_intros]: "keeps I (liftM r)"
  by (simp_all add: keeps_def)

lemma keeps_bind [keep_intros]: "keeps I m \<Longrightarrow> (\<And>a. keeps I (f a)) \<Longrightarrow> keeps I (bindM m f)"
  by (rule keepsI) (auto simp: bindM_def split: prod.splits sum.splits dest: keepsD intro: keeps_snd)

lemma keeps_then [keep_intros]: "keeps I m \<Longrightarrow> keeps I n \<Longrightarrow> keeps I (thenM m n)"
  by (simp add: thenM_def keeps_bind)

lemma keeps_when [keep_intros]: "(b \<Longrightarrow> keeps I m) \<Longrightarrow> keeps I (whenM b m)"
  by (cases b) (simp_all add: keeps_return)

lemma keeps_try [keep_intros]:
  "keeps I m \<Longrightarrow> (\<And>e n. h e = Some n \<Longrightarrow> keeps I n) \<Longrightarrow> keeps I (try_exceptM m h)"
  by (rule keepsI) (auto simp: try_exceptM_def split: prod.splits sum.splits option.splits dest: keepsD intro: keeps_snd)

lemma keeps_finally [keep_intros]: "keeps I m \<Longrightarrow> keeps I n \<Longrightarrow> keeps I (finallyM m n)"
  by (rule keepsI) (auto simp: finallyM_def split: prod.splits sum.splits dest: keepsD intro: keeps_snd)

lemma keeps_for [keep_intros]: "(\<And>x. x \<in> set xs \<Longrightarrow> keeps I (f x)) \<Longrightarrow> keeps I (forM xs f)"
  by (induction xs) (auto intro: keep_intros)

lemma keeps_map [keep_intros]: "(\<And>x. x \<in> set xs \<Longrightarrow> keeps I (f x)) \<Longrightarrow> keeps I (mapM f xs)"
  by (induction xs) (auto intro!: keeps_bind keeps_return)

lemma keeps_if [keep_intros]: "(b \<Longrightarrow> keeps I m) \<Longrightarrow> (\<not> b \<Longrightarrow> keeps I n) \<Longrightarrow> keeps I (if b then m else n)"
  by simp

lemma keeps_option [keep_intros]:
  "(x = None \<Longrightarrow> keeps I m) \<Longrightarrow> (\<And>a. x = Some a \<Longrightarrow> keeps I (f a)) \<Longrightarrow>
     keeps I (case x of None \<Rightarrow> m | Some a \<Rightarrow> f a)"
  by (cases x) simp_all

end
