(* ===== verification/RedisStreams.thy ===== *)
theory RedisStreams
  imports Program
begin

section \<open>Messages and the Redis client\<close>

text \<open>
  \<open>queue/types.py\<close> and \<open>queue/redis_streams.py\<close>. Redis is not part of the repository: the client is a
  record of its commands, each a program over an opaque state of the server, and everything the
  queue does is written over it. The locale \<open>redis_streams\<close> states the documented behaviour of the
  commands in terms of a view of the server (the entries of each stream and, for each consumer
  group, the entries it has not delivered and those delivered and not acknowledged). A command that
  raises may have had its effect or not: the connection may be lost on either way.
\<close>

subsection \<open>Messages\<close>

type_synonym fields = "(pystr \<times> pystr) list"

record queue_job_message =
  qm_job_id :: pystr
  qm_run_id :: pystr
  qm_attempt_number :: int
  qm_trace_id :: pystr
  qm_entry_id :: "pystr option"

definition to_stream_fields :: "queue_job_message \<Rightarrow> fields" where
  "to_stream_fields m = [(''job_id'', qm_job_id m), (''run_id'', qm_run_id m),
     (''attempt_number'', py_str_int (qm_attempt_number m)), (''trace_id'', qm_trace_id m)]"

record dead_letter_message =
  dl_job_id :: pystr
  dl_run_id :: pystr
  dl_attempt_number :: int
  dl_trace_id :: pystr
  dl_final_error_class :: pystr
  dl_attempt_count :: int
  dl_entry_id :: "pystr option"

text \<open>\<open>fields[name]\<close> and \<open>int(text)\<close>\<close>

definition field :: "fields \<Rightarrow> pystr \<Rightarrow> exc + pystr" where
  "field fs name = (case map_of fs name of None \<Rightarrow> Inl (KeyError name) | Some v \<Rightarrow> Inr v)"

definition int_of_text :: "pystr \<Rightarrow> exc + int" where
  "int_of_text t = (case py_int 10 t of None \<Rightarrow> Inl (ValueError (''invalid literal for int() with base 10: '' @ repr_str t))
                    | Some i \<Rightarrow> Inr i)"

definition queue_message_from_stream_entry :: "pystr \<Rightarrow> fields \<Rightarrow> exc + queue_job_message" where
  "queue_message_from_stream_entry entry_id fs =
     (case field fs ''job_id'' of Inl e \<Rightarrow> Inl e | Inr j \<Rightarrow>
      case field fs ''run_id'' of Inl e \<Rightarrow> Inl e | Inr r \<Rightarrow>
      case field fs ''attempt_number'' of Inl e \<Rightarrow> Inl e | Inr a \<Rightarrow>
      case int_of_text a of Inl e \<Rightarrow> Inl e | Inr n \<Rightarrow>
      case field fs ''trace_id'' of Inl e \<Rightarrow> Inl e | Inr t \<Rightarrow>
        Inr \<lparr>qm_job_id = j, qm_run_id = r, qm_attempt_number = n, qm_trace_id = t, qm_entry_id = Some entry_id\<rparr>)"

lemma message_round_trip [simp]:
  "queue_message_from_stream_entry i (to_stream_fields m) = Inr (m\<lparr>qm_entry_id := Some i\<rparr>)"
  by (simp add: queue_message_from_stream_entry_def to_stream_fields_def field_def int_of_text_def)

lemma message_entry: "queue_message_from_stream_entry i fs = Inr m \<Longrightarrow> qm_entry_id m = Some i"
  by (auto simp: queue_message_from_stream_entry_def split: sum.splits)

lemma message_job_field: "queue_message_from_stream_entry i fs = Inr m \<Longrightarrow> map_of fs ''job_id'' = Some (qm_job_id m)"
  by (auto simp: queue_message_from_stream_entry_def field_def split: sum.splits option.splits)

subsection \<open>The client\<close>

record pending_info =
  pi_message_id :: pystr
  pi_consumer :: pystr
  pi_time_since_delivered :: int
  pi_times_delivered :: int

record 's redis_client =
  xgroup_create :: "pystr \<Rightarrow> pystr \<Rightarrow> pystr \<Rightarrow> bool \<Rightarrow> ('s, unit) prog"
  xadd :: "pystr \<Rightarrow> fields \<Rightarrow> ('s, pystr) prog"
  xreadgroup :: "pystr \<Rightarrow> pystr \<Rightarrow> pystr \<Rightarrow> pystr \<Rightarrow> int \<Rightarrow> int \<Rightarrow> ('s, (pystr \<times> (pystr \<times> fields) list) list) prog"
  xpending_range :: "pystr \<Rightarrow> pystr \<Rightarrow> pystr \<Rightarrow> pystr \<Rightarrow> int \<Rightarrow> int \<Rightarrow> ('s, pending_info list) prog"
  xrange :: "pystr \<Rightarrow> pystr \<Rightarrow> pystr \<Rightarrow> ('s, (pystr \<times> fields) list) prog"
  xclaim :: "pystr \<Rightarrow> pystr \<Rightarrow> pystr \<Rightarrow> int \<Rightarrow> pystr list \<Rightarrow> bool \<Rightarrow> ('s, pystr list) prog"
  xack :: "pystr \<Rightarrow> pystr \<Rightarrow> pystr \<Rightarrow> ('s, int) prog"

text \<open>\<open>RedisStreamsQueue\<close>: the names it was built with and its methods.\<close>

record queue_config =
  stream_name :: pystr
  consumer_group :: pystr
  dlq_stream_name :: pystr

definition default_queue_config :: queue_config where
  "default_queue_config = \<lparr>stream_name = ''jobs'', consumer_group = ''workers'', dlq_stream_name = ''jobs:dlq''\<rparr>"

record stale_lease =
  sl_message :: queue_job_message
  sl_consumer_name :: pystr
  sl_idle_ms :: int
  sl_delivery_count :: int

definition busygroup_handler :: "exc \<Rightarrow> ('s, unit) prog option" where
  "busygroup_handler e = (case e of
     RedisResponseError text \<Rightarrow> Some (if \<not> contains text ''BUSYGROUP'' then raiseM e else returnM ())
   | _ \<Rightarrow> None)"

definition ensure_consumer_group :: "'s redis_client \<Rightarrow> queue_config \<Rightarrow> ('s, unit) prog" where
  "ensure_consumer_group rc cfg =
     try_exceptM (xgroup_create rc (stream_name cfg) (consumer_group cfg) ''0-0'' True) busygroup_handler"

definition publish_job :: "'s redis_client \<Rightarrow> queue_config \<Rightarrow> queue_job_message \<Rightarrow> ('s, pystr) prog" where
  "publish_job rc cfg message = xadd rc (stream_name cfg) (to_stream_fields message)"

definition lease_jobs ::
    "'s redis_client \<Rightarrow> queue_config \<Rightarrow> pystr \<Rightarrow> int \<Rightarrow> int \<Rightarrow> ('s, queue_job_message list) prog" where
  "lease_jobs rc cfg consumer_name count block_ms =
     thenM (ensure_consumer_group rc cfg)
     (bindM (xreadgroup rc (consumer_group cfg) consumer_name (stream_name cfg) ''>'' count block_ms)
       (\<lambda>response. mapM (\<lambda>(entry_id, fs). liftM (queue_message_from_stream_entry entry_id fs))
          (concat (map snd response))))"

definition stale_lease_of :: "'s redis_client \<Rightarrow> queue_config \<Rightarrow> pending_info \<Rightarrow> ('s, stale_lease option) prog" where
  "stale_lease_of rc cfg pending =
     bindM (xrange rc (stream_name cfg) (pi_message_id pending) (pi_message_id pending)) (\<lambda>stream_entries.
       case stream_entries of
         [] \<Rightarrow> returnM None
       | (_, fs) # _ \<Rightarrow> bindM (liftM (queue_message_from_stream_entry (pi_message_id pending) fs)) (\<lambda>m.
           returnM (Some \<lparr>sl_message = m, sl_consumer_name = pi_consumer pending,
             sl_idle_ms = pi_time_since_delivered pending, sl_delivery_count = pi_times_delivered pending\<rparr>)))"

definition find_stale_leases :: "'s redis_client \<Rightarrow> queue_config \<Rightarrow> int \<Rightarrow> int \<Rightarrow> ('s, stale_lease list) prog" where
  "find_stale_leases rc cfg stale_after_ms count =
     thenM (ensure_consumer_group rc cfg)
     (bindM (xpending_range rc (stream_name cfg) (consumer_group cfg) ''-'' ''+'' count stale_after_ms)
       (\<lambda>pending_entries. bindM (mapM (stale_lease_of rc cfg) pending_entries)
          (\<lambda>found. returnM (map the (filter (\<lambda>x. x \<noteq> None) found)))))"

definition renew_pending_lease :: "'s redis_client \<Rightarrow> queue_config \<Rightarrow> pystr \<Rightarrow> pystr \<Rightarrow> ('s, bool) prog" where
  "renew_pending_lease rc cfg entry_id consumer_name =
     thenM (ensure_consumer_group rc cfg)
     (bindM (xclaim rc (stream_name cfg) (consumer_group cfg) consumer_name 0 [entry_id] True)
       (\<lambda>renewed_entry_ids. returnM (entry_id \<in> set renewed_entry_ids)))"

definition acknowledge :: "'s redis_client \<Rightarrow> queue_config \<Rightarrow> pystr \<Rightarrow> ('s, int) prog" where
  "acknowledge rc cfg entry_id = xack rc (stream_name cfg) (consumer_group cfg) entry_id"

definition dead_letter_fields :: "dead_letter_message \<Rightarrow> fields" where
  "dead_letter_fields d = [(''job_id'', dl_job_id d), (''run_id'', dl_run_id d),
     (''attempt_number'', py_str_int (dl_attempt_number d)), (''trace_id'', dl_trace_id d),
     (''final_error_class'', dl_final_error_class d), (''attempt_count'', py_str_int (dl_attempt_count d))]"

definition dead_letter :: "queue_job_message \<Rightarrow> pystr \<Rightarrow> int \<Rightarrow> dead_letter_message" where
  "dead_letter m final_error_class attempt_count = \<lparr>dl_job_id = qm_job_id m, dl_run_id = qm_run_id m,
     dl_attempt_number = qm_attempt_number m, dl_trace_id = qm_trace_id m,
     dl_final_error_class = final_error_class, dl_attempt_count = attempt_count, dl_entry_id = qm_entry_id m\<rparr>"

definition move_to_dead_letter ::
    "'s redis_client \<Rightarrow> queue_config \<Rightarrow> queue_job_message \<Rightarrow> pystr \<Rightarrow> int \<Rightarrow> ('s, pystr) prog" where
  "move_to_dead_letter rc cfg message final_error_class attempt_count =
     bindM (xadd rc (dlq_stream_name cfg) (dead_letter_fields (dead_letter message final_error_class attempt_count)))
       (\<lambda>dlq_entry_id. case qm_entry_id message of
          None \<Rightarrow> returnM dlq_entry_id
        | Some i \<Rightarrow> thenM (acknowledge rc cfg i) (returnM dlq_entry_id))"

end
