(* ===== verification/JobQueue.thy ===== *)
theory JobQueue
  imports RedisStreams
begin

section \<open>The job queue as an interface\<close>

text \<open>
  The worker, the recovery and the submitters are handed a queue object. \<open>queue_api\<close> holds its
  methods, \<open>redis_queue\<close> is the object that \<open>RedisStreamsQueue\<close> makes, and the locale \<open>job_queue\<close>
  is what its callers rely on: a queue shows the entries that wait for delivery, the leases (entries
  delivered and not acknowledged) and the dead letters, and each method moves entries between them
  in the stated way, even when it raises.
\<close>

record 's queue_api =
  q_publish_job :: "queue_job_message \<Rightarrow> ('s, pystr) prog"
  q_lease_jobs :: "pystr \<Rightarrow> int \<Rightarrow> int \<Rightarrow> ('s, queue_job_message list) prog"
  q_find_stale_leases :: "int \<Rightarrow> int \<Rightarrow> ('s, stale_lease list) prog"
  q_renew_pending_lease :: "pystr \<Rightarrow> pystr \<Rightarrow> ('s, bool) prog"
  q_acknowledge :: "pystr \<Rightarrow> ('s, int) prog"
  q_move_to_dead_letter :: "queue_job_message \<Rightarrow> pystr \<Rightarrow> int \<Rightarrow> ('s, pystr) prog"

definition redis_queue :: "'s redis_client \<Rightarrow> queue_config \<Rightarrow> 's queue_api" where
  "redis_queue rc cfg = \<lparr>q_publish_job = publish_job rc cfg, q_lease_jobs = lease_jobs rc cfg,
     q_find_stale_leases = find_stale_leases rc cfg, q_renew_pending_lease = renew_pending_lease rc cfg,
     q_acknowledge = acknowledge rc cfg, q_move_to_dead_letter = move_to_dead_letter rc cfg\<rparr>"

subsection \<open>What a queue shows\<close>

record queue_view =
  qv_fields :: "pystr \<Rightarrow> fields option"
  qv_waiting :: "pystr list"
  qv_leased :: "pending_info list"
  qv_dead :: "fields list"

definition published :: "queue_job_message \<Rightarrow> pystr \<Rightarrow> queue_view \<Rightarrow> queue_view \<Rightarrow> bool" where
  "published m i v v' \<longleftrightarrow> qv_fields v i = None \<and>
     v' = v\<lparr>qv_fields := (qv_fields v)(i \<mapsto> to_stream_fields m), qv_waiting := qv_waiting v @ [i]\<rparr>"

definition age :: "int \<Rightarrow> pending_info \<Rightarrow> pending_info" where
  "age d p = p\<lparr>pi_time_since_delivered := pi_time_since_delivered p + d\<rparr>"

definition fresh_lease :: "pystr \<Rightarrow> pystr \<Rightarrow> pending_info" where
  "fresh_lease consumer i = \<lparr>pi_message_id = i, pi_consumer = consumer, pi_time_since_delivered = 0,
     pi_times_delivered = 1\<rparr>"

definition leased_out :: "pystr \<Rightarrow> nat \<Rightarrow> queue_view \<Rightarrow> queue_view \<Rightarrow> bool" where
  "leased_out consumer k v v' \<longleftrightarrow> (\<exists>d \<ge> 0. v' = v\<lparr>qv_waiting := drop k (qv_waiting v),
     qv_leased := map (age d) (qv_leased v) @ map (fresh_lease consumer) (take k (qv_waiting v))\<rparr>)"

definition acknowledged :: "pystr \<Rightarrow> queue_view \<Rightarrow> queue_view \<Rightarrow> bool" where
  "acknowledged i v v' \<longleftrightarrow> v' = v\<lparr>qv_leased := filter (\<lambda>p. pi_message_id p \<noteq> i) (qv_leased v)\<rparr>"

definition renewed :: "pystr \<Rightarrow> pystr \<Rightarrow> queue_view \<Rightarrow> queue_view \<Rightarrow> bool" where
  "renewed i consumer v v' \<longleftrightarrow> v' = v\<lparr>qv_leased := map (\<lambda>p. if pi_message_id p = i
     then p\<lparr>pi_consumer := consumer, pi_time_since_delivered := 0\<rparr> else p) (qv_leased v)\<rparr>"

definition buried :: "queue_job_message \<Rightarrow> pystr \<Rightarrow> int \<Rightarrow> queue_view \<Rightarrow> queue_view \<Rightarrow> bool" where
  "buried m cls n v v' \<longleftrightarrow> v' = v\<lparr>qv_dead := qv_dead v @ [dead_letter_fields (dead_letter m cls n)]\<rparr>"

definition lease_ids :: "queue_view \<Rightarrow> pystr list" where
  "lease_ids v = map pi_message_id (qv_leased v)"

definition message_at :: "queue_view \<Rightarrow> pystr \<Rightarrow> queue_job_message \<Rightarrow> bool" where
  "message_at v i m \<longleftrightarrow> (\<exists>fs. qv_fields v i = Some fs \<and> queue_message_from_stream_entry i fs = Inr m)"

definition stale_of :: "queue_view \<Rightarrow> pending_info \<Rightarrow> stale_lease \<Rightarrow> bool" where
  "stale_of v p sl \<longleftrightarrow> message_at v (pi_message_id p) (sl_message sl) \<and> sl_consumer_name sl = pi_consumer p
     \<and> sl_idle_ms sl = pi_time_since_delivered p \<and> sl_delivery_count sl = pi_times_delivered p"

text \<open>
  A command with the effect \<open>E\<close>: when it returns, \<open>E\<close> holds for the result; when it raises, it left
  the view as it was or had the effect for some result.
\<close>

definition command :: "('s \<Rightarrow> 'v) \<Rightarrow> ('a \<Rightarrow> 'v \<Rightarrow> 'v \<Rightarrow> bool) \<Rightarrow> ('s, 'a) prog \<Rightarrow> bool" where
  "command view E m \<longleftrightarrow> (\<forall>s r s'. m s = (r, s') \<longrightarrow> (case r of
      Inr a \<Rightarrow> E a (view s) (view s')
    | Inl e \<Rightarrow> view s' = view s \<or> (\<exists>a. E a (view s) (view s'))))"

lemma commandI:
  assumes "\<And>s a s'. m s = (Inr a, s') \<Longrightarrow> E a (view s) (view s')"
    and "\<And>s e s'. m s = (Inl e, s') \<Longrightarrow> view s' = view s \<or> (\<exists>a. E a (view s) (view s'))"
  shows "command view E m"
  unfolding command_def by (auto split: sum.splits dest: assms)

lemma command_Inr: "command view E m \<Longrightarrow> m s = (Inr a, s') \<Longrightarrow> E a (view s) (view s')"
  by (auto simp: command_def split: sum.splits)

lemma command_Inl: "command view E m \<Longrightarrow> m s = (Inl e, s') \<Longrightarrow> view s' = view s \<or> (\<exists>a. E a (view s) (view s'))"
  unfolding command_def by (drule spec, drule spec, drule spec, drule (1) mp) simp

lemma command_cases:
  assumes "command view E m" "m s = (r, s')"
  obtains (same) e where "r = Inl e" "view s' = view s"
    | (done_raised) e a where "r = Inl e" "E a (view s) (view s')"
    | (returned) a where "r = Inr a" "E a (view s) (view s')"
  using assms by (cases r) (auto dest: command_Inr command_Inl)

locale job_queue =
  fixes q :: "'s queue_api" and view :: "'s \<Rightarrow> queue_view"
  assumes publish: "command view (published m) (q_publish_job q m)"
    and lease: "command view (\<lambda>ms v v'. leased_out c (min (nat n) (length (qv_waiting v))) v v')
          (q_lease_jobs q c n block)"
    and lease_messages: "q_lease_jobs q c n block s = (Inr ms, s') \<Longrightarrow>
          list_all2 (message_at (view s)) (take (min (nat n) (length (qv_waiting (view s)))) (qv_waiting (view s))) ms"
    and find_stale: "q_find_stale_leases q idle n s = (found, s') \<Longrightarrow> view s' = view s"
    and find_stale_leases: "q_find_stale_leases q idle n s = (Inr ls, s') \<Longrightarrow>
          list_all2 (stale_of (view s)) (filter (\<lambda>p. qv_fields (view s) (pi_message_id p) \<noteq> None)
            (take (nat n) (filter (\<lambda>p. idle \<le> pi_time_since_delivered p) (qv_leased (view s))))) ls"
    and renew: "qv_fields (view s) i \<noteq> None \<Longrightarrow> q_renew_pending_lease q i c s = (res, s') \<Longrightarrow>
          view s' = view s \<or> renewed i c (view s) (view s')"
    and renew_True: "qv_fields (view s) i \<noteq> None \<Longrightarrow> q_renew_pending_lease q i c s = (Inr ok, s') \<Longrightarrow>
          renewed i c (view s) (view s') \<and> (ok \<longleftrightarrow> i \<in> set (lease_ids (view s)))"
    and acknowledge: "command view (\<lambda>_. acknowledged i) (q_acknowledge q i)"
    and dead: "q_move_to_dead_letter q m cls k s = (moved, s') \<Longrightarrow>
          view s' = view s \<or> (\<exists>v. buried m cls k (view s) v \<and>
            (view s' = v \<or> (\<exists>i. qm_entry_id m = Some i \<and> acknowledged i v (view s'))))"
    and dead_Inr: "q_move_to_dead_letter q m cls k s = (Inr x, s') \<Longrightarrow>
          (\<exists>v. buried m cls k (view s) v \<and> (case qm_entry_id m of None \<Rightarrow> view s' = v
             | Some i \<Rightarrow> acknowledged i v (view s')))"

subsection \<open>Redis Streams, as documented\<close>

record redis_view =
  rv_entries :: "pystr \<Rightarrow> (pystr \<times> fields) list"
  rv_group :: "pystr \<Rightarrow> pystr \<Rightarrow> (pystr list \<times> pending_info list) option"

definition set_group :: "pystr \<Rightarrow> pystr \<Rightarrow> pystr list \<times> pending_info list \<Rightarrow> redis_view \<Rightarrow> redis_view" where
  "set_group st g x v = v\<lparr>rv_group := (rv_group v)(st := (rv_group v st)(g := Some x))\<rparr>"

definition entry :: "redis_view \<Rightarrow> pystr \<Rightarrow> pystr \<Rightarrow> fields option" where
  "entry v st i = map_of (rv_entries v st) i"

definition added :: "pystr \<Rightarrow> fields \<Rightarrow> pystr \<Rightarrow> redis_view \<Rightarrow> redis_view \<Rightarrow> bool" where
  "added st f i v v' \<longleftrightarrow> entry v st i = None \<and>
     v' = v\<lparr>rv_entries := (rv_entries v)(st := rv_entries v st @ [(i, f)]),
            rv_group := (rv_group v)(st := (\<lambda>g. map_option (\<lambda>(u, p). (u @ [i], p)) (rv_group v st g)))\<rparr>"

definition read_new :: "pystr \<Rightarrow> pystr \<Rightarrow> pystr \<Rightarrow> int \<Rightarrow> (pystr \<times> (pystr \<times> fields) list) list \<Rightarrow> redis_view \<Rightarrow> redis_view \<Rightarrow> bool" where
  "read_new g c st n response v v' \<longleftrightarrow> (\<exists>u p d. rv_group v st g = Some (u, p) \<and> 0 \<le> d \<and>
     (let ids = take (min (nat n) (length u)) u
      in map fst (concat (map snd response)) = ids
       \<and> (\<forall>(i, f) \<in> set (concat (map snd response)). entry v st i = Some f)
       \<and> v' = set_group st g (drop (length ids) u, map (age d) p @ map (fresh_lease c) ids) v))"

definition group_created :: "pystr \<Rightarrow> pystr \<Rightarrow> redis_view \<Rightarrow> redis_view \<Rightarrow> bool" where
  "group_created st g v v' \<longleftrightarrow> rv_group v st g = None \<and> v' = set_group st g (map fst (rv_entries v st), []) v"

definition acked :: "pystr \<Rightarrow> pystr \<Rightarrow> pystr \<Rightarrow> redis_view \<Rightarrow> redis_view \<Rightarrow> bool" where
  "acked st g i v v' \<longleftrightarrow> (case rv_group v st g of None \<Rightarrow> v' = v
     | Some (u, p) \<Rightarrow> v' = set_group st g (u, filter (\<lambda>x. pi_message_id x \<noteq> i) p) v)"

definition claimed :: "pystr \<Rightarrow> pystr \<Rightarrow> pystr \<Rightarrow> pystr \<Rightarrow> redis_view \<Rightarrow> redis_view \<Rightarrow> bool" where
  "claimed st g c i v v' \<longleftrightarrow> (case rv_group v st g of None \<Rightarrow> v' = v
     | Some (u, p) \<Rightarrow> v' = set_group st g (u, map (\<lambda>x. if pi_message_id x = i
         then x\<lparr>pi_consumer := c, pi_time_since_delivered := 0\<rparr> else x) p) v)"

locale redis_streams =
  fixes rc :: "'s redis_client" and rview :: "'s \<Rightarrow> redis_view"
  assumes group_create: "command rview (\<lambda>_. group_created st g) (xgroup_create rc st g ''0-0'' True)"
    and busygroup: "xgroup_create rc st g ''0-0'' True s = (Inl (RedisResponseError text), s') \<Longrightarrow>
          contains text ''BUSYGROUP'' \<Longrightarrow> rview s' = rview s \<and> rv_group (rview s) st g \<noteq> None"
    and add: "command rview (added st f) (xadd rc st f)"
    and read: "command rview (read_new g c st n) (xreadgroup rc g c st ''>'' n b)"
    and pending: "xpending_range rc st g ''-'' ''+'' n idle s = (ps, s') \<Longrightarrow> rview s' = rview s"
    and pending_range: "xpending_range rc st g ''-'' ''+'' n idle s = (Inr infos, s') \<Longrightarrow>
          (\<exists>u p. rv_group (rview s) st g = Some (u, p) \<and>
             infos = take (nat n) (filter (\<lambda>x. idle \<le> pi_time_since_delivered x) p))"
    and range: "xrange rc st i i s = (es, s') \<Longrightarrow> rview s' = rview s"
    and range_entries: "xrange rc st i i s = (Inr found, s') \<Longrightarrow> found = filter (\<lambda>(j, _). j = i) (rv_entries (rview s) st)"
    and claim: "entry (rview s) st i \<noteq> None \<Longrightarrow> xclaim rc st g c 0 [i] True s = (claimed_ids, s') \<Longrightarrow>
          rview s' = rview s \<or> claimed st g c i (rview s) (rview s')"
    and claim_ids: "entry (rview s) st i \<noteq> None \<Longrightarrow> xclaim rc st g c 0 [i] True s = (Inr ids, s') \<Longrightarrow>
          claimed st g c i (rview s) (rview s') \<and> (i \<in> set ids \<longleftrightarrow>
            (\<exists>u p. rv_group (rview s) st g = Some (u, p) \<and> i \<in> pi_message_id ` set p))"
    and ack: "command rview (\<lambda>_. acked st g i) (xack rc st g i)"

subsection \<open>The view of a Redis queue\<close>

text \<open>
  Before the consumer group exists, every entry of the stream waits: \<open>ensure_consumer_group\<close> creates
  the group at \<open>0-0\<close>.
\<close>

definition queue_view_of :: "queue_config \<Rightarrow> redis_view \<Rightarrow> queue_view" where
  "queue_view_of cfg v = \<lparr>qv_fields = entry v (stream_name cfg),
     qv_waiting = (case rv_group v (stream_name cfg) (consumer_group cfg) of
        None \<Rightarrow> map fst (rv_entries v (stream_name cfg)) | Some (u, p) \<Rightarrow> u),
     qv_leased = (case rv_group v (stream_name cfg) (consumer_group cfg) of None \<Rightarrow> [] | Some (u, p) \<Rightarrow> p),
     qv_dead = map snd (rv_entries v (dlq_stream_name cfg))\<rparr>"

lemma map_of_snoc: "map_of xs i = None \<Longrightarrow> map_of (xs @ [(i, f)]) = (map_of xs)(i \<mapsto> f)"
  by (auto simp: map_add_def fun_eq_iff split: option.splits)

lemma entry_fun: "entry v st = map_of (rv_entries v st)"
  by (simp add: entry_def fun_eq_iff)

lemma view_group_created:
  "group_created (stream_name cfg) (consumer_group cfg) v v' \<Longrightarrow> queue_view_of cfg v' = queue_view_of cfg v"
  by (auto simp: group_created_def queue_view_of_def set_group_def entry_def fun_eq_iff)

lemma view_added:
  "stream_name cfg \<noteq> dlq_stream_name cfg \<Longrightarrow> added (stream_name cfg) (to_stream_fields m) i v v' \<Longrightarrow>
     published m i (queue_view_of cfg v) (queue_view_of cfg v')"
  by (auto simp: added_def published_def queue_view_of_def entry_fun map_of_snoc simp del: map_of_append
      split: option.splits)

lemma view_added_dlq:
  "stream_name cfg \<noteq> dlq_stream_name cfg \<Longrightarrow> added (dlq_stream_name cfg) f i v v' \<Longrightarrow>
     queue_view_of cfg v' = (queue_view_of cfg v)\<lparr>qv_dead := qv_dead (queue_view_of cfg v) @ [f]\<rparr>"
  by (auto simp: added_def queue_view_of_def entry_def fun_eq_iff split: option.splits)

lemma view_read:
  assumes "read_new (consumer_group cfg) c (stream_name cfg) n resp v v'"
  shows "leased_out c (min (nat n) (length (qv_waiting (queue_view_of cfg v)))) (queue_view_of cfg v) (queue_view_of cfg v')"
    and "map fst (concat (map snd resp)) = take (min (nat n) (length (qv_waiting (queue_view_of cfg v)))) (qv_waiting (queue_view_of cfg v))"
    and "(i, f) \<in> set (concat (map snd resp)) \<Longrightarrow> qv_fields (queue_view_of cfg v) i = Some f"
  using assms
  by (auto simp: read_new_def leased_out_def queue_view_of_def Let_def set_group_def entry_def fun_eq_iff)

lemma view_acked:
  "acked (stream_name cfg) (consumer_group cfg) i v v' \<Longrightarrow> acknowledged i (queue_view_of cfg v) (queue_view_of cfg v')"
  by (auto simp: acked_def acknowledged_def queue_view_of_def set_group_def entry_def fun_eq_iff split: option.splits)

lemma view_claimed:
  "claimed (stream_name cfg) (consumer_group cfg) c i v v' \<Longrightarrow> renewed i c (queue_view_of cfg v) (queue_view_of cfg v')"
  by (auto simp: claimed_def renewed_def queue_view_of_def set_group_def entry_def fun_eq_iff split: option.splits)

locale redis_streams_queue = redis_streams +
  fixes cfg :: queue_config
  assumes distinct_streams: "stream_name cfg \<noteq> dlq_stream_name cfg"
begin

abbreviation qview :: "'a \<Rightarrow> queue_view" where
  "qview s \<equiv> queue_view_of cfg (rview s)"

lemma ensure_group:
  assumes "ensure_consumer_group rc cfg s = (r, s')"
  shows "qview s' = qview s"
    and "r = Inr () \<Longrightarrow> rv_group (rview s') (stream_name cfg) (consumer_group cfg) \<noteq> None"
proof -
  obtain r0 s0 where c: "xgroup_create rc (stream_name cfg) (consumer_group cfg) ''0-0'' True s = (r0, s0)"
    by (cases "xgroup_create rc (stream_name cfg) (consumer_group cfg) ''0-0'' True s")
  have s': "s' = s0"
    using assms c
    by (auto simp: ensure_consumer_group_def try_exceptM_def busygroup_handler_def split: sum.splits exc.splits if_splits)
  show "qview s' = qview s"
    using command_cases [OF group_create c] view_group_created s' by metis
  assume "r = Inr ()"
  with assms c have "r0 = Inr () \<or> (\<exists>text. r0 = Inl (RedisResponseError text) \<and> contains text ''BUSYGROUP'')"
    by (auto simp: ensure_consumer_group_def try_exceptM_def busygroup_handler_def split: sum.splits exc.splits if_splits)
  then show "rv_group (rview s') (stream_name cfg) (consumer_group cfg) \<noteq> None"
  proof
    assume "r0 = Inr ()"
    with c group_create have "group_created (stream_name cfg) (consumer_group cfg) (rview s) (rview s0)"
      by (auto dest: command_Inr)
    with s' show ?thesis by (simp add: group_created_def set_group_def)
  next
    assume "\<exists>text. r0 = Inl (RedisResponseError text) \<and> contains text ''BUSYGROUP''"
    with c busygroup s' show ?thesis by metis
  qed
qed

lemma mapM_lift_state: "mapM (\<lambda>x. liftM (h x)) xs s = (r, s') \<Longrightarrow> s' = s"
  by (induction xs arbitrary: r) (auto simp: bindM_eq split: prod.splits sum.splits)

lemma mapM_lift_result: "mapM (\<lambda>x. liftM (h x)) xs s = (Inr ys, s') \<Longrightarrow> list_all2 (\<lambda>x y. h x = Inr y) xs ys"
  by (induction xs arbitrary: ys) (auto simp: bindM_eq split: prod.splits sum.splits)

lemma lease_shape:
  assumes "lease_jobs rc cfg c n block s = (r, s')"
  shows "(qview s' = qview s \<and> (\<forall>ms. r \<noteq> Inr ms)) \<or>
     leased_out c (min (nat n) (length (qv_waiting (qview s)))) (qview s) (qview s')"
proof -
  obtain r0 s0 where e: "ensure_consumer_group rc cfg s = (r0, s0)" by (cases "ensure_consumer_group rc cfg s")
  note v0 = ensure_group(1) [OF e]
  obtain r1 s1 where x: "xreadgroup rc (consumer_group cfg) c (stream_name cfg) ''>'' n block s0 = (r1, s1)"
    by (cases "xreadgroup rc (consumer_group cfg) c (stream_name cfg) ''>'' n block s0")
  show ?thesis
  proof (cases r0)
    case (Inl err)
    with assms e v0 show ?thesis by (auto simp: lease_jobs_def thenM_eq)
  next
    case (Inr u)
    show ?thesis
      using read x
    proof (cases rule: command_cases)
      case (same err)
      with assms e x Inr v0 show ?thesis by (auto simp: lease_jobs_def thenM_eq bindM_eq)
    next
      case (done_raised err resp)
      with assms e x Inr v0 view_read(1) show ?thesis
        by (fastforce simp: lease_jobs_def thenM_eq bindM_eq)
    next
      case (returned resp)
      with assms e x Inr have "s' = s1"
        by (auto simp: lease_jobs_def thenM_eq bindM_eq case_prod_unfold dest: mapM_lift_state)
      with returned v0 view_read(1) show ?thesis by metis
    qed
  qed
qed

lemma lease_command:
  "command qview (\<lambda>ms v v'. leased_out c (min (nat n) (length (qv_waiting v))) v v') (lease_jobs rc cfg c n block)"
  by (rule commandI) (use lease_shape in fastforce)+

lemma lease_result:
  assumes "lease_jobs rc cfg c n block s = (Inr ms, s')"
  shows "list_all2 (message_at (qview s)) (take (min (nat n) (length (qv_waiting (qview s)))) (qv_waiting (qview s))) ms"
proof -
  obtain s0 where e: "ensure_consumer_group rc cfg s = (Inr (), s0)"
    using assms by (auto simp: lease_jobs_def thenM_eq split: prod.splits sum.splits)
  note v0 = ensure_group(1) [OF e]
  obtain resp s1 where x: "xreadgroup rc (consumer_group cfg) c (stream_name cfg) ''>'' n block s0 = (Inr resp, s1)"
    using assms e by (auto simp: lease_jobs_def thenM_eq bindM_eq split: prod.splits sum.splits)
  have "mapM (\<lambda>x. liftM (queue_message_from_stream_entry (fst x) (snd x))) (concat (map snd resp)) s1 = (Inr ms, s')"
    using assms e x by (simp add: lease_jobs_def thenM_eq bindM_eq case_prod_unfold)
  then have msgs: "list_all2 (\<lambda>x m. queue_message_from_stream_entry (fst x) (snd x) = Inr m) (concat (map snd resp)) ms"
    by (rule mapM_lift_result)
  have r: "read_new (consumer_group cfg) c (stream_name cfg) n resp (rview s0) (rview s1)"
    using command_Inr [OF read x] .
  have "list_all2 (\<lambda>x m. message_at (qview s0) (fst x) m) (concat (map snd resp)) ms"
  proof (rule list.rel_mono_strong [OF msgs])
    fix x m
    assume "x \<in> set (concat (map snd resp))" "queue_message_from_stream_entry (fst x) (snd x) = Inr m"
    then show "message_at (qview s0) (fst x) m"
      using view_read(3) [OF r, of "fst x" "snd x"] by (simp only: message_at_def prod.collapse) blast
  qed
  then have "list_all2 (message_at (qview s0)) (map fst (concat (map snd resp))) ms"
    by (simp add: list.rel_map)
  then show ?thesis using view_read(2) [OF r] v0 by simp
qed

end

lemma map_of_filter_key:
  "map_of xs i = (case filter (\<lambda>(j, _). j = i) xs of [] \<Rightarrow> None | (_, f) # _ \<Rightarrow> Some f)"
  by (induction xs) (auto split: list.splits prod.splits)

lemma list_all2_Somes:
  "list_all2 (\<lambda>p x. case x of None \<Rightarrow> \<not> P p | Some y \<Rightarrow> P p \<and> R p y) ps xs \<Longrightarrow>
     list_all2 R (filter P ps) (map the (filter (\<lambda>x. x \<noteq> None) xs))"
  by (induction ps xs rule: list_all2_induct) (auto split: option.splits)

context redis_streams_queue
begin

lemma stale_lease_of_spec:
  assumes "stale_lease_of rc cfg p s = (r, s')"
  shows "rview s' = rview s"
    and "r = Inr x \<Longrightarrow> case x of None \<Rightarrow> qv_fields (qview s) (pi_message_id p) = None
          | Some sl \<Rightarrow> qv_fields (qview s) (pi_message_id p) \<noteq> None \<and> stale_of (qview s) p sl"
proof -
  let ?i = "pi_message_id p"
  obtain r0 s0 where e: "xrange rc (stream_name cfg) ?i ?i s = (r0, s0)"
    by (cases "xrange rc (stream_name cfg) ?i ?i s")
  note same = range [OF e]
  show "rview s' = rview s"
    using assms e same by (auto simp: stale_lease_of_def bindM_eq split: sum.splits list.splits prod.splits)
  assume "r = Inr x"
  with assms e obtain es where r0: "r0 = Inr es"
    by (auto simp: stale_lease_of_def bindM_eq split: sum.splits)
  have "es = filter (\<lambda>(j, _). j = ?i) (rv_entries (rview s) (stream_name cfg))"
    using range_entries e r0 by blast
  then have f: "qv_fields (qview s) ?i = (case es of [] \<Rightarrow> None | (_, f) # _ \<Rightarrow> Some f)"
    by (simp add: queue_view_of_def entry_fun map_of_filter_key)
  show "case x of None \<Rightarrow> qv_fields (qview s) ?i = None
          | Some sl \<Rightarrow> qv_fields (qview s) ?i \<noteq> None \<and> stale_of (qview s) p sl"
    using assms e r0 f \<open>r = Inr x\<close>
    by (cases es) (auto simp: stale_lease_of_def bindM_eq stale_of_def message_at_def split: sum.splits)
qed

lemma stale_leases_of_spec:
  "mapM (stale_lease_of rc cfg) ps s = (r, s') \<Longrightarrow> rview s' = rview s \<and>
     (\<forall>xs. r = Inr xs \<longrightarrow> list_all2 (\<lambda>p x. case x of None \<Rightarrow> \<not> qv_fields (qview s) (pi_message_id p) \<noteq> None
        | Some sl \<Rightarrow> qv_fields (qview s) (pi_message_id p) \<noteq> None \<and> stale_of (qview s) p sl) ps xs)"
proof (induction ps arbitrary: s r s')
  case Nil
  then show ?case by auto
next
  case (Cons p ps)
  obtain r0 s0 where e: "stale_lease_of rc cfg p s = (r0, s0)" by (cases "stale_lease_of rc cfg p s")
  obtain r1 s1 where m: "mapM (stale_lease_of rc cfg) ps s0 = (r1, s1)"
    by (cases "mapM (stale_lease_of rc cfg) ps s0")
  note v0 = stale_lease_of_spec(1) [OF e]
  note x0 = stale_lease_of_spec(2) [OF e]
  note IH = Cons.IH [OF m, unfolded v0]
  show ?case
  proof (cases r0)
    case (Inl err)
    with Cons.prems e v0 show ?thesis by (auto simp: bindM_eq)
  next
    case (Inr x)
    with Cons.prems e m have s': "s' = s1" "r = (case r1 of Inl err \<Rightarrow> Inl err | Inr ys \<Rightarrow> Inr (x # ys))"
      by (auto simp: bindM_eq split: sum.splits)
    with IH x0 Inr show ?thesis
      by (auto split: sum.splits option.splits)
  qed
qed

lemma find_stale_view: "find_stale_leases rc cfg idle n s = (r, s') \<Longrightarrow> qview s' = qview s"
  using ensure_group(1) pending stale_leases_of_spec
  by (auto simp: find_stale_leases_def thenM_eq bindM_eq split: prod.splits sum.splits) (metis+)?

lemma find_stale_result:
  assumes "find_stale_leases rc cfg idle n s = (Inr ls, s')"
  shows "list_all2 (stale_of (qview s)) (filter (\<lambda>p. qv_fields (qview s) (pi_message_id p) \<noteq> None)
            (take (nat n) (filter (\<lambda>p. idle \<le> pi_time_since_delivered p) (qv_leased (qview s))))) ls"
proof -
  obtain s0 where e: "ensure_consumer_group rc cfg s = (Inr (), s0)"
    using assms by (auto simp: find_stale_leases_def thenM_eq split: prod.splits sum.splits)
  obtain infos s1 where x: "xpending_range rc (stream_name cfg) (consumer_group cfg) ''-'' ''+'' n idle s0 = (Inr infos, s1)"
    using assms e by (auto simp: find_stale_leases_def thenM_eq bindM_eq split: prod.splits sum.splits)
  obtain xs s2 where m: "mapM (stale_lease_of rc cfg) infos s1 = (Inr xs, s2)" "ls = map the (filter (\<lambda>x. x \<noteq> None) xs)"
    using assms e x by (auto simp: find_stale_leases_def thenM_eq bindM_eq split: prod.splits sum.splits)
  have v: "qview s1 = qview s" using ensure_group(1) [OF e] pending [OF x] by simp
  have "infos = take (nat n) (filter (\<lambda>p. idle \<le> pi_time_since_delivered p) (qv_leased (qview s0)))"
    using pending_range [OF x] by (auto simp: queue_view_of_def)
  moreover have "list_all2 (stale_of (qview s)) (filter (\<lambda>p. qv_fields (qview s) (pi_message_id p) \<noteq> None) infos) ls"
    unfolding m(2) by (rule list_all2_Somes) (use stale_leases_of_spec [OF m(1), unfolded v] in blast)
  ultimately show ?thesis using ensure_group(1) [OF e] by simp
qed

end

context redis_streams_queue
begin

lemma publish_command: "command qview (published m) (publish_job rc cfg m)"
proof (rule commandI)
  fix s i s' assume "publish_job rc cfg m s = (Inr i, s')"
  then show "published m i (qview s) (qview s')"
    unfolding publish_job_def by (intro view_added distinct_streams command_Inr [OF add])
next
  fix s e s' assume "publish_job rc cfg m s = (Inl e, s')"
  then have "rview s' = rview s \<or> (\<exists>i. added (stream_name cfg) (to_stream_fields m) i (rview s) (rview s'))"
    unfolding publish_job_def by (rule command_Inl [OF add])
  then show "qview s' = qview s \<or> (\<exists>i. published m i (qview s) (qview s'))"
    using view_added [OF distinct_streams] by metis
qed

lemma acknowledge_command: "command qview (\<lambda>_. acknowledged i) (acknowledge rc cfg i)"
proof (rule commandI)
  fix s n s' assume "acknowledge rc cfg i s = (Inr n, s')"
  then show "acknowledged i (qview s) (qview s')"
    unfolding acknowledge_def by (intro view_acked) (rule command_Inr [OF ack])
next
  fix s e s' assume "acknowledge rc cfg i s = (Inl e, s')"
  then have "rview s' = rview s \<or> (\<exists>n :: int. acked (stream_name cfg) (consumer_group cfg) i (rview s) (rview s'))"
    unfolding acknowledge_def by (rule command_Inl [OF ack])
  then show "qview s' = qview s \<or> (\<exists>n :: int. acknowledged i (qview s) (qview s'))"
    using view_acked by metis
qed

lemma renew_spec:
  assumes "qv_fields (qview s) i \<noteq> None" "renew_pending_lease rc cfg i c s = (r, s')"
  shows "qview s' = qview s \<or> renewed i c (qview s) (qview s')"
    and "r = Inr ok \<Longrightarrow> renewed i c (qview s) (qview s') \<and> (ok \<longleftrightarrow> i \<in> set (lease_ids (qview s)))"
proof -
  obtain r0 s0 where e: "ensure_consumer_group rc cfg s = (r0, s0)" by (cases "ensure_consumer_group rc cfg s")
  note v0 = ensure_group(1) [OF e]
  obtain r1 s1 where x: "xclaim rc (stream_name cfg) (consumer_group cfg) c 0 [i] True s0 = (r1, s1)"
    by (cases "xclaim rc (stream_name cfg) (consumer_group cfg) c 0 [i] True s0")
  have "qv_fields (qview s0) i \<noteq> None" using assms(1) v0 by simp
  then have known: "entry (rview s0) (stream_name cfg) i \<noteq> None" by (simp add: queue_view_of_def)
  have split: "s' = (case r0 of Inl _ \<Rightarrow> s0 | Inr _ \<Rightarrow> s1)"
    "r = (case r0 of Inl err \<Rightarrow> Inl err | Inr _ \<Rightarrow> (case r1 of Inl err \<Rightarrow> Inl err | Inr ids \<Rightarrow> Inr (i \<in> set ids)))"
    using assms(2) e x by (auto simp: renew_pending_lease_def thenM_eq bindM_eq split: sum.splits)
  show "qview s' = qview s \<or> renewed i c (qview s) (qview s')"
    using claim [OF known x] view_claimed [of cfg c i "rview s0" "rview s1"] v0 split(1)
    by (auto split: sum.splits)
  assume "r = Inr ok"
  with split obtain ids where ids: "r0 = Inr ()" "r1 = Inr ids" "ok = (i \<in> set ids)"
    by (auto split: sum.splits)
  with x have "xclaim rc (stream_name cfg) (consumer_group cfg) c 0 [i] True s0 = (Inr ids, s1)" by simp
  from claim_ids [OF known this] view_claimed [of cfg c i "rview s0" "rview s1"] ids v0 split(1)
    ensure_group(2) [OF e]
  show "renewed i c (qview s) (qview s') \<and> (ok \<longleftrightarrow> i \<in> set (lease_ids (qview s)))"
    by (auto simp: lease_ids_def) (auto simp: queue_view_of_def v0 [symmetric])
qed

lemma bury_view:
  "added (dlq_stream_name cfg) (dead_letter_fields (dead_letter m cls k)) i (rview s) (rview s') \<Longrightarrow>
     buried m cls k (qview s) (qview s')"
  by (simp add: buried_def view_added_dlq [OF distinct_streams])

lemma dead_spec:
  assumes "move_to_dead_letter rc cfg m cls k s = (r, s')"
  shows "qview s' = qview s \<or> (\<exists>v. buried m cls k (qview s) v \<and>
            (qview s' = v \<or> (\<exists>i. qm_entry_id m = Some i \<and> acknowledged i v (qview s'))))"
    and "r = Inr x \<Longrightarrow> \<exists>v. buried m cls k (qview s) v \<and> (case qm_entry_id m of None \<Rightarrow> qview s' = v
             | Some i \<Rightarrow> acknowledged i v (qview s'))"
proof -
  let ?add = "xadd rc (dlq_stream_name cfg) (dead_letter_fields (dead_letter m cls k))"
  obtain r0 s0 where a: "?add s = (r0, s0)" by (cases "?add s")
  have part: "qview s0 = qview s \<and> (\<exists>e. r0 = Inl e) \<or> buried m cls k (qview s) (qview s0)"
    using command_cases [OF add a] bury_view by metis
  have cases: "(\<exists>e. r0 = Inl e \<and> r = Inl e \<and> s' = s0) \<or> (\<exists>x. r0 = Inr x \<and> (case qm_entry_id m of
      None \<Rightarrow> s' = s0 | Some i \<Rightarrow> (\<exists>r1. acknowledge rc cfg i s0 = (r1, s') \<and> (\<forall>y. r = Inr y \<longrightarrow> (\<exists>n. r1 = Inr n)))))"
    using assms a by (auto simp: move_to_dead_letter_def bindM_eq thenM_eq split: sum.splits option.splits prod.splits)
  show "qview s' = qview s \<or> (\<exists>v. buried m cls k (qview s) v \<and>
            (qview s' = v \<or> (\<exists>i. qm_entry_id m = Some i \<and> acknowledged i v (qview s'))))"
    using cases part command_cases [OF acknowledge_command]
    by (fastforce split: option.splits)
  assume "r = Inr x"
  with cases obtain y where y: "r0 = Inr y" "case qm_entry_id m of None \<Rightarrow> s' = s0
     | Some i \<Rightarrow> (\<exists>n. acknowledge rc cfg i s0 = (Inr n, s'))"
    by (auto split: option.splits)
  with part have "buried m cls k (qview s) (qview s0)" by auto
  with y(2) show "\<exists>v. buried m cls k (qview s) v \<and> (case qm_entry_id m of None \<Rightarrow> qview s' = v
             | Some i \<Rightarrow> acknowledged i v (qview s'))"
    by (intro exI [of _ "qview s0"]) (auto split: option.splits dest: command_Inr [OF acknowledge_command])
qed

end

sublocale redis_streams_queue \<subseteq> queue_contract: job_queue "redis_queue rc cfg" "\<lambda>s. queue_view_of cfg (rview s)"
  by unfold_locales
    (simp_all only: redis_queue_def queue_api.select_convs,
     (rule publish_command lease_command acknowledge_command
       | erule lease_result find_stale_view find_stale_result dead_spec(1) dead_spec(2) [OF _ refl]
       | erule (1) renew_spec(1) renew_spec(2) [OF _ _ refl])+)

end
