(* ===== verification/Storage.thy ===== *)
theory Storage
  imports Program
begin

section \<open>Jobs, events and the tables of the registry\<close>

text \<open>
  \<open>domain/jobs.py\<close> and \<open>storage/models.py\<close>: submissions and job records, and the four tables the
  code writes, each a list of rows in the order of insertion. The SQL statements of the code are
  programs over the database: an \<open>INSERT\<close> checks the column types, the \<open>CHECK\<close> constraints, the
  unique keys and the foreign key that the schema declares and raises \<open>DataError\<close> or
  \<open>IntegrityError\<close> where one fails; it fills the server defaults (\<open>now()\<close> is \<open>db_now\<close>, the start of the
  transaction in microseconds, and a sequence numbers the events and the conflict attempts). An
  \<open>UPDATE\<close> changes every matching row and sets \<open>updated_at\<close>.
\<close>

subsection \<open>Payloads and their hash\<close>

definition canonical_payload :: "platform \<Rightarrow> items \<Rightarrow> pystr" where
  "canonical_payload pf payload = dumps (float_repr pf) (JObj payload)"

definition payload_sha256 :: "platform \<Rightarrow> items \<Rightarrow> pystr" where
  "payload_sha256 pf payload = sha256_hex pf (utf8_encode (canonical_payload pf payload))"

subsection \<open>Records\<close>

record job_submission =
  sub_job_type :: pystr
  sub_payload :: items
  sub_idempotency_key :: pystr
  sub_timeout_seconds :: int
  sub_max_retries :: int
  sub_trace_id :: pystr
  sub_budget_cents :: "int option"
  sub_job_id :: uuid
  sub_run_id :: uuid

definition submission_payload_hash :: "platform \<Rightarrow> job_submission \<Rightarrow> pystr" where
  "submission_payload_hash pf sub = payload_sha256 pf (sub_payload sub)"

record job_record =
  job_id :: uuid
  job_run_id :: uuid
  job_type :: pystr
  job_payload :: items
  job_payload_hash :: pystr
  job_idempotency_key :: pystr
  job_status :: pystr
  job_timeout_seconds :: int
  job_max_retries :: int
  job_trace_id :: pystr
  job_budget_cents :: "int option"
  job_created_at :: int
  job_updated_at :: int

record job_event_record =
  ev_id :: nat
  ev_job_id :: uuid
  ev_run_id :: uuid
  ev_type :: pystr
  ev_data :: items
  ev_trace_id :: pystr
  ev_created_at :: int

record finalization_row =
  fin_job_id :: uuid
  fin_run_id :: uuid
  fin_status :: pystr
  fin_event_type :: pystr
  fin_trace_id :: pystr
  fin_created_at :: int

record conflict_row =
  con_id :: nat
  con_job_id :: uuid
  con_run_id :: uuid
  con_status :: pystr
  con_event_type :: pystr
  con_trace_id :: pystr
  con_created_at :: int

record database =
  jobs :: "job_record list"
  job_events :: "job_event_record list"
  job_finalizations :: "finalization_row list"
  conflict_attempts :: "conflict_row list"
  event_seq :: nat
  conflict_seq :: nat
  db_now :: int

definition empty_database :: "int \<Rightarrow> database" where
  "empty_database t = \<lparr>jobs = [], job_events = [], job_finalizations = [], conflict_attempts = [],
     event_seq = 1, conflict_seq = 1, db_now = t\<rparr>"

subsection \<open>Statements\<close>

abbreviation varchar :: "nat \<Rightarrow> pystr \<Rightarrow> bool" where
  "varchar n s \<equiv> length s \<le> n"

definition int4 :: "int \<Rightarrow> bool" where
  "int4 i \<longleftrightarrow> - (2 ^ 31) \<le> i \<and> i < 2 ^ 31"

definition job_columns_ok :: "job_record \<Rightarrow> bool" where
  "job_columns_ok r \<longleftrightarrow> varchar 64 (job_type r) \<and> varchar 64 (job_payload_hash r)
     \<and> varchar 255 (job_idempotency_key r) \<and> varchar 32 (job_status r) \<and> varchar 128 (job_trace_id r)
     \<and> int4 (job_timeout_seconds r) \<and> int4 (job_max_retries r)
     \<and> (case job_budget_cents r of None \<Rightarrow> True | Some b \<Rightarrow> int4 b)"

definition insert_job :: "job_record \<Rightarrow> (database, job_record) prog" where
  "insert_job r = (\<lambda>db.
     if \<not> job_columns_ok r then (Inl (DataError ''jobs''), db)
     else if job_timeout_seconds r \<le> 0 then (Inl (IntegrityError ''ck_jobs_timeout_positive''), db)
     else if job_max_retries r < 0 then (Inl (IntegrityError ''ck_jobs_max_retries_non_negative''), db)
     else if job_id r \<in> job_id ` set (jobs db) then (Inl (IntegrityError ''jobs_pkey''), db)
     else if job_idempotency_key r \<in> job_idempotency_key ` set (jobs db)
       then (Inl (IntegrityError ''jobs_idempotency_key_key''), db)
     else let row = r\<lparr>job_created_at := db_now db, job_updated_at := db_now db\<rparr>
       in (Inr row, db\<lparr>jobs := jobs db @ [row]\<rparr>))"

definition update_job_status :: "uuid \<Rightarrow> pystr \<Rightarrow> (database, unit) prog" where
  "update_job_status i status = (\<lambda>db.
     if \<not> varchar 32 status then (Inl (DataError ''jobs''), db)
     else (Inr (), db\<lparr>jobs := map (\<lambda>r. if job_id r = i
             then r\<lparr>job_status := status, job_updated_at := db_now db\<rparr> else r) (jobs db)\<rparr>))"

definition insert_event :: "uuid \<Rightarrow> uuid \<Rightarrow> pystr \<Rightarrow> items \<Rightarrow> pystr \<Rightarrow> (database, unit) prog" where
  "insert_event i run event_type event_data trace = (\<lambda>db.
     if \<not> (varchar 64 event_type \<and> varchar 128 trace) then (Inl (DataError ''job_events''), db)
     else if i \<notin> job_id ` set (jobs db) then (Inl (IntegrityError ''job_events_job_id_fkey''), db)
     else (Inr (), db\<lparr>job_events := job_events db @
              [\<lparr>ev_id = event_seq db, ev_job_id = i, ev_run_id = run, ev_type = event_type,
                ev_data = event_data, ev_trace_id = trace, ev_created_at = db_now db\<rparr>],
            event_seq := Suc (event_seq db)\<rparr>))"

text \<open>\<open>INSERT ... ON CONFLICT (job_id) DO NOTHING RETURNING job_id\<close>\<close>

definition insert_finalization ::
    "uuid \<Rightarrow> uuid \<Rightarrow> pystr \<Rightarrow> pystr \<Rightarrow> pystr \<Rightarrow> (database, uuid option) prog" where
  "insert_finalization i run status event_type trace = (\<lambda>db.
     if \<not> (varchar 32 status \<and> varchar 64 event_type \<and> varchar 128 trace)
       then (Inl (DataError ''job_finalizations''), db)
     else if i \<in> fin_job_id ` set (job_finalizations db) then (Inr None, db)
     else if i \<notin> job_id ` set (jobs db)
       then (Inl (IntegrityError ''job_finalizations_job_id_fkey''), db)
     else (Inr (Some i), db\<lparr>job_finalizations := job_finalizations db @
              [\<lparr>fin_job_id = i, fin_run_id = run, fin_status = status, fin_event_type = event_type,
                fin_trace_id = trace, fin_created_at = db_now db\<rparr>]\<rparr>))"

definition insert_conflict_attempt ::
    "uuid \<Rightarrow> uuid \<Rightarrow> pystr \<Rightarrow> pystr \<Rightarrow> pystr \<Rightarrow> (database, unit) prog" where
  "insert_conflict_attempt i run status event_type trace = (\<lambda>db.
     if \<not> (varchar 32 status \<and> varchar 64 event_type \<and> varchar 128 trace)
       then (Inl (DataError ''finalization_conflict_attempts''), db)
     else if i \<notin> job_id ` set (jobs db)
       then (Inl (IntegrityError ''finalization_conflict_attempts_job_id_fkey''), db)
     else (Inr (), db\<lparr>conflict_attempts := conflict_attempts db @
              [\<lparr>con_id = conflict_seq db, con_job_id = i, con_run_id = run, con_status = status,
                con_event_type = event_type, con_trace_id = trace, con_created_at = db_now db\<rparr>],
            conflict_seq := Suc (conflict_seq db)\<rparr>))"

text \<open>\<open>result.mappings().one_or_none()\<close>\<close>

fun one_or_none :: "'a list \<Rightarrow> ('s, 'a option) prog" where
  "one_or_none [] = returnM None"
| "one_or_none [x] = returnM (Some x)"
| "one_or_none xs = raiseM MultipleResultsFound"

definition select_jobs :: "(job_record \<Rightarrow> bool) \<Rightarrow> (database, job_record list) prog" where
  "select_jobs P = getM (\<lambda>db. filter P (jobs db))"

text \<open>
  \<open>async with session.begin()\<close>: the statements of the block run on the state, and an exception
  that leaves the block restores it.
\<close>

definition transaction :: "(database, 'a) prog \<Rightarrow> (database, 'a) prog" where
  "transaction m = (\<lambda>db. case m db of (Inl e, _) \<Rightarrow> (Inl e, db) | (Inr a, db') \<Rightarrow> (Inr a, db'))"

lemma transaction_Inr: "m db = (Inr a, db') \<Longrightarrow> transaction m db = (Inr a, db')"
  and transaction_Inl: "m db = (Inl e, db') \<Longrightarrow> transaction m db = (Inl e, db)"
  by (simp_all add: transaction_def)

lemma keeps_transaction [keep_intros]: "keeps I m \<Longrightarrow> keeps I (transaction m)"
  by (rule keepsI) (auto simp: transaction_def split: prod.splits sum.splits dest: keepsD)

subsection \<open>The schema's invariant\<close>

definition TERMINAL_STATUSES :: "pystr set" where
  "TERMINAL_STATUSES = {''completed'', ''failed'', ''timed_out'', ''cancelled''}"

lemma terminal_statuses [simp]:
  "''completed'' \<in> TERMINAL_STATUSES" "''failed'' \<in> TERMINAL_STATUSES"
  "''timed_out'' \<in> TERMINAL_STATUSES" "''cancelled'' \<in> TERMINAL_STATUSES"
  "''submitted'' \<notin> TERMINAL_STATUSES" "''queued'' \<notin> TERMINAL_STATUSES"
  "''running'' \<notin> TERMINAL_STATUSES" "''retry_scheduled'' \<notin> TERMINAL_STATUSES"
  "''stale_lease_recovered'' \<notin> TERMINAL_STATUSES" "''budget_blocked'' \<notin> TERMINAL_STATUSES"
  by (simp_all add: TERMINAL_STATUSES_def)

lemma terminal_varchar: "s \<in> TERMINAL_STATUSES \<Longrightarrow> varchar 32 s"
  by (auto simp: TERMINAL_STATUSES_def)

definition terminal_events :: "uuid \<Rightarrow> database \<Rightarrow> job_event_record list" where
  "terminal_events i db = filter (\<lambda>e. ev_job_id e = i \<and> ev_type e \<in> TERMINAL_STATUSES) (job_events db)"

definition terminal_finalizations :: "uuid \<Rightarrow> database \<Rightarrow> finalization_row list" where
  "terminal_finalizations i db =
     filter (\<lambda>f. fin_job_id f = i \<and> fin_event_type f \<in> TERMINAL_STATUSES) (job_finalizations db)"

definition finalized_as :: "database \<Rightarrow> uuid \<Rightarrow> pystr \<Rightarrow> bool" where
  "finalized_as db i s \<longleftrightarrow> (\<exists>f \<in> set (job_finalizations db). fin_job_id f = i \<and> fin_status f = s)"

text \<open>What the constraints of the schema keep: keys, checks and foreign keys.\<close>

definition schema_ok :: "database \<Rightarrow> bool" where
  "schema_ok db \<longleftrightarrow>
     distinct (map job_id (jobs db)) \<and> distinct (map job_idempotency_key (jobs db))
     \<and> (\<forall>r \<in> set (jobs db). job_columns_ok r \<and> 0 < job_timeout_seconds r \<and> 0 \<le> job_max_retries r)
     \<and> ev_job_id ` set (job_events db) \<subseteq> job_id ` set (jobs db)
     \<and> sorted_wrt (<) (map ev_id (job_events db)) \<and> (\<forall>e \<in> set (job_events db). ev_id e < event_seq db)
     \<and> distinct (map fin_job_id (job_finalizations db))
     \<and> fin_job_id ` set (job_finalizations db) \<subseteq> job_id ` set (jobs db)
     \<and> con_job_id ` set (conflict_attempts db) \<subseteq> job_id ` set (jobs db)"

text \<open>
  What the lifecycle code keeps on top: a terminal status is backed by the job's finalization, a
  finalization carries a terminal status, the terminal events of a job are as many as its
  finalizations with a terminal event type, and a conflict was recorded against a finalized job.
\<close>

definition lifecycle_ok :: "database \<Rightarrow> bool" where
  "lifecycle_ok db \<longleftrightarrow>
     (\<forall>r \<in> set (jobs db). job_status r \<in> TERMINAL_STATUSES \<longrightarrow> finalized_as db (job_id r) (job_status r))
     \<and> fin_status ` set (job_finalizations db) \<subseteq> TERMINAL_STATUSES
     \<and> (\<forall>i. length (terminal_events i db) = length (terminal_finalizations i db))
     \<and> con_job_id ` set (conflict_attempts db) \<subseteq> fin_job_id ` set (job_finalizations db)"

definition db_inv :: "database \<Rightarrow> bool" where
  "db_inv db \<longleftrightarrow> schema_ok db \<and> lifecycle_ok db"

lemma db_inv_empty: "db_inv (empty_database t)"
  by (simp add: db_inv_def schema_ok_def lifecycle_ok_def empty_database_def terminal_events_def
      terminal_finalizations_def)

lemma schema_okD:
  assumes "schema_ok db"
  shows "distinct (map job_id (jobs db))" "distinct (map job_idempotency_key (jobs db))"
    "distinct (map fin_job_id (job_finalizations db))"
  using assms by (simp_all add: schema_ok_def)

lemma at_most_one_terminal_finalization:
  assumes "schema_ok db"
  shows "length (terminal_finalizations i db) \<le> 1"
proof -
  let ?own = "filter (\<lambda>f. fin_job_id f = i) (job_finalizations db)"
  have "terminal_finalizations i db = filter (\<lambda>f. fin_event_type f \<in> TERMINAL_STATUSES) ?own"
    by (simp add: terminal_finalizations_def conj_commute)
  then have "length (terminal_finalizations i db) \<le> length ?own"
    by (simp only: length_filter_le)
  also have "\<dots> \<le> 1"
    by (rule length_filter_key_le_1) (rule schema_okD [OF assms])
  finally show ?thesis .
qed

lemma at_most_one_terminal_event: "db_inv db \<Longrightarrow> length (terminal_events i db) \<le> 1"
  by (simp add: db_inv_def lifecycle_ok_def at_most_one_terminal_finalization del: One_nat_def)

lemma finalized_as_unique:
  assumes "schema_ok db" and "finalized_as db i s" and "finalized_as db i s'"
  shows "s = s'"
proof -
  obtain f g where f: "f \<in> set (job_finalizations db)" "fin_job_id f = i" "fin_status f = s"
    and g: "g \<in> set (job_finalizations db)" "fin_job_id g = i" "fin_status g = s'"
    using assms(2,3) unfolding finalized_as_def by blast
  have "inj_on fin_job_id (set (job_finalizations db))"
    using schema_okD(3) [OF assms(1)] by (simp add: distinct_map)
  then have "f = g" using f g by (simp add: inj_on_def)
  then show ?thesis using f g by simp
qed

lemma select_by_id:
  assumes "schema_ok db"
  obtains (missing) "i \<notin> job_id ` set (jobs db)" "filter (\<lambda>r. job_id r = i) (jobs db) = []"
  | (found) r where "r \<in> set (jobs db)" "job_id r = i" "filter (\<lambda>r. job_id r = i) (jobs db) = [r]"
proof (cases rule: filter_key_cases [OF schema_okD(1) [OF assms], of i])
  case 1
  then show thesis by (intro missing) (auto simp: filter_empty_conv)
next
  case (2 x)
  then show thesis by (rule found)
qed

lemma select_by_key:
  assumes "schema_ok db"
  obtains (missing) "k \<notin> job_idempotency_key ` set (jobs db)"
      "filter (\<lambda>r. job_idempotency_key r = k) (jobs db) = []"
  | (found) r where "r \<in> set (jobs db)" "job_idempotency_key r = k"
      "filter (\<lambda>r. job_idempotency_key r = k) (jobs db) = [r]"
proof (cases rule: filter_key_cases [OF schema_okD(2) [OF assms], of k])
  case 1
  then show thesis by (intro missing) (auto simp: filter_empty_conv)
next
  case (2 x)
  then show thesis by (rule found)
qed

subsection \<open>Canonical payloads\<close>

text \<open>
  C34. The canonical text of a payload, which is what its hash is taken of, is a faithful name for it:
  reading the text gives the payload back with its keys in order, and two payloads have the same text
  exactly when they are the same dictionary, whatever the order their keys were inserted in.
\<close>

theorem canonical_payload_identifies:
  assumes "printable (float_repr pf) (float_parse pf) (JObj p)" "printable (float_repr pf) (float_parse pf) (JObj q)"
  shows "loads (float_parse pf) (canonical_payload pf p) = Some (canon (JObj p))
    \<and> (canonical_payload pf p = canonical_payload pf q \<longleftrightarrow> canon (JObj p) = canon (JObj q))"
  unfolding canonical_payload_def dumps_def
  using loads_dump [OF styles_ok(1) assms(1)] dump_eq_iff [OF styles_ok(1) assms] by blast

definition text_platform :: platform where
  "text_platform = \<lparr>float_repr = (\<lambda>_. ''0.5''), float_parse = (\<lambda>_. 1 / 2), sha256_hex = (\<lambda>s. take 64 s),
     hmac_sha256_hex = (\<lambda>k s. take 64 (k @ s))\<rparr>"

lemma canonical_payload_identifies_witness:
  "loads (float_parse text_platform) (canonical_payload text_platform [(''b'', JInt 1), (''a'', JNull)]) =
      Some (JObj [(''a'', JNull), (''b'', JInt 1)])
   \<and> canonical_payload text_platform [(''b'', JInt 1), (''a'', JNull)] =
      canonical_payload text_platform [(''a'', JNull), (''b'', JInt 1)]"
proof -
  let ?p = "[(''b'', JInt 1), (''a'', JNull)]" and ?q = "[(''a'', JNull), (''b'', JInt 1)]"
  have c: "canon (JObj ?p) = JObj ?q" "canon (JObj ?q) = JObj ?q" by simp_all
  have "loads (float_parse text_platform) (canonical_payload text_platform ?p) = Some (canon (JObj ?p)) \<and>
      (canonical_payload text_platform ?p = canonical_payload text_platform ?q \<longleftrightarrow> canon (JObj ?p) = canon (JObj ?q))"
    by (rule canonical_payload_identifies) simp_all
  then show ?thesis unfolding c by blast
qed

end
