(* ===== verification/Finalization.thy ===== *)
theory Finalization
  imports Storage "HOL-Library.Sublist"
begin

section \<open>Finalization\<close>

text \<open>
  \<open>storage/finalization.py\<close>: \<open>finalize_job\<close> records the terminal state of a job at most once. The
  insert of the finalization row decides: the caller whose row is inserted also writes the status
  and the event; every later caller is recorded as a conflict attempt. The two counters are the
  evidence queries over the tables.
\<close>

record finalization_result =
  fr_finalized :: bool
  fr_conflict_recorded :: bool

definition finalize_job :: "job_record \<Rightarrow> pystr \<Rightarrow> pystr \<Rightarrow> items \<Rightarrow> (database, finalization_result) prog" where
  "finalize_job job status event_type event_data =
     (if status \<notin> TERMINAL_STATUSES
      then raiseM (ValueError (repr_str status @ '' is not a terminal status''))
      else bindM (insert_finalization (job_id job) (job_run_id job) status event_type (job_trace_id job))
        (\<lambda>inserted. case inserted of
           None \<Rightarrow> thenM
             (insert_conflict_attempt (job_id job) (job_run_id job) status event_type (job_trace_id job))
             (returnM \<lparr>fr_finalized = False, fr_conflict_recorded = True\<rparr>)
         | Some _ \<Rightarrow> thenM (update_job_status (job_id job) status)
             (thenM (insert_event (job_id job) (job_run_id job) event_type event_data (job_trace_id job))
               (returnM \<lparr>fr_finalized = True, fr_conflict_recorded = False\<rparr>))))"

definition run_matches :: "uuid option \<Rightarrow> uuid \<Rightarrow> bool" where
  "run_matches run_id r = (case run_id of None \<Rightarrow> True | Some i \<Rightarrow> r = i)"

definition finalization_conflict_attempt_count :: "uuid option \<Rightarrow> (database, nat) prog" where
  "finalization_conflict_attempt_count run_id =
     getM (\<lambda>db. length (filter (\<lambda>c. run_matches run_id (con_run_id c)) (conflict_attempts db)))"

text \<open>\<open>SELECT count(*) FROM (SELECT job_id ... GROUP BY job_id HAVING count(*) > 1)\<close>\<close>

definition duplicate_terminal_event_count :: "uuid option \<Rightarrow> (database, nat) prog" where
  "duplicate_terminal_event_count run_id = getM (\<lambda>db.
     let rows = filter (\<lambda>e. ev_type e \<in> TERMINAL_STATUSES \<and> run_matches run_id (ev_run_id e)) (job_events db);
         job_ids = remdups (map ev_job_id rows)
     in length (filter (\<lambda>i. length (filter (\<lambda>e. ev_job_id e = i) rows) > 1) job_ids))"

subsection \<open>The rows a finalization writes\<close>

definition mk_finalization :: "database \<Rightarrow> job_record \<Rightarrow> pystr \<Rightarrow> pystr \<Rightarrow> finalization_row" where
  "mk_finalization db job status event_type = \<lparr>fin_job_id = job_id job, fin_run_id = job_run_id job,
     fin_status = status, fin_event_type = event_type, fin_trace_id = job_trace_id job,
     fin_created_at = db_now db\<rparr>"

definition mk_conflict :: "database \<Rightarrow> job_record \<Rightarrow> pystr \<Rightarrow> pystr \<Rightarrow> conflict_row" where
  "mk_conflict db job status event_type = \<lparr>con_id = conflict_seq db, con_job_id = job_id job,
     con_run_id = job_run_id job, con_status = status, con_event_type = event_type,
     con_trace_id = job_trace_id job, con_created_at = db_now db\<rparr>"

definition mk_event :: "database \<Rightarrow> job_record \<Rightarrow> pystr \<Rightarrow> items \<Rightarrow> job_event_record" where
  "mk_event db job event_type event_data = \<lparr>ev_id = event_seq db, ev_job_id = job_id job,
     ev_run_id = job_run_id job, ev_type = event_type, ev_data = event_data,
     ev_trace_id = job_trace_id job, ev_created_at = db_now db\<rparr>"

definition set_status :: "uuid \<Rightarrow> pystr \<Rightarrow> database \<Rightarrow> database" where
  "set_status i status db = db\<lparr>jobs := map (\<lambda>r. if job_id r = i
     then r\<lparr>job_status := status, job_updated_at := db_now db\<rparr> else r) (jobs db)\<rparr>"

definition add_event :: "job_record \<Rightarrow> pystr \<Rightarrow> items \<Rightarrow> database \<Rightarrow> database" where
  "add_event job event_type event_data db =
     db\<lparr>job_events := job_events db @ [mk_event db job event_type event_data],
        event_seq := Suc (event_seq db)\<rparr>"

definition add_finalization :: "job_record \<Rightarrow> pystr \<Rightarrow> pystr \<Rightarrow> database \<Rightarrow> database" where
  "add_finalization job status event_type db =
     db\<lparr>job_finalizations := job_finalizations db @ [mk_finalization db job status event_type]\<rparr>"

definition add_conflict :: "job_record \<Rightarrow> pystr \<Rightarrow> pystr \<Rightarrow> database \<Rightarrow> database" where
  "add_conflict job status event_type db =
     db\<lparr>conflict_attempts := conflict_attempts db @ [mk_conflict db job status event_type],
        conflict_seq := Suc (conflict_seq db)\<rparr>"

definition finalized_ids :: "database \<Rightarrow> uuid set" where
  "finalized_ids db = fin_job_id ` set (job_finalizations db)"

lemma job_ids_set_status [simp]: "map job_id (jobs (set_status i s db)) = map job_id (jobs db)"
  and job_keys_set_status [simp]:
    "map job_idempotency_key (jobs (set_status i s db)) = map job_idempotency_key (jobs db)"
  by (simp_all add: set_status_def)

lemma job_id_set_set_status [simp]: "job_id ` set (jobs (set_status i s db)) = job_id ` set (jobs db)"
  by (metis job_ids_set_status set_map)

lemma set_status_sel [simp]:
  "job_events (set_status i s db) = job_events db"
  "job_finalizations (set_status i s db) = job_finalizations db"
  "conflict_attempts (set_status i s db) = conflict_attempts db"
  "event_seq (set_status i s db) = event_seq db"
  "conflict_seq (set_status i s db) = conflict_seq db"
  "db_now (set_status i s db) = db_now db"
  by (simp_all add: set_status_def)

lemma add_event_sel [simp]:
  "jobs (add_event job t d db) = jobs db"
  "job_finalizations (add_event job t d db) = job_finalizations db"
  "conflict_attempts (add_event job t d db) = conflict_attempts db"
  "job_events (add_event job t d db) = job_events db @ [mk_event db job t d]"
  "event_seq (add_event job t d db) = Suc (event_seq db)"
  "db_now (add_event job t d db) = db_now db"
  by (simp_all add: add_event_def)

lemma add_finalization_sel [simp]:
  "jobs (add_finalization job s t db) = jobs db"
  "job_events (add_finalization job s t db) = job_events db"
  "conflict_attempts (add_finalization job s t db) = conflict_attempts db"
  "job_finalizations (add_finalization job s t db) = job_finalizations db @ [mk_finalization db job s t]"
  "event_seq (add_finalization job s t db) = event_seq db"
  "db_now (add_finalization job s t db) = db_now db"
  by (simp_all add: add_finalization_def)

lemma add_conflict_sel [simp]:
  "jobs (add_conflict job s t db) = jobs db"
  "job_events (add_conflict job s t db) = job_events db"
  "job_finalizations (add_conflict job s t db) = job_finalizations db"
  "conflict_attempts (add_conflict job s t db) = conflict_attempts db @ [mk_conflict db job s t]"
  "event_seq (add_conflict job s t db) = event_seq db"
  "db_now (add_conflict job s t db) = db_now db"
  by (simp_all add: add_conflict_def)

lemma mk_event_sel [simp]:
  "ev_id (mk_event db job t d) = event_seq db" "ev_job_id (mk_event db job t d) = job_id job"
  "ev_run_id (mk_event db job t d) = job_run_id job" "ev_type (mk_event db job t d) = t"
  "ev_data (mk_event db job t d) = d"
  by (simp_all add: mk_event_def)

lemma mk_finalization_sel [simp]:
  "fin_job_id (mk_finalization db job s t) = job_id job" "fin_status (mk_finalization db job s t) = s"
  "fin_event_type (mk_finalization db job s t) = t"
  by (simp_all add: mk_finalization_def)

lemma mk_conflict_sel [simp]: "con_job_id (mk_conflict db job s t) = job_id job"
  "con_run_id (mk_conflict db job s t) = job_run_id job"
  by (simp_all add: mk_conflict_def)

subsection \<open>Each statement as a change of the database\<close>

text \<open>
  A job handed to the lifecycle code was loaded from the table; \<open>job_known\<close> says so.
\<close>

definition job_known :: "database \<Rightarrow> job_record \<Rightarrow> bool" where
  "job_known db job \<longleftrightarrow> job_id job \<in> job_id ` set (jobs db) \<and> varchar 128 (job_trace_id job)"

lemma job_known_member: "schema_ok db \<Longrightarrow> job \<in> set (jobs db) \<Longrightarrow> job_known db job"
  by (simp add: job_known_def schema_ok_def job_columns_ok_def)

lemma job_known_change [simp]:
  "job_known (set_status i s db) job = job_known db job"
  "job_known (add_event j t d db) job = job_known db job"
  "job_known (add_finalization j s' t' db) job = job_known db job"
  "job_known (add_conflict j s' t' db) job = job_known db job"
  by (simp_all add: job_known_def)

lemma update_job_status_eq:
  "varchar 32 s \<Longrightarrow> update_job_status i s db = (Inr (), set_status i s db)"
  by (simp add: update_job_status_def set_status_def)

lemma insert_event_eq:
  "job_known db job \<Longrightarrow> varchar 64 t \<Longrightarrow>
     insert_event (job_id job) (job_run_id job) t d (job_trace_id job) db = (Inr (), add_event job t d db)"
  by (simp add: insert_event_def add_event_def mk_event_def job_known_def)

lemma insert_conflict_eq:
  "job_known db job \<Longrightarrow> varchar 32 s \<Longrightarrow> varchar 64 t \<Longrightarrow>
     insert_conflict_attempt (job_id job) (job_run_id job) s t (job_trace_id job) db = (Inr (), add_conflict job s t db)"
  by (simp add: insert_conflict_attempt_def add_conflict_def mk_conflict_def job_known_def)

lemma insert_finalization_eq:
  "job_known db job \<Longrightarrow> varchar 32 s \<Longrightarrow> varchar 64 t \<Longrightarrow>
     insert_finalization (job_id job) (job_run_id job) s t (job_trace_id job) db =
       (if job_id job \<in> finalized_ids db then (Inr None, db)
        else (Inr (Some (job_id job)), add_finalization job s t db))"
  by (simp add: insert_finalization_def add_finalization_def mk_finalization_def job_known_def finalized_ids_def)

lemmas statement_eqs = update_job_status_eq insert_event_eq insert_conflict_eq insert_finalization_eq

subsection \<open>What finalize_job does\<close>

definition finalize_effect :: "job_record \<Rightarrow> pystr \<Rightarrow> pystr \<Rightarrow> items \<Rightarrow> database \<Rightarrow> database" where
  "finalize_effect job s t d db =
     (if job_id job \<in> finalized_ids db then add_conflict job s t db
      else add_event job t d (set_status (job_id job) s (add_finalization job s t db)))"

lemma finalize_job_eq:
  assumes "s \<in> TERMINAL_STATUSES" "varchar 64 t" "job_known db job"
  shows "finalize_job job s t d db =
    (Inr \<lparr>fr_finalized = job_id job \<notin> finalized_ids db, fr_conflict_recorded = job_id job \<in> finalized_ids db\<rparr>,
     finalize_effect job s t d db)"
  using assms terminal_varchar [of s]
  by (simp add: finalize_job_def bindM_eq thenM_eq statement_eqs finalize_effect_def)

lemma finalize_job_not_terminal:
  "s \<notin> TERMINAL_STATUSES \<Longrightarrow>
     finalize_job job s t d db = (Inl (ValueError (repr_str s @ '' is not a terminal status'')), db)"
  by (simp add: finalize_job_def)

lemma finalized_ids_effect: "finalized_ids (finalize_effect job s t d db) = insert (job_id job) (finalized_ids db)"
  by (auto simp: finalize_effect_def finalized_ids_def)

lemma finalize_effect_sel:
  "job_id ` set (jobs (finalize_effect job s t d db)) = job_id ` set (jobs db)"
  "db_now (finalize_effect job s t d db) = db_now db"
  by (simp_all add: finalize_effect_def)

subsection \<open>The invariant\<close>

lemma job_columns_ok_set: "job_columns_ok r \<Longrightarrow> varchar 32 s \<Longrightarrow> job_columns_ok (r\<lparr>job_status := s, job_updated_at := t\<rparr>)"
  by (simp add: job_columns_ok_def)

lemma set_jobs_set_status:
  "set (jobs (set_status i s db)) =
     (\<lambda>r. if job_id r = i then r\<lparr>job_status := s, job_updated_at := db_now db\<rparr> else r) ` set (jobs db)"
  by (simp add: set_status_def)

lemma ball_jobs_set_status:
  "(\<forall>r \<in> set (jobs (set_status i s db)). P r) \<longleftrightarrow>
     (\<forall>r \<in> set (jobs db). P (if job_id r = i then r\<lparr>job_status := s, job_updated_at := db_now db\<rparr> else r))"
  by (simp only: set_jobs_set_status ball_simps)

lemma schema_ok_set_status: "schema_ok db \<Longrightarrow> varchar 32 s \<Longrightarrow> schema_ok (set_status i s db)"
  by (simp add: schema_ok_def ball_jobs_set_status job_columns_ok_set)

lemma schema_ok_add_event: "schema_ok db \<Longrightarrow> job_known db job \<Longrightarrow> schema_ok (add_event job t d db)"
  unfolding schema_ok_def by (auto simp: job_known_def sorted_wrt_append less_SucI)

lemma schema_ok_add_finalization:
  "schema_ok db \<Longrightarrow> job_known db job \<Longrightarrow> job_id job \<notin> finalized_ids db \<Longrightarrow> schema_ok (add_finalization job s t db)"
  unfolding schema_ok_def by (auto simp: job_known_def finalized_ids_def)

lemma schema_ok_add_conflict: "schema_ok db \<Longrightarrow> job_known db job \<Longrightarrow> schema_ok (add_conflict job s t db)"
  unfolding schema_ok_def by (auto simp: job_known_def)

lemma schema_ok_finalize_effect:
  "schema_ok db \<Longrightarrow> job_known db job \<Longrightarrow> varchar 32 s \<Longrightarrow> schema_ok (finalize_effect job s t d db)"
  by (simp add: finalize_effect_def schema_ok_add_conflict schema_ok_add_event schema_ok_set_status
      schema_ok_add_finalization)

lemma terminal_counts:
  "terminal_events i (set_status j s db) = terminal_events i db"
  "terminal_finalizations i (set_status j s db) = terminal_finalizations i db"
  "terminal_events i (add_finalization job s t db) = terminal_events i db"
  "terminal_finalizations i (add_event job t d db) = terminal_finalizations i db"
  "terminal_events i (add_conflict job s t db) = terminal_events i db"
  "terminal_finalizations i (add_conflict job s t db) = terminal_finalizations i db"
  "terminal_events i (add_event job t d db) =
     terminal_events i db @ (if job_id job = i \<and> t \<in> TERMINAL_STATUSES then [mk_event db job t d] else [])"
  "terminal_finalizations i (add_finalization job s t db) = terminal_finalizations i db @
     (if job_id job = i \<and> t \<in> TERMINAL_STATUSES then [mk_finalization db job s t] else [])"
  by (simp_all add: terminal_events_def terminal_finalizations_def)

lemma finalized_as_change [simp]:
  "finalized_as (set_status j s' db) i s = finalized_as db i s"
  "finalized_as (add_event job t d db) i s = finalized_as db i s"
  "finalized_as (add_conflict job s' t db) i s = finalized_as db i s"
  "finalized_as (add_finalization job s' t db) i s = (finalized_as db i s \<or> job_id job = i \<and> s' = s)"
  by (auto simp: finalized_as_def)

text \<open>
  A finalization keeps the lifecycle invariant, and so does a change of status that is not to a
  terminal one with an event that is not terminal either.
\<close>

lemma lifecycle_ok_finalize_effect:
  assumes "lifecycle_ok db" "s \<in> TERMINAL_STATUSES"
  shows "lifecycle_ok (finalize_effect job s t d db)"
  using assms
  by (auto simp: lifecycle_ok_def finalize_effect_def terminal_counts set_jobs_set_status
      finalized_ids_def)

definition state_event_effect :: "job_record \<Rightarrow> pystr \<Rightarrow> pystr \<Rightarrow> items \<Rightarrow> database \<Rightarrow> database" where
  "state_event_effect job s t d db = add_event job t d (set_status (job_id job) s db)"

lemma lifecycle_ok_state_event:
  assumes "lifecycle_ok db" "s \<notin> TERMINAL_STATUSES" "t \<notin> TERMINAL_STATUSES"
  shows "lifecycle_ok (state_event_effect job s t d db)"
  using assms
  by (auto simp: lifecycle_ok_def state_event_effect_def terminal_counts set_jobs_set_status)

lemma schema_ok_state_event:
  "schema_ok db \<Longrightarrow> job_known db job \<Longrightarrow> varchar 32 s \<Longrightarrow> schema_ok (state_event_effect job s t d db)"
  by (simp add: state_event_effect_def schema_ok_add_event schema_ok_set_status)

lemma finalize_job_cases:
  obtains (unchanged) e where "finalize_job job s t d db = (Inl e, db)"
  | (effect) "s \<in> TERMINAL_STATUSES" "varchar 64 t" "job_known db job"
      "finalize_job job s t d db =
        (Inr \<lparr>fr_finalized = job_id job \<notin> finalized_ids db, fr_conflict_recorded = job_id job \<in> finalized_ids db\<rparr>,
         finalize_effect job s t d db)"
proof (cases "s \<in> TERMINAL_STATUSES \<and> varchar 64 t \<and> job_known db job")
  case True
  then show thesis using effect finalize_job_eq by blast
next
  case False
  have "\<exists>e. finalize_job job s t d db = (Inl e, db)"
  proof (cases "s \<in> TERMINAL_STATUSES")
    case terminal: True
    with False show ?thesis
      by (auto simp: finalize_job_def bindM_eq thenM_eq insert_finalization_def insert_conflict_attempt_def
          job_known_def terminal_varchar)
  qed (simp add: finalize_job_not_terminal)
  with unchanged show thesis by blast
qed

lemma keeps_finalize_job [keep_intros]: "keeps db_inv (finalize_job job s t d)"
proof (rule keepsI)
  fix db assume inv: "db_inv db"
  show "db_inv (snd (finalize_job job s t d db))"
    using inv by (cases rule: finalize_job_cases [of job s t d db])
      (simp_all add: db_inv_def schema_ok_finalize_effect lifecycle_ok_finalize_effect terminal_varchar)
qed

lemma finalize_job_once:
  assumes "finalize_job job s t d db = (Inr r, db')"
  shows "finalized_ids db' = insert (job_id job) (finalized_ids db)" "fr_finalized r = (job_id job \<notin> finalized_ids db)"
  using assms by (cases rule: finalize_job_cases [of job s t d db]; auto simp: finalized_ids_effect)+

subsection \<open>Properties\<close>

lemma finalize_again:
  assumes "job_id job \<in> finalized_ids db" "job_known db job" "list_all (\<lambda>(s, t, d). s \<in> TERMINAL_STATUSES \<and> varchar 64 t) xs"
  shows "\<exists>db'. mapM (\<lambda>(s, t, d). finalize_job job s t d) xs db =
      (Inr (replicate (length xs) \<lparr>fr_finalized = False, fr_conflict_recorded = True\<rparr>), db')
    \<and> db' = db\<lparr>conflict_attempts := conflict_attempts db', conflict_seq := conflict_seq db'\<rparr>
    \<and> map con_status (conflict_attempts db') = map con_status (conflict_attempts db) @ map fst xs"
  using assms
proof (induction xs arbitrary: db)
  case Nil
  then show ?case by simp
next
  case (Cons x xs)
  obtain s t d where x: "x = (s, t, d)" by (cases x)
  let ?db = "add_conflict job s t db"
  have step: "finalize_job job s t d db = (Inr \<lparr>fr_finalized = False, fr_conflict_recorded = True\<rparr>, ?db)"
    using Cons.prems x by (simp add: finalize_job_eq finalize_effect_def)
  have "job_id job \<in> finalized_ids ?db" "job_known ?db job"
    using Cons.prems by (simp_all add: finalized_ids_def)
  from Cons.IH [OF this] Cons.prems x obtain db' where
    rest: "mapM (\<lambda>(s, t, d). finalize_job job s t d) xs ?db =
       (Inr (replicate (length xs) \<lparr>fr_finalized = False, fr_conflict_recorded = True\<rparr>), db')"
    and frame: "db' = ?db\<lparr>conflict_attempts := conflict_attempts db', conflict_seq := conflict_seq db'\<rparr>"
    and cons: "map con_status (conflict_attempts db') = map con_status (conflict_attempts ?db) @ map fst xs"
    by auto
  have "db' = db\<lparr>conflict_attempts := conflict_attempts db', conflict_seq := conflict_seq db'\<rparr>"
    by (subst frame) (simp add: add_conflict_def)
  with step rest cons x show ?case
    by (intro exI [of _ db']) (simp add: bindM_eq mk_conflict_def)
qed

text \<open>
  C11. However many terminal outcomes are reported for a job that is not finalized yet, in whatever
  mixture of statuses, exactly the first report finalizes it: the registry then has that one
  finalization row, that one event and that status, and each later report is a row of
  \<open>finalization_conflict_attempts\<close> and changes nothing else.
\<close>

theorem finalize_job_first_wins:
  assumes "db_inv db" "job \<in> set (jobs db)" "job_id job \<notin> finalized_ids db"
    "list_all (\<lambda>(s, t, d). s \<in> TERMINAL_STATUSES \<and> varchar 64 t) ((s, t, d) # reports)"
  shows "\<exists>db'. mapM (\<lambda>(s, t, d). finalize_job job s t d) ((s, t, d) # reports) db =
      (Inr (\<lparr>fr_finalized = True, fr_conflict_recorded = False\<rparr>
            # replicate (length reports) \<lparr>fr_finalized = False, fr_conflict_recorded = True\<rparr>), db')
    \<and> job_finalizations db' = job_finalizations db @ [mk_finalization db job s t]
    \<and> job_events db' = job_events db @ [mk_event db job t d]
    \<and> jobs db' = jobs (set_status (job_id job) s db)
    \<and> map con_status (conflict_attempts db') = map con_status (conflict_attempts db) @ map fst reports"
proof -
  have known: "job_known db job" using assms by (simp add: db_inv_def job_known_member)
  let ?db = "finalize_effect job s t d db"
  have step: "finalize_job job s t d db = (Inr \<lparr>fr_finalized = True, fr_conflict_recorded = False\<rparr>, ?db)"
    using assms known by (simp add: finalize_job_eq)
  have "job_id job \<in> finalized_ids ?db" "job_known ?db job"
    using known by (simp_all add: finalized_ids_effect finalize_effect_sel job_known_def)
  from finalize_again [OF this, of reports] assms(4) obtain db' where
    rest: "mapM (\<lambda>(s, t, d). finalize_job job s t d) reports ?db =
       (Inr (replicate (length reports) \<lparr>fr_finalized = False, fr_conflict_recorded = True\<rparr>), db')"
    and frame: "db' = ?db\<lparr>conflict_attempts := conflict_attempts db', conflict_seq := conflict_seq db'\<rparr>"
    and cons: "map con_status (conflict_attempts db') = map con_status (conflict_attempts ?db) @ map fst reports"
    by auto
  have "job_finalizations db' = job_finalizations ?db" "job_events db' = job_events ?db" "jobs db' = jobs ?db"
    by (subst frame, simp)+
  with step rest cons assms(3) show ?thesis
    by (intro exI [of _ db']) (simp add: bindM_eq finalize_effect_def mk_event_def set_status_def add_finalization_def)
qed

definition example_db :: database where
  "example_db = (empty_database 7)\<lparr>jobs := [\<lparr>job_id = 1, job_run_id = 9, job_type = ''stub'', job_payload = [],
     job_payload_hash = ''h'', job_idempotency_key = ''k'', job_status = ''running'', job_timeout_seconds = 30,
     job_max_retries = 1, job_trace_id = ''t'', job_budget_cents = None, job_created_at = 1,
     job_updated_at = 2\<rparr>]\<rparr>"

definition example_job :: job_record where
  "example_job = hd (jobs example_db)"

lemma example_db_ok: "db_inv example_db" "example_job \<in> set (jobs example_db)"
    "job_id example_job \<notin> finalized_ids example_db"
  by (simp_all add: example_db_def example_job_def db_inv_def schema_ok_def lifecycle_ok_def empty_database_def
      job_columns_ok_def int4_def terminal_events_def terminal_finalizations_def finalized_ids_def)

lemma finalize_job_first_wins_witness:
  "\<exists>db'. mapM (\<lambda>(s, t, d). finalize_job example_job s t d)
       [(''completed'', ''completed'', []), (''failed'', ''failed'', []), (''completed'', ''completed'', [])] example_db =
     (Inr [\<lparr>fr_finalized = True, fr_conflict_recorded = False\<rparr>, \<lparr>fr_finalized = False, fr_conflict_recorded = True\<rparr>,
           \<lparr>fr_finalized = False, fr_conflict_recorded = True\<rparr>], db')
   \<and> job_finalizations db' = [mk_finalization example_db example_job ''completed'' ''completed'']"
  using finalize_job_first_wins [OF example_db_ok, of "''completed''" "''completed''" "[]"
      "[(''failed'', ''failed'', []), (''completed'', ''completed'', [])]"]
  by (auto simp: example_db_def empty_database_def numeral_2_eq_2)

text \<open>
  C19. Where the lifecycle invariant holds, the evidence query for duplicate terminal events counts
  none, for the whole registry and for every run.
\<close>

theorem duplicate_terminal_event_count_zero:
  assumes "db_inv db"
  shows "duplicate_terminal_event_count run_id db = (Inr 0, db)"
proof -
  let ?rows = "filter (\<lambda>e. ev_type e \<in> TERMINAL_STATUSES \<and> run_matches run_id (ev_run_id e)) (job_events db)"
  have "length (filter (\<lambda>e. ev_job_id e = i) ?rows) \<le> 1" for i
  proof -
    have "length (filter (\<lambda>e. ev_job_id e = i) ?rows) =
        length (filter (\<lambda>e. run_matches run_id (ev_run_id e)) (terminal_events i db))"
      by (simp add: terminal_events_def conj_ac)
    also have "\<dots> \<le> length (terminal_events i db)" by (rule length_filter_le)
    also have "\<dots> \<le> 1" by (rule at_most_one_terminal_event [OF assms])
    finally show ?thesis .
  qed
  then show ?thesis
    by (simp add: duplicate_terminal_event_count_def Let_def linorder_not_less)
qed

lemma duplicate_terminal_event_count_zero_witness:
  "duplicate_terminal_event_count (Some 9) example_db = (Inr 0, example_db)"
  by (rule duplicate_terminal_event_count_zero) (rule example_db_ok)

end
