(* ===== verification/Repository.thy ===== *)
theory Repository
  imports Finalization
begin

section \<open>The job repository\<close>

text \<open>
  \<open>storage/repositories.py\<close>: \<open>create_job\<close> looks the idempotency key up and inserts the job with its
  \<open>submitted\<close> event in one transaction; the reads map rows to records.
\<close>

definition get_by_idempotency_key :: "pystr \<Rightarrow> (database, job_record option) prog" where
  "get_by_idempotency_key key = bindM (select_jobs (\<lambda>r. job_idempotency_key r = key)) one_or_none"

definition list_events_for_job :: "uuid \<Rightarrow> (database, job_event_record list) prog" where
  "list_events_for_job i = getM (\<lambda>db. sort_key ev_id (filter (\<lambda>e. ev_job_id e = i) (job_events db)))"

definition submission_row :: "platform \<Rightarrow> job_submission \<Rightarrow> job_record" where
  "submission_row pf sub = \<lparr>job_id = sub_job_id sub, job_run_id = sub_run_id sub,
     job_type = sub_job_type sub, job_payload = sub_payload sub,
     job_payload_hash = submission_payload_hash pf sub,
     job_idempotency_key = sub_idempotency_key sub, job_status = ''submitted'',
     job_timeout_seconds = sub_timeout_seconds sub, job_max_retries = sub_max_retries sub,
     job_trace_id = sub_trace_id sub, job_budget_cents = sub_budget_cents sub,
     job_created_at = 0, job_updated_at = 0\<rparr>"

definition submitted_event_data :: "job_record \<Rightarrow> items" where
  "submitted_event_data job = [(''idempotency_key'', JStr (job_idempotency_key job)),
     (''timeout_seconds'', JInt (job_timeout_seconds job)), (''max_retries'', JInt (job_max_retries job))]"

definition create_job :: "platform \<Rightarrow> job_submission \<Rightarrow> (database, job_record) prog" where
  "create_job pf sub = transaction
     (bindM (get_by_idempotency_key (sub_idempotency_key sub)) (\<lambda>existing. case existing of
        Some r \<Rightarrow> if job_payload_hash r \<noteq> submission_payload_hash pf sub
                  then raiseM (IdempotencyConflictError (sub_idempotency_key sub))
                  else returnM r
      | None \<Rightarrow> bindM (insert_job (submission_row pf sub)) (\<lambda>job.
          thenM (insert_event (job_id job) (job_run_id job) ''submitted'' (submitted_event_data job) (job_trace_id job))
                (returnM job))))"

subsection \<open>Lookup\<close>

lemma get_by_key_cases:
  assumes "schema_ok db"
  obtains (missing) "k \<notin> job_idempotency_key ` set (jobs db)" "get_by_idempotency_key k db = (Inr None, db)"
  | (found) r where "r \<in> set (jobs db)" "job_idempotency_key r = k" "get_by_idempotency_key k db = (Inr (Some r), db)"
proof (cases rule: select_by_key [OF assms, of k])
  case 1
  then show thesis by (intro missing) (simp_all add: get_by_idempotency_key_def select_jobs_def)
next
  case (2 r)
  then show thesis by (intro found) (simp_all add: get_by_idempotency_key_def select_jobs_def)
qed

lemma get_by_key_missing:
  "k \<notin> job_idempotency_key ` set (jobs db) \<Longrightarrow> get_by_idempotency_key k db = (Inr None, db)"
proof -
  assume "k \<notin> job_idempotency_key ` set (jobs db)"
  then have "filter (\<lambda>r. job_idempotency_key r = k) (jobs db) = []" by (auto simp: filter_empty_conv)
  then show ?thesis by (simp add: get_by_idempotency_key_def select_jobs_def)
qed

lemma get_by_key_member:
  assumes "schema_ok db" "r \<in> set (jobs db)"
  shows "get_by_idempotency_key (job_idempotency_key r) db = (Inr (Some r), db)"
proof -
  have "filter (\<lambda>x. job_idempotency_key x = job_idempotency_key r) (jobs db) = [r]"
    by (rule filter_key_in [OF schema_okD(2) [OF assms(1)] assms(2)])
  then show ?thesis by (simp add: get_by_idempotency_key_def select_jobs_def)
qed

subsection \<open>A fresh job\<close>

definition stored_row :: "platform \<Rightarrow> job_submission \<Rightarrow> database \<Rightarrow> job_record" where
  "stored_row pf sub db = (submission_row pf sub)\<lparr>job_created_at := db_now db, job_updated_at := db_now db\<rparr>"

definition insertable :: "platform \<Rightarrow> job_submission \<Rightarrow> database \<Rightarrow> bool" where
  "insertable pf sub db \<longleftrightarrow> job_columns_ok (submission_row pf sub) \<and> 0 < sub_timeout_seconds sub
     \<and> 0 \<le> sub_max_retries sub \<and> sub_job_id sub \<notin> job_id ` set (jobs db)"

definition add_job :: "job_record \<Rightarrow> database \<Rightarrow> database" where
  "add_job r db = db\<lparr>jobs := jobs db @ [r]\<rparr>"

lemma add_job_sel [simp]:
  "jobs (add_job r db) = jobs db @ [r]" "job_events (add_job r db) = job_events db"
  "job_finalizations (add_job r db) = job_finalizations db"
  "conflict_attempts (add_job r db) = conflict_attempts db" "event_seq (add_job r db) = event_seq db"
  by (simp_all add: add_job_def)

lemma stored_row_sel [simp]:
  "job_id (stored_row pf sub db) = sub_job_id sub" "job_run_id (stored_row pf sub db) = sub_run_id sub"
  "job_idempotency_key (stored_row pf sub db) = sub_idempotency_key sub"
  "job_status (stored_row pf sub db) = ''submitted''"
  "job_payload (stored_row pf sub db) = sub_payload sub"
  "job_payload_hash (stored_row pf sub db) = submission_payload_hash pf sub"
  "job_timeout_seconds (stored_row pf sub db) = sub_timeout_seconds sub"
  "job_max_retries (stored_row pf sub db) = sub_max_retries sub"
  "job_trace_id (stored_row pf sub db) = sub_trace_id sub"
  by (simp_all add: stored_row_def submission_row_def)

definition create_effect :: "platform \<Rightarrow> job_submission \<Rightarrow> database \<Rightarrow> database" where
  "create_effect pf sub db = (let row = stored_row pf sub db
     in add_event row ''submitted'' (submitted_event_data row) (add_job row db))"

lemma insert_job_fresh:
  assumes "sub_idempotency_key sub \<notin> job_idempotency_key ` set (jobs db)"
  shows "insertable pf sub db \<Longrightarrow>
      insert_job (submission_row pf sub) db = (Inr (stored_row pf sub db), add_job (stored_row pf sub db) db)"
    and "\<not> insertable pf sub db \<Longrightarrow> \<exists>e. insert_job (submission_row pf sub) db = (Inl e, db)"
  using assms
  by (auto simp: insertable_def insert_job_def submission_row_def stored_row_def add_job_def Let_def)

lemma job_known_fresh:
  "job_columns_ok (submission_row pf sub) \<Longrightarrow> job_known (add_job (stored_row pf sub db) db) (stored_row pf sub db)"
  by (simp add: job_known_def job_columns_ok_def submission_row_def)

lemma create_job_fresh:
  assumes "schema_ok db" "sub_idempotency_key sub \<notin> job_idempotency_key ` set (jobs db)" "insertable pf sub db"
  shows "create_job pf sub db = (Inr (stored_row pf sub db), create_effect pf sub db)"
proof -
  note get = get_by_key_missing [OF assms(2)]
  have known: "job_known (add_job (stored_row pf sub db) db) (stored_row pf sub db)"
    using assms(3) by (intro job_known_fresh) (simp add: insertable_def)
  note ev = insert_event_eq [OF known, simplified]
  show ?thesis
    by (simp add: create_job_def transaction_def bindM_eq thenM_eq get insert_job_fresh(1) [OF assms(2,3)]
        ev create_effect_def Let_def)
qed

lemma create_job_rejected:
  assumes "schema_ok db" "sub_idempotency_key sub \<notin> job_idempotency_key ` set (jobs db)" "\<not> insertable pf sub db"
  shows "\<exists>e. create_job pf sub db = (Inl e, db)"
proof -
  note get = get_by_key_missing [OF assms(2)]
  obtain e where "insert_job (submission_row pf sub) db = (Inl e, db)"
    using insert_job_fresh(2) [OF assms(2,3)] by blast
  with get show ?thesis by (simp add: create_job_def transaction_def bindM_eq)
qed

lemma create_job_existing:
  assumes "schema_ok db" "r \<in> set (jobs db)" "job_idempotency_key r = sub_idempotency_key sub"
  shows "create_job pf sub db =
    (if job_payload_hash r = submission_payload_hash pf sub then Inr r
     else Inl (IdempotencyConflictError (sub_idempotency_key sub)), db)"
  using get_by_key_member [OF assms(1,2)] assms(3)
  by (simp add: create_job_def transaction_def bindM_eq)

lemma schema_ok_create_effect:
  assumes "schema_ok db" "sub_idempotency_key sub \<notin> job_idempotency_key ` set (jobs db)" "insertable pf sub db"
  shows "schema_ok (create_effect pf sub db)"
proof -
  have "job_columns_ok (stored_row pf sub db)"
    using assms(3) by (simp add: insertable_def stored_row_def job_columns_ok_def)
  then have "schema_ok (add_job (stored_row pf sub db) db)"
    using assms by (auto simp: schema_ok_def insertable_def)
  then show ?thesis
    unfolding create_effect_def Let_def
    using assms(3) by (intro schema_ok_add_event job_known_fresh) (auto simp: insertable_def)
qed

lemma lifecycle_ok_create_effect: "lifecycle_ok db \<Longrightarrow> lifecycle_ok (create_effect pf sub db)"
  by (simp add: lifecycle_ok_def create_effect_def Let_def terminal_counts)
     (simp add: terminal_events_def terminal_finalizations_def finalized_as_def)

lemma keeps_create_job [keep_intros]: "keeps db_inv (create_job pf sub)"
proof (rule keepsI)
  fix db assume inv: "db_inv db"
  then have schema: "schema_ok db" and life: "lifecycle_ok db" by (simp_all add: db_inv_def)
  show "db_inv (snd (create_job pf sub db))"
  proof (cases rule: get_by_key_cases [OF schema, of "sub_idempotency_key sub"])
    case 1
    then show ?thesis
      using create_job_rejected [OF schema] create_job_fresh [OF schema] schema_ok_create_effect [OF schema]
        lifecycle_ok_create_effect [OF life] inv
      by (cases "insertable pf sub db") (fastforce simp: db_inv_def)+
  next
    case (2 r)
    with inv show ?thesis by (simp add: create_job_existing [OF schema])
  qed
qed

subsection \<open>Properties\<close>

text \<open>
  A submission under an unused idempotency key is stored in one step: the registry gains the
  job in status \<open>submitted\<close>, stamped with the transaction's time, and its \<open>submitted\<close> event, and
  nothing else changes; when the schema refuses the row (a column too long, a non-positive timeout,
  negative retries, an id in use) the call raises and the registry is as before, without either row.
\<close>

theorem create_job_new:
  assumes "schema_ok db" "\<forall>r \<in> set (jobs db). job_idempotency_key r \<noteq> sub_idempotency_key sub"
  shows "if insertable pf sub db
    then create_job pf sub db = (Inr (stored_row pf sub db), db\<lparr>
           jobs := jobs db @ [stored_row pf sub db],
           job_events := job_events db @ [mk_event db (stored_row pf sub db) ''submitted''
             [(''idempotency_key'', JStr (sub_idempotency_key sub)),
              (''timeout_seconds'', JInt (sub_timeout_seconds sub)), (''max_retries'', JInt (sub_max_retries sub))]],
           event_seq := Suc (event_seq db)\<rparr>)
    else \<exists>e. create_job pf sub db = (Inl e, db)"
proof -
  have "sub_idempotency_key sub \<notin> job_idempotency_key ` set (jobs db)" using assms(2) by auto
  from create_job_fresh [OF assms(1) this] create_job_rejected [OF assms(1) this] show ?thesis
    by (simp add: create_effect_def Let_def add_event_def add_job_def mk_event_def submitted_event_data_def)
qed

definition example_platform :: platform where
  "example_platform = \<lparr>float_repr = (\<lambda>_. ''0.5''), float_parse = (\<lambda>_. 1 / 2),
     sha256_hex = (\<lambda>s. take 64 s), hmac_sha256_hex = (\<lambda>k s. take 64 (k @ s))\<rparr>"

definition example_submission :: job_submission where
  "example_submission = \<lparr>sub_job_type = ''stub'', sub_payload = [(''mode'', JStr ''success'')],
     sub_idempotency_key = ''demo'', sub_timeout_seconds = 30, sub_max_retries = 0, sub_trace_id = ''t'',
     sub_budget_cents = None, sub_job_id = 5, sub_run_id = 6\<rparr>"

lemma example_insertable: "insertable example_platform example_submission example_db"
  by (simp add: insertable_def example_submission_def example_db_def job_columns_ok_def submission_row_def
      int4_def submission_payload_hash_def payload_sha256_def example_platform_def)

lemma create_job_new_witness:
  "\<exists>db'. create_job example_platform example_submission example_db =
      (Inr (stored_row example_platform example_submission example_db), db') \<and> length (jobs db') = 2"
proof -
  have "\<forall>r \<in> set (jobs example_db). job_idempotency_key r \<noteq> sub_idempotency_key example_submission"
    by (simp add: example_db_def example_submission_def)
  from create_job_new [OF _ this, of example_platform] example_db_ok(1) example_insertable show ?thesis
    by (simp add: db_inv_def) (simp add: example_db_def)
qed

text \<open>
  C24. Submission is idempotent. Once a submission has returned a job, every later submission under
  the same key, whatever has happened to the job since (its status and times may differ), leaves the
  registry alone: it returns the stored job when the payload hash is the same and raises
  \<open>IdempotencyConflictError\<close> when it is not.
\<close>

theorem create_job_idempotent:
  assumes "schema_ok db" "create_job pf sub db = (Inr r, db')"
    and "schema_ok db2" "r2 \<in> set (jobs db2)"
    and "r2 = r\<lparr>job_status := status, job_updated_at := time\<rparr>"
    and "sub_idempotency_key sub2 = sub_idempotency_key sub"
  shows "create_job pf sub2 db2 =
    (if submission_payload_hash pf sub2 = submission_payload_hash pf sub then Inr r2
     else Inl (IdempotencyConflictError (sub_idempotency_key sub)), db2)"
proof -
  have "job_idempotency_key r = sub_idempotency_key sub \<and> job_payload_hash r = submission_payload_hash pf sub"
  proof (cases rule: get_by_key_cases [OF assms(1), of "sub_idempotency_key sub"])
    case 1
    with assms(2) have "insertable pf sub db"
      using create_job_rejected [OF assms(1)] by fastforce
    with 1 assms(1,2) create_job_fresh [of db sub pf] show ?thesis by auto
  next
    case (2 x)
    with assms(2) create_job_existing [OF assms(1), of x sub pf] show ?thesis
      by (auto split: if_splits)
  qed
  with assms(5,6) create_job_existing [OF assms(3,4), of sub2 pf] show ?thesis by auto
qed

lemma create_job_idempotent_witness:
  "create_job example_platform (example_submission\<lparr>sub_job_id := 77\<rparr>)
      (create_effect example_platform example_submission example_db) =
    (Inr (stored_row example_platform example_submission example_db),
     create_effect example_platform example_submission example_db)"
proof -
  have schema: "schema_ok example_db" using example_db_ok(1) by (simp add: db_inv_def)
  have new: "sub_idempotency_key example_submission \<notin> job_idempotency_key ` set (jobs example_db)"
    by (simp add: example_db_def example_submission_def)
  let ?r = "stored_row example_platform example_submission example_db"
  have "?r = ?r\<lparr>job_status := ''submitted'', job_updated_at := 7\<rparr>"
    by (simp add: stored_row_def submission_row_def example_db_def empty_database_def)
  from create_job_idempotent [OF schema create_job_fresh [OF schema new example_insertable]
      schema_ok_create_effect [OF schema new example_insertable] _ this,
      of "example_submission\<lparr>sub_job_id := 77\<rparr>"]
  show ?thesis by (simp add: create_effect_def Let_def submission_payload_hash_def)
qed

end
