(* ===== verification/StateMachine.thy ===== *)
theory StateMachine
  imports Repository
begin

section \<open>The worker's state machine\<close>

text \<open>
  \<open>worker/state_machine.py\<close>, \<open>worker/lease.py\<close> and \<open>cancel_queued_job\<close> of
  \<open>worker/cancellation.py\<close>: the loads and the \<open>record_*\<close> operations, each a status with an event.
  The four terminal records and \<open>record_budget_blocked\<close> go through \<open>finalize_job\<close>; the others are
  \<open>record_state_event\<close>, which writes the status without looking at the finalizations.
\<close>

definition STALE_LEASE_ERROR_CLASS :: pystr where
  "STALE_LEASE_ERROR_CLASS = ''StaleWorkerLeaseError''"

definition STALE_LEASE_EXHAUSTED_ERROR_CLASS :: pystr where
  "STALE_LEASE_EXHAUSTED_ERROR_CLASS = ''StaleLeaseExhaustedError''"

definition load_job_for_update :: "uuid \<Rightarrow> (database, job_record option) prog" where
  "load_job_for_update i = bindM (select_jobs (\<lambda>r. job_id r = i)) one_or_none"

definition record_state_event :: "job_record \<Rightarrow> pystr \<Rightarrow> pystr \<Rightarrow> items \<Rightarrow> (database, unit) prog" where
  "record_state_event job status event_type event_data =
     thenM (update_job_status (job_id job) status)
       (insert_event (job_id job) (job_run_id job) event_type event_data (job_trace_id job))"

definition record_running :: "job_record \<Rightarrow> pystr \<Rightarrow> int \<Rightarrow> (database, unit) prog" where
  "record_running job worker_id attempt_number = record_state_event job ''running'' ''running''
     [(''worker_id'', JStr worker_id), (''attempt_number'', JInt attempt_number)]"

definition record_completed :: "job_record \<Rightarrow> pystr \<Rightarrow> int \<Rightarrow> items \<Rightarrow> (database, finalization_result) prog" where
  "record_completed job worker_id attempt_number result = finalize_job job ''completed'' ''completed''
     [(''worker_id'', JStr worker_id), (''attempt_number'', JInt attempt_number), (''result'', JObj result)]"

definition record_retry_scheduled :: "job_record \<Rightarrow> pystr \<Rightarrow> int \<Rightarrow> int \<Rightarrow> pystr \<Rightarrow> (database, unit) prog" where
  "record_retry_scheduled job worker_id attempt_number next_attempt_number error_class =
     record_state_event job ''queued'' ''retry_scheduled''
       [(''worker_id'', JStr worker_id), (''attempt_number'', JInt attempt_number),
        (''next_attempt_number'', JInt next_attempt_number), (''error_class'', JStr error_class),
        (''retryable'', JBool True)]"

definition record_stale_lease_recovered ::
    "job_record \<Rightarrow> pystr \<Rightarrow> pystr \<Rightarrow> pystr \<Rightarrow> int \<Rightarrow> int \<Rightarrow> int \<Rightarrow> int \<Rightarrow> (database, unit) prog" where
  "record_stale_lease_recovered job recovery_worker_id stale_consumer_name stale_entry_id stale_idle_ms
     delivery_count attempt_number next_attempt_number =
     record_state_event job ''queued'' ''stale_lease_recovered''
       [(''worker_id'', JStr recovery_worker_id), (''stale_consumer_name'', JStr stale_consumer_name),
        (''stale_entry_id'', JStr stale_entry_id), (''stale_idle_ms'', JInt stale_idle_ms),
        (''delivery_count'', JInt delivery_count), (''attempt_number'', JInt attempt_number),
        (''next_attempt_number'', JInt next_attempt_number),
        (''error_class'', JStr STALE_LEASE_ERROR_CLASS), (''retryable'', JBool True)]"

definition record_failed :: "job_record \<Rightarrow> pystr \<Rightarrow> int \<Rightarrow> pystr \<Rightarrow> bool \<Rightarrow> (database, finalization_result) prog" where
  "record_failed job worker_id attempt_number error_class retryable = finalize_job job ''failed'' ''failed''
     [(''worker_id'', JStr worker_id), (''attempt_number'', JInt attempt_number),
      (''error_class'', JStr error_class), (''retryable'', JBool retryable)]"

definition record_timed_out :: "job_record \<Rightarrow> pystr \<Rightarrow> int \<Rightarrow> (database, finalization_result) prog" where
  "record_timed_out job worker_id attempt_number = finalize_job job ''timed_out'' ''timed_out''
     [(''worker_id'', JStr worker_id), (''attempt_number'', JInt attempt_number),
      (''error_class'', JStr ''JobTimedOutError'')]"

definition record_cancelled :: "job_record \<Rightarrow> pystr \<Rightarrow> int \<Rightarrow> pystr \<Rightarrow> (database, finalization_result) prog" where
  "record_cancelled job worker_id attempt_number cancelled_while = finalize_job job ''cancelled'' ''cancelled''
     [(''worker_id'', JStr worker_id), (''attempt_number'', JInt attempt_number),
      (''cancelled_while'', JStr cancelled_while)]"

definition record_budget_blocked ::
    "job_record \<Rightarrow> pystr \<Rightarrow> int \<Rightarrow> pystr \<Rightarrow> decimal \<Rightarrow> decimal \<Rightarrow> (database, finalization_result) prog" where
  "record_budget_blocked job worker_id attempt_number reason attempted_cost_usd budget_limit_usd =
     finalize_job job ''failed'' ''budget_blocked''
     [(''worker_id'', JStr worker_id), (''attempt_number'', JInt attempt_number), (''reason'', JStr reason),
      (''attempted_cost_usd'', JStr (dec_str attempted_cost_usd)),
      (''budget_limit_usd'', JStr (dec_str budget_limit_usd)),
      (''error_class'', JStr ''BudgetPolicyError''), (''retryable'', JBool False)]"

definition cancel_queued_job :: "job_record \<Rightarrow> pystr \<Rightarrow> (database, unit) prog" where
  "cancel_queued_job job worker_id = thenM (record_cancelled job worker_id 0 ''queued'') (returnM ())"

subsection \<open>Loads\<close>

lemma load_job_cases:
  assumes "schema_ok db"
  obtains (missing) "i \<notin> job_id ` set (jobs db)" "load_job_for_update i db = (Inr None, db)"
  | (found) r where "r \<in> set (jobs db)" "job_id r = i" "load_job_for_update i db = (Inr (Some r), db)"
proof (cases rule: select_by_id [OF assms, of i])
  case 1
  then show thesis by (intro missing) (simp_all add: load_job_for_update_def select_jobs_def)
next
  case (2 r)
  then show thesis by (intro found) (simp_all add: load_job_for_update_def select_jobs_def)
qed

lemma load_job_member:
  assumes "schema_ok db" "r \<in> set (jobs db)"
  shows "load_job_for_update (job_id r) db = (Inr (Some r), db)"
proof -
  have "filter (\<lambda>x. job_id x = job_id r) (jobs db) = [r]"
    by (rule filter_key_in [OF schema_okD(1) [OF assms(1)] assms(2)])
  then show ?thesis by (simp add: load_job_for_update_def select_jobs_def)
qed

lemma one_or_none_state: "snd (one_or_none xs s) = s"
  by (cases xs rule: one_or_none.cases) simp_all

lemma load_job_state: "snd (load_job_for_update i db) = db"
  by (simp add: load_job_for_update_def select_jobs_def one_or_none_state)

lemma load_job_result:
  "load_job_for_update i db = (r, db') \<Longrightarrow> db' = db"
  using load_job_state [of i db] by simp

lemma keeps_load_job [keep_intros]: "keeps I (load_job_for_update i)"
  by (rule keepsI) (simp add: load_job_state)

lemma load_job_Some:
  assumes "load_job_for_update i db = (Inr (Some r), db')"
  shows "r \<in> set (jobs db) \<and> job_id r = i \<and> db' = db"
proof -
  have eq: "filter (\<lambda>r. job_id r = i) (jobs db) = [r] \<and> db' = db"
    using assms unfolding load_job_for_update_def select_jobs_def
    by (cases "filter (\<lambda>r. job_id r = i) (jobs db)" rule: one_or_none.cases) simp_all
  have "r \<in> set (filter (\<lambda>r. job_id r = i) (jobs db))"
    by (simp only: conjunct1 [OF eq] list.set insertI1)
  from this conjunct2 [OF eq] show ?thesis by simp
qed

subsection \<open>State events\<close>

lemma record_state_event_eq:
  assumes "job_known db job" "varchar 32 s" "varchar 64 t"
  shows "record_state_event job s t d db = (Inr (), state_event_effect job s t d db)"
  using assms by (simp add: record_state_event_def thenM_eq statement_eqs state_event_effect_def)

lemma jobs_set_status_unknown: "i \<notin> job_id ` set (jobs db) \<Longrightarrow> set_status i s db = db"
  by (auto simp: set_status_def intro!: database.equality map_idI)

lemma record_state_event_cases:
  assumes "varchar 32 s" "varchar 64 t" "schema_ok db"
  obtains (unchanged) e where "\<not> job_known db job" "record_state_event job s t d db = (Inl e, set_status (job_id job) s db)"
  | (effect) "job_known db job" "record_state_event job s t d db = (Inr (), state_event_effect job s t d db)"
proof (cases "job_known db job")
  case True
  with assms that(2) show thesis by (simp add: record_state_event_eq)
next
  case False
  have "\<exists>e. record_state_event job s t d db = (Inl e, set_status (job_id job) s db)"
    using False assms
    by (auto simp: record_state_event_def thenM_eq update_job_status_eq insert_event_def job_known_def)
  with that(1) False show thesis by blast
qed

lemma keeps_record_state_event:
  assumes "s \<notin> TERMINAL_STATUSES" "t \<notin> TERMINAL_STATUSES" "varchar 32 s" "varchar 64 t"
  shows "keeps db_inv (record_state_event job s t d)"
proof (rule keepsI)
  fix db assume inv: "db_inv db"
  have "lifecycle_ok (set_status (job_id job) s db)"
    using inv assms(1) by (auto simp: db_inv_def lifecycle_ok_def terminal_counts set_jobs_set_status)
  then show "db_inv (snd (record_state_event job s t d db))"
    using inv assms
    by (cases rule: record_state_event_cases [OF assms(3,4), of db job d])
       (auto simp: db_inv_def schema_ok_state_event lifecycle_ok_state_event schema_ok_set_status)
qed

lemma keeps_record [keep_intros]:
  "keeps db_inv (record_running job w a)"
  "keeps db_inv (record_retry_scheduled job w a n c)"
  "keeps db_inv (record_stale_lease_recovered job w sc se si dc a n)"
  by (simp_all add: record_running_def record_retry_scheduled_def record_stale_lease_recovered_def
      keeps_record_state_event)

lemma keeps_record_terminal [keep_intros]:
  "keeps db_inv (record_completed job w a r)"
  "keeps db_inv (record_failed job w a c rt)"
  "keeps db_inv (record_timed_out job w a)"
  "keeps db_inv (record_cancelled job w a cw)"
  "keeps db_inv (record_budget_blocked job w a rs x y)"
  "keeps db_inv (cancel_queued_job job w)"
  by (simp_all add: record_completed_def record_failed_def record_timed_out_def record_cancelled_def
      record_budget_blocked_def cancel_queued_job_def keeps_finalize_job keeps_then keeps_return)

subsection \<open>The history only grows\<close>

text \<open>
  \<open>extends db0 db\<close>: the events, finalizations and conflict attempts of \<open>db0\<close> are the first ones of
  \<open>db\<close>, and so are its jobs, up to their status and \<open>updated_at\<close>.
\<close>

definition fixed_columns :: "job_record \<Rightarrow> job_record" where
  "fixed_columns r = r\<lparr>job_status := '''', job_updated_at := 0\<rparr>"

definition extends :: "database \<Rightarrow> database \<Rightarrow> bool" where
  "extends db0 db \<longleftrightarrow> prefix (job_events db0) (job_events db)
     \<and> prefix (job_finalizations db0) (job_finalizations db)
     \<and> prefix (conflict_attempts db0) (conflict_attempts db)
     \<and> prefix (map fixed_columns (jobs db0)) (map fixed_columns (jobs db))"

lemma extends_refl [simp]: "extends db db"
  by (simp add: extends_def)

lemma extends_trans: "extends db0 db1 \<Longrightarrow> extends db1 db2 \<Longrightarrow> extends db0 db2"
  unfolding extends_def by (elim conjE, intro conjI; erule prefix_order.trans, assumption)

lemma keeps_extendsI: "(\<And>db. extends db (snd (m db))) \<Longrightarrow> keeps (extends db0) m"
  by (rule keepsI) (blast intro: extends_trans)

lemma fixed_columns_set_status: "map fixed_columns (jobs (set_status i s db)) = map fixed_columns (jobs db)"
  by (simp add: set_status_def fixed_columns_def)

lemma extends_changes:
  "extends db (set_status i s db)" "extends db (add_event job t d db)"
  "extends db (add_finalization job s t db)" "extends db (add_conflict job s t db)" "extends db (add_job r db)"
  by (simp_all add: extends_def fixed_columns_set_status)

lemma extends_finalize_effect: "extends db (finalize_effect job s t d db)"
  by (simp add: finalize_effect_def extends_changes) (meson extends_changes extends_trans)

lemma extends_state_event_effect: "extends db (state_event_effect job s t d db)"
  unfolding state_event_effect_def by (meson extends_changes extends_trans)

lemma extends_create_effect: "extends db (create_effect pf sub db)"
  unfolding create_effect_def Let_def by (meson extends_changes extends_trans)

lemma keeps_extends_finalize_job [keep_intros]: "keeps (extends db0) (finalize_job job s t d)"
proof (rule keeps_extendsI)
  fix db show "extends db (snd (finalize_job job s t d db))"
    by (cases rule: finalize_job_cases [of job s t d db]) (simp_all add: extends_finalize_effect)
qed

lemma keeps_extends_insert_event: "keeps (extends db0) (insert_event i run t d tr)"
  by (rule keeps_extendsI) (simp add: insert_event_def extends_def)

lemma keeps_extends_update_status: "keeps (extends db0) (update_job_status i s)"
  by (rule keeps_extendsI) (simp add: update_job_status_def set_status_def [symmetric] extends_changes)

lemma keeps_extends_state_event [keep_intros]: "keeps (extends db0) (record_state_event job s t d)"
  unfolding record_state_event_def
  by (intro keeps_then keeps_extends_update_status keeps_extends_insert_event)

lemma keeps_extends_create_job [keep_intros]: "keeps (extends db0) (create_job pf sub)"
proof -
  have "keeps (extends db0) (insert_job r)" for r
    by (rule keeps_extendsI) (simp add: insert_job_def Let_def extends_def)
  moreover have "keeps (extends db0) (get_by_idempotency_key k)" for k
    by (rule keepsI) (simp add: get_by_idempotency_key_def select_jobs_def bindM_eq one_or_none_state)
  ultimately show ?thesis
    unfolding create_job_def
    by (intro keeps_transaction keeps_bind keeps_option keeps_if keeps_then keeps_raise keeps_return
        keeps_extends_insert_event)
qed

lemmas record_defs = record_running_def record_completed_def record_retry_scheduled_def
  record_stale_lease_recovered_def record_failed_def record_timed_out_def record_cancelled_def
  record_budget_blocked_def cancel_queued_job_def

lemma keeps_extends_record [keep_intros]:
  "keeps (extends db0) (record_running job w a)"
  "keeps (extends db0) (record_retry_scheduled job w a n c)"
  "keeps (extends db0) (record_stale_lease_recovered job w sc se si dc a n)"
  "keeps (extends db0) (record_completed job w a r)"
  "keeps (extends db0) (record_failed job w a c rt)"
  "keeps (extends db0) (record_timed_out job w a)"
  "keeps (extends db0) (record_cancelled job w a cw)"
  "keeps (extends db0) (record_budget_blocked job w a rs x y)"
  "keeps (extends db0) (cancel_queued_job job w)"
  by (simp_all add: record_defs keeps_extends_finalize_job keeps_extends_state_event keeps_then keeps_return)

subsection \<open>What every lifecycle operation keeps\<close>

text \<open>
  A property of the registry that each operation of the lifecycle keeps. The components that only
  change the registry through these operations (worker, recovery, submitters) keep it too; they prove
  that once, in these locales: \<open>job_invariant\<close> is about the records of one job, and
  \<open>lifecycle_invariant\<close> about those of every job and the creation of jobs.
\<close>

locale job_invariant =
  fixes I :: "database \<Rightarrow> bool" and job :: job_record
  assumes running: "keeps I (record_running job w a)"
    and completed: "keeps I (record_completed job w a r)"
    and retry_scheduled: "keeps I (record_retry_scheduled job w a n c)"
    and stale_recovered: "keeps I (record_stale_lease_recovered job w sc se si dc a n)"
    and failed: "keeps I (record_failed job w a c rt)"
    and timed_out: "keeps I (record_timed_out job w a)"
    and cancelled: "keeps I (record_cancelled job w a cw)"
    and budget_blocked: "keeps I (record_budget_blocked job w a rs x y)"
begin

lemma cancel_queued: "keeps I (cancel_queued_job job w)"
  by (simp add: cancel_queued_job_def keeps_then keeps_return cancelled)

lemmas operations = running completed retry_scheduled stale_recovered failed timed_out cancelled
  budget_blocked cancel_queued

end

locale lifecycle_invariant =
  fixes I :: "database \<Rightarrow> bool"
  assumes create: "keeps I (create_job pf sub)"
    and records: "job_invariant I job"

sublocale lifecycle_invariant \<subseteq> job_invariant I job for job
  by (rule records)

interpretation registry: lifecycle_invariant db_inv
  by unfold_locales (rule keep_intros)+

interpretation history: lifecycle_invariant "extends db0" for db0
  by unfold_locales (rule keep_intros)+

subsection \<open>Events carry the run of their job\<close>

definition events_own_run :: "database \<Rightarrow> bool" where
  "events_own_run db \<longleftrightarrow>
     (\<forall>e \<in> set (job_events db). \<exists>j \<in> set (jobs db). job_id j = ev_job_id e \<and> job_run_id j = ev_run_id e)"

definition stored_as :: "job_record \<Rightarrow> database \<Rightarrow> bool" where
  "stored_as job db \<longleftrightarrow> (\<exists>j \<in> set (jobs db). job_id j = job_id job \<and> job_run_id j = job_run_id job)"

definition own_runs :: "job_record \<Rightarrow> database \<Rightarrow> bool" where
  "own_runs job db \<longleftrightarrow> events_own_run db \<and> stored_as job db"

lemma own_runs_statements:
  "keeps (own_runs job) (insert_event (job_id job) (job_run_id job) t d tr)"
  "keeps (own_runs job) (update_job_status i s)"
  "keeps (own_runs job) (insert_finalization j r s t tr)"
  "keeps (own_runs job) (insert_conflict_attempt j r s t tr)"
proof -
  show "keeps (own_runs job) (insert_event (job_id job) (job_run_id job) t d tr)"
    by (rule keepsI) (auto simp: insert_event_def own_runs_def events_own_run_def stored_as_def)
  have eq: "(\<exists>j \<in> set (map (\<lambda>r. if job_id r = i then r\<lparr>job_status := s, job_updated_at := n\<rparr> else r) js).
      job_id j = a \<and> job_run_id j = b) \<longleftrightarrow> (\<exists>j \<in> set js. job_id j = a \<and> job_run_id j = b)" for js a b n
    by (induction js) auto
  show "keeps (own_runs job) (update_job_status i s)"
    by (rule keepsI) (simp add: update_job_status_def own_runs_def events_own_run_def stored_as_def eq del: set_map)
  show "keeps (own_runs job) (insert_finalization j r s t tr)" "keeps (own_runs job) (insert_conflict_attempt j r s t tr)"
    by (rule keepsI, simp add: insert_finalization_def insert_conflict_attempt_def own_runs_def events_own_run_def stored_as_def)+
qed

lemma own_runs_records:
  "keeps (own_runs job) (finalize_job job s t d)" "keeps (own_runs job) (record_state_event job s t d)"
  unfolding finalize_job_def record_state_event_def
  by (auto intro!: keep_intros own_runs_statements split: option.splits)

interpretation own_runs: job_invariant "own_runs job" job for job
  by unfold_locales (simp_all add: record_defs own_runs_records keeps_then keeps_return)

subsection \<open>Properties\<close>

text \<open>
  C12. Every operation of the lifecycle, whether it returns or raises and whatever job record it is
  given (one that was loaded before other workers changed the row, or one that is not stored at
  all), keeps the registry's invariant: keys unique, foreign keys and checks satisfied, a terminal
  status backed by the job's only finalization, exactly one terminal event per finalization with a
  terminal event type, and conflicts only against finalized jobs.
\<close>

theorem lifecycle_operations_keep_invariant:
  "keeps db_inv (create_job pf sub)
   \<and> keeps db_inv (record_running job worker attempt)
   \<and> keeps db_inv (record_completed job worker attempt result)
   \<and> keeps db_inv (record_retry_scheduled job worker attempt next cls)
   \<and> keeps db_inv (record_stale_lease_recovered job worker consumer entry idle deliveries attempt next)
   \<and> keeps db_inv (record_failed job worker attempt cls retryable)
   \<and> keeps db_inv (record_timed_out job worker attempt)
   \<and> keeps db_inv (record_cancelled job worker attempt while)
   \<and> keeps db_inv (record_budget_blocked job worker attempt reason cost limit)
   \<and> keeps db_inv (cancel_queued_job job worker)"
  by (intro conjI; rule keep_intros)

text \<open>
  The history of the registry is append-only: from any registry, no lifecycle operation drops,
  reorders or rewrites an event, a finalization or a conflict attempt, and no operation changes the
  payload, the key, the limits or the trace of a stored job.
\<close>

theorem lifecycle_operations_extend_history:
  "keeps (extends db0) (create_job pf sub)
   \<and> keeps (extends db0) (record_running job worker attempt)
   \<and> keeps (extends db0) (record_completed job worker attempt result)
   \<and> keeps (extends db0) (record_retry_scheduled job worker attempt next cls)
   \<and> keeps (extends db0) (record_stale_lease_recovered job worker consumer entry idle deliveries attempt next)
   \<and> keeps (extends db0) (record_failed job worker attempt cls retryable)
   \<and> keeps (extends db0) (record_timed_out job worker attempt)
   \<and> keeps (extends db0) (record_cancelled job worker attempt while)
   \<and> keeps (extends db0) (record_budget_blocked job worker attempt reason cost limit)
   \<and> keeps (extends db0) (cancel_queued_job job worker)"
  by (intro conjI; rule keep_intros)

end
