(* ===== verification/StubRunner.thy ===== *)
theory StubRunner
  imports StateMachine
begin

section \<open>Running a job\<close>

text \<open>
  \<open>jobs/stub.py\<close>, \<open>worker/timeouts.py\<close> and the registry of \<open>worker/cancellation.py\<close>. A job runs on
  the event loop's clock, in seconds as a rational number. What the program does not decide is an
  argument: \<open>late t\<close> is how much later than asked a sleep that starts at \<open>t\<close> ends, and
  \<open>cancelled_at\<close> is the time at which the cancellation event is set, if it is. \<open>limit\<close> is the time at
  which \<open>asyncio.wait_for\<close> gives up; a job that is still asleep then is cut off and gives no answer.
\<close>

subsection \<open>Cancellation registry\<close>

type_synonym cancellation_registry = "pystr \<rightharpoonup> bool"

definition event_for :: "pystr \<Rightarrow> (cancellation_registry, bool) prog" where
  "event_for i = (\<lambda>reg. case reg i of Some b \<Rightarrow> (Inr b, reg) | None \<Rightarrow> (Inr False, reg(i \<mapsto> False)))"

definition request_cancel :: "pystr \<Rightarrow> (cancellation_registry, unit) prog" where
  "request_cancel i = bindM (event_for i) (\<lambda>_. modifyM (\<lambda>reg. reg(i \<mapsto> True)))"

definition is_cancelled :: "pystr \<Rightarrow> (cancellation_registry, bool) prog" where
  "is_cancelled i = event_for i"

subsection \<open>Answers\<close>

datatype job_answer = Answered rat "exc + items" | CutOff

datatype float_value = Finite rat | PosInf | NegInf | NaN

text \<open>\<open>float(v)\<close>; the text of a float is the platform's.\<close>

definition py_float :: "(pystr \<Rightarrow> float_value option) \<Rightarrow> json \<Rightarrow> exc + float_value" where
  "py_float float_of_text v = (case v of
      JInt i \<Rightarrow> Inr (Finite (of_int i))
    | JFloat q \<Rightarrow> Inr (Finite q)
    | JSpecial x \<Rightarrow> Inr (case x of SNaN \<Rightarrow> NaN | SPosInf \<Rightarrow> PosInf | SNegInf \<Rightarrow> NegInf)
    | JBool b \<Rightarrow> Inr (Finite (if b then 1 else 0))
    | JStr s \<Rightarrow> (case float_of_text s of None \<Rightarrow> Inl (ValueError ''could not convert string to float'') | Some x \<Rightarrow> Inr x)
    | _ \<Rightarrow> Inl (TypeError ''float() argument must be a string or a real number''))"

subsection \<open>The sleep loop\<close>

text \<open>
  \<open>while loop.time() < deadline\<close>: the event is looked at before every nap of at most 50 ms.
  \<open>deadline\<close> is \<open>None\<close> for an infinite duration; the loop then ends only by cancellation or at the limit.
\<close>

definition nap :: "rat option \<Rightarrow> rat \<Rightarrow> rat" where
  "nap deadline t = (case deadline of None \<Rightarrow> 1 / 20 | Some d \<Rightarrow> min (1 / 20) (max 0 (d - t)))"

definition before :: "rat \<Rightarrow> rat option \<Rightarrow> bool" where
  "before t deadline = (case deadline of None \<Rightarrow> True | Some d \<Rightarrow> t < d)"

definition event_set :: "rat option \<Rightarrow> rat \<Rightarrow> bool" where
  "event_set cancelled_at t = (case cancelled_at of None \<Rightarrow> False | Some c \<Rightarrow> c \<le> t)"

definition wake :: "(rat \<Rightarrow> rat) \<Rightarrow> rat option \<Rightarrow> rat \<Rightarrow> rat" where
  "wake late deadline t = t + nap deadline t + \<bar>late t\<bar>"

function sleep_loop :: "(rat \<Rightarrow> rat) \<Rightarrow> rat option \<Rightarrow> rat option \<Rightarrow> rat \<Rightarrow> rat \<Rightarrow> (exc + rat) option" where
  "sleep_loop late cancelled_at deadline limit t =
     (if \<not> before t deadline then Some (Inr t)
      else if event_set cancelled_at t then Some (Inl JobCancelledError)
      else if limit < wake late deadline t then None
      else sleep_loop late cancelled_at deadline limit (wake late deadline t))"
  by pat_completeness auto

definition loop_measure :: "rat option \<Rightarrow> rat \<Rightarrow> rat \<Rightarrow> nat" where
  "loop_measure deadline limit t = (if before t deadline then Suc (nat \<lceil>(limit - t) * 20\<rceil>) else 0)"

lemma loop_measure_wake:
  assumes "before t deadline" "wake late deadline t \<le> limit"
  shows "loop_measure deadline limit (wake late deadline t) < loop_measure deadline limit t"
proof (cases "before (wake late deadline t) deadline")
  case False
  with assms show ?thesis by (simp add: loop_measure_def)
next
  case True
  have "1 / 20 \<le> nap deadline t"
    using True assms(1) by (auto simp: before_def wake_def nap_def min_def max_def split: option.splits if_splits)
  then have "t + 1 / 20 \<le> wake late deadline t" by (simp add: wake_def)
  then have step: "(limit - wake late deadline t) * 20 + 1 \<le> (limit - t) * 20" by (simp add: algebra_simps)
  have "0 \<le> (limit - wake late deadline t) * 20" using assms(2) by simp
  then have nonneg: "0 \<le> \<lceil>(limit - wake late deadline t) * 20\<rceil>" by simp
  have "\<lceil>(limit - wake late deadline t) * 20 + 1\<rceil> \<le> \<lceil>(limit - t) * 20\<rceil>" using step by (rule ceiling_mono)
  then have "\<lceil>(limit - wake late deadline t) * 20\<rceil> + 1 \<le> \<lceil>(limit - t) * 20\<rceil>" by simp
  with nonneg have "nat \<lceil>(limit - wake late deadline t) * 20\<rceil> < nat \<lceil>(limit - t) * 20\<rceil>" by linarith
  with True assms(1) show ?thesis by (simp only: loop_measure_def if_True Suc_less_eq)
qed

termination sleep_loop
  by (relation "measure (\<lambda>(late, cancelled_at, deadline, limit, t). loop_measure deadline limit t)")
     (auto intro: loop_measure_wake)

declare sleep_loop.simps [simp del]

text \<open>\<open>StubJobRunner._sleep\<close> and \<open>StubJobRunner.run\<close>\<close>

definition stub_sleep ::
    "(pystr \<Rightarrow> float_value option) \<Rightarrow> (rat \<Rightarrow> rat) \<Rightarrow> rat option \<Rightarrow> items \<Rightarrow> rat \<Rightarrow> rat \<Rightarrow> (exc + rat) option" where
  "stub_sleep float_of_text late cancelled_at payload limit t =
     (case py_float float_of_text (case dget payload ''duration_seconds'' of None \<Rightarrow> JInt 1 | Some v \<Rightarrow> v) of
        Inl e \<Rightarrow> Some (Inl e)
      | Inr (Finite d) \<Rightarrow> sleep_loop late cancelled_at (Some (t + d)) limit t
      | Inr PosInf \<Rightarrow> sleep_loop late cancelled_at None limit t
      | Inr NegInf \<Rightarrow> Some (Inr t)
      | Inr NaN \<Rightarrow> Some (Inr t))"

fun hashable :: "json \<Rightarrow> bool" where
  "hashable (JList _) = False"
| "hashable (JObj _) = False"
| "hashable _ = True"

definition stub_result :: "items \<Rightarrow> items" where
  "stub_result payload = [(''summary'', JStr ''stub job completed''),
     (''input_keys'', JList (map JStr (sort (map fst payload))))]"

definition stub_run ::
    "(pystr \<Rightarrow> float_value option) \<Rightarrow> (rat \<Rightarrow> rat) \<Rightarrow> rat option \<Rightarrow> items \<Rightarrow> rat \<Rightarrow> rat \<Rightarrow> job_answer" where
  "stub_run float_of_text late cancelled_at payload limit t =
     (let mode = (case dget payload ''mode'' of None \<Rightarrow> JStr ''success'' | Some v \<Rightarrow> v)
      in if mode = JStr ''transient_error'' then Answered t (Inl TransientRunnerError)
         else if \<not> hashable mode then Answered t (Inl (TypeError ''unhashable type''))
         else if mode \<in> {JStr ''policy_error'', JStr ''permanent_error''} then Answered t (Inl PolicyValidationError)
         else if mode = JStr ''sleep'' then
           (case stub_sleep float_of_text late cancelled_at payload limit t of
              None \<Rightarrow> CutOff
            | Some (Inl e) \<Rightarrow> Answered t (Inl e)
            | Some (Inr t') \<Rightarrow> Answered t' (Inr (stub_result payload)))
         else Answered t (Inr (stub_result payload)))"

text \<open>\<open>run_with_timeout\<close>: a cut-off job and a \<open>TimeoutError\<close> of the job itself are both a time-out.\<close>

definition run_with_timeout :: "job_answer \<Rightarrow> exc + items" where
  "run_with_timeout answer = (case answer of
      CutOff \<Rightarrow> Inl JobTimedOutError
    | Answered _ (Inl BuiltinTimeoutError) \<Rightarrow> Inl JobTimedOutError
    | Answered _ (Inl JobTimedOutError) \<Rightarrow> Inl JobTimedOutError
    | Answered _ r \<Rightarrow> r)"

subsection \<open>How the sleep ends\<close>

text \<open>
  The naps make steps of at most 50 ms and its lateness, so the loop answers soon after the earlier of
  the deadline and the cancellation.
\<close>

lemma nap_bounds: "0 \<le> nap deadline t" "nap deadline t \<le> 1 / 20" "before t (Some d) \<Longrightarrow> t + nap (Some d) t \<le> d"
  by (auto simp: nap_def before_def min_def max_def split: option.splits)

lemma sleep_loop_returned:
  "sleep_loop late cancelled_at deadline limit t = Some (Inr t') \<Longrightarrow> \<not> before t' deadline \<and> t \<le> t' \<and> (t \<le> limit \<longrightarrow> t' \<le> limit)"
proof (induction late cancelled_at deadline limit t rule: sleep_loop.induct)
  case (1 late cancelled_at deadline limit t)
  have "t \<le> wake late deadline t" using nap_bounds(1) [of deadline t] by (simp add: wake_def)
  with 1 show ?case by (subst (asm) (2) sleep_loop.simps) (fastforce split: if_splits)
qed

lemma sleep_loop_raised:
  "sleep_loop late cancelled_at deadline limit t = Some (Inl e) \<Longrightarrow> e = JobCancelledError \<and> (\<exists>c. cancelled_at = Some c)"
proof (induction late cancelled_at deadline limit t rule: sleep_loop.induct)
  case (1 late cancelled_at deadline limit t)
  then show ?case
    by (subst (asm) (2) sleep_loop.simps) (auto simp: event_set_def split: if_splits option.splits)
qed

lemma sleep_loop_cut:
  assumes slack: "\<And>x. \<bar>late x\<bar> \<le> slack"
  shows "sleep_loop late cancelled_at deadline limit t = None \<Longrightarrow>
    (case deadline of None \<Rightarrow> True | Some d \<Rightarrow> limit < d + slack) \<and>
    (case cancelled_at of None \<Rightarrow> True | Some c \<Rightarrow> limit < c + 1 / 20 + slack)"
  using slack
proof (induction late cancelled_at deadline limit t rule: sleep_loop.induct)
  case (1 late cancelled_at deadline limit t)
  show ?case
  proof (cases "before t deadline \<and> \<not> event_set cancelled_at t \<and> \<not> limit < wake late deadline t")
    case True
    with 1 show ?thesis by (subst (asm) (2) sleep_loop.simps) auto
  next
    case False
    with 1(2) have stop: "before t deadline" "\<not> event_set cancelled_at t" "limit < wake late deadline t"
      by (subst (asm) sleep_loop.simps, auto split: if_splits)+
    have "wake late deadline t \<le> t + nap deadline t + slack" using 1(3) by (simp add: wake_def)
    with stop(3) have lim: "limit < t + nap deadline t + slack" by linarith
    have "case deadline of None \<Rightarrow> True | Some d \<Rightarrow> limit < d + slack"
      using lim stop(1) nap_bounds(3) [of t] by (cases deadline) (auto, fastforce)
    moreover have "case cancelled_at of None \<Rightarrow> True | Some c \<Rightarrow> limit < c + 1 / 20 + slack"
      using lim stop(2) nap_bounds(2) [of deadline t] by (cases cancelled_at) (auto simp: event_set_def)
    ultimately show ?thesis ..
  qed
qed

lemma sleep_loop_end:
  assumes slack: "\<And>x. \<bar>late x\<bar> \<le> slack"
  shows "sleep_loop late cancelled_at (Some d) limit t = Some (Inr t') \<Longrightarrow> t \<le> d \<Longrightarrow> t' \<le> d + slack"
  using slack
proof (induction late cancelled_at "Some d" limit t rule: sleep_loop.induct)
  case (1 late cancelled_at limit t)
  have w: "before t (Some d) \<Longrightarrow> wake late (Some d) t \<le> d + slack"
    using nap_bounds(3) [of t d] 1(4) [of t] by (simp add: wake_def) 
  show ?case
  proof (cases "before t (Some d) \<and> \<not> event_set cancelled_at t \<and> \<not> limit < wake late (Some d) t")
    case True
    show ?thesis
    proof (cases "wake late (Some d) t \<le> d")
      case le: True
      with True 1 show ?thesis by (subst (asm) (2) sleep_loop.simps) auto
    next
      case False
      with True 1(2) have "t' = wake late (Some d) t"
        by (subst (asm) sleep_loop.simps, simp, subst (asm) sleep_loop.simps) (simp add: before_def)
      with w True show ?thesis by simp
    qed
  next
    case False
    with 1(2) have "t' = t" by (subst (asm) sleep_loop.simps) (auto split: if_splits)
    moreover have "0 \<le> slack" using 1(4) [of t] by linarith
    ultimately show ?thesis using 1(3) by simp
  qed
qed

lemma stub_run_sleep:
  assumes "dget payload ''mode'' = Some (JStr ''sleep'')" "dget payload ''duration_seconds'' = Some (JInt n)"
  shows "stub_run ft late cancelled_at payload limit t =
    (case sleep_loop late cancelled_at (Some (t + of_int n)) limit t of
       None \<Rightarrow> CutOff
     | Some (Inl e) \<Rightarrow> Answered t (Inl e)
     | Some (Inr t') \<Rightarrow> Answered t' (Inr (stub_result payload)))"
  using assms by (simp add: stub_run_def stub_sleep_def py_float_def)

lemma stub_sleep_cases:
  assumes "\<And>x. \<bar>late x\<bar> \<le> slack" "0 \<le> n" "0 \<le> timeout"
    and "dget payload ''mode'' = Some (JStr ''sleep'')" "dget payload ''duration_seconds'' = Some (JInt n)"
  shows "timeout < of_int n \<Longrightarrow>
      run_with_timeout (stub_run ft late None payload (t + timeout) t) = Inl JobTimedOutError"
    and "of_int n + slack \<le> timeout \<Longrightarrow> \<exists>t'. stub_run ft late None payload (t + timeout) t = Answered t' (Inr (stub_result payload))
      \<and> t + of_int n \<le> t' \<and> t' \<le> t + of_int n + slack"
    and "run_with_timeout (stub_run ft late (Some c) payload (t + timeout) t) \<in>
        {Inr (stub_result payload), Inl JobCancelledError, Inl JobTimedOutError}"
    and "run_with_timeout (stub_run ft late (Some c) payload (t + timeout) t) = Inl JobTimedOutError \<Longrightarrow>
        t + timeout < c + 1 / 20 + slack"
proof -
  note run = stub_run_sleep [OF assms(4,5)]
  let ?loop = "\<lambda>ca. sleep_loop late ca (Some (t + of_int n)) (t + timeout) t"
  note cut = sleep_loop_cut [of late slack _ "Some (t + of_int n)" "t + timeout" t, OF assms(1)]
  show "run_with_timeout (stub_run ft late None payload (t + timeout) t) = Inl JobTimedOutError" if "timeout < of_int n"
    using that assms(3) sleep_loop_raised [of late None "Some (t + of_int n)" "t + timeout" t]
      sleep_loop_returned [of late None "Some (t + of_int n)" "t + timeout" t]
    by (cases "?loop None") (fastforce simp: run run_with_timeout_def before_def split: sum.splits)+
  show "\<exists>t'. stub_run ft late None payload (t + timeout) t = Answered t' (Inr (stub_result payload))
      \<and> t + of_int n \<le> t' \<and> t' \<le> t + of_int n + slack" if "of_int n + slack \<le> timeout"
  proof (cases "?loop None")
    case None
    with cut [of None] that show ?thesis by simp
  next
    case (Some r)
    with sleep_loop_raised [of late None "Some (t + of_int n)" "t + timeout" t] obtain t' where r: "r = Inr t'"
      by (cases r) fastforce+
    with Some sleep_loop_end [of late slack None "t + of_int n" "t + timeout" t t', OF assms(1)] assms(2)
      sleep_loop_returned [of late None "Some (t + of_int n)" "t + timeout" t t']
    show ?thesis by (auto simp: run before_def not_less)
  qed
  show "run_with_timeout (stub_run ft late (Some c) payload (t + timeout) t) \<in>
        {Inr (stub_result payload), Inl JobCancelledError, Inl JobTimedOutError}"
    using sleep_loop_raised [of late "Some c" "Some (t + of_int n)" "t + timeout" t]
    by (auto simp: run run_with_timeout_def split: option.splits sum.splits)
  show "t + timeout < c + 1 / 20 + slack"
    if "run_with_timeout (stub_run ft late (Some c) payload (t + timeout) t) = Inl JobTimedOutError"
    using that cut [of "Some c"] sleep_loop_raised [of late "Some c" "Some (t + of_int n)" "t + timeout" t]
    by (auto simp: run run_with_timeout_def split: option.splits sum.splits)
qed

subsection \<open>Properties\<close>

text \<open>
  C26. A sleeping stub job under a timeout always comes to an end, and to the right one. Let no nap end
  more than \<open>slack\<close> late. Never cancelled, a job that sleeps longer than its timeout is reported as
  timed out, and one that sleeps at least \<open>slack\<close> less than its timeout completes, not before its
  duration and at most \<open>slack\<close> after it. Cancelled at a time \<open>c\<close>, it completes, is reported as
  cancelled, or is timed out, the latter only when the limit came less than 50 ms and \<open>slack\<close> after \<open>c\<close>.
\<close>

theorem stub_sleep_outcome:
  assumes "\<And>x. \<bar>late x\<bar> \<le> slack" "0 \<le> n" "0 \<le> timeout"
    and "dget payload ''mode'' = Some (JStr ''sleep'')" "dget payload ''duration_seconds'' = Some (JInt n)"
  shows "(timeout < of_int n \<longrightarrow>
        run_with_timeout (stub_run ft late None payload (t + timeout) t) = Inl JobTimedOutError)
    \<and> (of_int n + slack \<le> timeout \<longrightarrow> (\<exists>t'.
        stub_run ft late None payload (t + timeout) t = Answered t' (Inr (stub_result payload))
        \<and> t + of_int n \<le> t' \<and> t' \<le> t + of_int n + slack))
    \<and> run_with_timeout (stub_run ft late (Some c) payload (t + timeout) t) \<in>
        {Inr (stub_result payload), Inl JobCancelledError, Inl JobTimedOutError}
    \<and> (run_with_timeout (stub_run ft late (Some c) payload (t + timeout) t) = Inl JobTimedOutError \<longrightarrow>
        t + timeout < c + 1 / 20 + slack)"
  by (intro conjI impI stub_sleep_cases [OF assms])

lemma stub_sleep_outcome_witness:
  "run_with_timeout (stub_run (\<lambda>_. None) (\<lambda>_. 0) None [(''mode'', JStr ''sleep''), (''duration_seconds'', JInt 2)] (5 + 1) 5) =
     Inl JobTimedOutError
   \<and> (\<exists>t'. stub_run (\<lambda>_. None) (\<lambda>_. 0) None [(''mode'', JStr ''sleep''), (''duration_seconds'', JInt 2)] (5 + 3) 5 =
       Answered t' (Inr (stub_result [(''mode'', JStr ''sleep''), (''duration_seconds'', JInt 2)])) \<and> t' \<le> 5 + 2)"
  using stub_sleep_outcome [of "\<lambda>_. 0" 0 2 1 "[(''mode'', JStr ''sleep''), (''duration_seconds'', JInt 2)]" "\<lambda>_. None" 5 0]
    stub_sleep_outcome [of "\<lambda>_. 0" 0 2 3 "[(''mode'', JStr ''sleep''), (''duration_seconds'', JInt 2)]" "\<lambda>_. None" 5 0]
  by auto

end
