(* ===== verification/Budget.thy ===== *)
theory Budget
  imports Storage
begin

section \<open>Budget policy and cost ledger\<close>

text \<open>
  \<open>cost/telemetry.py\<close>: the policy that the worker asks before it dispatches or retries a job, and
  the ledger of the live jobs' costs. A policy's methods raise; here they return the exception or
  unit.
\<close>

record budget_policy =
  bp_mode :: pystr
  bp_run_budget_cents :: "int option"
  bp_per_job_budget_cents :: "int option"
  bp_retry_budget :: int
  bp_max_model_calls :: int

definition stub_policy :: "int \<Rightarrow> budget_policy" where
  "stub_policy retry_budget = \<lparr>bp_mode = ''stub'', bp_run_budget_cents = Some 0,
     bp_per_job_budget_cents = Some 0, bp_retry_budget = retry_budget, bp_max_model_calls = 0\<rparr>"

definition live_policy :: "int option \<Rightarrow> int option \<Rightarrow> int \<Rightarrow> int \<Rightarrow> budget_policy" where
  "live_policy run_budget per_job_budget retry_budget max_model_calls = \<lparr>bp_mode = ''live'',
     bp_run_budget_cents = run_budget, bp_per_job_budget_cents = per_job_budget,
     bp_retry_budget = retry_budget, bp_max_model_calls = max_model_calls\<rparr>"

text \<open>
  \<open>Decimal(cents) / Decimal(100)\<close>: the exact quotient, with the exponent as near to zero as it
  can be.
\<close>

definition cents_to_usd :: "int \<Rightarrow> decimal" where
  "cents_to_usd cents = (if cents mod 100 = 0 then Dec (cents div 100) 0
     else if cents mod 10 = 0 then Dec (cents div 10) (- 1) else Dec cents (- 2))"

definition validate_provider_call :: "budget_policy \<Rightarrow> exc + unit" where
  "validate_provider_call p = (if bp_mode p = ''stub''
     then Inl (ProviderCallBlockedError ''stub_provider_call_blocked'' dec_zero dec_zero) else Inr ())"

definition validate_dispatch :: "budget_policy \<Rightarrow> pystr \<Rightarrow> int option \<Rightarrow> exc + unit" where
  "validate_dispatch p jtype budget_cents =
     (if bp_mode p = ''stub'' then
        (if starts_with jtype ''live.'' then Inl (ProviderCallBlockedError ''stub_live_job_blocked'' dec_zero dec_zero)
         else Inr ())
      else if bp_mode p \<noteq> ''live'' then
        Inl (BudgetPolicyError (''unsupported_budget_mode:'' @ bp_mode p) dec_zero dec_zero)
      else case (bp_run_budget_cents p, bp_per_job_budget_cents p) of
        (Some run_budget, Some job_budget) \<Rightarrow>
          (case budget_cents of
             None \<Rightarrow> Inl (LiveBudgetRequiredError ''missing_job_budget'' dec_zero dec_zero)
           | Some cents \<Rightarrow>
               if cents > job_budget then
                 Inl (BudgetExceededError ''per_job_budget_overrun'' (cents_to_usd cents) (cents_to_usd job_budget))
               else if cents > run_budget then
                 Inl (BudgetExceededError ''run_budget_overrun'' (cents_to_usd cents) (cents_to_usd run_budget))
               else Inr ())
      | _ \<Rightarrow> Inl (LiveBudgetRequiredError ''missing_live_run_or_job_budget'' dec_zero dec_zero))"

definition validate_job_dispatch :: "budget_policy \<Rightarrow> job_record \<Rightarrow> exc + unit" where
  "validate_job_dispatch p job = validate_dispatch p (job_type job) (job_budget_cents job)"

definition validate_retry :: "budget_policy \<Rightarrow> int \<Rightarrow> exc + unit" where
  "validate_retry p next_attempt_number = (let retry_count_after_projection = next_attempt_number - 1 in
     if retry_count_after_projection > bp_retry_budget p
     then Inl (BudgetExceededError ''retry_budget_overrun'' dec_zero dec_zero) else Inr ())"

subsection \<open>The ledger\<close>

record cost_telemetry_record =
  ct_project :: pystr
  ct_run_id :: pystr
  ct_job_id :: pystr
  ct_job_type :: pystr
  ct_worker_id :: pystr
  ct_model :: pystr
  ct_provider :: pystr
  ct_input_tokens :: int
  ct_output_tokens :: int
  ct_estimated_cost_usd :: decimal
  ct_retry_count :: int
  ct_environment :: pystr

definition cost_to_json_dict :: "cost_telemetry_record \<Rightarrow> items" where
  "cost_to_json_dict r = [(''project'', JStr (ct_project r)), (''run_id'', JStr (ct_run_id r)),
     (''job_id'', JStr (ct_job_id r)), (''job_type'', JStr (ct_job_type r)),
     (''worker_id'', JStr (ct_worker_id r)), (''model'', JStr (ct_model r)),
     (''provider'', JStr (ct_provider r)), (''input_tokens'', JInt (ct_input_tokens r)),
     (''output_tokens'', JInt (ct_output_tokens r)),
     (''estimated_cost_usd'', JStr (dec_str (ct_estimated_cost_usd r))),
     (''retry_count'', JInt (ct_retry_count r)), (''environment'', JStr (ct_environment r))]"

record budget_blocked_event =
  bb_run_id :: pystr
  bb_job_id :: pystr
  bb_reason :: pystr
  bb_attempted_cost_usd :: decimal
  bb_budget_limit_usd :: decimal

definition blocked_to_json_dict :: "budget_blocked_event \<Rightarrow> items" where
  "blocked_to_json_dict b = [(''run_id'', JStr (bb_run_id b)), (''job_id'', JStr (bb_job_id b)),
     (''reason'', JStr (bb_reason b)), (''attempted_cost_usd'', JStr (dec_str (bb_attempted_cost_usd b))),
     (''budget_limit_usd'', JStr (dec_str (bb_budget_limit_usd b)))]"

record cost_ledger =
  cl_run_budget_usd :: decimal
  cl_max_model_calls :: int
  cl_records :: "cost_telemetry_record list"
  cl_budget_blocked_events :: "budget_blocked_event list"

definition new_ledger :: "decimal \<Rightarrow> int \<Rightarrow> cost_ledger" where
  "new_ledger budget calls = \<lparr>cl_run_budget_usd = budget, cl_max_model_calls = calls, cl_records = [],
     cl_budget_blocked_events = []\<rparr>"

definition total_cost_usd :: "cost_ledger \<Rightarrow> decimal" where
  "total_cost_usd l = dec_sum dec_zero (map ct_estimated_cost_usd (cl_records l))"

definition record_budget_block :: "cost_telemetry_record \<Rightarrow> pystr \<Rightarrow> decimal \<Rightarrow> cost_ledger \<Rightarrow> cost_ledger" where
  "record_budget_block r reason attempted l = l\<lparr>cl_budget_blocked_events := cl_budget_blocked_events l @
     [\<lparr>bb_run_id = ct_run_id r, bb_job_id = ct_job_id r, bb_reason = reason,
       bb_attempted_cost_usd = attempted, bb_budget_limit_usd = cl_run_budget_usd l\<rparr>]\<rparr>"

definition record_live_job :: "cost_telemetry_record \<Rightarrow> (cost_ledger, bool) prog" where
  "record_live_job r = (\<lambda>l.
     let projected_cost = dec_add (total_cost_usd l) (ct_estimated_cost_usd r);
         projected_calls = int (length (cl_records l)) + 1
     in if dec_less (cl_run_budget_usd l) projected_cost
        then (Inr False, record_budget_block r ''budget_overrun'' projected_cost l)
        else if projected_calls > cl_max_model_calls l
        then (Inr False, record_budget_block r ''model_call_limit'' projected_cost l)
        else (Inr True, l\<lparr>cl_records := cl_records l @ [r]\<rparr>))"

subsection \<open>Lemmas\<close>

lemma dec_val_cents: "dec_val (cents_to_usd c) = of_int c / 100"
proof -
  have hundred: "c mod 100 = 0 \<Longrightarrow> of_int c = (100 :: rat) * of_int (c div 100)"
    and ten: "c mod 10 = 0 \<Longrightarrow> of_int c = (10 :: rat) * of_int (c div 10)"
    by (metis mult_div_mod_eq add_0_right of_int_mult of_int_numeral)+
  show ?thesis
    by (auto simp: cents_to_usd_def dec_val_def power_int_minus hundred ten)
qed

lemma validate_dispatch_budget_error: "validate_dispatch p t b = Inl e \<Longrightarrow> budget_error e \<noteq> None"
  by (auto simp: validate_dispatch_def split: if_splits option.splits)

lemma validate_retry_iff: "validate_retry p n = Inr () \<longleftrightarrow> n - 1 \<le> bp_retry_budget p"
  by (auto simp: validate_retry_def Let_def)

definition ledger_ok :: "cost_ledger \<Rightarrow> bool" where
  "ledger_ok l \<longleftrightarrow> dec_val (total_cost_usd l) \<le> dec_val (cl_run_budget_usd l)
     \<and> int (length (cl_records l)) \<le> cl_max_model_calls l"

lemma total_cost_append: "dec_val (total_cost_usd (l\<lparr>cl_records := cl_records l @ [r]\<rparr>)) =
    dec_val (total_cost_usd l) + dec_val (ct_estimated_cost_usd r)"
  by (simp add: total_cost_usd_def dec_val_sum)

subsection \<open>Properties\<close>

text \<open>
  The dispatch rule of the budget policy, in full: a stub policy refuses exactly the \<open>live.\<close> job
  types; a live policy accepts exactly a job with a budget when both limits are configured and the
  budget is within both; any other mode refuses everything; and each refusal is a budget error, so
  the worker records it instead of failing.
\<close>

theorem dispatch_accepted_iff:
  "validate_dispatch p t b = Inr () \<longleftrightarrow>
     bp_mode p = ''stub'' \<and> \<not> starts_with t ''live.''
     \<or> bp_mode p = ''live'' \<and> (\<exists>run per_job cents. bp_run_budget_cents p = Some run
         \<and> bp_per_job_budget_cents p = Some per_job \<and> b = Some cents \<and> cents \<le> per_job \<and> cents \<le> run)"
  by (auto simp: validate_dispatch_def split: option.splits)

text \<open>
  The amounts of an overrun are exact: when a live dispatch is refused for its amount, the error
  carries the job's budget and the limit it exceeds as dollars, the limit being the per-job one when
  both are exceeded, and the amount is greater than the limit.
\<close>

theorem dispatch_overrun_amounts:
  assumes "validate_dispatch p t b = Inl (BudgetExceededError reason cost limit)"
  shows "\<exists>cents per_job run. b = Some cents \<and> bp_per_job_budget_cents p = Some per_job \<and> bp_run_budget_cents p = Some run
     \<and> dec_val cost = of_int cents / 100 \<and> dec_val limit < dec_val cost
     \<and> (if per_job < cents then reason = ''per_job_budget_overrun'' \<and> dec_val limit = of_int per_job / 100
        else reason = ''run_budget_overrun'' \<and> dec_val limit = of_int run / 100)"
  using assms
  by (auto simp: validate_dispatch_def dec_val_cents divide_strict_right_mono split: if_splits option.splits)

lemma dispatch_overrun_amounts_witness:
  "validate_dispatch (live_policy (Some 100) (Some 50) 2 500) ''x'' (Some 75) =
     Inl (BudgetExceededError ''per_job_budget_overrun'' (cents_to_usd 75) (cents_to_usd 50))
   \<and> dec_val (cents_to_usd 75) = 75 / 100"
proof -
  have r: "validate_dispatch (live_policy (Some 100) (Some 50) 2 500) ''x'' (Some 75) =
     Inl (BudgetExceededError ''per_job_budget_overrun'' (cents_to_usd 75) (cents_to_usd 50))"
    by (simp add: validate_dispatch_def live_policy_def)
  from dispatch_overrun_amounts [OF r] r show ?thesis by auto
qed

text \<open>
  C28. The ledger never spends past its limits: starting from a ledger within its run budget and
  call limit, whatever live jobs are reported, the recorded cost stays within the run budget and the
  number of recorded calls within the limit, and each report either is recorded or adds one
  budget-blocked event, never both.
\<close>

theorem ledger_within_budget:
  assumes "ledger_ok l" "mapM record_live_job reports l = (Inr answers, l')"
  shows "dec_val (total_cost_usd l') \<le> dec_val (cl_run_budget_usd l)
    \<and> int (length (cl_records l')) \<le> cl_max_model_calls l
    \<and> cl_records l' = cl_records l @ map fst (filter snd (zip reports answers))
    \<and> length (cl_budget_blocked_events l') = length (cl_budget_blocked_events l) + length (filter Not answers)"
  using assms
proof (induction reports arbitrary: l answers)
  case Nil
  then show ?case by (simp add: ledger_ok_def)
next
  case (Cons r reports)
  from Cons.prems(2) obtain a l1 rest where step: "record_live_job r l = (Inr a, l1)"
    and more: "mapM record_live_job reports l1 = (Inr rest, l')" "answers = a # rest"
    by (auto simp: bindM_eq split: prod.splits sum.splits)
  have "ledger_ok l1 \<and> cl_run_budget_usd l1 = cl_run_budget_usd l \<and> cl_max_model_calls l1 = cl_max_model_calls l
     \<and> cl_records l1 = cl_records l @ (if a then [r] else [])
     \<and> length (cl_budget_blocked_events l1) = length (cl_budget_blocked_events l) + (if a then 0 else 1)"
    using step Cons.prems(1)
    by (auto simp: record_live_job_def Let_def ledger_ok_def record_budget_block_def total_cost_append
        split: if_splits) (simp_all add: total_cost_usd_def)
  with Cons.IH [OF _ more(1)] more(2) show ?case by (cases a) auto
qed

definition example_cost :: "int \<Rightarrow> cost_telemetry_record" where
  "example_cost c = \<lparr>ct_project = ''p'', ct_run_id = ''r'', ct_job_id = ''j'', ct_job_type = ''live.x'', ct_worker_id = ''w'',
     ct_model = ''m'', ct_provider = ''v'', ct_input_tokens = 1, ct_output_tokens = 1,
     ct_estimated_cost_usd = Dec c (- 2), ct_retry_count = 0, ct_environment = ''test''\<rparr>"

lemma ledger_within_budget_witness:
  "\<exists>l'. mapM record_live_job [example_cost 60, example_cost 50, example_cost 40] (new_ledger (Dec 1 0) 5) =
     (Inr [True, False, True], l') \<and> dec_val (total_cost_usd l') \<le> 1 \<and> length (cl_records l') = 2"
proof -
  obtain l' where run: "mapM record_live_job [example_cost 60, example_cost 50, example_cost 40] (new_ledger (Dec 1 0) 5) =
     (Inr [True, False, True], l')"
    by (simp add: record_live_job_def new_ledger_def example_cost_def bindM_eq Let_def total_cost_usd_def dec_add_def
        dec_less_def scaled_def dec_zero_def record_budget_block_def del: dec_less_val)
  have "ledger_ok (new_ledger (Dec 1 0) 5)"
    by (simp add: ledger_ok_def new_ledger_def total_cost_usd_def dec_val_def dec_zero_def)
  from ledger_within_budget [OF this run] run show ?thesis
    by (auto simp: new_ledger_def dec_val_def)
qed

end
