(* ===== verification/Worker.thy ===== *)
theory Worker
  imports JobQueue StubRunner Budget
begin

section \<open>The worker\<close>

text \<open>
  \<open>worker/loop.py\<close>. The world of a worker is the registry, the Redis server, the cancellation events
  of its process and the environment of the jobs (files, network, clock). The queue object and the
  artifact store are handed to the worker and stay arguments; so are the job functions, which run on
  the environment and answer, or are cut off at the job's timeout. \<open>process_message\<close> is composed of the
  parts that the code has: the opening transaction, the run, and the handler for its outcome.

  The heartbeat renews the lease while the job runs; \<open>heartbeats\<close> is the number of its renewals,
  chosen by the environment. It stops at the first exception that is not a \<open>RedisError\<close>, which
  \<open>_stop_lease_heartbeat\<close> raises in the \<open>finally\<close> block.
\<close>

subsection \<open>The world\<close>

record ('r, 'e) world =
  w_db :: database
  w_redis :: 'r
  w_registry :: cancellation_registry
  w_env :: 'e

definition inDb :: "(database, 'a) prog \<Rightarrow> (('r, 'e) world, 'a) prog" where
  "inDb = onM w_db w_db_update"

definition inRedis :: "('r, 'a) prog \<Rightarrow> (('r, 'e) world, 'a) prog" where
  "inRedis = onM w_redis w_redis_update"

definition inRegistry :: "(cancellation_registry, 'a) prog \<Rightarrow> (('r, 'e) world, 'a) prog" where
  "inRegistry = onM w_registry w_registry_update"

definition inEnv :: "('e, 'a) prog \<Rightarrow> (('r, 'e) world, 'a) prog" where
  "inEnv = onM w_env w_env_update"

text \<open>
  \<open>async with session.begin()\<close> around statements and queue calls: an exception rolls the registry
  back, while what was sent to Redis stays.
\<close>

definition transactionW :: "(('r, 'e) world, 'a) prog \<Rightarrow> (('r, 'e) world, 'a) prog" where
  "transactionW m = (\<lambda>w. case m w of (Inl e, w') \<Rightarrow> (Inl e, w'\<lparr>w_db := w_db w\<rparr>) | (Inr a, w') \<Rightarrow> (Inr a, w'))"

subsection \<open>Jobs\<close>

type_synonym 'e job_function = "items \<Rightarrow> int \<Rightarrow> bool \<Rightarrow> int \<Rightarrow> 'e \<Rightarrow> job_answer \<times> 'e"

text \<open>
  The three job functions of the worker; they get the payload, the attempt number, whether the
  cancellation event is set when the job starts, and the timeout of \<open>asyncio.wait_for\<close>.
\<close>

record 'e job_functions =
  jf_eval_lab_case :: "'e job_function"
  jf_gdev_webhook_eval :: "'e job_function"
  jf_stub :: "'e job_function"
  jf_heartbeats :: "'e \<Rightarrow> 'e \<Rightarrow> nat"

type_synonym 'e artifact_writer = "job_record \<Rightarrow> pystr \<Rightarrow> int \<Rightarrow> items \<Rightarrow> ('e, pystr \<times> items) prog"

record ('r, 'e) worker =
  wk_id :: pystr
  wk_queue :: "'r queue_api"
  wk_jobs :: "'e job_functions"
  wk_artifact_store :: "'e artifact_writer option"
  wk_budget_policy :: budget_policy
  wk_lease_renewal_interval :: "rat option"

definition run_job :: "'e job_functions \<Rightarrow> job_record \<Rightarrow> int \<Rightarrow> bool \<Rightarrow> 'e \<Rightarrow> job_answer \<times> 'e" where
  "run_job jf job attempt cancelled = (
     if job_type job = ''eval_lab_case'' then
       jf_eval_lab_case jf (job_payload job) attempt cancelled (job_timeout_seconds job)
     else if job_type job = ''gdev_webhook_eval'' then
       jf_gdev_webhook_eval jf (job_payload job) attempt cancelled (job_timeout_seconds job)
     else jf_stub jf (job_payload job) attempt cancelled (job_timeout_seconds job))"

definition uuid_of_text :: "pystr \<Rightarrow> exc + uuid" where
  "uuid_of_text t = (case uuid_parse t of None \<Rightarrow> Inl (ValueError ''badly formed hexadecimal UUID string'') | Some i \<Rightarrow> Inr i)"

subsection \<open>Acknowledging and publishing\<close>

definition ack_message :: "('r, 'e) worker \<Rightarrow> queue_job_message \<Rightarrow> (('r, 'e) world, unit) prog" where
  "ack_message wk m = (case qm_entry_id m of None \<Rightarrow> returnM ()
     | Some i \<Rightarrow> thenM (inRedis (q_acknowledge (wk_queue wk) i)) (returnM ()))"

definition retry_message :: "job_record \<Rightarrow> int \<Rightarrow> queue_job_message" where
  "retry_message job next_attempt_number = \<lparr>qm_job_id = uuid_str (job_id job), qm_run_id = uuid_str (job_run_id job),
     qm_attempt_number = next_attempt_number, qm_trace_id = job_trace_id job, qm_entry_id = None\<rparr>"

definition record_budget_error :: "('r, 'e) worker \<Rightarrow> queue_job_message \<Rightarrow> job_record \<Rightarrow> exc \<Rightarrow> (database, unit) prog" where
  "record_budget_error wk m job e = (case budget_error e of
       None \<Rightarrow> raiseM e
     | Some (reason, cost, limit) \<Rightarrow>
         thenM (record_budget_blocked job (wk_id wk) (qm_attempt_number m) reason cost limit) (returnM ()))"

subsection \<open>Opening a message\<close>

text \<open>
  The first block of \<open>_process_message\<close>. It returns the job to run, or nothing when the message is
  settled already: unknown job, terminal job, or dispatch refused by the budget policy. In these three
  cases the acknowledgement is sent inside the transaction.
\<close>

definition open_message :: "('r, 'e) worker \<Rightarrow> queue_job_message \<Rightarrow> (('r, 'e) world, job_record option) prog" where
  "open_message wk m = transactionW (
     bindM (liftM (uuid_of_text (qm_job_id m))) (\<lambda>i.
     bindM (inDb (load_job_for_update i)) (\<lambda>found. case found of
       None \<Rightarrow> thenM (ack_message wk m) (returnM None)
     | Some job \<Rightarrow>
         if job_status job \<in> TERMINAL_STATUSES then thenM (ack_message wk m) (returnM None)
         else (case validate_job_dispatch (wk_budget_policy wk) job of
             Inl e \<Rightarrow> thenM (inDb (record_budget_error wk m job e)) (thenM (ack_message wk m) (returnM None))
           | Inr _ \<Rightarrow> thenM (inDb (record_running job (wk_id wk) (qm_attempt_number m))) (returnM (Some job))))))"

subsection \<open>The handlers\<close>

definition handle_transient_error ::
    "('r, 'e) worker \<Rightarrow> queue_job_message \<Rightarrow> job_record \<Rightarrow> pystr \<Rightarrow> (('r, 'e) world, unit) prog" where
  "handle_transient_error wk m job error_class =
     (let attempt = qm_attempt_number m in
      if attempt \<le> job_max_retries job then
        (let next_attempt_number = attempt + 1 in
         case validate_retry (wk_budget_policy wk) next_attempt_number of
           Inl e \<Rightarrow> thenM (inDb (transaction (record_budget_error wk m job e))) (ack_message wk m)
         | Inr _ \<Rightarrow>
             thenM (inDb (transaction (record_retry_scheduled job (wk_id wk) attempt next_attempt_number error_class)))
             (thenM (inRedis (q_publish_job (wk_queue wk) (retry_message job next_attempt_number)))
             (ack_message wk m)))
      else thenM (inDb (transaction (record_failed job (wk_id wk) attempt error_class True))) (ack_message wk m))"

definition handle_timeout :: "('r, 'e) worker \<Rightarrow> queue_job_message \<Rightarrow> job_record \<Rightarrow> (('r, 'e) world, unit) prog" where
  "handle_timeout wk m job =
     thenM (inDb (transaction (record_timed_out job (wk_id wk) (qm_attempt_number m)))) (ack_message wk m)"

definition handle_cancellation :: "('r, 'e) worker \<Rightarrow> queue_job_message \<Rightarrow> job_record \<Rightarrow> (('r, 'e) world, unit) prog" where
  "handle_cancellation wk m job =
     thenM (inDb (transaction (record_cancelled job (wk_id wk) (qm_attempt_number m) ''running''))) (ack_message wk m)"

definition handle_policy_error ::
    "('r, 'e) worker \<Rightarrow> queue_job_message \<Rightarrow> job_record \<Rightarrow> pystr \<Rightarrow> (('r, 'e) world, unit) prog" where
  "handle_policy_error wk m job error_class =
     thenM (inDb (transaction (record_failed job (wk_id wk) (qm_attempt_number m) error_class False))) (ack_message wk m)"

text \<open>The \<open>else\<close> branch: the artifact, the terminal record, the acknowledgement, in this order.\<close>

definition handle_success ::
    "('r, 'e) worker \<Rightarrow> queue_job_message \<Rightarrow> job_record \<Rightarrow> items \<Rightarrow> (('r, 'e) world, unit) prog" where
  "handle_success wk m job result =
     bindM (case wk_artifact_store wk of
         None \<Rightarrow> returnM result
       | Some write \<Rightarrow> bindM (inEnv (write job (wk_id wk) (qm_attempt_number m) result)) (\<lambda>(path, metadata).
           returnM (dupdate result [(''artifact_path'', JStr path), (''artifact'', JObj metadata)])))
     (\<lambda>result'. thenM (inDb (transaction (record_completed job (wk_id wk) (qm_attempt_number m) result')))
        (ack_message wk m))"

definition settle ::
    "('r, 'e) worker \<Rightarrow> queue_job_message \<Rightarrow> job_record \<Rightarrow> exc + items \<Rightarrow> (('r, 'e) world, unit) prog" where
  "settle wk m job outcome = (case outcome of
      Inr result \<Rightarrow> handle_success wk m job result
    | Inl e \<Rightarrow> (case e of
        TransientRunnerError \<Rightarrow> handle_transient_error wk m job (class_name e)
      | EvalLabPayloadError _ \<Rightarrow> handle_policy_error wk m job (class_name e)
      | GdevAgentPayloadError _ \<Rightarrow> handle_policy_error wk m job (class_name e)
      | PolicyValidationError \<Rightarrow> handle_policy_error wk m job (class_name e)
      | JobTimedOutError \<Rightarrow> handle_timeout wk m job
      | JobCancelledError \<Rightarrow> handle_cancellation wk m job
      | _ \<Rightarrow> raiseM e))"

subsection \<open>The heartbeat\<close>

definition heartbeat_runs :: "('r, 'e) worker \<Rightarrow> queue_job_message \<Rightarrow> bool" where
  "heartbeat_runs wk m = (qm_entry_id m \<noteq> None \<and>
     (case wk_lease_renewal_interval wk of None \<Rightarrow> False | Some s \<Rightarrow> 0 < s))"

text \<open>\<open>_renew_lease_until_cancelled\<close>: what ends it, if anything, in the course of \<open>n\<close> renewals.\<close>

fun renewals :: "('r, 'e) worker \<Rightarrow> pystr \<Rightarrow> nat \<Rightarrow> (('r, 'e) world, exc option) prog" where
  "renewals wk i 0 = returnM None"
| "renewals wk i (Suc n) = (\<lambda>w. case inRedis (q_renew_pending_lease (wk_queue wk) i (wk_id wk)) w of
      (Inr _, w') \<Rightarrow> renewals wk i n w'
    | (Inl e, w') \<Rightarrow> if is_redis_error e then renewals wk i n w' else (Inr (Some e), w'))"

definition heartbeat :: "('r, 'e) worker \<Rightarrow> queue_job_message \<Rightarrow> nat \<Rightarrow> (('r, 'e) world, exc option) prog" where
  "heartbeat wk m n = (if heartbeat_runs wk m then renewals wk (the (qm_entry_id m)) n else returnM None)"

definition stop_lease_heartbeat :: "exc option \<Rightarrow> (('r, 'e) world, unit) prog" where
  "stop_lease_heartbeat ended = (case ended of None \<Rightarrow> returnM () | Some e \<Rightarrow> raiseM e)"

subsection \<open>One message\<close>

definition run_phase :: "('r, 'e) worker \<Rightarrow> queue_job_message \<Rightarrow> job_record \<Rightarrow> (('r, 'e) world, (exc + items) \<times> exc option) prog" where
  "run_phase wk m job =
     bindM (inRegistry (event_for (uuid_str (job_id job)))) (\<lambda>cancelled.
     bindM (getM w_env) (\<lambda>e0.
     bindM (inEnv (\<lambda>e. case run_job (wk_jobs wk) job (qm_attempt_number m) cancelled e of (a, e') \<Rightarrow> (Inr a, e'))) (\<lambda>answer.
     bindM (getM w_env) (\<lambda>e1.
     bindM (heartbeat wk m (jf_heartbeats (wk_jobs wk) e0 e1)) (\<lambda>ended.
     returnM (run_with_timeout answer, ended))))))"

definition process_message :: "('r, 'e) worker \<Rightarrow> queue_job_message \<Rightarrow> (('r, 'e) world, unit) prog" where
  "process_message wk m =
     bindM (open_message wk m) (\<lambda>opened. case opened of
       None \<Rightarrow> returnM ()
     | Some job \<Rightarrow> bindM (run_phase wk m job) (\<lambda>(outcome, ended).
         finallyM (settle wk m job outcome) (stop_lease_heartbeat ended)))"

definition process_one :: "('r, 'e) worker \<Rightarrow> (('r, 'e) world, bool) prog" where
  "process_one wk = bindM (inRedis (q_lease_jobs (wk_queue wk) (wk_id wk) 1 100)) (\<lambda>leased.
     case leased of [] \<Rightarrow> returnM False | m # _ \<Rightarrow> thenM (process_message wk m) (returnM True))"

subsection \<open>What the worker keeps of the registry\<close>

lemma keeps_inDb [keep_intros]: "keeps I m \<Longrightarrow> keeps (\<lambda>w. I (w_db w)) (inDb m)"
  by (rule keepsI) (auto simp: inDb_def onM_def split: prod.splits dest: keepsD)

lemma keeps_inRedis [keep_intros]: "keeps (\<lambda>w. I (w_db w)) (inRedis m)"
  and keeps_inRegistry [keep_intros]: "keeps (\<lambda>w. I (w_db w)) (inRegistry r)"
  and keeps_inEnv [keep_intros]: "keeps (\<lambda>w. I (w_db w)) (inEnv e)"
  by (rule keepsI, simp add: inRedis_def inRegistry_def inEnv_def onM_def split: prod.splits)+

lemma keeps_transactionW [keep_intros]:
  "keeps (\<lambda>w. I (w_db w)) m \<Longrightarrow> keeps (\<lambda>w. I (w_db w)) (transactionW m)"
  by (rule keepsI) (auto simp: transactionW_def split: prod.splits sum.splits dest: keepsD)

lemma keeps_ack_message [keep_intros]: "keeps (\<lambda>w. I (w_db w)) (ack_message wk m)"
  unfolding ack_message_def by (intro keep_intros)

lemma keeps_renewals: "keeps (\<lambda>w. I (w_db w)) (renewals wk i n)"
proof (induction n)
  case 0
  then show ?case by (simp add: keeps_def)
next
  case (Suc n)
  show ?case
  proof (rule keepsI)
    fix w :: "('a, 'b) world" assume I: "I (w_db w)"
    obtain r w' where step: "inRedis (q_renew_pending_lease (wk_queue wk) i (wk_id wk)) w = (r, w')"
      by (cases "inRedis (q_renew_pending_lease (wk_queue wk) i (wk_id wk)) w")
    then have "I (w_db w')" using keepsD [OF keeps_inRedis] I by blast
    then have "I (w_db (snd (renewals wk i n w')))" using Suc by (simp add: keeps_def)
    with step \<open>I (w_db w')\<close> show "I (w_db (snd (renewals wk i (Suc n) w)))"
      by (simp split: sum.splits)
  qed
qed

lemma keeps_run_phase [keep_intros]: "keeps (\<lambda>w. I (w_db w)) (run_phase wk m job)"
  unfolding run_phase_def heartbeat_def by (intro keep_intros keeps_renewals)

lemma keeps_stop_heartbeat [keep_intros]: "keeps I (stop_lease_heartbeat e)"
  unfolding stop_lease_heartbeat_def by (intro keep_intros)

context job_invariant
begin

lemma keeps_budget_error: "keeps I (record_budget_error wk m job e)"
  unfolding record_budget_error_def
  by (auto split: option.splits prod.splits intro!: keep_intros budget_blocked)

lemma keeps_settle: "keeps (\<lambda>w. I (w_db w)) (settle wk m job outcome)"
proof -
  have "keeps (\<lambda>w. I (w_db w)) (handle_transient_error wk m job c)" for c
    unfolding handle_transient_error_def Let_def
    by (auto split: sum.splits intro!: keep_intros keeps_budget_error retry_scheduled failed)
  moreover have "keeps (\<lambda>w. I (w_db w)) (handle_policy_error wk m job c)" for c
    unfolding handle_policy_error_def by (intro keep_intros failed)
  moreover have "keeps (\<lambda>w. I (w_db w)) (handle_timeout wk m job)"
    unfolding handle_timeout_def by (intro keep_intros timed_out)
  moreover have "keeps (\<lambda>w. I (w_db w)) (handle_cancellation wk m job)"
    unfolding handle_cancellation_def by (intro keep_intros cancelled)
  moreover have "keeps (\<lambda>w. I (w_db w)) (handle_success wk m job r)" for r
    unfolding handle_success_def
    by (auto split: option.splits prod.splits intro!: keep_intros completed)
  ultimately show ?thesis
    unfolding settle_def by (auto split: sum.splits exc.splits intro: keeps_raise)
qed

end

context lifecycle_invariant
begin

lemma keeps_open_message: "keeps (\<lambda>w. I (w_db w)) (open_message wk m)"
  unfolding open_message_def
  by (intro keep_intros) (auto split: sum.splits intro!: keep_intros keeps_budget_error running)

lemma keeps_process_message: "keeps (\<lambda>w. I (w_db w)) (process_message wk m)"
  unfolding process_message_def
  by (intro keep_intros keeps_open_message)
     (auto split: option.splits prod.splits intro!: keep_intros keeps_settle)

lemma keeps_process_one: "keeps (\<lambda>w. I (w_db w)) (process_one wk)"
  unfolding process_one_def
  by (intro keep_intros) (auto split: list.splits intro!: keep_intros keeps_process_message)

end

subsection \<open>No job is lost\<close>

text \<open>
  \<open>live_except X v j\<close>: an entry outside \<open>X\<close> that waits or is leased carries a message for the job \<open>j\<close>.
  A job is accounted for when it is finalized or has a live message.
\<close>

definition live_except :: "pystr set \<Rightarrow> queue_view \<Rightarrow> uuid \<Rightarrow> bool" where
  "live_except X v j \<longleftrightarrow> (\<exists>k \<in> set (qv_waiting v) \<union> set (lease_ids v). k \<notin> X \<and>
     (\<exists>m. message_at v k m \<and> uuid_parse (qm_job_id m) = Some j))"

definition accounted :: "database \<Rightarrow> queue_view \<Rightarrow> uuid \<Rightarrow> bool" where
  "accounted db v j \<longleftrightarrow> j \<in> finalized_ids db \<or> live_except {} v j"

lemma live_except_mono: "X \<subseteq> Y \<Longrightarrow> live_except Y v j \<Longrightarrow> live_except X v j"
  by (auto simp: live_except_def)

lemma live_published: "published m k v v' \<Longrightarrow> live_except X v j \<Longrightarrow> live_except X v' j"
  by (fastforce simp: published_def live_except_def message_at_def lease_ids_def)

lemma live_published_new:
  "published m k v v' \<Longrightarrow> k \<notin> X \<Longrightarrow> uuid_parse (qm_job_id m) = Some j \<Longrightarrow> live_except X v' j"
  unfolding live_except_def
  by (rule bexI [of _ k]) (auto simp: published_def message_at_def intro!: exI [of _ "m\<lparr>qm_entry_id := Some k\<rparr>"])

lemma live_acknowledged: "acknowledged i v v' \<Longrightarrow> live_except {i} v j \<Longrightarrow> live_except {} v' j"
  by (auto simp: acknowledged_def live_except_def message_at_def lease_ids_def)

lemma live_other_job:
  assumes "message_at v i m" "uuid_parse (qm_job_id m) \<noteq> Some j" "live_except {} v j"
  shows "live_except {i} v j"
proof -
  from assms(3) obtain k m' where k: "k \<in> set (qv_waiting v) \<union> set (lease_ids v)" "message_at v k m'"
    "uuid_parse (qm_job_id m') = Some j"
    unfolding live_except_def by blast
  with assms(1,2) have "k \<noteq> i" by (auto simp: message_at_def)
  with k show ?thesis unfolding live_except_def by blast
qed

lemma lease_ids_renewed: "renewed i c v v' \<Longrightarrow> lease_ids v' = lease_ids v"
  by (auto simp: renewed_def lease_ids_def)

lemma live_renewed: "renewed i c v v' \<Longrightarrow> live_except X v' j = live_except X v j"
  using lease_ids_renewed [of i c v v'] by (auto simp: live_except_def message_at_def renewed_def)

lemma message_at_change:
  "published m' k v v' \<Longrightarrow> message_at v i m \<Longrightarrow> message_at v' i m"
  "acknowledged i' v v' \<Longrightarrow> message_at v' i m = message_at v i m"
  "renewed i' c v v' \<Longrightarrow> message_at v' i m = message_at v i m"
  by (auto simp: published_def acknowledged_def renewed_def message_at_def)

lemma extends_finalized: "extends db db' \<Longrightarrow> finalized_ids db \<subseteq> finalized_ids db'"
  by (auto simp: extends_def finalized_ids_def dest: set_mono_prefix)

lemma inDb_eq: "inDb m w = (case m (w_db w) of (r, db) \<Rightarrow> (r, w\<lparr>w_db := db\<rparr>))"
  and inRedis_eq: "inRedis m' w = (case m' (w_redis w) of (r, s) \<Rightarrow> (r, w\<lparr>w_redis := s\<rparr>))"
  and inRegistry_eq: "inRegistry g w = (case g (w_registry w) of (r, s) \<Rightarrow> (r, w\<lparr>w_registry := s\<rparr>))"
  and inEnv_eq: "inEnv h w = (case h (w_env w) of (r, s) \<Rightarrow> (r, w\<lparr>w_env := s\<rparr>))"
  by (simp_all add: inDb_def inRedis_def inRegistry_def inEnv_def onM_def)

lemmas world_eqs = inDb_eq inRedis_eq inRegistry_eq inEnv_eq

lemma terminal_finalized:
  "lifecycle_ok db \<Longrightarrow> job \<in> set (jobs db) \<Longrightarrow> job_status job \<in> TERMINAL_STATUSES \<Longrightarrow> job_id job \<in> finalized_ids db"
  unfolding lifecycle_ok_def by (drule conjunct1, drule (1) bspec) (auto simp: finalized_as_def finalized_ids_def intro: rev_image_eqI)

text \<open>Records that finalize the job when they return.\<close>

definition finalizes :: "job_record \<Rightarrow> (database, 'a) prog \<Rightarrow> bool" where
  "finalizes job P \<longleftrightarrow> (\<forall>db a db'. P db = (Inr a, db') \<longrightarrow> job_id job \<in> finalized_ids db')"

lemma finalizes_records:
  "finalizes job (record_completed job w a r)" "finalizes job (record_failed job w a c rt)"
  "finalizes job (record_timed_out job w a)" "finalizes job (record_cancelled job w a cw)"
  "finalizes job (record_budget_blocked job w a rs x y)"
  unfolding finalizes_def record_defs by (auto dest: finalize_job_once(1))

lemma finalizes_budget_error: "finalizes job (record_budget_error wk m job e)"
  using finalizes_records(5) unfolding record_budget_error_def finalizes_def
  by (fastforce simp: thenM_eq split: option.splits prod.splits sum.splits)

context job_queue
begin

lemma ack_view:
  assumes "wk_queue wk = q" "ack_message wk m w = (r, w')"
  shows "w_db w' = w_db w \<and> (view (w_redis w') = view (w_redis w)
    \<or> (\<exists>i. qm_entry_id m = Some i \<and> acknowledged i (view (w_redis w)) (view (w_redis w'))))"
proof (cases "qm_entry_id m")
  case None
  with assms show ?thesis by (simp add: ack_message_def)
next
  case (Some i)
  obtain r0 s where a: "q_acknowledge q i (w_redis w) = (r0, s)" by (cases "q_acknowledge q i (w_redis w)")
  with assms Some have "w' = w\<lparr>w_redis := s\<rparr>"
    by (auto simp: ack_message_def thenM_eq world_eqs split: sum.splits)
  with command_cases [OF acknowledge a] Some show ?thesis by fastforce
qed

text \<open>A record that finalizes the job, in its own transaction, then the acknowledgement.\<close>

lemma record_then_ack:
  assumes "wk_queue wk = q" "finalizes job P" "thenM (inDb (transaction P)) (ack_message wk m) w = (r, w')"
  shows "(w_db w' = w_db w \<and> view (w_redis w') = view (w_redis w)) \<or>
    (job_id job \<in> finalized_ids (w_db w') \<and> (view (w_redis w') = view (w_redis w)
      \<or> (\<exists>i. qm_entry_id m = Some i \<and> acknowledged i (view (w_redis w)) (view (w_redis w')))))"
proof (cases "P (w_db w)")
  case (Pair r0 db)
  show ?thesis
  proof (cases r0)
    case (Inl e)
    with assms Pair show ?thesis by (auto simp: thenM_eq world_eqs transaction_def)
  next
    case (Inr a)
    with assms Pair have "ack_message wk m (w\<lparr>w_db := db\<rparr>) = (r, w')"
      by (auto simp: thenM_eq world_eqs transaction_def)
    from ack_view [OF assms(1) this] assms(2) Pair Inr show ?thesis by (auto simp: finalizes_def)
  qed
qed

end

definition carried :: "queue_view \<Rightarrow> queue_job_message \<Rightarrow> bool" where
  "carried v m \<longleftrightarrow> (\<forall>i. qm_entry_id m = Some i \<longrightarrow> message_at v i m)"

lemma carried_same: "carried v m \<Longrightarrow> qm_entry_id m = Some i \<Longrightarrow> message_at v i m"
  by (simp add: carried_def)

context job_queue
begin

lemma live_after_ack:
  assumes "carried v m" "uuid_parse (qm_job_id m) = Some j0" "live_except {} v j" "j \<noteq> j0"
    and "v' = v \<or> (\<exists>i. qm_entry_id m = Some i \<and> acknowledged i v v')"
  shows "live_except {} v' j"
proof (cases "v' = v")
  case False
  with assms(5) obtain i where i: "qm_entry_id m = Some i" "acknowledged i v v'" by blast
  have "live_except {i} v j"
    by (rule live_other_job [OF carried_same [OF assms(1) i(1)] _ assms(3)]) (use assms(2,4) in simp)
  with i(2) show ?thesis by (rule live_acknowledged)
qed (use assms(3) in simp)

lemma handle_transient_cases:
  assumes "wk_queue wk = q" "handle_transient_error wk m job c w = (r, w')"
  shows "(w_db w' = w_db w \<and> view (w_redis w') = view (w_redis w))
    \<or> (job_id job \<in> finalized_ids (w_db w') \<and> (view (w_redis w') = view (w_redis w)
        \<or> (\<exists>i. qm_entry_id m = Some i \<and> acknowledged i (view (w_redis w)) (view (w_redis w')))))
    \<or> (qm_attempt_number m \<le> job_max_retries job \<and> qm_attempt_number m \<le> bp_retry_budget (wk_budget_policy wk)
        \<and> record_retry_scheduled job (wk_id wk) (qm_attempt_number m) (qm_attempt_number m + 1) c (w_db w) = (Inr (), w_db w')
        \<and> (view (w_redis w') = view (w_redis w) \<and> (\<exists>e. r = Inl e)
          \<or> (\<exists>k v1. published (retry_message job (qm_attempt_number m + 1)) k (view (w_redis w)) v1
              \<and> (view (w_redis w') = v1 \<or> (\<exists>i. qm_entry_id m = Some i \<and> acknowledged i v1 (view (w_redis w')))))))"
    (is "?same \<or> ?final \<or> ?retry")
proof -
  let ?a = "qm_attempt_number m"
  consider (blocked) e where "?a \<le> job_max_retries job" "validate_retry (wk_budget_policy wk) (?a + 1) = Inl e"
    | (retry) "?a \<le> job_max_retries job" "validate_retry (wk_budget_policy wk) (?a + 1) = Inr ()"
    | (exhausted) "\<not> ?a \<le> job_max_retries job"
    by (cases "validate_retry (wk_budget_policy wk) (?a + 1)") auto
  then show ?thesis
  proof cases
    case blocked
    with assms(2) have "thenM (inDb (transaction (record_budget_error wk m job e))) (ack_message wk m) w = (r, w')"
      by (simp add: handle_transient_error_def Let_def)
    from record_then_ack [OF assms(1) finalizes_budget_error this] show ?thesis by blast
  next
    case exhausted
    with assms(2) have "thenM (inDb (transaction (record_failed job (wk_id wk) ?a c True))) (ack_message wk m) w = (r, w')"
      by (simp add: handle_transient_error_def)
    from record_then_ack [OF assms(1) finalizes_records(2) this] show ?thesis by blast
  next
    case retry
    obtain r0 db where rec: "record_retry_scheduled job (wk_id wk) ?a (?a + 1) c (w_db w) = (r0, db)"
      by (cases "record_retry_scheduled job (wk_id wk) ?a (?a + 1) c (w_db w)")
    show ?thesis
    proof (cases r0)
      case (Inl e)
      with assms(2) retry rec show ?thesis
        by (auto simp: handle_transient_error_def Let_def thenM_eq world_eqs transaction_def)
    next
      case (Inr u)
      obtain r1 s where pub: "q_publish_job q (retry_message job (?a + 1)) (w_redis w) = (r1, s)"
        by (cases "q_publish_job q (retry_message job (?a + 1)) (w_redis w)")
      have rest: "(r1 = Inl e \<longrightarrow> w' = w\<lparr>w_db := db, w_redis := s\<rparr> \<and> r = Inl e) \<and>
          (\<forall>k. r1 = Inr k \<longrightarrow> ack_message wk m (w\<lparr>w_db := db, w_redis := s\<rparr>) = (r, w'))" for e
        using assms retry rec Inr pub
        by (auto simp: handle_transient_error_def Let_def thenM_eq world_eqs transaction_def)
      have bounds: "?a \<le> bp_retry_budget (wk_budget_policy wk)"
        using retry(2) by (simp add: validate_retry_iff)
      show ?thesis
        using publish pub
      proof (cases rule: command_cases)
        case (same e)
        with rest [of e] retry bounds rec Inr show ?thesis by simp
      next
        case (done_raised e k)
        with rest [of e] retry bounds rec Inr show ?thesis by auto
      next
        case (returned k)
        with rest have "ack_message wk m (w\<lparr>w_db := db, w_redis := s\<rparr>) = (r, w')" by blast
        from ack_view [OF assms(1) this] returned retry bounds rec Inr show ?thesis by auto
      qed
    qed
  qed
qed

end

lemma uuid_parse_retry [simp]: "uuid_parse (qm_job_id (retry_message job n)) = Some (job_id job)"
  by (simp add: retry_message_def)

lemma attempt_retry [simp]: "qm_attempt_number (retry_message job n) = n"
  by (simp add: retry_message_def)

lemma finalized_ids_kept:
  assumes "\<And>db0. keeps (\<lambda>w. extends db0 (w_db w)) m" "m w = (r, w')"
  shows "finalized_ids (w_db w) \<subseteq> finalized_ids (w_db w')"
  by (rule extends_finalized) (rule keepsD [OF assms(1) _ assms(2)], simp)

context job_queue
begin

text \<open>
  The outcome of a handler for the job \<open>j0\<close>: the message was given up only when the job is finalized
  or a newer message for it was published.
\<close>

definition settled :: "('s, 'e) worker \<Rightarrow> ('s, 'e) world \<Rightarrow> queue_job_message \<Rightarrow> uuid \<Rightarrow> ('s, 'e) world \<Rightarrow> bool" where
  "settled wk w m j0 w' \<longleftrightarrow> (let v = view (w_redis w); v' = view (w_redis w') in
     v' = v
   \<or> (j0 \<in> finalized_ids (w_db w') \<and> (\<exists>i. qm_entry_id m = Some i \<and> acknowledged i v v'))
   \<or> (\<exists>rm k v1. uuid_parse (qm_job_id rm) = Some j0 \<and> qm_attempt_number rm = qm_attempt_number m + 1
        \<and> qm_attempt_number m \<le> bp_retry_budget (wk_budget_policy wk)
        \<and> published rm k v v1 \<and> (v' = v1 \<or> (\<exists>i. qm_entry_id m = Some i \<and> acknowledged i v1 v'))))"

lemma record_then_ack_settled:
  "wk_queue wk = q \<Longrightarrow> finalizes job P \<Longrightarrow> thenM (inDb (transaction P)) (ack_message wk m) w = (r, w') \<Longrightarrow>
     settled wk w m (job_id job) w'"
  using record_then_ack by (fastforce simp: settled_def Let_def)

lemma settle_settled:
  assumes "wk_queue wk = q" "settle wk m job outcome w = (r, w')"
  shows "settled wk w m (job_id job) w'"
proof (cases outcome)
  case (Inr result)
  with assms(2) have s: "handle_success wk m job result w = (r, w')" by (simp add: settle_def)
  show ?thesis
  proof (cases "wk_artifact_store wk")
    case None
    with s have "thenM (inDb (transaction (record_completed job (wk_id wk) (qm_attempt_number m) result))) (ack_message wk m) w = (r, w')"
      by (simp add: handle_success_def)
    then show ?thesis by (rule record_then_ack_settled [OF assms(1) finalizes_records(1)])
  next
    case (Some writer)
    obtain r0 e where wr: "writer job (wk_id wk) (qm_attempt_number m) result (w_env w) = (r0, e)"
      by (cases "writer job (wk_id wk) (qm_attempt_number m) result (w_env w)")
    show ?thesis
    proof (cases r0)
      case (Inl x)
      with s Some wr have "w' = w\<lparr>w_env := e\<rparr>" by (simp add: handle_success_def bindM_eq world_eqs)
      then show ?thesis by (simp add: settled_def)
    next
      case (Inr p)
      with s Some wr have "thenM (inDb (transaction (record_completed job (wk_id wk) (qm_attempt_number m)
            (dupdate result [(''artifact_path'', JStr (fst p)), (''artifact'', JObj (snd p))])))) (ack_message wk m)
            (w\<lparr>w_env := e\<rparr>) = (r, w')"
        by (simp add: handle_success_def bindM_eq world_eqs case_prod_unfold)
      from record_then_ack_settled [OF assms(1) finalizes_records(1) this] show ?thesis by (simp add: settled_def)
    qed
  qed
next
  case (Inl e)
  have transient: "settled wk w m (job_id job) w'" if "handle_transient_error wk m job c w = (r, w')" for c
    using handle_transient_cases [OF assms(1) that] uuid_parse_retry [of job "qm_attempt_number m + 1"]
      attempt_retry [of job "qm_attempt_number m + 1"]
    unfolding settled_def Let_def by blast
  have policy: "settled wk w m (job_id job) w'" if "handle_policy_error wk m job c w = (r, w')" for c
    using that record_then_ack_settled [OF assms(1) finalizes_records(2)] by (auto simp: handle_policy_error_def)
  have timeout: "settled wk w m (job_id job) w'" if "handle_timeout wk m job w = (r, w')"
    using that record_then_ack_settled [OF assms(1) finalizes_records(3)] by (auto simp: handle_timeout_def)
  have cancel: "settled wk w m (job_id job) w'" if "handle_cancellation wk m job w = (r, w')"
    using that record_then_ack_settled [OF assms(1) finalizes_records(4)] by (auto simp: handle_cancellation_def)
  have "settled wk w m (job_id job) w" by (simp add: settled_def)
  with assms(2) Inl transient policy timeout cancel show ?thesis
    by (cases e) (simp_all add: settle_def)
qed

lemma settled_accounted:
  assumes "settled wk w m j0 w'" "carried (view (w_redis w)) m" "uuid_parse (qm_job_id m) = Some j0"
    and "finalized_ids (w_db w) \<subseteq> finalized_ids (w_db w')" "accounted (w_db w) (view (w_redis w)) j"
  shows "accounted (w_db w') (view (w_redis w')) j"
proof (cases "j \<in> finalized_ids (w_db w)")
  case True
  with assms(4) show ?thesis by (auto simp: accounted_def)
next
  case False
  with assms(5) have live: "live_except {} (view (w_redis w)) j" by (simp add: accounted_def)
  from assms(1) consider (same) "view (w_redis w') = view (w_redis w)"
    | (final) "j0 \<in> finalized_ids (w_db w')"
        "\<exists>i. qm_entry_id m = Some i \<and> acknowledged i (view (w_redis w)) (view (w_redis w'))"
    | (retry) rm k v1 where "uuid_parse (qm_job_id rm) = Some j0" "published rm k (view (w_redis w)) v1"
        "view (w_redis w') = v1 \<or> (\<exists>i. qm_entry_id m = Some i \<and> acknowledged i v1 (view (w_redis w')))"
    unfolding settled_def Let_def by blast
  then show ?thesis
  proof cases
    case same
    with live show ?thesis by (simp add: accounted_def)
  next
    case final
    then show ?thesis
      using live_after_ack [OF assms(2,3) live] by (cases "j = j0") (auto simp: accounted_def)
  next
    case retry
    have c1: "carried v1 m" using assms(2) message_at_change(1) [OF retry(2)] by (auto simp: carried_def)
    have l1: "live_except {} v1 j" by (rule live_published [OF retry(2) live])
    show ?thesis
    proof (cases "j = j0")
      case False
      from live_after_ack [OF c1 assms(3) l1 False retry(3)] show ?thesis by (simp add: accounted_def)
    next
      case True
      have "live_except {i} v1 j0" if "qm_entry_id m = Some i" for i
      proof (rule live_published_new [OF retry(2) _ retry(1)])
        have "message_at (view (w_redis w)) i m" by (rule carried_same [OF assms(2) that])
        with retry(2) show "k \<notin> {i}" by (auto simp: published_def message_at_def)
      qed
      with retry(3) l1 True live_acknowledged show ?thesis by (auto simp: accounted_def)
    qed
  qed
qed

end

context job_queue
begin

lemma open_message_cases:
  assumes "wk_queue wk = q" "schema_ok (w_db w)" "open_message wk m w = (r, w')"
  obtains (bad_id) e where "uuid_parse (qm_job_id m) = None" "r = Inl e" "w' = w"
  | (missing) j where "uuid_parse (qm_job_id m) = Some j" "j \<notin> job_id ` set (jobs (w_db w))" "w_db w' = w_db w"
      "\<forall>x. r \<noteq> Inr (Some x)"
      "view (w_redis w') = view (w_redis w) \<or> (\<exists>i. qm_entry_id m = Some i \<and> acknowledged i (view (w_redis w)) (view (w_redis w')))"
  | (terminal) job where "uuid_parse (qm_job_id m) = Some (job_id job)" "job \<in> set (jobs (w_db w))"
      "job_status job \<in> TERMINAL_STATUSES" "w_db w' = w_db w" "\<forall>x. r \<noteq> Inr (Some x)"
      "view (w_redis w') = view (w_redis w) \<or> (\<exists>i. qm_entry_id m = Some i \<and> acknowledged i (view (w_redis w)) (view (w_redis w')))"
  | (blocked) job e where "uuid_parse (qm_job_id m) = Some (job_id job)" "job \<in> set (jobs (w_db w))"
      "job_status job \<notin> TERMINAL_STATUSES" "validate_job_dispatch (wk_budget_policy wk) job = Inl e" "\<forall>x. r \<noteq> Inr (Some x)"
      "r = Inr None \<Longrightarrow> job_id job \<in> finalized_ids (w_db w')" "(\<exists>e. r = Inl e) \<Longrightarrow> w_db w' = w_db w"
      "view (w_redis w') = view (w_redis w) \<or> (\<exists>i. qm_entry_id m = Some i \<and> acknowledged i (view (w_redis w)) (view (w_redis w')))"
  | (opened) job where "uuid_parse (qm_job_id m) = Some (job_id job)" "job \<in> set (jobs (w_db w))"
      "job_status job \<notin> TERMINAL_STATUSES" "validate_job_dispatch (wk_budget_policy wk) job = Inr ()"
      "r = Inr (Some job)" "record_running job (wk_id wk) (qm_attempt_number m) (w_db w) = (Inr (), w_db w')"
      "w' = w\<lparr>w_db := w_db w'\<rparr>"
proof (cases "uuid_parse (qm_job_id m)")
  case None
  with assms(3) that(1) show thesis
    by (auto simp: open_message_def transactionW_def bindM_eq uuid_of_text_def)
next
  case (Some j)
  obtain r1 w1 where ack: "ack_message wk m w = (r1, w1)" by (cases "ack_message wk m w")
  note av = ack_view [OF assms(1) ack]
  show thesis
  proof (cases rule: load_job_cases [OF assms(2), of j])
    case 1
    note missing = 1
    with assms(3) Some ack have "r = (case r1 of Inl e \<Rightarrow> Inl e | Inr _ \<Rightarrow> Inr None)" "w' = (case r1 of Inl e \<Rightarrow> w1\<lparr>w_db := w_db w\<rparr> | Inr _ \<Rightarrow> w1)"
      by (auto simp: open_message_def transactionW_def bindM_eq thenM_eq uuid_of_text_def world_eqs split: sum.splits)
    with Some missing av that(2) [of j] show thesis by (auto split: sum.splits)
  next
    case (2 job)
    note found = 2
    show thesis
    proof (cases "job_status job \<in> TERMINAL_STATUSES")
      case True
      with assms(3) Some ack found have "r = (case r1 of Inl e \<Rightarrow> Inl e | Inr _ \<Rightarrow> Inr None)" "w' = (case r1 of Inl e \<Rightarrow> w1\<lparr>w_db := w_db w\<rparr> | Inr _ \<Rightarrow> w1)"
        by (auto simp: open_message_def transactionW_def bindM_eq thenM_eq uuid_of_text_def world_eqs split: sum.splits)
      with Some found av True that(3) [of job] show thesis by (auto split: sum.splits)
    next
      case False
      show thesis
      proof (cases "validate_job_dispatch (wk_budget_policy wk) job")
        case (Inl e)
        obtain r2 db where rec: "record_budget_error wk m job e (w_db w) = (r2, db)"
          by (cases "record_budget_error wk m job e (w_db w)")
        obtain r3 w3 where ack3: "ack_message wk m (w\<lparr>w_db := db\<rparr>) = (r3, w3)" by (cases "ack_message wk m (w\<lparr>w_db := db\<rparr>)")
        note av3 = ack_view [OF assms(1) ack3]
        have cases: "(case r2 of Inl x \<Rightarrow> r = Inl x \<and> w' = w
            | Inr _ \<Rightarrow> (case r3 of Inl x \<Rightarrow> r = Inl x \<and> w' = w3\<lparr>w_db := w_db w\<rparr> | Inr _ \<Rightarrow> r = Inr None \<and> w' = w3))"
          using assms(3) Some found False Inl rec ack3
          by (auto simp: open_message_def transactionW_def bindM_eq thenM_eq uuid_of_text_def world_eqs split: sum.splits)
        have fin: "r2 = Inr u \<Longrightarrow> job_id job \<in> finalized_ids db" for u
          using finalizes_budget_error [of job wk m e] rec by (auto simp: finalizes_def)
        show thesis
          by (rule that(4) [of job e]) (use Some found False Inl cases av3 fin in \<open>auto split: sum.splits\<close>)
      next
        case (Inr u)
        have known: "job_known (w_db w) job" by (rule job_known_member [OF assms(2) found(1)])
        obtain db where rec: "record_running job (wk_id wk) (qm_attempt_number m) (w_db w) = (Inr (), db)"
          by (simp add: record_running_def record_state_event_eq [OF known])
        have "r = Inr (Some job) \<and> w' = w\<lparr>w_db := db\<rparr>"
          using assms(3) Some found False Inr rec
          by (simp add: open_message_def transactionW_def bindM_eq thenM_eq uuid_of_text_def world_eqs)
        with Some found False Inr rec show thesis by (intro that(5) [of job]) auto
      qed
    qed
  qed
qed

lemma renewals_view:
  assumes "wk_queue wk = q"
  shows "qv_fields (view (w_redis w)) i \<noteq> None \<Longrightarrow> renewals wk i n w = (r, w') \<Longrightarrow>
     w_db w' = w_db w \<and> qv_fields (view (w_redis w')) = qv_fields (view (w_redis w))
     \<and> qv_waiting (view (w_redis w')) = qv_waiting (view (w_redis w))
     \<and> lease_ids (view (w_redis w')) = lease_ids (view (w_redis w))"
proof (induction n arbitrary: w)
  case 0
  then show ?case by simp
next
  case (Suc n)
  obtain r0 s where rn: "q_renew_pending_lease q i (wk_id wk) (w_redis w) = (r0, s)"
    by (cases "q_renew_pending_lease q i (wk_id wk) (w_redis w)")
  have v: "view s = view (w_redis w) \<or> renewed i (wk_id wk) (view (w_redis w)) (view s)"
    by (rule renew [OF Suc.prems(1) rn])
  then have same: "qv_fields (view s) = qv_fields (view (w_redis w))" "qv_waiting (view s) = qv_waiting (view (w_redis w))"
    "lease_ids (view s) = lease_ids (view (w_redis w))"
    by (auto simp: renewed_def lease_ids_renewed dest: lease_ids_renewed)
  show ?case
    using Suc.prems Suc.IH [of "w\<lparr>w_redis := s\<rparr>"] rn same assms
    by (auto simp: world_eqs split: sum.splits if_splits)
qed

lemma run_phase_frame:
  assumes "wk_queue wk = q" "carried (view (w_redis w)) m" "run_phase wk m job w = (r, w')"
  shows "w_db w' = w_db w" "carried (view (w_redis w')) m"
    "live_except X (view (w_redis w')) j = live_except X (view (w_redis w)) j"
    "qv_fields (view (w_redis w')) = qv_fields (view (w_redis w))"
    "qv_waiting (view (w_redis w')) = qv_waiting (view (w_redis w))"
    "lease_ids (view (w_redis w')) = lease_ids (view (w_redis w))"
proof -
  obtain b reg where ev: "event_for (uuid_str (job_id job)) (w_registry w) = (Inr b, reg)"
    by (cases "w_registry w (uuid_str (job_id job))") (auto simp: event_for_def)
  obtain a e where run: "run_job (wk_jobs wk) job (qm_attempt_number m) b (w_env w) = (a, e)"
    by (cases "run_job (wk_jobs wk) job (qm_attempt_number m) b (w_env w)")
  let ?w = "w\<lparr>w_registry := reg, w_env := e\<rparr>"
  obtain h w2 where hb: "heartbeat wk m (jf_heartbeats (wk_jobs wk) (w_env w) e) ?w = (h, w2)"
    by (cases "heartbeat wk m (jf_heartbeats (wk_jobs wk) (w_env w) e) ?w")
  have w': "w' = w2"
    using assms(3) ev run hb by (auto simp: run_phase_def bindM_eq world_eqs split: sum.splits)
  have frame: "w_db w2 = w_db w \<and> qv_fields (view (w_redis w2)) = qv_fields (view (w_redis w))
     \<and> qv_waiting (view (w_redis w2)) = qv_waiting (view (w_redis w))
     \<and> lease_ids (view (w_redis w2)) = lease_ids (view (w_redis w))"
  proof (cases "heartbeat_runs wk m")
    case False
    with hb show ?thesis by (auto simp: heartbeat_def)
  next
    case True
    then obtain i where i: "qm_entry_id m = Some i" by (auto simp: heartbeat_runs_def)
    with assms(2) have "qv_fields (view (w_redis ?w)) i \<noteq> None" by (auto simp: carried_def message_at_def)
    from renewals_view [OF assms(1) this] hb True i show ?thesis by (simp add: heartbeat_def)
  qed
  then show "w_db w' = w_db w" "carried (view (w_redis w')) m"
    "live_except X (view (w_redis w')) j = live_except X (view (w_redis w)) j"
    "qv_fields (view (w_redis w')) = qv_fields (view (w_redis w))"
    "qv_waiting (view (w_redis w')) = qv_waiting (view (w_redis w))"
    "lease_ids (view (w_redis w')) = lease_ids (view (w_redis w))"
    using assms(2) by (simp_all add: w' carried_def message_at_def live_except_def)
qed

end

definition dispatch_ok :: "('r, 'e) worker \<Rightarrow> queue_job_message \<Rightarrow> database \<Rightarrow> bool" where
  "dispatch_ok wk m db \<longleftrightarrow> list_all (\<lambda>job. uuid_parse (qm_job_id m) = Some (job_id job) \<longrightarrow>
     validate_job_dispatch (wk_budget_policy wk) job = Inr ()) (jobs db)"

context job_queue
begin

lemma accounted_after_ack:
  assumes "carried (view (w_redis w)) m" "uuid_parse (qm_job_id m) = Some j0"
    and "finalized_ids (w_db w) \<subseteq> finalized_ids (w_db w')"
    and "view (w_redis w') = view (w_redis w) \<or>
      (\<exists>i. qm_entry_id m = Some i \<and> acknowledged i (view (w_redis w)) (view (w_redis w')))"
    and "j = j0 \<Longrightarrow> j0 \<in> finalized_ids (w_db w')" "accounted (w_db w) (view (w_redis w)) j"
  shows "accounted (w_db w') (view (w_redis w')) j"
  using assms live_after_ack [OF assms(1,2) _ _ assms(4), of j] by (auto simp: accounted_def)

lemma process_message_accounted:
  assumes "wk_queue wk = q" "db_inv (w_db w)" "carried (view (w_redis w)) m"
    and "process_message wk m w = (r, w')" "r = Inr () \<or> dispatch_ok wk m (w_db w)"
    and "j \<in> job_id ` set (jobs (w_db w))" "accounted (w_db w) (view (w_redis w)) j"
  shows "accounted (w_db w') (view (w_redis w')) j"
proof -
  obtain r1 w1 where op: "open_message wk m w = (r1, w1)" by (cases "open_message wk m w")
  have schema: "schema_ok (w_db w)" and life: "lifecycle_ok (w_db w)" using assms(2) by (simp_all add: db_inv_def)
  have mono: "finalized_ids (w_db w) \<subseteq> finalized_ids (w_db w')"
    by (rule finalized_ids_kept [OF history.keeps_process_message assms(4)])
  note after_ack = accounted_after_ack [OF assms(3) _ mono _ _ assms(7)]
  show ?thesis
    using assms(1) schema op
  proof (cases rule: open_message_cases)
    case (bad_id e)
    with assms(4,7) op show ?thesis by (simp add: process_message_def bindM_eq)
  next
    case (missing j0)
    then have "w' = w1" using assms(4) op by (auto simp: process_message_def bindM_eq split: sum.splits option.splits)
    with missing assms(6) show ?thesis by (intro after_ack) auto
  next
    case (terminal job)
    then have "w' = w1" using assms(4) op by (auto simp: process_message_def bindM_eq split: sum.splits option.splits)
    with terminal terminal_finalized [OF life] show ?thesis by (intro after_ack) auto
  next
    case (blocked job e)
    then have w1: "w' = w1" "r = Inr () \<longleftrightarrow> r1 = Inr None"
      using assms(4) op by (auto simp: process_message_def bindM_eq split: sum.splits option.splits)
    have "\<not> dispatch_ok wk m (w_db w)" using blocked by (auto simp: dispatch_ok_def list_all_iff)
    with assms(5) w1 blocked show ?thesis by (intro after_ack) auto
  next
    case (opened job)
    obtain r2 w2 where run: "run_phase wk m job w1 = (r2, w2)" by (cases "run_phase wk m job w1")
    have red: "w_redis w1 = w_redis w" by (subst opened(7)) simp
    note frame = run_phase_frame [OF assms(1) _ run, unfolded red, OF assms(3)]
    have acc1: "accounted (w_db w1) (view (w_redis w1)) j"
      using assms(7) red finalized_ids_kept [OF history.keeps_open_message op] by (auto simp: accounted_def)
    then have acc2: "accounted (w_db w2) (view (w_redis w2)) j"
      using frame red by (simp add: accounted_def)
    show ?thesis
    proof (cases r2)
      case (Inl e)
      with assms(4) op opened run have "w' = w2" by (simp add: process_message_def bindM_eq)
      with acc2 show ?thesis by simp
    next
      case (Inr p)
      obtain outcome ended where p: "p = (outcome, ended)" by (cases p)
      obtain r3 w3 where s: "settle wk m job outcome w2 = (r3, w3)" by (cases "settle wk m job outcome w2")
      have "w' = w3"
        using assms(4) op opened run Inr p s
        by (auto simp: process_message_def bindM_eq finallyM_def stop_lease_heartbeat_def split: option.splits)
      moreover have "accounted (w_db w3) (view (w_redis w3)) j"
        by (rule settled_accounted [OF settle_settled [OF assms(1) s] frame(2) opened(1)
              finalized_ids_kept [OF history.keeps_settle s] acc2])
      ultimately show ?thesis by simp
    qed
  qed
qed

end

end
