(* ===== verification/Recovery.thy ===== *)
theory Recovery
  imports Worker
begin

section \<open>Stale lease recovery\<close>

text \<open>
  \<open>worker/recovery.py\<close>: for each stale lease, a transaction plans what to do with it and the queue
  calls follow: acknowledge a message whose job is unknown or terminal, publish the next attempt and
  acknowledge, or move the message to the dead-letter stream when the retries are exhausted.
\<close>

record stale_lease_recovery_result =
  rr_detected_count :: nat
  rr_requeued_count :: nat
  rr_dlq_count :: nat
  rr_acknowledged_terminal_count :: nat
  rr_acknowledged_missing_count :: nat

datatype recovery_action = AckMissing | AckTerminal | Requeue queue_job_message | Dlq

definition next_message :: "job_record \<Rightarrow> int \<Rightarrow> queue_job_message" where
  "next_message job next_attempt_number = \<lparr>qm_job_id = uuid_str (job_id job), qm_run_id = uuid_str (job_run_id job),
     qm_attempt_number = next_attempt_number, qm_trace_id = job_trace_id job, qm_entry_id = None\<rparr>"

definition plan_recovery_action :: "pystr \<Rightarrow> stale_lease \<Rightarrow> (database, recovery_action) prog" where
  "plan_recovery_action recovery_worker_id lease = transaction (
     (let m = sl_message lease in
      bindM (liftM (uuid_of_text (qm_job_id m))) (\<lambda>i.
      bindM (load_job_for_update i) (\<lambda>found. case found of
        None \<Rightarrow> returnM AckMissing
      | Some job \<Rightarrow>
          if job_status job \<in> TERMINAL_STATUSES then returnM AckTerminal
          else if qm_attempt_number m \<le> job_max_retries job then
            (let next_attempt_number = qm_attempt_number m + 1;
                 stale_entry_id = (case qm_entry_id m of None \<Rightarrow> '''' | Some e \<Rightarrow> e)
             in thenM (record_stale_lease_recovered job recovery_worker_id (sl_consumer_name lease) stale_entry_id
                  (sl_idle_ms lease) (sl_delivery_count lease) (qm_attempt_number m) next_attempt_number)
                (returnM (Requeue (next_message job next_attempt_number))))
          else thenM (record_failed job recovery_worker_id (qm_attempt_number m) STALE_LEASE_EXHAUSTED_ERROR_CLASS True)
                (returnM Dlq)))))"

definition acknowledge_lease :: "'r queue_api \<Rightarrow> stale_lease \<Rightarrow> ('r, unit) prog" where
  "acknowledge_lease q lease = (case qm_entry_id (sl_message lease) of None \<Rightarrow> returnM ()
     | Some i \<Rightarrow> thenM (q_acknowledge q i) (returnM ()))"

text \<open>The body of the loop, with the counters.\<close>

definition recover_lease ::
    "'r queue_api \<Rightarrow> pystr \<Rightarrow> stale_lease \<Rightarrow> stale_lease_recovery_result \<Rightarrow> (('r, 'e) world, stale_lease_recovery_result) prog" where
  "recover_lease q recovery_worker_id lease c =
     bindM (inDb (plan_recovery_action recovery_worker_id lease)) (\<lambda>action. case action of
       Requeue rm \<Rightarrow> thenM (inRedis (q_publish_job q rm)) (thenM (inRedis (acknowledge_lease q lease))
         (returnM (c\<lparr>rr_requeued_count := rr_requeued_count c + 1\<rparr>)))
     | Dlq \<Rightarrow> thenM (inRedis (q_move_to_dead_letter q (sl_message lease) STALE_LEASE_EXHAUSTED_ERROR_CLASS
           (qm_attempt_number (sl_message lease))))
         (returnM (c\<lparr>rr_dlq_count := rr_dlq_count c + 1\<rparr>))
     | AckTerminal \<Rightarrow> thenM (inRedis (acknowledge_lease q lease))
         (returnM (c\<lparr>rr_acknowledged_terminal_count := rr_acknowledged_terminal_count c + 1\<rparr>))
     | AckMissing \<Rightarrow> thenM (inRedis (acknowledge_lease q lease))
         (returnM (c\<lparr>rr_acknowledged_missing_count := rr_acknowledged_missing_count c + 1\<rparr>)))"

fun recover_leases ::
    "'r queue_api \<Rightarrow> pystr \<Rightarrow> stale_lease list \<Rightarrow> stale_lease_recovery_result \<Rightarrow> (('r, 'e) world, stale_lease_recovery_result) prog" where
  "recover_leases q rid [] c = returnM c"
| "recover_leases q rid (lease # leases) c = bindM (recover_lease q rid lease c) (recover_leases q rid leases)"

definition recover_stale_leases ::
    "'r queue_api \<Rightarrow> pystr \<Rightarrow> int \<Rightarrow> int \<Rightarrow> (('r, 'e) world, stale_lease_recovery_result) prog" where
  "recover_stale_leases q recovery_worker_id stale_after_ms count =
     bindM (inRedis (q_find_stale_leases q stale_after_ms count)) (\<lambda>stale_leases.
     recover_leases q recovery_worker_id stale_leases
       \<lparr>rr_detected_count = length stale_leases, rr_requeued_count = 0, rr_dlq_count = 0,
        rr_acknowledged_terminal_count = 0, rr_acknowledged_missing_count = 0\<rparr>)"

subsection \<open>What it keeps of the registry\<close>

context lifecycle_invariant
begin

lemma keeps_plan: "keeps I (plan_recovery_action rid lease)"
  unfolding plan_recovery_action_def Let_def
  by (intro keep_intros stale_recovered failed)

lemma keeps_recover_lease: "keeps (\<lambda>w. I (w_db w)) (recover_lease q rid lease c)"
  unfolding recover_lease_def
  by (intro keeps_bind keeps_inDb keeps_plan)
     (auto split: recovery_action.split intro!: keep_intros)

lemma keeps_recover_leases: "keeps (\<lambda>w. I (w_db w)) (recover_leases q rid leases c)"
  by (induction leases arbitrary: c) (auto intro!: keeps_bind keeps_return keeps_recover_lease)

lemma keeps_recover_stale_leases: "keeps (\<lambda>w. I (w_db w)) (recover_stale_leases q rid idle n)"
  unfolding recover_stale_leases_def by (intro keeps_bind keeps_inRedis keeps_recover_leases)

end

subsection \<open>The plan\<close>

lemma next_message_parse [simp]: "uuid_parse (qm_job_id (next_message job n)) = Some (job_id job)"
  "qm_attempt_number (next_message job n) = n"
  by (simp_all add: next_message_def)

lemma plan_cases:
  assumes "schema_ok db" "plan_recovery_action rid lease db = (r, db')"
  obtains (bad_id) e where "uuid_parse (qm_job_id (sl_message lease)) = None" "r = Inl e" "db' = db"
  | (missing) j where "uuid_parse (qm_job_id (sl_message lease)) = Some j" "j \<notin> job_id ` set (jobs db)"
      "r = Inr AckMissing" "db' = db"
  | (terminal) job where "uuid_parse (qm_job_id (sl_message lease)) = Some (job_id job)" "job \<in> set (jobs db)"
      "job_status job \<in> TERMINAL_STATUSES" "r = Inr AckTerminal" "db' = db"
  | (requeue) job where "uuid_parse (qm_job_id (sl_message lease)) = Some (job_id job)" "job \<in> set (jobs db)"
      "job_status job \<notin> TERMINAL_STATUSES" "qm_attempt_number (sl_message lease) \<le> job_max_retries job"
      "r = Inr (Requeue (next_message job (qm_attempt_number (sl_message lease) + 1)))"
      "\<exists>d. db' = state_event_effect job ''queued'' ''stale_lease_recovered'' d db"
  | (exhausted) job where "uuid_parse (qm_job_id (sl_message lease)) = Some (job_id job)" "job \<in> set (jobs db)"
      "job_status job \<notin> TERMINAL_STATUSES" "job_max_retries job < qm_attempt_number (sl_message lease)"
      "r = Inr Dlq" "\<exists>d. db' = finalize_effect job ''failed'' ''failed'' d db"
proof (cases "uuid_parse (qm_job_id (sl_message lease))")
  case None
  with assms(2) that(1) show thesis
    by (auto simp: plan_recovery_action_def transaction_def bindM_eq uuid_of_text_def Let_def)
next
  case (Some j)
  show thesis
  proof (cases rule: load_job_cases [OF assms(1), of j])
    case 1
    have "plan_recovery_action rid lease db = (Inr AckMissing, db)"
      using Some 1 by (simp add: plan_recovery_action_def transaction_def bindM_eq uuid_of_text_def Let_def)
    with assms(2) Some 1 show thesis by (intro that(2) [of j]) simp_all
  next
    case (2 job)
    have known: "job_known db job" by (rule job_known_member [OF assms(1) 2(1)])
    consider "job_status job \<in> TERMINAL_STATUSES"
      | "job_status job \<notin> TERMINAL_STATUSES" "qm_attempt_number (sl_message lease) \<le> job_max_retries job"
      | "job_status job \<notin> TERMINAL_STATUSES" "job_max_retries job < qm_attempt_number (sl_message lease)"
      by linarith
    then show thesis
    proof cases
      case c: 1
      have "plan_recovery_action rid lease db = (Inr AckTerminal, db)"
        using Some 2 c by (simp add: plan_recovery_action_def transaction_def bindM_eq uuid_of_text_def Let_def)
      with assms(2) Some 2 c show thesis by (intro that(3) [of job]) simp_all
    next
      case c: 2
      have "\<exists>d. plan_recovery_action rid lease db = (Inr (Requeue (next_message job (qm_attempt_number (sl_message lease) + 1))),
          state_event_effect job ''queued'' ''stale_lease_recovered'' d db)"
        using Some 2 c known
        by (simp add: plan_recovery_action_def transaction_def bindM_eq thenM_eq uuid_of_text_def Let_def
             record_stale_lease_recovered_def record_state_event_eq) (rule exI, rule refl)
      with assms(2) Some 2 c that(4) [of job] show thesis by auto
    next
      case c: 3
      have "\<exists>d. plan_recovery_action rid lease db = (Inr Dlq, finalize_effect job ''failed'' ''failed'' d db)"
        using Some 2 c known
        by (simp add: plan_recovery_action_def transaction_def bindM_eq thenM_eq uuid_of_text_def Let_def
             record_failed_def finalize_job_eq) (rule exI, rule refl)
      with assms(2) Some 2 c that(5) [of job] show thesis by auto
    qed
  qed
qed

subsection \<open>One lease\<close>

definition ack_effect :: "queue_job_message \<Rightarrow> queue_view \<Rightarrow> queue_view \<Rightarrow> bool" where
  "ack_effect m v v' \<longleftrightarrow> (case qm_entry_id m of None \<Rightarrow> v' = v | Some i \<Rightarrow> acknowledged i v v')"

lemma ack_effect_or: "v' = v \<or> ack_effect m v v' \<Longrightarrow> v' = v \<or> (\<exists>i. qm_entry_id m = Some i \<and> acknowledged i v v')"
  by (auto simp: ack_effect_def split: option.splits)

context job_queue
begin

lemma ack_lease_view:
  assumes "acknowledge_lease q lease s = (r, s')"
  shows "view s' = view s \<or> ack_effect (sl_message lease) (view s) (view s')"
    and "r = Inr () \<Longrightarrow> ack_effect (sl_message lease) (view s) (view s')"
proof -
  have "(view s' = view s \<or> ack_effect (sl_message lease) (view s) (view s'))
    \<and> (r = Inr () \<longrightarrow> ack_effect (sl_message lease) (view s) (view s'))"
  proof (cases "qm_entry_id (sl_message lease)")
    case None
    with assms show ?thesis by (simp add: acknowledge_lease_def ack_effect_def)
  next
    case (Some i)
    obtain r0 s0 where a: "q_acknowledge q i s = (r0, s0)" by (cases "q_acknowledge q i s")
    with assms Some have "s' = s0" "r = Inr () \<longleftrightarrow> (\<exists>n. r0 = Inr n)"
      by (auto simp: acknowledge_lease_def thenM_eq split: sum.splits)
    with command_cases [OF acknowledge a] Some show ?thesis
      by (auto simp: ack_effect_def)
  qed
  then show "view s' = view s \<or> ack_effect (sl_message lease) (view s) (view s')"
    and "r = Inr () \<Longrightarrow> ack_effect (sl_message lease) (view s) (view s')" by auto
qed

lemma dead_view:
  assumes "q_move_to_dead_letter q m cls k s = (r, s')"
  shows "view s' = view s \<or> (\<exists>v. buried m cls k (view s) v \<and> (view s' = v \<or> ack_effect m v (view s')))"
    and "r = Inr x \<Longrightarrow> \<exists>v. buried m cls k (view s) v \<and> ack_effect m v (view s')"
  using dead [OF assms] dead_Inr [of m cls k s x s'] assms
  by (auto simp: ack_effect_def split: option.splits)

lemma recover_lease_cases:
  assumes "schema_ok (w_db w)" "recover_lease q rid lease c w = (r, w')"
  obtains (bad_id) e where "r = Inl e" "w' = w"
  | (missing) j where "uuid_parse (qm_job_id (sl_message lease)) = Some j" "j \<notin> job_id ` set (jobs (w_db w))"
      "w_db w' = w_db w" "view (w_redis w') = view (w_redis w) \<or> ack_effect (sl_message lease) (view (w_redis w)) (view (w_redis w'))"
      "\<forall>c'. r = Inr c' \<longrightarrow> ack_effect (sl_message lease) (view (w_redis w)) (view (w_redis w'))
         \<and> c' = c\<lparr>rr_acknowledged_missing_count := rr_acknowledged_missing_count c + 1\<rparr>"
  | (terminal) job where "uuid_parse (qm_job_id (sl_message lease)) = Some (job_id job)" "job \<in> set (jobs (w_db w))"
      "job_status job \<in> TERMINAL_STATUSES"
      "w_db w' = w_db w" "view (w_redis w') = view (w_redis w) \<or> ack_effect (sl_message lease) (view (w_redis w)) (view (w_redis w'))"
      "\<forall>c'. r = Inr c' \<longrightarrow> ack_effect (sl_message lease) (view (w_redis w)) (view (w_redis w'))
         \<and> c' = c\<lparr>rr_acknowledged_terminal_count := rr_acknowledged_terminal_count c + 1\<rparr>"
  | (requeue) job where "uuid_parse (qm_job_id (sl_message lease)) = Some (job_id job)" "job \<in> set (jobs (w_db w))"
      "job_status job \<notin> TERMINAL_STATUSES" "qm_attempt_number (sl_message lease) \<le> job_max_retries job"
      "\<exists>d. w_db w' = state_event_effect job ''queued'' ''stale_lease_recovered'' d (w_db w)"
      "view (w_redis w') = view (w_redis w) \<or> (\<exists>k v1. published (next_message job (qm_attempt_number (sl_message lease) + 1)) k
          (view (w_redis w)) v1 \<and> (view (w_redis w') = v1 \<or> ack_effect (sl_message lease) v1 (view (w_redis w'))))"
      "\<forall>c'. r = Inr c' \<longrightarrow> (\<exists>k v1. published (next_message job (qm_attempt_number (sl_message lease) + 1)) k
          (view (w_redis w)) v1 \<and> ack_effect (sl_message lease) v1 (view (w_redis w')))
         \<and> c' = c\<lparr>rr_requeued_count := rr_requeued_count c + 1\<rparr>"
  | (exhausted) job where "uuid_parse (qm_job_id (sl_message lease)) = Some (job_id job)" "job \<in> set (jobs (w_db w))"
      "job_status job \<notin> TERMINAL_STATUSES" "job_max_retries job < qm_attempt_number (sl_message lease)"
      "\<exists>d. w_db w' = finalize_effect job ''failed'' ''failed'' d (w_db w)"
      "view (w_redis w') = view (w_redis w) \<or> (\<exists>v. buried (sl_message lease) STALE_LEASE_EXHAUSTED_ERROR_CLASS
          (qm_attempt_number (sl_message lease)) (view (w_redis w)) v
          \<and> (view (w_redis w') = v \<or> ack_effect (sl_message lease) v (view (w_redis w'))))"
      "\<forall>c'. r = Inr c' \<longrightarrow> (\<exists>v. buried (sl_message lease) STALE_LEASE_EXHAUSTED_ERROR_CLASS
          (qm_attempt_number (sl_message lease)) (view (w_redis w)) v \<and> ack_effect (sl_message lease) v (view (w_redis w')))
         \<and> c' = c\<lparr>rr_dlq_count := rr_dlq_count c + 1\<rparr>"
proof -
  let ?m = "sl_message lease"
  obtain r0 db where plan: "plan_recovery_action rid lease (w_db w) = (r0, db)"
    by (cases "plan_recovery_action rid lease (w_db w)")
  obtain r1 s1 where ack: "acknowledge_lease q lease (w_redis w) = (r1, s1)"
    by (cases "acknowledge_lease q lease (w_redis w)")
  note av = ack_lease_view [OF ack]
  show thesis
    using assms(1) plan
  proof (cases rule: plan_cases)
    case (bad_id e)
    with assms(2) plan that(1) show thesis by (auto simp: recover_lease_def bindM_eq world_eqs)
  next
    case (missing j)
    have "w' = w\<lparr>w_redis := s1\<rparr>" "r = (case r1 of Inl e \<Rightarrow> Inl e | Inr _ \<Rightarrow>
        Inr (c\<lparr>rr_acknowledged_missing_count := rr_acknowledged_missing_count c + 1\<rparr>))"
      using assms(2) plan ack missing by (auto simp: recover_lease_def bindM_eq thenM_eq world_eqs split: sum.splits)
    with missing av show thesis by (intro that(2) [of j]) (auto split: sum.splits)
  next
    case (terminal job)
    have "w' = w\<lparr>w_redis := s1\<rparr>" "r = (case r1 of Inl e \<Rightarrow> Inl e | Inr _ \<Rightarrow>
        Inr (c\<lparr>rr_acknowledged_terminal_count := rr_acknowledged_terminal_count c + 1\<rparr>))"
      using assms(2) plan ack terminal by (auto simp: recover_lease_def bindM_eq thenM_eq world_eqs split: sum.splits)
    with terminal av show thesis by (intro that(3) [of job]) (auto split: sum.splits)
  next
    case (requeue job)
    let ?rm = "next_message job (qm_attempt_number ?m + 1)"
    obtain r2 s2 where pub: "q_publish_job q ?rm (w_redis w) = (r2, s2)" by (cases "q_publish_job q ?rm (w_redis w)")
    obtain r3 s3 where ack3: "acknowledge_lease q lease s2 = (r3, s3)" by (cases "acknowledge_lease q lease s2")
    note av3 = ack_lease_view [OF ack3]
    have split: "w' = w\<lparr>w_db := db, w_redis := (case r2 of Inl _ \<Rightarrow> s2 | Inr _ \<Rightarrow> s3)\<rparr>"
      "r = (case r2 of Inl e \<Rightarrow> Inl e | Inr _ \<Rightarrow> (case r3 of Inl e \<Rightarrow> Inl e | Inr _ \<Rightarrow>
        Inr (c\<lparr>rr_requeued_count := rr_requeued_count c + 1\<rparr>)))"
      using assms(2) plan requeue pub ack3
      by (auto simp: recover_lease_def bindM_eq thenM_eq world_eqs split: sum.splits)
    let ?v = "view (w_redis w)"
    have reached: "view (w_redis w') = ?v \<or> (\<exists>k v1. published ?rm k ?v v1
        \<and> (view (w_redis w') = v1 \<or> ack_effect ?m v1 (view (w_redis w'))))"
    proof (cases r2)
      case (Inl e)
      with pub publish have "view s2 = ?v \<or> (\<exists>k. published ?rm k ?v (view s2))" by (auto dest: command_Inl)
      with split(1) Inl show ?thesis by auto
    next
      case (Inr k)
      with pub publish have "published ?rm k ?v (view s2)" by (auto dest: command_Inr)
      with split(1) Inr av3(1) show ?thesis by auto
    qed
    have returned: "\<forall>c'. r = Inr c' \<longrightarrow> (\<exists>k v1. published ?rm k ?v v1 \<and> ack_effect ?m v1 (view (w_redis w')))
         \<and> c' = c\<lparr>rr_requeued_count := rr_requeued_count c + 1\<rparr>"
    proof (cases r2)
      case (Inl e)
      with split(2) show ?thesis by simp
    next
      case (Inr k)
      with pub publish have "published ?rm k ?v (view s2)" by (auto dest: command_Inr)
      with split Inr av3(2) show ?thesis by (auto split: sum.splits)
    qed
    have "\<exists>d. w_db w' = state_event_effect job ''queued'' ''stale_lease_recovered'' d (w_db w)"
      using requeue(6) split(1) by simp
    then show thesis using requeue(1-4) reached returned by (intro that(4) [of job])
  next
    case (exhausted job)
    obtain r2 s2 where dl: "q_move_to_dead_letter q ?m STALE_LEASE_EXHAUSTED_ERROR_CLASS (qm_attempt_number ?m) (w_redis w) = (r2, s2)"
      by (cases "q_move_to_dead_letter q ?m STALE_LEASE_EXHAUSTED_ERROR_CLASS (qm_attempt_number ?m) (w_redis w)")
    have split: "w' = w\<lparr>w_db := db, w_redis := s2\<rparr>"
      "r = (case r2 of Inl e \<Rightarrow> Inl e | Inr _ \<Rightarrow> Inr (c\<lparr>rr_dlq_count := rr_dlq_count c + 1\<rparr>))"
      using assms(2) plan exhausted dl
      by (auto simp: recover_lease_def bindM_eq thenM_eq world_eqs split: sum.splits)
    show thesis
      by (rule that(5) [of job], fact, fact, fact, fact)
         (use exhausted split dead_view [OF dl] in \<open>auto split: sum.splits\<close>)
  qed
qed

end

subsection \<open>The whole scan\<close>

lemma extends_job_ids:
  assumes "extends db db'"
  shows "job_id ` set (jobs db) \<subseteq> job_id ` set (jobs db')"
proof -
  have "set (map fixed_columns (jobs db)) \<subseteq> set (map fixed_columns (jobs db'))"
    by (rule set_mono_prefix) (use assms in \<open>simp add: extends_def\<close>)
  then have "job_id ` fixed_columns ` set (jobs db) \<subseteq> job_id ` fixed_columns ` set (jobs db')"
    by (simp only: list.set_map image_mono)
  moreover have "job_id ` fixed_columns ` X = job_id ` X" for X
    by (simp add: image_image fixed_columns_def)
  ultimately show ?thesis by simp
qed

lemma live_buried: "buried m cls n v v' \<Longrightarrow> live_except X v' j = live_except X v j"
  by (auto simp: buried_def live_except_def message_at_def lease_ids_def)

lemma carried_buried: "buried m' cls n v v' \<Longrightarrow> carried v' m = carried v m"
  by (auto simp: buried_def carried_def message_at_def)

lemma carried_published: "published rm k v v' \<Longrightarrow> carried v m \<Longrightarrow> carried v' m"
  by (auto simp: carried_def dest: message_at_change(1))

lemma carried_ack: "ack_effect m' v v' \<Longrightarrow> carried v' m = carried v m"
  by (auto simp: ack_effect_def carried_def message_at_change(2) split: option.splits)

definition counted :: "stale_lease_recovery_result \<Rightarrow> nat" where
  "counted c = rr_requeued_count c + rr_dlq_count c + rr_acknowledged_terminal_count c + rr_acknowledged_missing_count c"

context job_queue
begin

lemma ack_lease_live:
  assumes "carried v m" "uuid_parse (qm_job_id m) = Some j0" "live_except {} v j" "j \<noteq> j0" "v' = v \<or> ack_effect m v v'"
  shows "live_except {} v' j"
  by (rule live_after_ack [OF assms(1-4) ack_effect_or [OF assms(5)]])

lemma recover_lease_step:
  assumes "db_inv (w_db w)" "carried (view (w_redis w)) (sl_message lease)" "recover_lease q rid lease c w = (r, w')"
  shows "carried (view (w_redis w)) m \<Longrightarrow> carried (view (w_redis w')) m"
    and "j \<in> job_id ` set (jobs (w_db w)) \<Longrightarrow> accounted (w_db w) (view (w_redis w)) j \<Longrightarrow> accounted (w_db w') (view (w_redis w')) j"
    and "r = Inr c' \<Longrightarrow> counted c' = counted c + 1 \<and> rr_detected_count c' = rr_detected_count c"
proof -
  let ?v = "view (w_redis w)" and ?v' = "view (w_redis w')" and ?m = "sl_message lease"
  have schema: "schema_ok (w_db w)" and life: "lifecycle_ok (w_db w)" using assms(1) by (simp_all add: db_inv_def)
  have mono: "finalized_ids (w_db w) \<subseteq> finalized_ids (w_db w')"
    by (rule finalized_ids_kept [OF history.keeps_recover_lease assms(3)])
  have "(carried ?v m \<longrightarrow> carried ?v' m)
    \<and> (j \<in> job_id ` set (jobs (w_db w)) \<and> live_except {} ?v j \<longrightarrow> accounted (w_db w') ?v' j)
    \<and> (r = Inr c' \<longrightarrow> counted c' = counted c + 1 \<and> rr_detected_count c' = rr_detected_count c)"
    using schema assms(3)
  proof (cases rule: recover_lease_cases)
    case (bad_id e)
    then show ?thesis by (simp add: accounted_def)
  next
    case (missing j0)
    have "j \<noteq> j0" if "j \<in> job_id ` set (jobs (w_db w))" using that missing(2) by blast
    with missing ack_lease_live [OF assms(2) missing(1)] carried_ack show ?thesis
      by (auto simp: accounted_def counted_def)
  next
    case (terminal job)
    have "job_id job \<in> finalized_ids (w_db w')" using mono terminal_finalized [OF life terminal(2,3)] by blast
    with terminal ack_lease_live [OF assms(2) terminal(1)] carried_ack show ?thesis
      by (cases "j = job_id job") (auto simp: accounted_def counted_def)
  next
    case (requeue job)
    let ?rm = "next_message job (qm_attempt_number ?m + 1)"
    have live: "live_except {} ?v' j" if live: "live_except {} ?v j"
    proof (cases "?v' = ?v")
      case False
      with requeue(6) obtain k v1 where pub: "published ?rm k ?v v1" and v': "?v' = v1 \<or> ack_effect ?m v1 ?v'" by blast
      have c1: "carried v1 ?m" by (rule carried_published [OF pub assms(2)])
      have l1: "live_except {} v1 j" by (rule live_published [OF pub live])
      show ?thesis
      proof (cases "j = job_id job")
        case other: False
        show ?thesis by (rule ack_lease_live [OF c1 requeue(1) l1 other v'])
      next
        case True
        have "live_except {i} v1 j" if "qm_entry_id ?m = Some i" for i
        proof (rule live_published_new [OF pub])
          have "message_at ?v i ?m" by (rule carried_same [OF assms(2) that])
          with pub show "k \<notin> {i}" by (auto simp: published_def message_at_def)
        qed (simp add: True)
        with ack_effect_or [OF v'] l1 live_acknowledged show ?thesis by auto
      qed
    qed (use live in simp)
    have "carried ?v m \<Longrightarrow> carried ?v' m"
      using requeue(6) by (elim disjE exE conjE) (auto simp: carried_ack dest: carried_published)
    moreover have "r = Inr c' \<Longrightarrow> counted c' = counted c + 1 \<and> rr_detected_count c' = rr_detected_count c"
      using requeue(7) by (auto simp: counted_def)
    ultimately show ?thesis using live by (simp add: accounted_def)
  next
    case (exhausted job)
    from exhausted(5) have fin: "job_id job \<in> finalized_ids (w_db w')" by (auto simp: finalized_ids_effect)
    have live: "live_except {} ?v' j" if "live_except {} ?v j" "j \<noteq> job_id job"
    proof (cases "?v' = ?v")
      case False
      with exhausted(6) obtain v1 where b: "buried ?m STALE_LEASE_EXHAUSTED_ERROR_CLASS (qm_attempt_number ?m) ?v v1"
        and v': "?v' = v1 \<or> ack_effect ?m v1 ?v'" by blast
      have "carried v1 ?m" "live_except {} v1 j"
        using assms(2) that(1) by (simp_all add: carried_buried [OF b] live_buried [OF b])
      then show ?thesis by (rule ack_lease_live [OF _ exhausted(1) _ that(2) v'])
    qed (use that in simp)
    have "carried ?v m \<Longrightarrow> carried ?v' m"
      using exhausted(6) by (elim disjE exE conjE) (auto simp: carried_ack carried_buried)
    moreover have "r = Inr c' \<Longrightarrow> counted c' = counted c + 1 \<and> rr_detected_count c' = rr_detected_count c"
      using exhausted(7) by (auto simp: counted_def)
    moreover have "live_except {} ?v j \<Longrightarrow> accounted (w_db w') ?v' j"
      using live fin by (cases "j = job_id job") (simp_all add: accounted_def)
    ultimately show ?thesis by simp
  qed
  then show "carried ?v m \<Longrightarrow> carried ?v' m"
    and "r = Inr c' \<Longrightarrow> counted c' = counted c + 1 \<and> rr_detected_count c' = rr_detected_count c"
    and "j \<in> job_id ` set (jobs (w_db w)) \<Longrightarrow> accounted (w_db w) ?v j \<Longrightarrow> accounted (w_db w') ?v' j"
    using mono by (auto simp: accounted_def)
qed

end

context job_queue
begin

lemma recover_leases_step:
  "db_inv (w_db w) \<Longrightarrow> list_all (\<lambda>l. carried (view (w_redis w)) (sl_message l)) leases \<Longrightarrow>
   recover_leases q rid leases c w = (r, w') \<Longrightarrow>
     (j \<in> job_id ` set (jobs (w_db w)) \<and> accounted (w_db w) (view (w_redis w)) j \<longrightarrow> accounted (w_db w') (view (w_redis w')) j)
   \<and> (\<forall>c'. r = Inr c' \<longrightarrow> counted c' = counted c + length leases \<and> rr_detected_count c' = rr_detected_count c)"
proof (induction leases arbitrary: w c)
  case Nil
  then show ?case by auto
next
  case (Cons lease leases)
  obtain r1 w1 where one: "recover_lease q rid lease c w = (r1, w1)" by (cases "recover_lease q rid lease c w")
  have carried: "carried (view (w_redis w)) (sl_message lease)" using Cons.prems(2) by simp
  note step = recover_lease_step [OF Cons.prems(1) carried one]
  have inv1: "db_inv (w_db w1)" by (rule keepsD [OF registry.keeps_recover_lease Cons.prems(1) one])
  have carried1: "list_all (\<lambda>l. carried (view (w_redis w1)) (sl_message l)) leases"
    using Cons.prems(2) step(1) by (auto simp: list_all_iff)
  have jobs1: "j \<in> job_id ` set (jobs (w_db w)) \<Longrightarrow> j \<in> job_id ` set (jobs (w_db w1))" for j
  proof -
    have "extends (w_db w) (w_db w1)" by (rule keepsD [OF history.keeps_recover_lease _ one]) simp
    then show "j \<in> job_id ` set (jobs (w_db w)) \<Longrightarrow> j \<in> job_id ` set (jobs (w_db w1))"
      using extends_job_ids by blast
  qed
  show ?case
  proof (cases r1)
    case (Inl e)
    with Cons.prems(3) one step(2) show ?thesis by (auto simp: bindM_eq)
  next
    case (Inr c1)
    with Cons.prems(3) one have "recover_leases q rid leases c1 w1 = (r, w')" by (simp add: bindM_eq)
    note rest = Cons.IH [OF inv1 carried1 this]
    have "\<forall>c'. r = Inr c' \<longrightarrow> counted c' = counted c + length (lease # leases) \<and> rr_detected_count c' = rr_detected_count c"
    proof (intro allI impI)
      fix c' assume "r = Inr c'"
      from mp [OF spec [OF conjunct2 [OF rest]] this] step(3) [OF Inr]
      show "counted c' = counted c + length (lease # leases) \<and> rr_detected_count c' = rr_detected_count c"
        by (simp only: list.size add_Suc_right add_0_right add.assoc [symmetric] One_nat_def add_Suc)
    qed
    with conjunct1 [OF rest] step(2) [of j] jobs1 [of j] show ?thesis by blast
  qed
qed

lemma stale_carried: "stale_of v p sl \<Longrightarrow> carried v (sl_message sl)"
  by (auto simp: stale_of_def carried_def message_at_def, frule message_entry, simp)

lemma recover_stale_leases_step:
  assumes "db_inv (w_db w)" "recover_stale_leases q rid idle n w = (r, w')"
  shows "j \<in> job_id ` set (jobs (w_db w)) \<Longrightarrow> accounted (w_db w) (view (w_redis w)) j \<Longrightarrow> accounted (w_db w') (view (w_redis w')) j"
    and "r = Inr c \<Longrightarrow> counted c = rr_detected_count c"
proof -
  obtain r0 s where f: "q_find_stale_leases q idle n (w_redis w) = (r0, s)"
    by (cases "q_find_stale_leases q idle n (w_redis w)")
  have v: "view s = view (w_redis w)" by (rule find_stale [OF f])
  have "(j \<in> job_id ` set (jobs (w_db w)) \<and> accounted (w_db w) (view (w_redis w)) j \<longrightarrow> accounted (w_db w') (view (w_redis w')) j)
    \<and> (\<forall>c. r = Inr c \<longrightarrow> counted c = rr_detected_count c)"
  proof (cases r0)
    case (Inl e)
    with assms(2) f v show ?thesis by (auto simp: recover_stale_leases_def bindM_eq world_eqs)
  next
    case (Inr leases)
    let ?c0 = "\<lparr>rr_detected_count = length leases, rr_requeued_count = 0, rr_dlq_count = 0,
        rr_acknowledged_terminal_count = 0, rr_acknowledged_missing_count = 0\<rparr>"
    have run: "recover_leases q rid leases ?c0 (w\<lparr>w_redis := s\<rparr>) = (r, w')"
      using assms(2) f Inr by (simp add: recover_stale_leases_def bindM_eq world_eqs)
    have "list_all2 (stale_of (view (w_redis w)))
      (filter (\<lambda>p. qv_fields (view (w_redis w)) (pi_message_id p) \<noteq> None)
        (take (nat n) (filter (\<lambda>p. idle \<le> pi_time_since_delivered p) (qv_leased (view (w_redis w)))))) leases"
      using find_stale_leases f Inr by blast
    then have "list_all (\<lambda>l. carried (view (w_redis (w\<lparr>w_redis := s\<rparr>))) (sl_message l)) leases"
      unfolding list_all_iff using stale_carried v by (auto dest!: list_all2_right_member)
    from recover_leases_step [OF _ this run, of j] assms(1) v show ?thesis
      by (simp add: counted_def)
  qed
  then show "j \<in> job_id ` set (jobs (w_db w)) \<Longrightarrow> accounted (w_db w) (view (w_redis w)) j \<Longrightarrow> accounted (w_db w') (view (w_redis w')) j"
    and "r = Inr c \<Longrightarrow> counted c = rr_detected_count c" by auto
qed

end

end
