(* ===== verification/Transactions.thy ===== *)
theory Transactions
  imports Recovery "HOL-Library.Multiset"
begin

section \<open>Transactions, statement by statement\<close>

text \<open>
  The other theories take a transaction for one step. Here the transactions of the workers and of the recovery are
  sequences of statements that interleave, as PostgreSQL runs them at its default isolation level: a statement sees
  what is committed and what its own transaction wrote, and takes the row locks that the documentation prescribes.
  Every such interleaving is shown to be a sequence of whole transactions in the order of their commits, with the same
  results and the same registry. The order in which the code takes its locks is not always the same, and two
  transactions can block each other.
\<close>

subsection \<open>Statements and transactions\<close>

datatype stmt =
    LoadForUpdate uuid
  | InsertFinalization uuid uuid pystr pystr pystr
  | InsertConflictAttempt uuid uuid pystr pystr pystr
  | UpdateStatus uuid pystr
  | InsertEvent uuid uuid pystr items pystr

datatype answer = Row "job_record option" | Returning "uuid option" | NoRows

fun perform :: "stmt \<Rightarrow> (database, answer) prog" where
  "perform (LoadForUpdate i) = bindM (load_job_for_update i) (\<lambda>r. returnM (Row r))"
| "perform (InsertFinalization i run s t tr) = bindM (insert_finalization i run s t tr) (\<lambda>r. returnM (Returning r))"
| "perform (InsertConflictAttempt i run s t tr) = thenM (insert_conflict_attempt i run s t tr) (returnM NoRows)"
| "perform (UpdateStatus i s) = thenM (update_job_status i s) (returnM NoRows)"
| "perform (InsertEvent i run t d tr) = thenM (insert_event i run t d tr) (returnM NoRows)"

text \<open>A transaction executes statements, each chosen by the answers before it, and ends with a result or an exception.\<close>

datatype 'a tx = Finish "exc + 'a" | Execute stmt "answer \<Rightarrow> 'a tx"

primrec run_tx :: "'a tx \<Rightarrow> (database, 'a) prog" where
  "run_tx (Finish r) = liftM r"
| "run_tx (Execute s k) = bindM (perform s) (\<lambda>a. run_tx (k a))"

primrec bind_tx :: "'a tx \<Rightarrow> ('a \<Rightarrow> 'b tx) \<Rightarrow> 'b tx" where
  "bind_tx (Finish r) f = (case r of Inl e \<Rightarrow> Finish (Inl e) | Inr a \<Rightarrow> f a)"
| "bind_tx (Execute s k) f = Execute s (\<lambda>a. bind_tx (k a) f)"

lemma run_bind_tx: "run_tx (bind_tx t f) = bindM (run_tx t) (\<lambda>a. run_tx (f a))"
  by (induction t) (auto simp: bindM_eq fun_eq_iff split: sum.splits prod.splits)

subsection \<open>The transactions of the code\<close>

definition finalize_tx :: "job_record \<Rightarrow> pystr \<Rightarrow> pystr \<Rightarrow> items \<Rightarrow> finalization_result tx" where
  "finalize_tx job status event_type event_data =
     (if status \<notin> TERMINAL_STATUSES then Finish (Inl (ValueError (repr_str status @ '' is not a terminal status'')))
      else Execute (InsertFinalization (job_id job) (job_run_id job) status event_type (job_trace_id job)) (\<lambda>a.
        if a = Returning None
        then Execute (InsertConflictAttempt (job_id job) (job_run_id job) status event_type (job_trace_id job)) (\<lambda>_.
          Finish (Inr \<lparr>fr_finalized = False, fr_conflict_recorded = True\<rparr>))
        else Execute (UpdateStatus (job_id job) status) (\<lambda>_.
          Execute (InsertEvent (job_id job) (job_run_id job) event_type event_data (job_trace_id job)) (\<lambda>_.
          Finish (Inr \<lparr>fr_finalized = True, fr_conflict_recorded = False\<rparr>)))))"

definition state_event_tx :: "job_record \<Rightarrow> pystr \<Rightarrow> pystr \<Rightarrow> items \<Rightarrow> unit tx" where
  "state_event_tx job status event_type event_data = Execute (UpdateStatus (job_id job) status) (\<lambda>_.
     Execute (InsertEvent (job_id job) (job_run_id job) event_type event_data (job_trace_id job)) (\<lambda>_. Finish (Inr ())))"

lemma finalize_tx: "run_tx (finalize_tx job s t d) = finalize_job job s t d"
  unfolding finalize_tx_def finalize_job_def
  by (auto simp: fun_eq_iff bindM_eq thenM_eq raiseM_def liftM_def split: sum.splits prod.splits option.splits)

lemma state_event_tx: "run_tx (state_event_tx job s t d) = record_state_event job s t d"
  unfolding state_event_tx_def record_state_event_def
  by (auto simp: fun_eq_iff bindM_eq thenM_eq liftM_def split: sum.splits prod.splits)

subsection \<open>Locks\<close>

text \<open>
  The row locks of a job row, weakest first, and the entry of a finalization in its unique index, which a transaction
  that inserted it holds until it ends. A foreign key check locks the row it finds with \<open>FOR KEY SHARE\<close>, an update of
  other columns than the key with \<open>FOR NO KEY UPDATE\<close>.
\<close>

datatype lock = KeyShare uuid | NoKeyUpdate uuid | ForUpdate uuid | FinalizationKey uuid

fun conflicts :: "lock \<Rightarrow> lock \<Rightarrow> bool" where
  "conflicts (KeyShare i) (ForUpdate j) = (i = j)"
| "conflicts (ForUpdate i) (KeyShare j) = (i = j)"
| "conflicts (NoKeyUpdate i) (NoKeyUpdate j) = (i = j)"
| "conflicts (NoKeyUpdate i) (ForUpdate j) = (i = j)"
| "conflicts (ForUpdate i) (NoKeyUpdate j) = (i = j)"
| "conflicts (ForUpdate i) (ForUpdate j) = (i = j)"
| "conflicts (FinalizationKey i) (FinalizationKey j) = (i = j)"
| "conflicts l m = False"

lemma conflicts_sym: "conflicts l m \<Longrightarrow> conflicts m l"
  by (cases l; cases m) simp_all

text \<open>What a statement with an answer locks, in the order in which it does.\<close>

fun locks :: "stmt \<Rightarrow> answer \<Rightarrow> lock list" where
  "locks (LoadForUpdate i) (Row (Some r)) = [ForUpdate i]"
| "locks (InsertFinalization i run s t tr) (Returning (Some j)) = [FinalizationKey i, KeyShare i]"
| "locks (InsertConflictAttempt i run s t tr) a = [KeyShare i]"
| "locks (UpdateStatus i s) a = [NoKeyUpdate i]"
| "locks (InsertEvent i run t d tr) a = [KeyShare i]"
| "locks s a = []"

subsection \<open>Interleavings\<close>

text \<open>
  A transaction in progress: what it runs, the statements that it has executed with their answers, and its locks. Its
  view of the registry is the committed one with its own statements on it.
\<close>

type_synonym history = "(stmt \<times> answer) list"

record 'a attempt =
  at_tx :: "'a tx"
  at_past :: history
  at_locks :: "lock set"

fun replay :: "history \<Rightarrow> database \<Rightarrow> database option" where
  "replay [] db = Some db"
| "replay ((s, a) # h) db = (case perform s db of (Inr b, db') \<Rightarrow> if b = a then replay h db' else None | _ \<Rightarrow> None)"

fun resume :: "'a tx \<Rightarrow> history \<Rightarrow> 'a tx" where
  "resume t [] = t"
| "resume (Finish r) (x # h) = Finish r"
| "resume (Execute s k) ((s', a) # h) = resume (k a) h"

fun fits :: "'a tx \<Rightarrow> history \<Rightarrow> bool" where
  "fits t [] = True"
| "fits (Finish r) (x # h) = False"
| "fits (Execute s k) ((s', a) # h) = (s = s' \<and> fits (k a) h)"

type_synonym 'a system = "database \<times> 'a attempt multiset \<times> ('a tx \<times> 'a) list"

definition free :: "lock \<Rightarrow> 'a attempt multiset \<Rightarrow> bool" where
  "free l A \<longleftrightarrow> (\<forall>t \<in># A. \<forall>m \<in> at_locks t. \<not> conflicts l m)"

text \<open>The steps of a transaction: to take the next lock of its statement, to execute the statement, to commit.\<close>

inductive advances :: "'a system \<Rightarrow> 'a system \<Rightarrow> bool" where
  acquires: "resume (at_tx t) (at_past t) = Execute s k \<Longrightarrow> replay (at_past t) db = Some v \<Longrightarrow> perform s v = (Inr a, v') \<Longrightarrow>
    find (\<lambda>l. l \<notin> at_locks t) (locks s a) = Some l \<Longrightarrow> free l A \<Longrightarrow>
    advances (db, add_mset t A, D) (db, add_mset (t\<lparr>at_locks := insert l (at_locks t)\<rparr>) A, D)"
| executes: "resume (at_tx t) (at_past t) = Execute s k \<Longrightarrow> replay (at_past t) db = Some v \<Longrightarrow> perform s v = (Inr a, v') \<Longrightarrow>
    set (locks s a) \<subseteq> at_locks t \<Longrightarrow>
    advances (db, add_mset t A, D) (db, add_mset (t\<lparr>at_past := at_past t @ [(s, a)]\<rparr>) A, D)"
| commits: "resume (at_tx t) (at_past t) = Finish (Inr a) \<Longrightarrow> replay (at_past t) db = Some v \<Longrightarrow>
    advances (db, add_mset t A, D) (v, A, D @ [(at_tx t, a)])"

text \<open>A transaction may begin, and may be rolled back: by an exception, a refused statement, or as a deadlock's victim.\<close>

inductive tx_step :: "'a tx set \<Rightarrow> 'a system \<Rightarrow> 'a system \<Rightarrow> bool" for P where
  begins: "t \<in> P \<Longrightarrow> tx_step P (db, A, D) (db, add_mset \<lparr>at_tx = t, at_past = [], at_locks = {}\<rparr> A, D)"
| proceeds: "advances g g' \<Longrightarrow> tx_step P g g'"
| rolls_back: "tx_step P (db, add_mset t A, D) (db, A, D)"

text \<open>Whole transactions, one after the other, with their results.\<close>

fun serially :: "('a tx \<times> 'a) list \<Rightarrow> database \<Rightarrow> database option" where
  "serially [] db = Some db"
| "serially ((t, a) # D) db = (case run_tx t db of (Inr b, db') \<Rightarrow> if b = a then serially D db' else None | _ \<Rightarrow> None)"

subsection \<open>A history gives its transaction\<close>

lemma replay_append: "replay (h @ [(s, a)]) db = Option.bind (replay h db) (replay [(s, a)])"
  by (induction h db rule: replay.induct) (auto split: prod.splits sum.splits)

lemma replay_one: "replay [(s, a)] db = Some v \<longleftrightarrow> perform s db = (Inr a, v)"
  by (auto split: prod.splits sum.splits if_splits)

lemma resume_append: "fits t h \<Longrightarrow> resume t h = Execute s k \<Longrightarrow> fits t (h @ [(s, a)]) \<and> resume t (h @ [(s, a)]) = k a"
  by (induction t h rule: fits.induct) auto

lemma run_replay: "fits t h \<Longrightarrow> replay h db = Some v \<Longrightarrow> run_tx t db = run_tx (resume t h) v"
  by (induction t h arbitrary: db rule: fits.induct)
    (auto simp: bindM_eq split: prod.splits sum.splits if_splits)

lemma serially_append: "serially (D @ [(t, a)]) db = Option.bind (serially D db) (serially [(t, a)])"
  by (induction D db rule: serially.induct) (auto split: prod.splits sum.splits)

subsection \<open>What the locks protect\<close>

text \<open>
  Two registries that a transaction with the locks \<open>L\<close> cannot tell apart: the same jobs, with the same rows where it
  has locked one for update, and the finalizations of the second are those of the first and more, though not of a job
  whose entry it holds.
\<close>

definition own_rows :: "uuid \<Rightarrow> database \<Rightarrow> job_record list" where
  "own_rows i db = filter (\<lambda>r. job_id r = i) (jobs db)"

definition undisturbed :: "lock set \<Rightarrow> database \<Rightarrow> database \<Rightarrow> bool" where
  "undisturbed L u w \<longleftrightarrow> db_now u = db_now w \<and> map job_id (jobs u) = map job_id (jobs w)
     \<and> (\<forall>i. ForUpdate i \<in> L \<longrightarrow> own_rows i u = own_rows i w)
     \<and> fin_job_id ` set (job_finalizations u) \<subseteq> fin_job_id ` set (job_finalizations w)
     \<and> (\<forall>i. FinalizationKey i \<in> L \<longrightarrow> i \<in> fin_job_id ` set (job_finalizations w) \<longrightarrow> i \<in> fin_job_id ` set (job_finalizations u))"

lemma undisturbed_refl: "undisturbed L u u"
  by (simp add: undisturbed_def)

lemma undisturbedI:
  assumes "db_now u = db_now w" "map job_id (jobs u) = map job_id (jobs w)"
    and "\<And>i. ForUpdate i \<in> L \<Longrightarrow> own_rows i u = own_rows i w"
    and "fin_job_id ` set (job_finalizations u) \<subseteq> fin_job_id ` set (job_finalizations w)"
    and "\<And>i. FinalizationKey i \<in> L \<Longrightarrow> i \<in> fin_job_id ` set (job_finalizations w) \<Longrightarrow> i \<in> fin_job_id ` set (job_finalizations u)"
  shows "undisturbed L u w"
  unfolding undisturbed_def using assms by (intro conjI allI impI)

lemma undisturbedD:
  assumes "undisturbed L u w"
  shows "db_now u = db_now w" "map job_id (jobs u) = map job_id (jobs w)"
    and "ForUpdate i \<in> L \<Longrightarrow> own_rows i u = own_rows i w"
    and "fin_job_id ` set (job_finalizations u) \<subseteq> fin_job_id ` set (job_finalizations w)"
    and "FinalizationKey i \<in> L \<Longrightarrow> i \<in> fin_job_id ` set (job_finalizations w) \<Longrightarrow> i \<in> fin_job_id ` set (job_finalizations u)"
  using assms by (simp_all only: undisturbed_def simp_thms)

lemma undisturbed_trans:
  assumes "undisturbed L u v" "undisturbed L v w"
  shows "undisturbed L u w"
  using trans [OF undisturbedD(1) [OF assms(1)] undisturbedD(1) [OF assms(2)]]
    trans [OF undisturbedD(2) [OF assms(1)] undisturbedD(2) [OF assms(2)]]
    trans [OF undisturbedD(3) [OF assms(1)] undisturbedD(3) [OF assms(2)]]
    subset_trans [OF undisturbedD(4) [OF assms(1)] undisturbedD(4) [OF assms(2)]]
    undisturbedD(5) [OF assms(1) _ undisturbedD(5) [OF assms(2)]]
  by (rule undisturbedI)

lemma same_ids: "map job_id (jobs u) = map job_id (jobs w) \<Longrightarrow> job_id ` set (jobs u) = job_id ` set (jobs w)"
  by (metis list.set_map)

lemma own_rows_empty: "own_rows i u = [] \<longleftrightarrow> i \<notin> job_id ` set (jobs u)"
  by (auto simp: own_rows_def filter_empty_conv)

lemma own_rows_none:
  assumes "map job_id (jobs u) = map job_id (jobs w)"
  shows "own_rows i u = [] \<longleftrightarrow> own_rows i w = []"
  unfolding own_rows_empty same_ids [OF assms] ..

lemma load_own_rows: "load_job_for_update i db = one_or_none (own_rows i db) db"
  by (simp add: load_job_for_update_def select_jobs_def own_rows_def bindM_eq)

lemma load_answer:
  assumes "perform (LoadForUpdate i) u = (Inr a, u')"
  obtains (missing) "own_rows i u = []" "a = Row None" "u' = u" | (found) r where "own_rows i u = [r]" "a = Row (Some r)" "u' = u"
  using assms by (cases "own_rows i u" rule: one_or_none.cases) (auto simp: load_own_rows bindM_eq)

lemma perform_undisturbed:
  assumes "perform s u = (Inr a, u')" "set (locks s a) \<subseteq> L" "undisturbed L u w"
  shows "\<exists>w'. perform s w = (Inr a, w') \<and> undisturbed L u' w'"
proof -
  note d = undisturbedD [OF assms(3)] and ids = same_ids [OF undisturbedD(2) [OF assms(3)]]
  show ?thesis
  proof (cases s)
    case (LoadForUpdate i)
    from assms(1) [unfolded LoadForUpdate] have "own_rows i w = own_rows i u \<and> u' = u"
    proof (cases rule: load_answer)
      case missing
      with own_rows_none [OF d(2), of i] show ?thesis by simp
    next
      case (found r)
      with assms(2) LoadForUpdate d(3) show ?thesis by simp
    qed
    with assms(1,3) LoadForUpdate show ?thesis
      by (cases "own_rows i u" rule: one_or_none.cases) (auto simp: load_own_rows bindM_eq)
  next
    case (InsertConflictAttempt i run st t tr)
    with assms(1) have eff: "perform s w = (Inr a, snd (perform s w))" "jobs u' = jobs u" "jobs (snd (perform s w)) = jobs w"
      "job_finalizations u' = job_finalizations u" "job_finalizations (snd (perform s w)) = job_finalizations w"
      "db_now u' = db_now u" "db_now (snd (perform s w)) = db_now w"
      by (auto simp: bindM_eq thenM_eq insert_conflict_attempt_def ids split: if_splits)
    then have "undisturbed L u' (snd (perform s w))" using d by (intro undisturbedI) (auto simp: own_rows_def)
    with eff(1) show ?thesis by blast
  next
    case (InsertEvent i run t d' tr)
    with assms(1) have eff: "perform s w = (Inr a, snd (perform s w))" "jobs u' = jobs u" "jobs (snd (perform s w)) = jobs w"
      "job_finalizations u' = job_finalizations u" "job_finalizations (snd (perform s w)) = job_finalizations w"
      "db_now u' = db_now u" "db_now (snd (perform s w)) = db_now w"
      by (auto simp: bindM_eq thenM_eq insert_event_def ids split: if_splits)
    then have "undisturbed L u' (snd (perform s w))" using d by (intro undisturbedI) (auto simp: own_rows_def)
    with eff(1) show ?thesis by blast
  next
    case (InsertFinalization i run st t tr)
    show ?thesis
    proof (cases "i \<in> fin_job_id ` set (job_finalizations u)")
      case True
      with d(4) have "i \<in> fin_job_id ` set (job_finalizations w)" by blast
      with True assms(1,3) InsertFinalization show ?thesis
        by (auto simp: bindM_eq insert_finalization_def split: if_splits)
    next
      case False
      with assms(1) InsertFinalization have a: "a = Returning (Some i)" by (auto simp: bindM_eq insert_finalization_def split: if_splits)
      with assms(2) InsertFinalization have "FinalizationKey i \<in> L" by simp
      with False d(5) have "i \<notin> fin_job_id ` set (job_finalizations w)" by blast
      with False assms(1) InsertFinalization have eff: "perform s w = (Inr a, snd (perform s w))" "jobs u' = jobs u"
        "jobs (snd (perform s w)) = jobs w" "db_now u' = db_now u" "db_now (snd (perform s w)) = db_now w"
        "fin_job_id ` set (job_finalizations u') = insert i (fin_job_id ` set (job_finalizations u))"
        "fin_job_id ` set (job_finalizations (snd (perform s w))) = insert i (fin_job_id ` set (job_finalizations w))"
        by (auto simp: bindM_eq insert_finalization_def ids split: if_splits)
      then have "undisturbed L u' (snd (perform s w))" using d by (intro undisturbedI) (auto simp: own_rows_def)
    with eff(1) show ?thesis by blast
    qed
  next
    case (UpdateStatus i st)
    let ?f = "\<lambda>r. if job_id r = i then r\<lparr>job_status := st, job_updated_at := db_now u\<rparr> else r"
    from UpdateStatus assms(1) d(1) have eff: "perform s w = (Inr a, snd (perform s w))" "jobs u' = map ?f (jobs u)"
      "jobs (snd (perform s w)) = map ?f (jobs w)" "job_finalizations u' = job_finalizations u"
      "job_finalizations (snd (perform s w)) = job_finalizations w" "db_now u' = db_now u" "db_now (snd (perform s w)) = db_now w"
      by (auto simp: bindM_eq thenM_eq update_job_status_def split: if_splits)
    have ids: "map job_id (map ?f js) = map job_id js" and own: "filter (\<lambda>r. job_id r = j) (map ?f js) = map ?f (filter (\<lambda>r. job_id r = j) js)" for js j
      by (induction js) auto
    have "undisturbed L u' (snd (perform s w))"
    proof (rule undisturbedI)
      show "map job_id (jobs u') = map job_id (jobs (snd (perform s w)))" unfolding eff(2,3) ids by (rule d(2))
      show "own_rows j u' = own_rows j (snd (perform s w))" if "ForUpdate j \<in> L" for j
        using d(3) [OF that] unfolding own_rows_def eff(2,3) own by simp
    qed (use eff d in simp_all)
    with eff(1) show ?thesis by blast
  qed
qed

definition taken :: "history \<Rightarrow> lock set" where
  "taken h = \<Union> (set ` case_prod locks ` set h)"

lemma taken_simps [simp]: "taken [] = {}" "taken ((s, a) # h) = set (locks s a) \<union> taken h" "taken (h @ h') = taken h \<union> taken h'"
  by (auto simp: taken_def)

lemma taken_member: "(s, a) \<in> set h \<Longrightarrow> l \<in> set (locks s a) \<Longrightarrow> l \<in> taken h"
  by (force simp: taken_def)

lemma replay_undisturbed:
  assumes "replay h u = Some u'" "taken h \<subseteq> L" "undisturbed L u w"
  shows "\<exists>w'. replay h w = Some w' \<and> undisturbed L u' w'"
  using assms
proof (induction h arbitrary: u w)
  case (Cons x h)
  obtain s a where x: "x = (s, a)" by (cases x)
  with Cons.prems(1) obtain u1 where u1: "perform s u = (Inr a, u1)" "replay h u1 = Some u'"
    by (auto split: prod.splits sum.splits if_splits)
  from perform_undisturbed [OF u1(1) _ Cons.prems(3)] Cons.prems(2) x obtain w1 where
    w1: "perform s w = (Inr a, w1)" "undisturbed L u1 w1" by auto
  from Cons.IH [OF u1(2) _ w1(2)] Cons.prems(2) x obtain w' where "replay h w1 = Some w'" "undisturbed L u' w'" by auto
  with w1 x show ?case by auto
qed auto

text \<open>What another transaction does is not seen, when none of its locks conflicts.\<close>

lemma perform_elsewhere:
  assumes "perform s u = (Inr a, u')" "\<And>l m. l \<in> set (locks s a) \<Longrightarrow> m \<in> L \<Longrightarrow> \<not> conflicts l m"
  shows "undisturbed L u u'"
proof (cases s)
  case (LoadForUpdate i)
  from assms(1) [unfolded this] show ?thesis by (cases rule: load_answer) (simp_all add: undisturbed_refl)
next
  case (InsertFinalization i run st t tr)
  show ?thesis
  proof (cases "i \<in> fin_job_id ` set (job_finalizations u)")
    case True
    with assms(1) InsertFinalization show ?thesis
      by (auto simp: bindM_eq insert_finalization_def undisturbed_refl split: if_splits)
  next
    case False
    with assms(1) InsertFinalization have eff: "a = Returning (Some i)" "jobs u' = jobs u" "db_now u' = db_now u"
      "fin_job_id ` set (job_finalizations u') = insert i (fin_job_id ` set (job_finalizations u))"
      by (auto simp: bindM_eq insert_finalization_def split: if_splits)
    with assms(2) [of "FinalizationKey i" "FinalizationKey i"] InsertFinalization have "FinalizationKey i \<notin> L" by auto
    with eff show ?thesis by (intro undisturbedI) (auto simp: own_rows_def)
  qed
next
  case (UpdateStatus i st)
  let ?f = "\<lambda>r. if job_id r = i then r\<lparr>job_status := st, job_updated_at := db_now u\<rparr> else r"
  from UpdateStatus assms(1) have eff: "jobs u' = map ?f (jobs u)" "job_finalizations u' = job_finalizations u" "db_now u' = db_now u"
    by (auto simp: bindM_eq thenM_eq update_job_status_def split: if_splits)
  have ids: "map job_id (map ?f js) = map job_id js"
    and own: "j \<noteq> i \<Longrightarrow> filter (\<lambda>r. job_id r = j) (map ?f js) = filter (\<lambda>r. job_id r = j) js" for js j
    by (induction js) auto
  from assms(2) [of "NoKeyUpdate i" "ForUpdate i"] UpdateStatus have "ForUpdate i \<notin> L" by auto
  have "own_rows j u = own_rows j u'" if "ForUpdate j \<in> L" for j
  proof -
    from that \<open>ForUpdate i \<notin> L\<close> have "j \<noteq> i" by auto
    from own [OF this, of "jobs u"] show ?thesis unfolding own_rows_def eff by (rule sym)
  qed
  then show ?thesis using eff(2,3) ids [of "jobs u"] by (intro undisturbedI) (simp_all add: eff(1))
qed (use assms(1) in \<open>auto intro!: undisturbedI simp: own_rows_def bindM_eq thenM_eq insert_conflict_attempt_def insert_event_def split: if_splits\<close>)

lemma replay_elsewhere:
  assumes "replay h u = Some u'" "\<And>s a l m. (s, a) \<in> set h \<Longrightarrow> l \<in> set (locks s a) \<Longrightarrow> m \<in> L \<Longrightarrow> \<not> conflicts l m"
  shows "undisturbed L u u'"
  using assms
proof (induction h arbitrary: u)
  case (Cons x h)
  obtain s a where x: "x = (s, a)" by (cases x)
  with Cons.prems(1) obtain u1 where u1: "perform s u = (Inr a, u1)" "replay h u1 = Some u'"
    by (auto split: prod.splits sum.splits if_splits)
  have "undisturbed L u u1" by (rule perform_elsewhere [OF u1(1)]) (use Cons.prems(2) x in auto)
  moreover have "undisturbed L u1 u'" by (rule Cons.IH [OF u1(2)]) (use Cons.prems(2) in auto)
  ultimately show ?case by (rule undisturbed_trans)
qed (simp add: undisturbed_refl)

subsection \<open>Every interleaving is serial\<close>

definition compatible :: "'a attempt multiset \<Rightarrow> bool" where
  "compatible A \<longleftrightarrow> (\<forall>t B. A = add_mset t B \<longrightarrow> (\<forall>l \<in> at_locks t. free l B))"

definition steady :: "database \<Rightarrow> 'a attempt \<Rightarrow> bool" where
  "steady db t \<longleftrightarrow> fits (at_tx t) (at_past t) \<and> replay (at_past t) db \<noteq> None
     \<and> taken (at_past t) \<subseteq> at_locks t"

definition sound :: "'a tx set \<Rightarrow> database \<Rightarrow> 'a system \<Rightarrow> bool" where
  "sound P db0 = (\<lambda>(db, A, D). serially D db0 = Some db \<and> fst ` set D \<subseteq> P \<and> compatible A
     \<and> (\<forall>t \<in># A. steady db t \<and> at_tx t \<in> P))"

lemma free_empty [simp]: "free l {#}"
  by (simp add: free_def)

lemma free_add [simp]: "free l (add_mset t A) \<longleftrightarrow> (\<forall>m \<in> at_locks t. \<not> conflicts l m) \<and> free l A"
  by (auto simp: free_def)

lemma free_held: "m \<in> at_locks t \<Longrightarrow> conflicts l m \<Longrightarrow> \<not> free l (add_mset t A)"
  by auto

lemma compatible_add: "compatible (add_mset t A) \<longleftrightarrow> compatible A \<and> (\<forall>l \<in> at_locks t. free l A)"
proof
  assume c: "compatible (add_mset t A)"
  then have own: "\<forall>l \<in> at_locks t. free l A" by (simp add: compatible_def)
  have "\<forall>l \<in> at_locks u. free l B" if "A = add_mset u B" for u B
  proof -
    have "add_mset t A = add_mset u (add_mset t B)" using that by (simp add: add_mset_commute)
    with c have "\<forall>l \<in> at_locks u. free l (add_mset t B)" unfolding compatible_def by blast
    then show ?thesis by simp
  qed
  with own show "compatible A \<and> (\<forall>l \<in> at_locks t. free l A)" by (simp add: compatible_def)
next
  assume c: "compatible A \<and> (\<forall>l \<in> at_locks t. free l A)"
  have "\<forall>l \<in> at_locks u. free l B" if "add_mset t A = add_mset u B" for u B
    using that unfolding add_eq_conv_ex
  proof (elim disjE exE conjE)
    assume "t = u" "A = B"
    with c show ?thesis by simp
  next
    fix K assume k: "A = add_mset u K" "B = add_mset t K"
    with c have "\<forall>l \<in> at_locks u. free l K" by (simp add: compatible_def)
    with c k show ?thesis by (auto dest: conflicts_sym)
  qed
  then show "compatible (add_mset t A)" by (simp add: compatible_def)
qed

lemma steady_elsewhere:
  assumes "steady db t" "steady db u" "replay (at_past u) db = Some v" "\<And>l m. l \<in> at_locks u \<Longrightarrow> m \<in> at_locks t \<Longrightarrow> \<not> conflicts l m"
  shows "steady v t"
proof -
  obtain v1 where v1: "replay (at_past t) db = Some v1" using assms(1) by (auto simp: steady_def)
  have "undisturbed (at_locks t) db v"
    by (rule replay_elsewhere [OF assms(3)]) (use assms(2,4) taken_member in \<open>fastforce simp: steady_def\<close>)
  with replay_undisturbed [OF v1, of "at_locks t" v] assms(1) show ?thesis by (auto simp: steady_def)
qed

lemma steady_executes:
  assumes "steady db t" "resume (at_tx t) (at_past t) = Execute s k" "replay (at_past t) db = Some v" "perform s v = (Inr a, v')"
    and "set (locks s a) \<subseteq> at_locks t"
  shows "steady db (t\<lparr>at_past := at_past t @ [(s, a)]\<rparr>)"
  using assms resume_append [OF _ assms(2), of a] by (auto simp: steady_def replay_append)

lemma advances_sound:
  assumes "advances g g'" "sound P db0 g"
  shows "sound P db0 g'"
  using assms
proof (cases rule: advances.cases)
  case (acquires t s k db v a v' l A D)
  have "steady db (t\<lparr>at_locks := insert l (at_locks t)\<rparr>)" if "steady db t" using that by (auto simp: steady_def)
  with acquires(1,2,7) assms(2) show ?thesis by (auto simp: sound_def compatible_add)
next
  case (executes t s k db v a v' A D)
  with assms(2) steady_executes [OF _ executes(3-6)] show ?thesis
    by (auto simp: sound_def compatible_add)
next
  case (commits t a db v A D)
  with assms(2) have t: "steady db t" and rest: "\<forall>u \<in># A. steady db u \<and> at_tx u \<in> P"
    and free: "\<forall>l \<in> at_locks t. free l A" and D: "serially D db0 = Some db"
    by (simp_all add: sound_def compatible_add)
  from t commits run_replay [of "at_tx t" "at_past t" db v] have "run_tx (at_tx t) db = (Inr a, v)" by (simp add: steady_def)
  with D have "serially (D @ [(at_tx t, a)]) db0 = Some v" by (simp add: serially_append)
  moreover have "steady v u" if "u \<in># A" for u
    by (rule steady_elsewhere [OF _ t commits(4)]) (use rest free that in \<open>auto simp: free_def\<close>)
  ultimately show ?thesis using assms(2) commits by (simp add: sound_def compatible_add)
qed

lemma tx_step_sound: "tx_step P g g' \<Longrightarrow> sound P db0 g \<Longrightarrow> sound P db0 g'"
proof (induction rule: tx_step.induct)
  case (begins t db A D)
  then show ?case by (simp add: sound_def compatible_add steady_def)
next
  case (proceeds g g')
  then show ?case by (rule advances_sound)
next
  case (rolls_back db t A D)
  then show ?case by (simp add: sound_def compatible_add)
qed

lemma tx_run_sound: "(tx_step P)\<^sup>*\<^sup>* (db0, {#}, []) g \<Longrightarrow> sound P db0 g"
  by (induction rule: rtranclp_induct) (auto simp: tx_step_sound, simp add: sound_def compatible_def)

lemma tx_advances: "(tx_step P)\<^sup>*\<^sup>* g0 g \<Longrightarrow> advances g g' \<Longrightarrow> (tx_step P)\<^sup>*\<^sup>* g0 g'"
  by (meson proceeds rtranclp.rtrancl_into_rtrancl)

lemma tx_begins: "(tx_step P)\<^sup>*\<^sup>* g0 (db, A, D) \<Longrightarrow> t \<in> P \<Longrightarrow>
    (tx_step P)\<^sup>*\<^sup>* g0 (db, add_mset \<lparr>at_tx = t, at_past = [], at_locks = {}\<rparr> A, D)"
  by (meson begins rtranclp.rtrancl_into_rtrancl)

subsection \<open>A transaction alone commits\<close>

lemma acquire_all:
  assumes "resume t h = Execute s k" "replay h db = Some v" "perform s v = (Inr a, v')"
    and "(tx_step P)\<^sup>*\<^sup>* g (db, {#\<lparr>at_tx = t, at_past = h, at_locks = L\<rparr>#}, D)"
  shows "\<exists>L'. set (locks s a) \<subseteq> L' \<and> (tx_step P)\<^sup>*\<^sup>* g (db, {#\<lparr>at_tx = t, at_past = h, at_locks = L'\<rparr>#}, D)"
  using assms(4)
proof (induction "card (set (locks s a) - L)" arbitrary: L rule: less_induct)
  case less
  let ?t = "\<lparr>at_tx = t, at_past = h, at_locks = L\<rparr>"
  show ?case
  proof (cases "find (\<lambda>l. l \<notin> L) (locks s a)")
    case None
    then have "set (locks s a) \<subseteq> L" by (auto simp: find_None_iff)
    with less.prems show ?thesis by blast
  next
    case (Some l)
    then have l: "l \<in> set (locks s a)" "l \<notin> L" by (auto simp: find_Some_iff)
    have "advances (db, {#?t#}, D) (db, {#?t\<lparr>at_locks := insert l (at_locks ?t)\<rparr>#}, D)"
      by (rule acquires [OF _ _ assms(3)]) (use assms(1,2) Some in simp_all)
    from tx_advances [OF less.prems this]
    have "(tx_step P)\<^sup>*\<^sup>* g (db, {#\<lparr>at_tx = t, at_past = h, at_locks = insert l L\<rparr>#}, D)" by simp
    moreover have "card (set (locks s a) - insert l L) < card (set (locks s a) - L)"
      using l by (intro psubset_card_mono) auto
    ultimately show ?thesis by (rule less.hyps [rotated])
  qed
qed

lemma commits_alone:
  assumes "fits t h" "replay h db = Some v" "run_tx (resume t h) v = (Inr a, v')"
    and "(tx_step P)\<^sup>*\<^sup>* g (db, {#\<lparr>at_tx = t, at_past = h, at_locks = L\<rparr>#}, D)"
  shows "(tx_step P)\<^sup>*\<^sup>* g (v', {#}, D @ [(t, a)])"
  using assms
proof (induction "resume t h" arbitrary: h v L)
  case (Finish r)
  let ?t = "\<lparr>at_tx = t, at_past = h, at_locks = L\<rparr>"
  from Finish have r: "resume t h = Finish (Inr a)" "v' = v" by (auto simp: Finish.hyps [symmetric])
  have "advances (db, {#?t#}, D) (v, {#}, D @ [(at_tx ?t, a)])"
    by (rule commits) (use r Finish in simp_all)
  from tx_advances [OF Finish.prems(4) this] r show ?case by simp
next
  case (Execute s k)
  obtain b v1 where s: "perform s v = (Inr b, v1)" "run_tx (k b) v1 = (Inr a, v')"
    using Execute.prems(3) by (auto simp: Execute.hyps(2) [symmetric] bindM_eq split: prod.splits sum.splits)
  from acquire_all [OF Execute.hyps(2) [symmetric] Execute.prems(2) s(1) Execute.prems(4)] obtain L'
    where L': "set (locks s b) \<subseteq> L'" and run: "(tx_step P)\<^sup>*\<^sup>* g (db, {#\<lparr>at_tx = t, at_past = h, at_locks = L'\<rparr>#}, D)" by blast
  let ?t = "\<lparr>at_tx = t, at_past = h, at_locks = L'\<rparr>"
  have "advances (db, {#?t#}, D) (db, {#?t\<lparr>at_past := at_past ?t @ [(s, b)]\<rparr>#}, D)"
    by (rule executes [OF _ _ s(1), of _ k]) (use Execute.hyps(2) [symmetric] Execute.prems(2) L' in simp_all)
  from tx_advances [OF run this]
  have run': "(tx_step P)\<^sup>*\<^sup>* g (db, {#\<lparr>at_tx = t, at_past = h @ [(s, b)], at_locks = L'\<rparr>#}, D)" by simp
  from resume_append [OF Execute.prems(1) Execute.hyps(2) [symmetric], of b]
  have h: "fits t (h @ [(s, b)])" "resume t (h @ [(s, b)]) = k b" by simp_all
  have past: "replay (h @ [(s, b)]) db = Some v1" using Execute.prems(2) s(1) by (simp add: replay_append)
  show ?case by (rule Execute.hyps(1) [OF _ h(1) past _ run']) (use h(2) s(2) in auto)
qed

lemma tx_commits:
  assumes "(tx_step P)\<^sup>*\<^sup>* g (db, {#}, D)" "t \<in> P" "run_tx t db = (Inr a, db')"
  shows "(tx_step P)\<^sup>*\<^sup>* g (db', {#}, D @ [(t, a)])"
  by (rule commits_alone [OF _ _ _ tx_begins [OF assms(1,2)]]) (use assms(3) in simp_all)

subsection \<open>Two transactions that block each other\<close>

text \<open>
  The worker that completes a job inserts the finalization first, and the foreign key check then locks the job's row
  (\<open>handle_success\<close> opens its transaction without loading the job). The recovery that gives a job up locks the row
  first, and then inserts the finalization.
\<close>

definition complete_tx :: "job_record \<Rightarrow> pystr \<Rightarrow> int \<Rightarrow> items \<Rightarrow> unit tx" where
  "complete_tx job worker_id attempt_number result = bind_tx (finalize_tx job ''completed'' ''completed''
     [(''worker_id'', JStr worker_id), (''attempt_number'', JInt attempt_number), (''result'', JObj result)])
     (\<lambda>_. Finish (Inr ()))"

definition plan_tx :: "pystr \<Rightarrow> stale_lease \<Rightarrow> recovery_action tx" where
  "plan_tx recovery_worker_id lease = (let m = sl_message lease in case uuid_of_text (qm_job_id m) of
     Inl e \<Rightarrow> Finish (Inl e)
   | Inr i \<Rightarrow> Execute (LoadForUpdate i) (\<lambda>a. case a of
       Row (Some job) \<Rightarrow>
         if job_status job \<in> TERMINAL_STATUSES then Finish (Inr AckTerminal)
         else if qm_attempt_number m \<le> job_max_retries job then
           (let next_attempt_number = qm_attempt_number m + 1;
                stale_entry_id = (case qm_entry_id m of None \<Rightarrow> '''' | Some e \<Rightarrow> e)
            in bind_tx (state_event_tx job ''queued'' ''stale_lease_recovered''
                 [(''worker_id'', JStr recovery_worker_id), (''stale_consumer_name'', JStr (sl_consumer_name lease)),
                  (''stale_entry_id'', JStr stale_entry_id), (''stale_idle_ms'', JInt (sl_idle_ms lease)),
                  (''delivery_count'', JInt (sl_delivery_count lease)), (''attempt_number'', JInt (qm_attempt_number m)),
                  (''next_attempt_number'', JInt next_attempt_number),
                  (''error_class'', JStr STALE_LEASE_ERROR_CLASS), (''retryable'', JBool True)])
               (\<lambda>_. Finish (Inr (Requeue (next_message job next_attempt_number)))))
         else bind_tx (finalize_tx job ''failed'' ''failed''
             [(''worker_id'', JStr recovery_worker_id), (''attempt_number'', JInt (qm_attempt_number m)),
              (''error_class'', JStr STALE_LEASE_EXHAUSTED_ERROR_CLASS), (''retryable'', JBool True)])
           (\<lambda>_. Finish (Inr Dlq))
     | _ \<Rightarrow> Finish (Inr AckMissing)))"

lemma complete_tx: "run_tx (complete_tx job w a r) = thenM (record_completed job w a r) (returnM ())"
  by (rule ext) (simp add: complete_tx_def run_bind_tx finalize_tx record_completed_def thenM_def returnM_def liftM_def)

lemma plan_tx: "transaction (run_tx (plan_tx rid lease)) = plan_recovery_action rid lease"
proof (cases "uuid_of_text (qm_job_id (sl_message lease))")
  case (Inl e)
  then show ?thesis by (auto simp: plan_tx_def plan_recovery_action_def Let_def fun_eq_iff transaction_def bindM_eq)
next
  case (Inr i)
  let ?m = "sl_message lease"
  have "run_tx (plan_tx rid lease) = bindM (load_job_for_update i) (\<lambda>found. case found of
        None \<Rightarrow> returnM AckMissing
      | Some job \<Rightarrow>
          if job_status job \<in> TERMINAL_STATUSES then returnM AckTerminal
          else if qm_attempt_number ?m \<le> job_max_retries job then
            (let next_attempt_number = qm_attempt_number ?m + 1;
                 stale_entry_id = (case qm_entry_id ?m of None \<Rightarrow> '''' | Some e \<Rightarrow> e)
             in thenM (record_stale_lease_recovered job rid (sl_consumer_name lease) stale_entry_id
                  (sl_idle_ms lease) (sl_delivery_count lease) (qm_attempt_number ?m) next_attempt_number)
                (returnM (Requeue (next_message job next_attempt_number))))
          else thenM (record_failed job rid (qm_attempt_number ?m) STALE_LEASE_EXHAUSTED_ERROR_CLASS True)
                (returnM Dlq))"
    by (auto simp: plan_tx_def Inr Let_def fun_eq_iff bindM_eq run_bind_tx finalize_tx state_event_tx thenM_def
        record_stale_lease_recovered_def record_failed_def split: sum.splits prod.splits option.splits)
  moreover have "bindM (liftM (Inr i)) f = f i" for f :: "uuid \<Rightarrow> (database, recovery_action) prog"
    by (rule ext) (simp add: bindM_eq)
  ultimately show ?thesis by (simp only: plan_recovery_action_def Inr Let_def)
qed

text \<open>A transaction is blocked by others when one of them has a lock that conflicts with the next one it needs.\<close>

definition blocked :: "database \<Rightarrow> 'a attempt \<Rightarrow> 'a attempt multiset \<Rightarrow> bool" where
  "blocked db t A \<longleftrightarrow> (\<exists>s k v a v' l. resume (at_tx t) (at_past t) = Execute s k \<and> replay (at_past t) db = Some v
     \<and> perform s v = (Inr a, v') \<and> find (\<lambda>l. l \<notin> at_locks t) (locks s a) = Some l \<and> \<not> free l A)"

lemma blockedI:
  assumes "resume (at_tx t) (at_past t) = Execute s k" "replay (at_past t) db = Some v" "perform s v = (Inr a, v')"
    and "find (\<lambda>l. l \<notin> at_locks t) (locks s a) = Some l" "\<not> free l A"
  shows "blocked db t A"
  using assms unfolding blocked_def by blast

lemma advances_unblocked:
  assumes "advances (db, A, D) g'"
  shows "\<exists>t B. A = add_mset t B \<and> \<not> blocked db t B"
  using assms
proof (cases rule: advances.cases)
  case (acquires t s k v a v' l B)
  then have "\<not> blocked db t B" by (auto simp: blocked_def)
  with acquires show ?thesis by blast
next
  case (executes t s k v a v' B)
  then have "find (\<lambda>l. l \<notin> at_locks t) (locks s a) = None" by (auto simp: find_None_iff)
  with executes have "\<not> blocked db t B" by (auto simp: blocked_def)
  with executes show ?thesis by blast
next
  case (commits t a v B)
  then have "\<not> blocked db t B" by (auto simp: blocked_def)
  with commits show ?thesis by blast
qed

lemma blocked_pair:
  assumes "blocked db t {#u#}" "blocked db u {#t#}"
  shows "\<not> advances (db, {#t, u#}, D) g'"
proof
  assume "advances (db, {#t, u#}, D) g'"
  then obtain x B where "{#t, u#} = add_mset x B" "\<not> blocked db x B" by (blast dest: advances_unblocked)
  with assms show False by (auto simp: add_eq_conv_ex)
qed

definition give_up_tx :: "pystr \<Rightarrow> stale_lease \<Rightarrow> unit tx" where
  "give_up_tx recovery_worker_id lease = bind_tx (plan_tx recovery_worker_id lease) (\<lambda>_. Finish (Inr ()))"

text \<open>
  C22. A worker that records a job as completed and a recovery that gives the same job up can block each other for
  ever, whatever the job, when its retries are used up and its message has gone stale: the worker holds the entry of
  the finalization and waits for the job's row, the recovery holds the row and waits for the entry. PostgreSQL ends
  such a deadlock by raising an exception in one of the two, which neither of them handles.
\<close>

theorem completion_and_recovery_deadlock:
  assumes "schema_ok db" "job \<in> set (jobs db)" "job_id job \<notin> fin_job_id ` set (job_finalizations db)"
    and "job_status job \<notin> TERMINAL_STATUSES" "job_max_retries job < qm_attempt_number (sl_message lease)"
    and "uuid_of_text (qm_job_id (sl_message lease)) = Inr (job_id job)"
  shows "\<exists>t u. at_tx t = complete_tx job w a result \<and> at_tx u = give_up_tx rid lease
    \<and> (tx_step {complete_tx job w a result, give_up_tx rid lease})\<^sup>*\<^sup>* (db, {#}, []) (db, {#t, u#}, [])
    \<and> (\<forall>g. \<not> advances (db, {#t, u#}, []) g)"
proof -
  let ?i = "job_id job" and ?C = "complete_tx job w a result" and ?R = "give_up_tx rid lease"
  let ?P = "{?C, ?R}"
  let ?fresh_u = "\<lparr>at_tx = ?R, at_past = [], at_locks = {}\<rparr>"
  let ?u = "\<lparr>at_tx = ?R, at_past = [(LoadForUpdate ?i, Row (Some job))], at_locks = {ForUpdate ?i}\<rparr>"
  let ?locked_u = "\<lparr>at_tx = ?R, at_past = [], at_locks = {ForUpdate ?i}\<rparr>"
  let ?fresh_t = "\<lparr>at_tx = ?C, at_past = [], at_locks = {}\<rparr>"
  let ?t = "\<lparr>at_tx = ?C, at_past = [], at_locks = {FinalizationKey ?i}\<rparr>"
  have load: "perform (LoadForUpdate ?i) db = (Inr (Row (Some job)), db)"
    using load_job_member [OF assms(1,2)] by (simp add: bindM_eq)
  have trace: "varchar 128 (job_trace_id job)" using assms(1,2) by (auto simp: schema_ok_def job_columns_ok_def)
  have fin: "\<exists>db'. perform (InsertFinalization ?i (job_run_id job) s s (job_trace_id job)) db = (Inr (Returning (Some ?i)), db')"
    if "varchar 32 s" for s
    using that trace assms(2,3) by (auto simp: bindM_eq insert_finalization_def)
  obtain kR where R: "?R = Execute (LoadForUpdate ?i) kR"
      "\<exists>k. kR (Row (Some job)) = Execute (InsertFinalization ?i (job_run_id job) ''failed'' ''failed'' (job_trace_id job)) k"
    using assms(4-6) by (simp add: give_up_tx_def plan_tx_def Let_def finalize_tx_def)
  obtain kC where C: "?C = Execute (InsertFinalization ?i (job_run_id job) ''completed'' ''completed'' (job_trace_id job)) kC"
    by (simp add: complete_tx_def finalize_tx_def)
  obtain dbC where finC: "perform (InsertFinalization ?i (job_run_id job) ''completed'' ''completed'' (job_trace_id job)) db = (Inr (Returning (Some ?i)), dbC)"
    using fin [of "''completed''"] by auto
  obtain dbR where finR: "perform (InsertFinalization ?i (job_run_id job) ''failed'' ''failed'' (job_trace_id job)) db = (Inr (Returning (Some ?i)), dbR)"
    using fin [of "''failed''"] by auto
  note run = rtranclp.rtrancl_refl [of "tx_step ?P" "(db, {#}, [])"]
  have become: "?fresh_u\<lparr>at_locks := insert (ForUpdate ?i) (at_locks ?fresh_u)\<rparr> = ?locked_u"
      "?fresh_t\<lparr>at_locks := insert (FinalizationKey ?i) (at_locks ?fresh_t)\<rparr> = ?t"
      "?locked_u\<lparr>at_past := at_past ?locked_u @ [(LoadForUpdate ?i, Row (Some job))]\<rparr> = ?u" by simp_all
  have locked: "advances (db, {#?fresh_u#}, []) (db, {#?fresh_u\<lparr>at_locks := insert (ForUpdate ?i) (at_locks ?fresh_u)\<rparr>#}, [])"
    by (rule acquires [OF _ _ load]) (simp_all add: R(1))
  have loaded: "advances (db, {#?locked_u#}, []) (db, {#?locked_u\<lparr>at_past := at_past ?locked_u @ [(LoadForUpdate ?i, Row (Some job))]\<rparr>#}, [])"
    by (rule executes [OF _ _ load]) (simp_all add: R(1))
  have entered: "advances (db, {#?fresh_t, ?u#}, []) (db, {#?fresh_t\<lparr>at_locks := insert (FinalizationKey ?i) (at_locks ?fresh_t)\<rparr>, ?u#}, [])"
    by (rule acquires [OF _ _ finC]) (simp_all add: C free_def)
  from tx_begins [OF run, of ?R] have "(tx_step ?P)\<^sup>*\<^sup>* (db, {#}, []) (db, {#?fresh_u#}, [])" by simp
  from tx_begins [OF tx_advances [OF tx_advances [OF this locked [unfolded become]] loaded [unfolded become]], of ?C]
  have "(tx_step ?P)\<^sup>*\<^sup>* (db, {#}, []) (db, {#?fresh_t, ?u#}, [])" by simp
  from tx_advances [OF this entered [unfolded become]] have "(tx_step ?P)\<^sup>*\<^sup>* (db, {#}, []) (db, {#?t, ?u#}, [])" .
  moreover have "blocked db ?t {#?u#}"
    by (rule blockedI [OF _ _ finC _ free_held [of "ForUpdate ?i" _ "KeyShare ?i"]]) (simp_all add: C)
  moreover have "blocked db ?u {#?t#}"
  proof -
    from R(2) obtain k where "kR (Row (Some job)) = Execute (InsertFinalization ?i (job_run_id job) ''failed'' ''failed'' (job_trace_id job)) k" ..
    then show ?thesis by (intro blockedI [OF _ _ finR _ free_held [of "FinalizationKey ?i" _ "FinalizationKey ?i"]]) (simp_all add: R(1) load [simplified])
  qed
  ultimately show ?thesis using blocked_pair [of db ?t ?u] by (intro exI [of _ ?t] exI [of _ ?u]) simp
qed

definition exhausted_lease :: stale_lease where
  "exhausted_lease = \<lparr>sl_message = \<lparr>qm_job_id = uuid_str 1, qm_run_id = uuid_str 9, qm_attempt_number = 2, qm_trace_id = ''t'',
     qm_entry_id = Some ''0-1''\<rparr>, sl_consumer_name = ''w1'', sl_idle_ms = 60000, sl_delivery_count = 1\<rparr>"

lemma completion_and_recovery_deadlock_witness:
  "\<exists>t u. (tx_step {complete_tx example_job ''w1'' 2 [], give_up_tx ''r'' exhausted_lease})\<^sup>*\<^sup>* (example_db, {#}, []) (example_db, {#t, u#}, [])
    \<and> (\<forall>g. \<not> advances (example_db, {#t, u#}, []) g)"
proof -
  have pre: "job_id example_job \<notin> fin_job_id ` set (job_finalizations example_db)" "job_status example_job \<notin> TERMINAL_STATUSES"
    "job_max_retries example_job < qm_attempt_number (sl_message exhausted_lease)"
    "uuid_of_text (qm_job_id (sl_message exhausted_lease)) = Inr (job_id example_job)"
    by (simp_all add: example_job_def example_db_def empty_database_def exhausted_lease_def uuid_of_text_def)
  have schema: "schema_ok example_db" using example_db_ok(1) by (simp add: db_inv_def)
  from completion_and_recovery_deadlock [OF schema example_db_ok(2) pre] show ?thesis by blast
qed

end
