(* ===== verification/Schema.thy ===== *)
theory Schema
  imports Repository
begin

section \<open>The declared schema\<close>

text \<open>
  The tables as \<open>storage/models.py\<close> declares them, all seven, and as the migration \<open>0001_jobs.sql\<close> creates them:
  the two are shown to be the same tables. What a database does with them is in \<open>Statements\<close>.
\<close>

subsection \<open>Tables\<close>

datatype sql_value = VNull | VUuid uuid | VText pystr | VInt int | VJson json | VTime int | VNumeric rat

datatype sql_type = SaUUID | SaString nat | SaInteger | SaBigInteger | SaJSONB | SaDateTime | SaNumeric nat nat

datatype server_default = Now | Constant sql_value | Autoincrement

datatype comparison = Greater int | AtLeast int

datatype table_constraint =
    CheckConstraint pystr pystr comparison
  | UniqueConstraint pystr "pystr list"

record column =
  col_name :: pystr
  col_type :: sql_type
  col_primary_key :: bool
  col_nullable :: bool
  col_unique :: bool
  col_references :: "(pystr \<times> pystr) option"
  col_ondelete_cascade :: bool
  col_server_default :: "server_default option"
  col_onupdate_now :: bool

record table =
  tab_name :: pystr
  tab_columns :: "column list"
  tab_constraints :: "table_constraint list"

text \<open>\<open>Column(name, type)\<close> with the keywords that the declarations use.\<close>

definition Column :: "pystr \<Rightarrow> sql_type \<Rightarrow> column" where
  "Column c t = \<lparr>col_name = c, col_type = t, col_primary_key = False, col_nullable = True, col_unique = False,
     col_references = None, col_ondelete_cascade = False, col_server_default = None, col_onupdate_now = False\<rparr>"

definition primary_key :: "column \<Rightarrow> column" where
  "primary_key c = c\<lparr>col_primary_key := True, col_nullable := False\<rparr>"

definition not_null :: "column \<Rightarrow> column" where
  "not_null c = c\<lparr>col_nullable := False\<rparr>"

definition autoincrement :: "column \<Rightarrow> column" where
  "autoincrement c = c\<lparr>col_server_default := Some Autoincrement\<rparr>"

definition default_now :: "column \<Rightarrow> column" where
  "default_now c = c\<lparr>col_server_default := Some Now\<rparr>"

definition references_jobs :: "column \<Rightarrow> column" where
  "references_jobs c = c\<lparr>col_references := Some (''jobs'', ''id''), col_ondelete_cascade := True\<rparr>"

lemmas column_simps [simp] = Column_def primary_key_def not_null_def autoincrement_def default_now_def references_jobs_def

definition jobs_table :: table where
  "jobs_table = \<lparr>tab_name = ''jobs'', tab_columns =
     [primary_key (Column ''id'' SaUUID),
      not_null (Column ''run_id'' SaUUID),
      not_null (Column ''job_type'' (SaString 64)),
      not_null (Column ''payload'' SaJSONB),
      not_null (Column ''payload_hash'' (SaString 64)),
      (not_null (Column ''idempotency_key'' (SaString 255)))\<lparr>col_unique := True\<rparr>,
      not_null (Column ''status'' (SaString 32)),
      not_null (Column ''timeout_seconds'' SaInteger),
      not_null (Column ''max_retries'' SaInteger),
      not_null (Column ''trace_id'' (SaString 128)),
      Column ''budget_cents'' SaInteger,
      default_now (not_null (Column ''created_at'' SaDateTime)),
      (default_now (not_null (Column ''updated_at'' SaDateTime)))\<lparr>col_onupdate_now := True\<rparr>],
     tab_constraints =
     [CheckConstraint ''ck_jobs_timeout_positive'' ''timeout_seconds'' (Greater 0),
      CheckConstraint ''ck_jobs_max_retries_non_negative'' ''max_retries'' (AtLeast 0)]\<rparr>"

definition job_events_table :: table where
  "job_events_table = \<lparr>tab_name = ''job_events'', tab_columns =
     [autoincrement (primary_key (Column ''id'' SaBigInteger)),
      not_null (references_jobs (Column ''job_id'' SaUUID)),
      not_null (Column ''run_id'' SaUUID),
      not_null (Column ''event_type'' (SaString 64)),
      not_null (Column ''event_data'' SaJSONB),
      not_null (Column ''trace_id'' (SaString 128)),
      default_now (not_null (Column ''created_at'' SaDateTime))],
     tab_constraints = []\<rparr>"

definition job_finalizations_table :: table where
  "job_finalizations_table = \<lparr>tab_name = ''job_finalizations'', tab_columns =
     [primary_key (references_jobs (Column ''job_id'' SaUUID)),
      not_null (Column ''run_id'' SaUUID),
      not_null (Column ''status'' (SaString 32)),
      not_null (Column ''event_type'' (SaString 64)),
      not_null (Column ''trace_id'' (SaString 128)),
      default_now (not_null (Column ''created_at'' SaDateTime))],
     tab_constraints = []\<rparr>"

definition finalization_conflict_attempts_table :: table where
  "finalization_conflict_attempts_table = \<lparr>tab_name = ''finalization_conflict_attempts'', tab_columns =
     [autoincrement (primary_key (Column ''id'' SaBigInteger)),
      not_null (references_jobs (Column ''job_id'' SaUUID)),
      not_null (Column ''run_id'' SaUUID),
      not_null (Column ''attempted_status'' (SaString 32)),
      not_null (Column ''attempted_event_type'' (SaString 64)),
      not_null (Column ''trace_id'' (SaString 128)),
      default_now (not_null (Column ''created_at'' SaDateTime))],
     tab_constraints = []\<rparr>"

definition artifacts_table :: table where
  "artifacts_table = \<lparr>tab_name = ''artifacts'', tab_columns =
     [autoincrement (primary_key (Column ''id'' SaBigInteger)),
      not_null (references_jobs (Column ''job_id'' SaUUID)),
      not_null (Column ''run_id'' SaUUID),
      not_null (Column ''path'' (SaString 1024)),
      not_null (Column ''size_bytes'' SaBigInteger),
      not_null (Column ''sha256'' (SaString 64)),
      default_now (not_null (Column ''created_at'' SaDateTime))],
     tab_constraints = [UniqueConstraint ''uq_artifacts_job_path'' [''job_id'', ''path'']]\<rparr>"

definition job_retry_records_table :: table where
  "job_retry_records_table = \<lparr>tab_name = ''job_retry_records'', tab_columns =
     [autoincrement (primary_key (Column ''id'' SaBigInteger)),
      not_null (references_jobs (Column ''job_id'' SaUUID)),
      not_null (Column ''run_id'' SaUUID),
      not_null (Column ''attempt_number'' SaInteger),
      not_null (Column ''error_class'' (SaString 128)),
      default_now (not_null (Column ''created_at'' SaDateTime))],
     tab_constraints =
     [UniqueConstraint ''uq_retry_job_attempt'' [''job_id'', ''attempt_number''],
      CheckConstraint ''ck_retry_attempt_positive'' ''attempt_number'' (Greater 0)]\<rparr>"

definition job_cost_records_table :: table where
  "job_cost_records_table = \<lparr>tab_name = ''job_cost_records'', tab_columns =
     [autoincrement (primary_key (Column ''id'' SaBigInteger)),
      not_null (references_jobs (Column ''job_id'' SaUUID)),
      not_null (Column ''run_id'' SaUUID),
      not_null (Column ''model'' (SaString 128)),
      (not_null (Column ''input_tokens'' SaInteger))\<lparr>col_server_default := Some (Constant (VInt 0))\<rparr>,
      (not_null (Column ''output_tokens'' SaInteger))\<lparr>col_server_default := Some (Constant (VInt 0))\<rparr>,
      not_null (Column ''estimated_cost_usd'' (SaNumeric 12 6)),
      default_now (not_null (Column ''created_at'' SaDateTime))],
     tab_constraints = []\<rparr>"

lemmas table_defs = jobs_table_def job_events_table_def job_finalizations_table_def
  finalization_conflict_attempts_table_def artifacts_table_def job_retry_records_table_def job_cost_records_table_def

definition metadata :: "table list" where
  "metadata = [jobs_table, job_events_table, job_finalizations_table, finalization_conflict_attempts_table,
     artifacts_table, job_retry_records_table, job_cost_records_table]"

subsection \<open>The migration\<close>

text \<open>
  \<open>0001_jobs.sql\<close>, a \<open>CREATE TABLE\<close> for each table. \<open>bigserial\<close> is a \<open>bigint\<close> that may not be null, with a
  sequence as its default, and \<open>PRIMARY KEY\<close> implies \<open>NOT NULL\<close>.
\<close>

datatype ddl_type = uuid | varchar_type nat | integer | bigint | bigserial | jsonb | timestamptz | numeric nat nat

datatype ddl_clause = PRIMARY_KEY | NOT_NULL | UNIQUE | DEFAULT_now | DEFAULT int | REFERENCES_jobs_id_ON_DELETE_CASCADE

datatype ddl_item =
    DdlColumn pystr ddl_type "ddl_clause list"
  | CHECK pystr pystr comparison
  | UNIQUE_columns pystr "pystr list"

definition migration_0001_jobs :: "(pystr \<times> ddl_item list) list" where
  "migration_0001_jobs =
   [(''jobs'',
     [DdlColumn ''id'' uuid [PRIMARY_KEY],
      DdlColumn ''run_id'' uuid [NOT_NULL],
      DdlColumn ''job_type'' (varchar_type 64) [NOT_NULL],
      DdlColumn ''payload'' jsonb [NOT_NULL],
      DdlColumn ''payload_hash'' (varchar_type 64) [NOT_NULL],
      DdlColumn ''idempotency_key'' (varchar_type 255) [NOT_NULL, UNIQUE],
      DdlColumn ''status'' (varchar_type 32) [NOT_NULL],
      DdlColumn ''timeout_seconds'' integer [NOT_NULL],
      DdlColumn ''max_retries'' integer [NOT_NULL],
      DdlColumn ''trace_id'' (varchar_type 128) [NOT_NULL],
      DdlColumn ''budget_cents'' integer [],
      DdlColumn ''created_at'' timestamptz [NOT_NULL, DEFAULT_now],
      DdlColumn ''updated_at'' timestamptz [NOT_NULL, DEFAULT_now],
      CHECK ''ck_jobs_timeout_positive'' ''timeout_seconds'' (Greater 0),
      CHECK ''ck_jobs_max_retries_non_negative'' ''max_retries'' (AtLeast 0)]),
    (''job_events'',
     [DdlColumn ''id'' bigserial [PRIMARY_KEY],
      DdlColumn ''job_id'' uuid [NOT_NULL, REFERENCES_jobs_id_ON_DELETE_CASCADE],
      DdlColumn ''run_id'' uuid [NOT_NULL],
      DdlColumn ''event_type'' (varchar_type 64) [NOT_NULL],
      DdlColumn ''event_data'' jsonb [NOT_NULL],
      DdlColumn ''trace_id'' (varchar_type 128) [NOT_NULL],
      DdlColumn ''created_at'' timestamptz [NOT_NULL, DEFAULT_now]]),
    (''job_finalizations'',
     [DdlColumn ''job_id'' uuid [PRIMARY_KEY, REFERENCES_jobs_id_ON_DELETE_CASCADE],
      DdlColumn ''run_id'' uuid [NOT_NULL],
      DdlColumn ''status'' (varchar_type 32) [NOT_NULL],
      DdlColumn ''event_type'' (varchar_type 64) [NOT_NULL],
      DdlColumn ''trace_id'' (varchar_type 128) [NOT_NULL],
      DdlColumn ''created_at'' timestamptz [NOT_NULL, DEFAULT_now]]),
    (''finalization_conflict_attempts'',
     [DdlColumn ''id'' bigserial [PRIMARY_KEY],
      DdlColumn ''job_id'' uuid [NOT_NULL, REFERENCES_jobs_id_ON_DELETE_CASCADE],
      DdlColumn ''run_id'' uuid [NOT_NULL],
      DdlColumn ''attempted_status'' (varchar_type 32) [NOT_NULL],
      DdlColumn ''attempted_event_type'' (varchar_type 64) [NOT_NULL],
      DdlColumn ''trace_id'' (varchar_type 128) [NOT_NULL],
      DdlColumn ''created_at'' timestamptz [NOT_NULL, DEFAULT_now]]),
    (''artifacts'',
     [DdlColumn ''id'' bigserial [PRIMARY_KEY],
      DdlColumn ''job_id'' uuid [NOT_NULL, REFERENCES_jobs_id_ON_DELETE_CASCADE],
      DdlColumn ''run_id'' uuid [NOT_NULL],
      DdlColumn ''path'' (varchar_type 1024) [NOT_NULL],
      DdlColumn ''size_bytes'' bigint [NOT_NULL],
      DdlColumn ''sha256'' (varchar_type 64) [NOT_NULL],
      DdlColumn ''created_at'' timestamptz [NOT_NULL, DEFAULT_now],
      UNIQUE_columns ''uq_artifacts_job_path'' [''job_id'', ''path'']]),
    (''job_retry_records'',
     [DdlColumn ''id'' bigserial [PRIMARY_KEY],
      DdlColumn ''job_id'' uuid [NOT_NULL, REFERENCES_jobs_id_ON_DELETE_CASCADE],
      DdlColumn ''run_id'' uuid [NOT_NULL],
      DdlColumn ''attempt_number'' integer [NOT_NULL],
      DdlColumn ''error_class'' (varchar_type 128) [NOT_NULL],
      DdlColumn ''created_at'' timestamptz [NOT_NULL, DEFAULT_now],
      UNIQUE_columns ''uq_retry_job_attempt'' [''job_id'', ''attempt_number''],
      CHECK ''ck_retry_attempt_positive'' ''attempt_number'' (Greater 0)]),
    (''job_cost_records'',
     [DdlColumn ''id'' bigserial [PRIMARY_KEY],
      DdlColumn ''job_id'' uuid [NOT_NULL, REFERENCES_jobs_id_ON_DELETE_CASCADE],
      DdlColumn ''run_id'' uuid [NOT_NULL],
      DdlColumn ''model'' (varchar_type 128) [NOT_NULL],
      DdlColumn ''input_tokens'' integer [NOT_NULL, DEFAULT 0],
      DdlColumn ''output_tokens'' integer [NOT_NULL, DEFAULT 0],
      DdlColumn ''estimated_cost_usd'' (numeric 12 6) [NOT_NULL],
      DdlColumn ''created_at'' timestamptz [NOT_NULL, DEFAULT_now]])]"

fun created_column :: "pystr \<Rightarrow> ddl_type \<Rightarrow> column" where
  "created_column c uuid = Column c SaUUID"
| "created_column c (varchar_type n) = Column c (SaString n)"
| "created_column c integer = Column c SaInteger"
| "created_column c bigint = Column c SaBigInteger"
| "created_column c bigserial = autoincrement (not_null (Column c SaBigInteger))"
| "created_column c jsonb = Column c SaJSONB"
| "created_column c timestamptz = Column c SaDateTime"
| "created_column c (numeric p s) = Column c (SaNumeric p s)"

fun with_clause :: "ddl_clause \<Rightarrow> column \<Rightarrow> column" where
  "with_clause PRIMARY_KEY c = primary_key c"
| "with_clause NOT_NULL c = not_null c"
| "with_clause UNIQUE c = c\<lparr>col_unique := True\<rparr>"
| "with_clause DEFAULT_now c = default_now c"
| "with_clause (DEFAULT i) c = c\<lparr>col_server_default := Some (Constant (VInt i))\<rparr>"
| "with_clause REFERENCES_jobs_id_ON_DELETE_CASCADE c = references_jobs c"

fun add_item :: "ddl_item \<Rightarrow> table \<Rightarrow> table" where
  "add_item (DdlColumn c t clauses) tab = tab\<lparr>tab_columns := tab_columns tab @ [fold with_clause clauses (created_column c t)]\<rparr>"
| "add_item (CHECK n c cmp) tab = tab\<lparr>tab_constraints := tab_constraints tab @ [CheckConstraint n c cmp]\<rparr>"
| "add_item (UNIQUE_columns n cs) tab = tab\<lparr>tab_constraints := tab_constraints tab @ [UniqueConstraint n cs]\<rparr>"

definition created_table :: "pystr \<times> ddl_item list \<Rightarrow> table" where
  "created_table = (\<lambda>(n, items). fold add_item items \<lparr>tab_name = n, tab_columns = [], tab_constraints = []\<rparr>)"

text \<open>What \<open>create_all\<close> tells the database of a declaration: \<open>onupdate\<close> stays with SQLAlchemy.\<close>

definition database_side :: "table \<Rightarrow> table" where
  "database_side t = t\<lparr>tab_columns := map (\<lambda>c. c\<lparr>col_onupdate_now := False\<rparr>) (tab_columns t)\<rparr>"


end
