(* ===== verification/Statements.thy ===== *)
theory Statements
  imports Schema
begin

section \<open>The statements of the declared schema\<close>

text \<open>
  What PostgreSQL does with an \<open>INSERT\<close>, an \<open>INSERT ... ON CONFLICT DO NOTHING\<close> and an \<open>UPDATE\<close> for any declared
  table, and that the statements of \<open>Storage\<close>, which write the checks of the four tables in use out, are these at
  the tables of \<open>storage/models.py\<close>, errors included. A row is the list of its columns with their values, in the
  order of declaration.
\<close>

type_synonym row = "(pystr \<times> sql_value) list"

record relations =
  rel_rows :: "pystr \<Rightarrow> row list"
  rel_seq :: "pystr \<Rightarrow> nat"
  rel_now :: int

definition cell :: "row \<Rightarrow> pystr \<Rightarrow> sql_value" where
  "cell r c = (case map_of r c of None \<Rightarrow> VNull | Some v \<Rightarrow> v)"

subsection \<open>Constraints\<close>

definition int8 :: "int \<Rightarrow> bool" where
  "int8 i \<longleftrightarrow> - (2 ^ 63) \<le> i \<and> i < 2 ^ 63"

fun holds :: "sql_type \<Rightarrow> sql_value \<Rightarrow> bool" where
  "holds t VNull = True"
| "holds SaUUID (VUuid u) = True"
| "holds (SaString n) (VText s) = (length s \<le> n)"
| "holds SaInteger (VInt i) = int4 i"
| "holds SaBigInteger (VInt i) = int8 i"
| "holds SaJSONB (VJson j) = True"
| "holds SaDateTime (VTime t) = True"
| "holds (SaNumeric p s) (VNumeric q) = (q * 10 ^ s = of_int \<lfloor>q * 10 ^ s\<rfloor> \<and> \<bar>q * 10 ^ s\<bar> < 10 ^ p)"
| "holds t v = False"

fun compares :: "comparison \<Rightarrow> sql_value \<Rightarrow> bool" where
  "compares (Greater n) (VInt i) = (n < i)"
| "compares (AtLeast n) (VInt i) = (n \<le> i)"
| "compares cmp v = (v = VNull)"

definition types_ok :: "table \<Rightarrow> row \<Rightarrow> bool" where
  "types_ok t r \<longleftrightarrow> list_all (\<lambda>c. holds (col_type c) (cell r (col_name c))) (tab_columns t)"

definition null_column :: "table \<Rightarrow> row \<Rightarrow> column option" where
  "null_column t r = find (\<lambda>c. \<not> col_nullable c \<and> cell r (col_name c) = VNull) (tab_columns t)"

fun fails_check :: "row \<Rightarrow> table_constraint \<Rightarrow> bool" where
  "fails_check r (CheckConstraint n c cmp) = (\<not> compares cmp (cell r c))"
| "fails_check r (UniqueConstraint n cs) = False"

fun constraint_name :: "table_constraint \<Rightarrow> pystr" where
  "constraint_name (CheckConstraint n c cmp) = n"
| "constraint_name (UniqueConstraint n cs) = n"

text \<open>The unique keys with the names of their indexes: the primary key, the unique columns, the named constraints.\<close>

definition keys_of :: "table \<Rightarrow> (pystr \<times> pystr list) list" where
  "keys_of t =
     (tab_name t @ ''_pkey'', map col_name (filter col_primary_key (tab_columns t)))
     # map (\<lambda>c. (tab_name t @ ''_'' @ col_name c @ ''_key'', [col_name c])) (filter col_unique (tab_columns t))
     @ concat (map (\<lambda>k. case k of UniqueConstraint n cs \<Rightarrow> [(n, cs)] | CheckConstraint n c cmp \<Rightarrow> []) (tab_constraints t))"

text \<open>Two rows collide on a key when they agree on it and no column of it is null.\<close>

definition collide :: "pystr list \<Rightarrow> row \<Rightarrow> row \<Rightarrow> bool" where
  "collide cs r r' \<longleftrightarrow> map (cell r) cs = map (cell r') cs \<and> VNull \<notin> set (map (cell r) cs)"

definition dangling :: "relations \<Rightarrow> row \<Rightarrow> column \<Rightarrow> bool" where
  "dangling st r c = (case col_references c of None \<Rightarrow> False | Some (parent, key) \<Rightarrow>
     cell r (col_name c) \<noteq> VNull \<and> cell r (col_name c) \<notin> (\<lambda>p. cell p key) ` set (rel_rows st parent))"

subsection \<open>Statements\<close>

definition default_value :: "relations \<Rightarrow> table \<Rightarrow> column \<Rightarrow> sql_value" where
  "default_value st t c = (case col_server_default c of None \<Rightarrow> VNull | Some Now \<Rightarrow> VTime (rel_now st)
     | Some (Constant v) \<Rightarrow> v | Some Autoincrement \<Rightarrow> VInt (int (rel_seq st (tab_name t))))"

definition new_row :: "relations \<Rightarrow> table \<Rightarrow> row \<Rightarrow> row" where
  "new_row st t given = map (\<lambda>c. (col_name c, case map_of given (col_name c) of
     Some v \<Rightarrow> v | None \<Rightarrow> default_value st t c)) (tab_columns t)"

definition local_error :: "table \<Rightarrow> row \<Rightarrow> exc option" where
  "local_error t r =
     (if \<not> types_ok t r then Some (DataError (tab_name t))
      else case null_column t r of Some c \<Rightarrow> Some (IntegrityError (col_name c))
      | None \<Rightarrow> map_option (\<lambda>k. IntegrityError (constraint_name k)) (find (fails_check r) (tab_constraints t)))"

definition key_error :: "relations \<Rightarrow> table \<Rightarrow> row \<Rightarrow> exc option" where
  "key_error st t r = map_option (\<lambda>(n, cs). IntegrityError n)
     (find (\<lambda>(n, cs). list_ex (collide cs r) (rel_rows st (tab_name t))) (keys_of t))"

definition reference_error :: "relations \<Rightarrow> table \<Rightarrow> row \<Rightarrow> exc option" where
  "reference_error st t r = map_option (\<lambda>c. IntegrityError (tab_name t @ ''_'' @ col_name c @ ''_fkey''))
     (find (dangling st r) (tab_columns t))"

definition first_error :: "exc option list \<Rightarrow> exc option" where
  "first_error es = (case filter (\<lambda>e. e \<noteq> None) es of [] \<Rightarrow> None | e # _ \<Rightarrow> e)"

definition append_row :: "table \<Rightarrow> row \<Rightarrow> relations \<Rightarrow> relations" where
  "append_row t r st = st\<lparr>rel_rows := (rel_rows st)(tab_name t := rel_rows st (tab_name t) @ [r]),
     rel_seq := (if list_ex (\<lambda>c. col_server_default c = Some Autoincrement) (tab_columns t)
       then (rel_seq st)(tab_name t := Suc (rel_seq st (tab_name t))) else rel_seq st)\<rparr>"

definition insert_into :: "table \<Rightarrow> row \<Rightarrow> (relations, row) prog" where
  "insert_into t given = (\<lambda>st. let r = new_row st t given in
     case first_error [local_error t r, key_error st t r, reference_error st t r] of
       Some e \<Rightarrow> (Inl e, st)
     | None \<Rightarrow> (Inr r, append_row t r st))"

definition insert_or_nothing :: "table \<Rightarrow> pystr list \<Rightarrow> row \<Rightarrow> (relations, row option) prog" where
  "insert_or_nothing t cs given = (\<lambda>st. let r = new_row st t given in
     case local_error t r of Some e \<Rightarrow> (Inl e, st)
     | None \<Rightarrow> if list_ex (collide cs r) (rel_rows st (tab_name t)) then (Inr None, st)
       else case first_error [key_error st t r, reference_error st t r] of
         Some e \<Rightarrow> (Inl e, st)
       | None \<Rightarrow> (Inr (Some r), append_row t r st))"

definition set_column :: "relations \<Rightarrow> table \<Rightarrow> pystr \<Rightarrow> sql_value \<Rightarrow> row \<Rightarrow> row" where
  "set_column st t c v r = map (\<lambda>d. (col_name d,
     if col_name d = c then v else if col_onupdate_now d then VTime (rel_now st) else cell r (col_name d))) (tab_columns t)"

text \<open>
  \<open>UPDATE t SET c = v WHERE k = x\<close>, for a column \<open>c\<close> of no key. What the declaration says of \<open>c\<close> is checked of the
  value, before the rows are looked at.
\<close>

definition checks_on :: "table \<Rightarrow> pystr \<Rightarrow> (pystr \<times> comparison) list" where
  "checks_on t c = concat (map (\<lambda>k. case k of CheckConstraint n d cmp \<Rightarrow> if d = c then [(n, cmp)] else []
     | UniqueConstraint n cs \<Rightarrow> []) (tab_constraints t))"

definition column_error :: "table \<Rightarrow> pystr \<Rightarrow> sql_value \<Rightarrow> exc option" where
  "column_error t c v =
     (if list_ex (\<lambda>d. col_name d = c \<and> \<not> holds (col_type d) v) (tab_columns t) then Some (DataError (tab_name t))
      else if v = VNull \<and> list_ex (\<lambda>d. col_name d = c \<and> \<not> col_nullable d) (tab_columns t) then Some (IntegrityError c)
      else map_option (\<lambda>(n, _). IntegrityError n) (find (\<lambda>(n, cmp). \<not> compares cmp v) (checks_on t c)))"

definition update_where :: "table \<Rightarrow> pystr \<Rightarrow> sql_value \<Rightarrow> pystr \<Rightarrow> sql_value \<Rightarrow> (relations, unit) prog" where
  "update_where t c v k x = (\<lambda>st. case column_error t c v of Some e \<Rightarrow> (Inl e, st)
     | None \<Rightarrow> (Inr (), st\<lparr>rel_rows := (rel_rows st)(tab_name t :=
         map (\<lambda>r. if cell r k = x then set_column st t c v r else r) (rel_rows st (tab_name t)))\<rparr>))"

definition select_where :: "table \<Rightarrow> pystr \<Rightarrow> sql_value \<Rightarrow> (relations, row list) prog" where
  "select_where t k x = getM (\<lambda>st. filter (\<lambda>r. cell r k = x) (rel_rows st (tab_name t)))"

subsection \<open>The rows of the registry\<close>

definition option_value :: "int option \<Rightarrow> sql_value" where
  "option_value i = (case i of None \<Rightarrow> VNull | Some n \<Rightarrow> VInt n)"

definition job_values :: "job_record \<Rightarrow> row" where
  "job_values r = [(''id'', VUuid (job_id r)), (''run_id'', VUuid (job_run_id r)), (''job_type'', VText (job_type r)),
     (''payload'', VJson (JObj (job_payload r))), (''payload_hash'', VText (job_payload_hash r)),
     (''idempotency_key'', VText (job_idempotency_key r)), (''status'', VText (job_status r)),
     (''timeout_seconds'', VInt (job_timeout_seconds r)), (''max_retries'', VInt (job_max_retries r)),
     (''trace_id'', VText (job_trace_id r)), (''budget_cents'', option_value (job_budget_cents r))]"

definition job_row :: "job_record \<Rightarrow> row" where
  "job_row r = job_values r @ [(''created_at'', VTime (job_created_at r)), (''updated_at'', VTime (job_updated_at r))]"

definition event_values :: "uuid \<Rightarrow> uuid \<Rightarrow> pystr \<Rightarrow> items \<Rightarrow> pystr \<Rightarrow> row" where
  "event_values i run event_type event_data trace = [(''job_id'', VUuid i), (''run_id'', VUuid run),
     (''event_type'', VText event_type), (''event_data'', VJson (JObj event_data)), (''trace_id'', VText trace)]"

definition event_row :: "job_event_record \<Rightarrow> row" where
  "event_row e = (''id'', VInt (int (ev_id e))) # event_values (ev_job_id e) (ev_run_id e) (ev_type e) (ev_data e) (ev_trace_id e)
     @ [(''created_at'', VTime (ev_created_at e))]"

definition finalization_values :: "uuid \<Rightarrow> uuid \<Rightarrow> pystr \<Rightarrow> pystr \<Rightarrow> pystr \<Rightarrow> row" where
  "finalization_values i run status event_type trace = [(''job_id'', VUuid i), (''run_id'', VUuid run),
     (''status'', VText status), (''event_type'', VText event_type), (''trace_id'', VText trace)]"

definition final_row :: "finalization_row \<Rightarrow> row" where
  "final_row f = finalization_values (fin_job_id f) (fin_run_id f) (fin_status f) (fin_event_type f) (fin_trace_id f)
     @ [(''created_at'', VTime (fin_created_at f))]"

definition attempt_values :: "uuid \<Rightarrow> uuid \<Rightarrow> pystr \<Rightarrow> pystr \<Rightarrow> pystr \<Rightarrow> row" where
  "attempt_values i run status event_type trace = [(''job_id'', VUuid i), (''run_id'', VUuid run),
     (''attempted_status'', VText status), (''attempted_event_type'', VText event_type), (''trace_id'', VText trace)]"

definition attempt_row :: "conflict_row \<Rightarrow> row" where
  "attempt_row c = (''id'', VInt (int (con_id c))) # attempt_values (con_job_id c) (con_run_id c) (con_status c)
     (con_event_type c) (con_trace_id c) @ [(''created_at'', VTime (con_created_at c))]"

text \<open>The registry as the tables of the schema. The code writes four of them.\<close>

definition relations_of :: "database \<Rightarrow> relations" where
  "relations_of db = \<lparr>rel_rows = (\<lambda>_. [])(''jobs'' := map job_row (jobs db), ''job_events'' := map event_row (job_events db),
       ''job_finalizations'' := map final_row (job_finalizations db),
       ''finalization_conflict_attempts'' := map attempt_row (conflict_attempts db)),
     rel_seq = (\<lambda>_. 1)(''job_events'' := event_seq db, ''finalization_conflict_attempts'' := conflict_seq db),
     rel_now = db_now db\<rparr>"

lemmas row_defs = job_values_def job_row_def event_values_def event_row_def finalization_values_def final_row_def
  attempt_values_def attempt_row_def

subsection \<open>The statements of the registry are these\<close>

lemma cell_simps [simp]: "cell [] c = VNull" "cell ((d, v) # r) c = (if d = c then v else cell r c)"
  by (simp_all add: cell_def)

lemma null_option_value [simp]: "option_value i = VNull \<longleftrightarrow> i = None"
  by (cases i) (simp_all add: option_value_def)

lemma relations_of_sel [simp]:
  "rel_rows (relations_of db) ''jobs'' = map job_row (jobs db)"
  "rel_rows (relations_of db) ''job_events'' = map event_row (job_events db)"
  "rel_rows (relations_of db) ''job_finalizations'' = map final_row (job_finalizations db)"
  "rel_rows (relations_of db) ''finalization_conflict_attempts'' = map attempt_row (conflict_attempts db)"
  "rel_now (relations_of db) = db_now db"
  "rel_seq (relations_of db) ''job_events'' = event_seq db"
  "rel_seq (relations_of db) ''finalization_conflict_attempts'' = conflict_seq db"
  by (simp_all add: relations_of_def)

lemma job_cells [simp]:
  "cell (job_row r) ''id'' = VUuid (job_id r)" "cell (job_row r) ''run_id'' = VUuid (job_run_id r)"
  "cell (job_row r) ''job_type'' = VText (job_type r)" "cell (job_row r) ''payload'' = VJson (JObj (job_payload r))"
  "cell (job_row r) ''payload_hash'' = VText (job_payload_hash r)"
  "cell (job_row r) ''idempotency_key'' = VText (job_idempotency_key r)"
  "cell (job_row r) ''status'' = VText (job_status r)"
  "cell (job_row r) ''timeout_seconds'' = VInt (job_timeout_seconds r)"
  "cell (job_row r) ''max_retries'' = VInt (job_max_retries r)" "cell (job_row r) ''trace_id'' = VText (job_trace_id r)"
  "cell (job_row r) ''budget_cents'' = option_value (job_budget_cents r)"
  "cell (job_row r) ''created_at'' = VTime (job_created_at r)" "cell (job_row r) ''updated_at'' = VTime (job_updated_at r)"
  by (simp_all add: job_row_def job_values_def)

lemma jobs_types: "types_ok jobs_table (job_row r) = job_columns_ok r"
  by (cases "job_budget_cents r")
    (simp_all add: types_ok_def jobs_table_def job_columns_ok_def option_value_def conj_ac)

lemma jobs_checks: "local_error jobs_table (job_row r) =
  (if \<not> job_columns_ok r then Some (DataError ''jobs'')
   else if job_timeout_seconds r \<le> 0 then Some (IntegrityError ''ck_jobs_timeout_positive'')
   else if job_max_retries r < 0 then Some (IntegrityError ''ck_jobs_max_retries_non_negative'') else None)"
  by (simp add: local_error_def jobs_types null_column_def) (simp add: jobs_table_def)

lemma jobs_keys: "keys_of jobs_table = [(''jobs_pkey'', [''id'']), (''jobs_idempotency_key_key'', [''idempotency_key''])]"
  by (simp add: keys_of_def jobs_table_def)

lemma list_ex_member: "list_ex (\<lambda>x. f x = y) xs \<longleftrightarrow> y \<in> f ` set xs"
  by (auto simp: list_ex_iff)

lemma list_ex_map: "list_ex P (map f xs) = list_ex (\<lambda>x. P (f x)) xs"
  by (induction xs) simp_all

lemma jobs_key_error: "key_error (relations_of db) jobs_table (job_row r) =
  (if job_id r \<in> job_id ` set (jobs db) then Some (IntegrityError ''jobs_pkey'')
   else if job_idempotency_key r \<in> job_idempotency_key ` set (jobs db) then Some (IntegrityError ''jobs_idempotency_key_key'')
   else None)"
proof -
  have "list_ex (collide [''id''] (job_row r)) (map job_row (jobs db)) \<longleftrightarrow> job_id r \<in> job_id ` set (jobs db)"
    by (simp add: list_ex_map collide_def eq_commute [of "job_id r"] list_ex_member)
  moreover have "list_ex (collide [''idempotency_key''] (job_row r)) (map job_row (jobs db))
      \<longleftrightarrow> job_idempotency_key r \<in> job_idempotency_key ` set (jobs db)"
    by (simp add: list_ex_map collide_def eq_commute [of "job_idempotency_key r"] list_ex_member)
  moreover have "tab_name jobs_table = ''jobs''" by (simp add: jobs_table_def)
  ultimately show ?thesis by (simp add: key_error_def jobs_keys)
qed

lemma insert_job_declared:
  "insert_into jobs_table (job_values r) (relations_of db) =
    (case insert_job r db of (res, db') \<Rightarrow> (map_sum id job_row res, relations_of db'))"
proof -
  let ?r = "r\<lparr>job_created_at := db_now db, job_updated_at := db_now db\<rparr>"
  have row: "new_row (relations_of db) jobs_table (job_values r) = job_row ?r"
    by (simp add: new_row_def jobs_table_def job_row_def job_values_def default_value_def)
  have refs: "reference_error (relations_of db) jobs_table (job_row ?r) = None"
    by (simp add: reference_error_def jobs_table_def dangling_def)
  have cols: "job_columns_ok ?r = job_columns_ok r" by (simp add: job_columns_ok_def)
  have "append_row jobs_table (job_row ?r) (relations_of db) = relations_of (db\<lparr>jobs := jobs db @ [?r]\<rparr>)"
    by (simp add: append_row_def jobs_table_def relations_of_def fun_eq_iff)
  with cols show ?thesis
    by (simp add: insert_into_def row jobs_checks jobs_key_error refs first_error_def insert_job_def Let_def)
qed

text \<open>
  The tables of a job refer to it. Their numbers come from a sequence, which is beyond the numbers in use and must
  not have run out.
\<close>

definition sequences_ok :: "database \<Rightarrow> bool" where
  "sequences_ok db \<longleftrightarrow> (\<forall>e \<in> set (job_events db). ev_id e < event_seq db) \<and> (\<forall>c \<in> set (conflict_attempts db). con_id c < conflict_seq db)
     \<and> event_seq db < 2 ^ 63 \<and> conflict_seq db < 2 ^ 63"

lemma int8_of_nat: "n < 2 ^ 63 \<Longrightarrow> int8 (int n)"
proof -
  assume "n < 2 ^ 63"
  then have "int n < int (2 ^ 63)" by (rule iffD2 [OF of_nat_less_iff])
  then show ?thesis by (simp add: int8_def)
qed

lemma event_cells [simp]:
  "cell (event_row e) ''id'' = VInt (int (ev_id e))" "cell (event_row e) ''job_id'' = VUuid (ev_job_id e)"
  "cell (event_row e) ''run_id'' = VUuid (ev_run_id e)" "cell (event_row e) ''event_type'' = VText (ev_type e)"
  "cell (event_row e) ''event_data'' = VJson (JObj (ev_data e))" "cell (event_row e) ''trace_id'' = VText (ev_trace_id e)"
  "cell (event_row e) ''created_at'' = VTime (ev_created_at e)"
  by (simp_all add: event_row_def event_values_def)

lemma final_cells [simp]:
  "cell (final_row f) ''job_id'' = VUuid (fin_job_id f)" "cell (final_row f) ''run_id'' = VUuid (fin_run_id f)"
  "cell (final_row f) ''status'' = VText (fin_status f)" "cell (final_row f) ''event_type'' = VText (fin_event_type f)"
  "cell (final_row f) ''trace_id'' = VText (fin_trace_id f)" "cell (final_row f) ''created_at'' = VTime (fin_created_at f)"
  by (simp_all add: final_row_def finalization_values_def)

lemma attempt_cells [simp]:
  "cell (attempt_row c) ''id'' = VInt (int (con_id c))" "cell (attempt_row c) ''job_id'' = VUuid (con_job_id c)"
  "cell (attempt_row c) ''run_id'' = VUuid (con_run_id c)" "cell (attempt_row c) ''attempted_status'' = VText (con_status c)"
  "cell (attempt_row c) ''attempted_event_type'' = VText (con_event_type c)"
  "cell (attempt_row c) ''trace_id'' = VText (con_trace_id c)" "cell (attempt_row c) ''created_at'' = VTime (con_created_at c)"
  by (simp_all add: attempt_row_def attempt_values_def)

lemma known_job: "VUuid i \<in> (\<lambda>r. VUuid (job_id r)) ` set js \<longleftrightarrow> i \<in> job_id ` set js"
  by (auto simp: image_iff)

lemma child_names [simp]: "tab_name job_events_table = ''job_events''" "tab_name job_finalizations_table = ''job_finalizations''"
  "tab_name finalization_conflict_attempts_table = ''finalization_conflict_attempts''" "tab_name jobs_table = ''jobs''"
  by (simp_all add: table_defs)

lemma child_keys: "keys_of job_events_table = [(''job_events_pkey'', [''id''])]"
  "keys_of job_finalizations_table = [(''job_finalizations_pkey'', [''job_id''])]"
  "keys_of finalization_conflict_attempts_table = [(''finalization_conflict_attempts_pkey'', [''id''])]"
  by (simp_all add: keys_of_def table_defs)

lemma child_reference_error:
  "reference_error (relations_of db) job_events_table (event_row e) =
    (if ev_job_id e \<in> job_id ` set (jobs db) then None else Some (IntegrityError ''job_events_job_id_fkey''))"
  "reference_error (relations_of db) job_finalizations_table (final_row f) =
    (if fin_job_id f \<in> job_id ` set (jobs db) then None else Some (IntegrityError ''job_finalizations_job_id_fkey''))"
  "reference_error (relations_of db) finalization_conflict_attempts_table (attempt_row c) =
    (if con_job_id c \<in> job_id ` set (jobs db) then None else Some (IntegrityError ''finalization_conflict_attempts_job_id_fkey''))"
  by (simp_all add: reference_error_def table_defs dangling_def image_image known_job)

lemma child_local_error:
  "int8 (int (ev_id e)) \<Longrightarrow> local_error job_events_table (event_row e) =
    (if varchar 64 (ev_type e) \<and> varchar 128 (ev_trace_id e) then None else Some (DataError ''job_events''))"
  "local_error job_finalizations_table (final_row f) =
    (if varchar 32 (fin_status f) \<and> varchar 64 (fin_event_type f) \<and> varchar 128 (fin_trace_id f) then None
     else Some (DataError ''job_finalizations''))"
  "int8 (int (con_id c)) \<Longrightarrow> local_error finalization_conflict_attempts_table (attempt_row c) =
    (if varchar 32 (con_status c) \<and> varchar 64 (con_event_type c) \<and> varchar 128 (con_trace_id c) then None
     else Some (DataError ''finalization_conflict_attempts''))"
  by (simp_all add: local_error_def types_ok_def null_column_def table_defs)

lemma insert_event_declared:
  assumes "\<forall>e \<in> set (job_events db). ev_id e < event_seq db" "event_seq db < 2 ^ 63"
  shows "insert_into job_events_table (event_values i run t d tr) (relations_of db) =
    (case insert_event i run t d tr db of (res, db') \<Rightarrow>
      (map_sum id (\<lambda>_. event_row \<lparr>ev_id = event_seq db, ev_job_id = i, ev_run_id = run, ev_type = t, ev_data = d,
         ev_trace_id = tr, ev_created_at = db_now db\<rparr>) res, relations_of db'))"
proof -
  let ?e = "\<lparr>ev_id = event_seq db, ev_job_id = i, ev_run_id = run, ev_type = t, ev_data = d, ev_trace_id = tr, ev_created_at = db_now db\<rparr>"
  have row: "new_row (relations_of db) job_events_table (event_values i run t d tr) = event_row ?e"
    by (simp add: new_row_def job_events_table_def event_row_def event_values_def default_value_def)
  have "\<not> list_ex (collide [''id''] (event_row ?e)) (map event_row (job_events db))"
    using assms(1) by (auto simp: list_ex_iff collide_def)
  then have keys: "key_error (relations_of db) job_events_table (event_row ?e) = None"
    by (simp add: key_error_def child_keys)
  have append: "append_row job_events_table (event_row ?e) (relations_of db) =
      relations_of (db\<lparr>job_events := job_events db @ [?e], event_seq := Suc (event_seq db)\<rparr>)"
    by (simp add: append_row_def relations_of_def fun_eq_iff) (simp add: job_events_table_def)
  show ?thesis
    using int8_of_nat [OF assms(2)]
    by (simp add: insert_into_def row keys append child_local_error(1) child_reference_error(1) first_error_def insert_event_def Let_def)
qed

lemma insert_conflict_declared:
  assumes "\<forall>c \<in> set (conflict_attempts db). con_id c < conflict_seq db" "conflict_seq db < 2 ^ 63"
  shows "insert_into finalization_conflict_attempts_table (attempt_values i run s t tr) (relations_of db) =
    (case insert_conflict_attempt i run s t tr db of (res, db') \<Rightarrow>
      (map_sum id (\<lambda>_. attempt_row \<lparr>con_id = conflict_seq db, con_job_id = i, con_run_id = run, con_status = s,
         con_event_type = t, con_trace_id = tr, con_created_at = db_now db\<rparr>) res, relations_of db'))"
proof -
  let ?c = "\<lparr>con_id = conflict_seq db, con_job_id = i, con_run_id = run, con_status = s, con_event_type = t, con_trace_id = tr,
     con_created_at = db_now db\<rparr>"
  have row: "new_row (relations_of db) finalization_conflict_attempts_table (attempt_values i run s t tr) = attempt_row ?c"
    by (simp add: new_row_def finalization_conflict_attempts_table_def attempt_row_def attempt_values_def default_value_def)
  have "\<not> list_ex (collide [''id''] (attempt_row ?c)) (map attempt_row (conflict_attempts db))"
    using assms(1) by (auto simp: list_ex_iff collide_def)
  then have keys: "key_error (relations_of db) finalization_conflict_attempts_table (attempt_row ?c) = None"
    by (simp add: key_error_def child_keys)
  have append: "append_row finalization_conflict_attempts_table (attempt_row ?c) (relations_of db) =
      relations_of (db\<lparr>conflict_attempts := conflict_attempts db @ [?c], conflict_seq := Suc (conflict_seq db)\<rparr>)"
    by (simp add: append_row_def relations_of_def fun_eq_iff) (simp add: finalization_conflict_attempts_table_def)
  show ?thesis
    using int8_of_nat [OF assms(2)]
    by (simp add: insert_into_def row keys append child_local_error(3) child_reference_error(3) first_error_def
        insert_conflict_attempt_def Let_def)
qed

lemma insert_finalization_declared:
  "insert_or_nothing job_finalizations_table [''job_id''] (finalization_values i run s t tr) (relations_of db) =
    (case insert_finalization i run s t tr db of (res, db') \<Rightarrow>
      (map_sum id (map_option (\<lambda>_. final_row \<lparr>fin_job_id = i, fin_run_id = run, fin_status = s, fin_event_type = t,
         fin_trace_id = tr, fin_created_at = db_now db\<rparr>)) res, relations_of db'))"
proof -
  let ?f = "\<lparr>fin_job_id = i, fin_run_id = run, fin_status = s, fin_event_type = t, fin_trace_id = tr, fin_created_at = db_now db\<rparr>"
  have row: "new_row (relations_of db) job_finalizations_table (finalization_values i run s t tr) = final_row ?f"
    by (simp add: new_row_def job_finalizations_table_def final_row_def finalization_values_def default_value_def)
  have collides: "list_ex (collide [''job_id''] (final_row ?f)) (map final_row (job_finalizations db)) \<longleftrightarrow>
      i \<in> fin_job_id ` set (job_finalizations db)"
    by (simp add: list_ex_map collide_def eq_commute [of i] list_ex_member)
  then have keys: "i \<notin> fin_job_id ` set (job_finalizations db) \<Longrightarrow> key_error (relations_of db) job_finalizations_table (final_row ?f) = None"
    by (simp add: key_error_def child_keys)
  have append: "append_row job_finalizations_table (final_row ?f) (relations_of db) =
      relations_of (db\<lparr>job_finalizations := job_finalizations db @ [?f]\<rparr>)"
    by (simp add: append_row_def relations_of_def fun_eq_iff) (simp add: job_finalizations_table_def)
  show ?thesis
    by (simp add: insert_or_nothing_def row collides keys append child_local_error(2) child_reference_error(2) first_error_def
        insert_finalization_def Let_def)
qed

lemma update_status_declared:
  "update_where jobs_table ''status'' (VText s) ''id'' (VUuid i) (relations_of db) =
    (case update_job_status i s db of (res, db') \<Rightarrow> (res, relations_of db'))"
proof -
  have err: "column_error jobs_table ''status'' (VText s) = (if varchar 32 s then None else Some (DataError ''jobs''))"
    by (simp add: column_error_def checks_on_def jobs_table_def)
  have "set_column (relations_of db) jobs_table ''status'' (VText s) (job_row r) =
      job_row (r\<lparr>job_status := s, job_updated_at := db_now db\<rparr>)" for r
    by (simp add: set_column_def) (simp add: jobs_table_def job_row_def job_values_def)
  then have "map (\<lambda>r. if cell r ''id'' = VUuid i then set_column (relations_of db) jobs_table ''status'' (VText s) r else r)
      (map job_row (jobs db)) =
    map job_row (map (\<lambda>r. if job_id r = i then r\<lparr>job_status := s, job_updated_at := db_now db\<rparr> else r) (jobs db))"
    by (simp add: comp_def)
  then have "(relations_of db)\<lparr>rel_rows := (rel_rows (relations_of db))(''jobs'' :=
      map (\<lambda>r. if cell r ''id'' = VUuid i then set_column (relations_of db) jobs_table ''status'' (VText s) r else r)
        (rel_rows (relations_of db) ''jobs''))\<rparr> =
    relations_of (db\<lparr>jobs := map (\<lambda>r. if job_id r = i then r\<lparr>job_status := s, job_updated_at := db_now db\<rparr> else r) (jobs db)\<rparr>)"
    by (simp only: relations_of_sel) (simp add: relations_of_def fun_eq_iff)
  with err show ?thesis by (simp add: update_where_def update_job_status_def)
qed

subsection \<open>Rows and records\<close>

text \<open>
  \<open>_job_record_from_mapping\<close> and \<open>_job_event_record_from_mapping\<close>: a record from the columns of a row. A row whose
  columns are not there or have other types is \<open>None\<close>; the tables have no such row.
\<close>

fun uuid_of :: "sql_value \<Rightarrow> uuid option" where
  "uuid_of (VUuid u) = Some u" | "uuid_of v = None"

fun text_of :: "sql_value \<Rightarrow> pystr option" where
  "text_of (VText s) = Some s" | "text_of v = None"

fun int_of :: "sql_value \<Rightarrow> int option" where
  "int_of (VInt i) = Some i" | "int_of v = None"

fun time_of :: "sql_value \<Rightarrow> int option" where
  "time_of (VTime t) = Some t" | "time_of v = None"

fun dict_of :: "sql_value \<Rightarrow> items option" where
  "dict_of (VJson (JObj d)) = Some d" | "dict_of v = None"

definition job_record_from_mapping :: "row \<Rightarrow> job_record option" where
  "job_record_from_mapping r =
     Option.bind (uuid_of (cell r ''id'')) (\<lambda>i.
     Option.bind (uuid_of (cell r ''run_id'')) (\<lambda>run.
     Option.bind (text_of (cell r ''job_type'')) (\<lambda>jtype.
     Option.bind (dict_of (cell r ''payload'')) (\<lambda>payload.
     Option.bind (text_of (cell r ''payload_hash'')) (\<lambda>hash.
     Option.bind (text_of (cell r ''idempotency_key'')) (\<lambda>key.
     Option.bind (text_of (cell r ''status'')) (\<lambda>status.
     Option.bind (int_of (cell r ''timeout_seconds'')) (\<lambda>timeout_seconds.
     Option.bind (int_of (cell r ''max_retries'')) (\<lambda>max_retries.
     Option.bind (text_of (cell r ''trace_id'')) (\<lambda>trace.
     Option.bind (if cell r ''budget_cents'' = VNull then Some None else map_option Some (int_of (cell r ''budget_cents''))) (\<lambda>budget.
     Option.bind (time_of (cell r ''created_at'')) (\<lambda>created.
     Option.bind (time_of (cell r ''updated_at'')) (\<lambda>updated.
     Some \<lparr>job_id = i, job_run_id = run, job_type = jtype, job_payload = payload, job_payload_hash = hash,
       job_idempotency_key = key, job_status = status, job_timeout_seconds = timeout_seconds, job_max_retries = max_retries,
       job_trace_id = trace, job_budget_cents = budget, job_created_at = created, job_updated_at = updated\<rparr>)))))))))))))"

definition job_event_record_from_mapping :: "row \<Rightarrow> job_event_record option" where
  "job_event_record_from_mapping r =
     Option.bind (int_of (cell r ''id'')) (\<lambda>n.
     Option.bind (uuid_of (cell r ''job_id'')) (\<lambda>i.
     Option.bind (uuid_of (cell r ''run_id'')) (\<lambda>run.
     Option.bind (text_of (cell r ''event_type'')) (\<lambda>t.
     Option.bind (dict_of (cell r ''event_data'')) (\<lambda>d.
     Option.bind (text_of (cell r ''trace_id'')) (\<lambda>trace.
     Option.bind (time_of (cell r ''created_at'')) (\<lambda>created.
     Some \<lparr>ev_id = nat n, ev_job_id = i, ev_run_id = run, ev_type = t, ev_data = d, ev_trace_id = trace,
       ev_created_at = created\<rparr>)))))))"

lemma job_mapping [simp]: "job_record_from_mapping (job_row r) = Some r"
  by (cases "job_budget_cents r") (simp_all add: job_record_from_mapping_def option_value_def)

lemma event_mapping [simp]: "job_event_record_from_mapping (event_row e) = Some e"
  by (simp add: job_event_record_from_mapping_def)

text \<open>The two selections, with \<open>one_or_none\<close> and \<open>ORDER BY id\<close>.\<close>

definition by_id :: "row list \<Rightarrow> row list" where
  "by_id = sort_key (\<lambda>r. case int_of (cell r ''id'') of Some n \<Rightarrow> n | None \<Rightarrow> 0)"

lemma insort_key_map: "insort_key f (g x) (map g xs) = map g (insort_key (\<lambda>x. f (g x)) x xs)"
  by (induction xs) simp_all

lemma sort_key_map: "sort_key f (map g xs) = map g (sort_key (\<lambda>x. f (g x)) xs)"
  by (induction xs) (simp_all add: insort_key_map)

lemma sort_key_int: "sort_key (\<lambda>x. int (f x)) xs = sort_key f xs"
proof -
  have "insort_key (\<lambda>x. int (f x)) x ys = insort_key f x ys" for x ys by (induction ys) simp_all
  then show ?thesis by (induction xs) simp_all
qed

lemma by_id_events: "by_id (map event_row es) = map event_row (sort_key ev_id es)"
  by (simp add: by_id_def sort_key_map sort_key_int)

lemma one_or_none_map: "one_or_none (map f xs) st = map_prod (map_sum id (map_option f)) (\<lambda>_. st) (one_or_none xs db)"
  by (cases xs rule: one_or_none.cases) (simp_all add: returnM_def raiseM_def)

lemma select_job_declared:
  "bindM (select_where jobs_table ''idempotency_key'' (VText k)) one_or_none (relations_of db) =
    map_prod (map_sum id (map_option job_row)) relations_of (get_by_idempotency_key k db)"
proof -
  let ?own = "filter (\<lambda>r. job_idempotency_key r = k) (jobs db)"
  obtain res where "one_or_none ?own db = (res, db)"
    by (cases ?own rule: one_or_none.cases) (simp_all add: returnM_def raiseM_def)
  then show ?thesis
    by (simp add: bindM_eq select_where_def getM_def filter_map comp_def one_or_none_map [of _ _ _ db] get_by_idempotency_key_def select_jobs_def)
qed

text \<open>The results of the statements, as the code reads them.\<close>

lemma read_result:
  "map_prod (map_sum id f) id (case x of (res, db') \<Rightarrow> (map_sum id g res, h db')) = map_prod (map_sum id (f \<circ> g)) h x"
  by (cases x) (simp add: sum.map_comp)

lemma unread_result: "map_sum id (\<lambda>_. ()) = id"
proof
  fix x :: "'a + unit"
  show "map_sum id (\<lambda>_. ()) x = id x" by (cases x) simp_all
qed

lemma unread_comp: "(\<lambda>_. ()) \<circ> g = (\<lambda>_. ())"
  by (rule ext) simp

lemma whole_result: "(case x of (res, db') \<Rightarrow> (res, h db')) = map_prod id h x"
  by (cases x) simp

lemma read_job: "job_record_from_mapping \<circ> job_row = Some"
  by (simp add: fun_eq_iff)

lemma read_row_option: "map_option job_record_from_mapping \<circ> map_option job_row = map_option Some"
  by (simp add: fun_eq_iff option.map_comp read_job)

lemma read_finalization:
  "map_prod (map_sum id (map_option (\<lambda>f. cell f ''job_id''))) id
      (insert_or_nothing job_finalizations_table [''job_id''] (finalization_values i run s t tr) (relations_of db)) =
    map_prod (map_sum id (map_option VUuid)) relations_of (insert_finalization i run s t tr db)"
  by (simp add: insert_finalization_declared insert_finalization_def)

lemma read_events:
  "map_prod (map_sum id (\<lambda>rows. map job_event_record_from_mapping (by_id rows))) id (select_where job_events_table ''job_id'' (VUuid i) (relations_of db)) =
    map_prod (map_sum id (map Some)) relations_of (list_events_for_job i db)"
  by (simp add: select_where_def list_events_for_job_def getM_def filter_map comp_def by_id_events)

lemma read_selected_job:
  "map_prod (map_sum id (map_option job_record_from_mapping)) id
      (bindM (select_where jobs_table ''idempotency_key'' (VText k)) one_or_none (relations_of db)) =
    map_prod (map_sum id (map_option Some)) relations_of (get_by_idempotency_key k db)"
  by (cases "get_by_idempotency_key k db") (simp add: select_job_declared sum.map_comp read_row_option)

subsection \<open>Property\<close>

text \<open>
  C16. The statements of the registry are the statements of the declared schema. At the tables that \<open>storage/models.py\<close>
  declares, what PostgreSQL answers to each statement of the code, for all values and with every error (a value too
  long, a check, a key or a reference violated), is what the model of the registry answers, and the tables after it
  are the registry after it: the insert of a job and its mapping back to a record, of an event, of a finalization
  with its conflict clause, of a conflict attempt, the update of a status, and the two reads.
\<close>

theorem statements_implement_schema:
  assumes "sequences_ok db"
  shows "(map_prod (map_sum id job_record_from_mapping) id (insert_into jobs_table (job_values r) (relations_of db)) =
      map_prod (map_sum id Some) relations_of (insert_job r db))
    \<and> (map_prod (map_sum id (\<lambda>_. ())) id (insert_into job_events_table (event_values i run t d tr) (relations_of db)) =
      map_prod id relations_of (insert_event i run t d tr db))
    \<and> (map_prod (map_sum id (map_option (\<lambda>f. cell f ''job_id''))) id
        (insert_or_nothing job_finalizations_table [''job_id''] (finalization_values i run s t tr) (relations_of db)) =
      map_prod (map_sum id (map_option VUuid)) relations_of (insert_finalization i run s t tr db))
    \<and> (map_prod (map_sum id (\<lambda>_. ())) id
        (insert_into finalization_conflict_attempts_table (attempt_values i run s t tr) (relations_of db)) =
      map_prod id relations_of (insert_conflict_attempt i run s t tr db))
    \<and> (update_where jobs_table ''status'' (VText s) ''id'' (VUuid i) (relations_of db) =
      map_prod id relations_of (update_job_status i s db))
    \<and> (map_prod (map_sum id (map_option job_record_from_mapping)) id
        (bindM (select_where jobs_table ''idempotency_key'' (VText k)) one_or_none (relations_of db)) =
      map_prod (map_sum id (map_option Some)) relations_of (get_by_idempotency_key k db))
    \<and> (map_prod (map_sum id (\<lambda>rows. map job_event_record_from_mapping (by_id rows))) id
        (select_where job_events_table ''job_id'' (VUuid i) (relations_of db)) =
      map_prod (map_sum id (map Some)) relations_of (list_events_for_job i db))"
proof -
  have events: "\<forall>e \<in> set (job_events db). ev_id e < event_seq db" "event_seq db < 2 ^ 63"
    and attempts: "\<forall>c \<in> set (conflict_attempts db). con_id c < conflict_seq db" "conflict_seq db < 2 ^ 63"
    using assms by (simp_all add: sequences_ok_def)
  show ?thesis
    by (intro conjI read_finalization read_selected_job read_events)
      (simp_all add: insert_job_declared insert_event_declared [OF events] insert_conflict_declared [OF attempts]
        update_status_declared read_result read_job unread_comp unread_result whole_result)
qed

lemma statements_implement_schema_witness:
  "map_prod (map_sum id (\<lambda>_. ())) id (insert_into job_events_table (event_values 1 9 ''running'' [] ''t'') (relations_of example_db)) =
    (Inr (), relations_of (snd (insert_event 1 9 ''running'' [] ''t'' example_db)))"
proof -
  have "sequences_ok example_db" by (simp add: sequences_ok_def example_db_def empty_database_def)
  note all = statements_implement_schema [OF this, of undefined 1 9 "''running''" "[]" "''t''"]
  obtain db' where ins: "insert_event 1 9 ''running'' [] ''t'' example_db = (Inr (), db')"
    by (auto simp: insert_event_def example_db_def)
  show ?thesis by (subst conjunct1 [OF conjunct2 [OF all]]) (simp add: ins)
qed

end
