(* ===== verification/Constraints.thy ===== *)
theory Constraints
  imports Statements
begin

section \<open>The declared constraints are kept\<close>

text \<open>
  What the declarations promise of the rows of a database, for any list of tables: every row has the declared
  columns, its values fit their types, checks and \<open>NOT NULL\<close>s, its references point at stored rows, the numbers of
  its sequences have been given out, and no two rows collide on a key. The three statements keep this for every
  schema whose names are distinct and whose \<open>onupdate\<close> columns are plain, which is the locale \<open>schema\<close>; the tables
  of \<open>storage/models.py\<close> are such a schema.
\<close>

subsection \<open>Satisfaction\<close>

definition numbered :: "relations \<Rightarrow> table \<Rightarrow> row \<Rightarrow> column \<Rightarrow> bool" where
  "numbered st t r c \<longleftrightarrow> (col_server_default c = Some Autoincrement \<longrightarrow>
     cell r (col_name c) \<in> (\<lambda>n. VInt (int n)) ` {..<rel_seq st (tab_name t)})"

definition row_ok :: "relations \<Rightarrow> table \<Rightarrow> row \<Rightarrow> bool" where
  "row_ok st t r \<longleftrightarrow> map fst r = map col_name (tab_columns t) \<and> local_error t r = None
     \<and> (\<forall>c \<in> set (tab_columns t). \<not> dangling st r c \<and> numbered st t r c)"

definition table_ok :: "relations \<Rightarrow> table \<Rightarrow> bool" where
  "table_ok st t \<longleftrightarrow> (\<forall>r \<in> set (rel_rows st (tab_name t)). row_ok st t r)
     \<and> (\<forall>cs \<in> snd ` set (keys_of t). sorted_wrt (\<lambda>r r'. \<not> collide cs r r') (rel_rows st (tab_name t)))"

definition satisfies :: "table list \<Rightarrow> relations \<Rightarrow> bool" where
  "satisfies ts st \<longleftrightarrow> (\<forall>t \<in> set ts. table_ok st t)"

text \<open>The columns that an update of \<open>c\<close> writes, and what makes writing them harmless for keys and references.\<close>

definition written :: "table \<Rightarrow> pystr \<Rightarrow> pystr set" where
  "written t c = insert c (col_name ` {d \<in> set (tab_columns t). col_onupdate_now d})"

definition plain_column :: "table list \<Rightarrow> table \<Rightarrow> pystr \<Rightarrow> bool" where
  "plain_column ts t c \<longleftrightarrow> (\<forall>cs \<in> snd ` set (keys_of t). c \<notin> set cs)
     \<and> (\<forall>d \<in> set (tab_columns t). col_name d = c \<longrightarrow> col_references d = None \<and> col_server_default d \<noteq> Some Autoincrement)
     \<and> (\<forall>t' \<in> set ts. \<forall>d \<in> set (tab_columns t'). col_references d \<noteq> Some (tab_name t, c))"

subsection \<open>Rows\<close>

lemma cell_map:
  assumes "distinct (map col_name cs)" "d \<in> set cs"
  shows "cell (map (\<lambda>d. (col_name d, g d)) cs) (col_name d) = g d"
  using assms by (induction cs) auto

lemma cell_map_other: "x \<notin> col_name ` set cs \<Longrightarrow> cell (map (\<lambda>d. (col_name d, g d)) cs) x = VNull"
  by (induction cs) auto

lemma cell_other: "x \<notin> fst ` set r \<Longrightarrow> cell r x = VNull"
  by (induction r) auto

lemma collide_sym: "collide cs r r' \<Longrightarrow> collide cs r' r"
  by (metis collide_def)

lemma find_none: "find P xs = None \<longleftrightarrow> (\<forall>x \<in> set xs. \<not> P x)"
  by (auto simp: find_None_iff)

lemma local_error_None:
  "local_error t r = None \<longleftrightarrow> (\<forall>c \<in> set (tab_columns t). holds (col_type c) (cell r (col_name c))
     \<and> (\<not> col_nullable c \<longrightarrow> cell r (col_name c) \<noteq> VNull)) \<and> (\<forall>k \<in> set (tab_constraints t). \<not> fails_check r k)"
proof -
  have "null_column t r = None \<longleftrightarrow> (\<forall>c \<in> set (tab_columns t). \<not> col_nullable c \<longrightarrow> cell r (col_name c) \<noteq> VNull)"
    by (auto simp: null_column_def find_none)
  then show ?thesis
    by (cases "null_column t r") (auto simp: local_error_def types_ok_def list_all_iff find_none)
qed

lemma no_errors: "first_error es = None \<longleftrightarrow> (\<forall>e \<in> set es. e = None)"
  by (auto simp: first_error_def filter_empty_conv split: list.splits dest: filter_eq_ConsD)

lemma key_error_None:
  "key_error st t r = None \<longleftrightarrow> (\<forall>cs \<in> snd ` set (keys_of t). \<forall>x \<in> set (rel_rows st (tab_name t)). \<not> collide cs r x)"
  by (fastforce simp: key_error_def find_none list_ex_iff)

lemma reference_error_None: "reference_error st t r = None \<longleftrightarrow> (\<forall>c \<in> set (tab_columns t). \<not> dangling st r c)"
  by (simp add: reference_error_def find_none)

subsection \<open>The statements\<close>

lemma dangling_mono:
  "\<not> dangling st r c \<Longrightarrow> (\<And>n. set (rel_rows st n) \<subseteq> set (rel_rows st' n)) \<Longrightarrow> \<not> dangling st' r c"
  by (fastforce simp: dangling_def split: option.splits prod.splits)

text \<open>A schema: names are distinct, and a column with \<open>onupdate\<close> is a plain timestamp.\<close>

locale schema =
  fixes ts :: "table list"
  assumes tables: "distinct (map tab_name ts)"
    and columns: "t \<in> set ts \<Longrightarrow> distinct (map col_name (tab_columns t))"
    and onupdate: "t \<in> set ts \<Longrightarrow> d \<in> set (tab_columns t) \<Longrightarrow> col_onupdate_now d \<Longrightarrow>
      col_type d = SaDateTime \<and> plain_column ts t (col_name d) \<and> checks_on t (col_name d) = []"
begin

lemma same_table: "t \<in> set ts \<Longrightarrow> t' \<in> set ts \<Longrightarrow> tab_name t = tab_name t' \<longleftrightarrow> t = t'"
  using tables by (auto simp: distinct_map inj_on_def)

lemma numbered_new:
  assumes "t \<in> set ts" "c \<in> set (tab_columns t)" "col_server_default c = Some Autoincrement \<longrightarrow> map_of given (col_name c) = None"
  shows "numbered (append_row t r st) t (new_row st t given) c"
proof -
  have "cell (new_row st t given) (col_name c) = (case map_of given (col_name c) of Some v \<Rightarrow> v | None \<Rightarrow> default_value st t c)"
    unfolding new_row_def by (rule cell_map [OF columns [OF assms(1)] assms(2)])
  with assms(2,3) show ?thesis
    by (auto simp: numbered_def append_row_def default_value_def list_ex_iff)
qed

lemma append_keeps:
  assumes sat: "satisfies ts st" and t: "t \<in> set ts" and r: "r = new_row st t given"
    and own: "\<forall>c \<in> set (tab_columns t). col_server_default c = Some Autoincrement \<longrightarrow> map_of given (col_name c) = None"
    and checks: "local_error t r = None" "key_error st t r = None" "reference_error st t r = None"
  shows "satisfies ts (append_row t r st)"
proof -
  let ?st = "append_row t r st"
  have grow: "set (rel_rows st n) \<subseteq> set (rel_rows ?st n)" "rel_seq st n \<le> rel_seq ?st n" for n
    by (auto simp: append_row_def)
  have kept: "row_ok ?st t' x" if "row_ok st t' x" for t' x
    using that dangling_mono [of st x _ ?st, OF _ grow(1)] grow(2) [of "tab_name t'"]
    by (fastforce simp: row_ok_def numbered_def)
  have names: "map fst r = map col_name (tab_columns t)" unfolding r by (simp add: new_row_def comp_def)
  have "numbered ?st t r c" if "c \<in> set (tab_columns t)" for c
    unfolding r using numbered_new [OF t that] own that by blast
  with names checks(1,3) dangling_mono [of st r _ ?st, OF _ grow(1)] have new: "row_ok ?st t r"
    by (auto simp: row_ok_def reference_error_None)
  have "table_ok ?st t'" if t': "t' \<in> set ts" for t'
  proof -
    from sat t' have ok: "table_ok st t'" by (simp add: satisfies_def)
    show ?thesis
    proof (cases "t' = t")
      case True
      have rows: "rel_rows ?st (tab_name t) = rel_rows st (tab_name t) @ [r]" by (simp add: append_row_def)
      from ok True kept new have "\<forall>x \<in> set (rel_rows ?st (tab_name t)). row_ok ?st t x"
        unfolding rows by (auto simp: table_ok_def)
      moreover from ok True checks(2) have "\<forall>cs \<in> snd ` set (keys_of t). sorted_wrt (\<lambda>r r'. \<not> collide cs r r') (rel_rows ?st (tab_name t))"
        unfolding rows key_error_None by (fastforce simp: table_ok_def sorted_wrt_append dest: collide_sym)
      ultimately show ?thesis using True by (simp add: table_ok_def)
    next
      case False
      with same_table [OF t' t] have "rel_rows ?st (tab_name t') = rel_rows st (tab_name t')" by (simp add: append_row_def)
      with ok kept show ?thesis by (simp add: table_ok_def)
    qed
  qed
  then show ?thesis by (simp add: satisfies_def)
qed

lemma insert_into_keeps:
  assumes "t \<in> set ts" "\<forall>c \<in> set (tab_columns t). col_server_default c = Some Autoincrement \<longrightarrow> map_of given (col_name c) = None"
  shows "keeps (satisfies ts) (insert_into t given)"
  using append_keeps [OF _ assms(1) refl assms(2)]
  by (intro keepsI) (auto simp: insert_into_def Let_def no_errors split: option.split)

lemma insert_or_nothing_keeps:
  assumes "t \<in> set ts" "\<forall>c \<in> set (tab_columns t). col_server_default c = Some Autoincrement \<longrightarrow> map_of given (col_name c) = None"
  shows "keeps (satisfies ts) (insert_or_nothing t cs given)"
  using append_keeps [OF _ assms(1) refl assms(2)]
  by (intro keepsI) (auto simp: insert_or_nothing_def Let_def no_errors split: option.split)

lemma set_column_cell:
  assumes "t \<in> set ts" "d \<in> set (tab_columns t)"
  shows "cell (set_column st t c v r) (col_name d) =
    (if col_name d = c then v else if col_onupdate_now d then VTime (rel_now st) else cell r (col_name d))"
  unfolding set_column_def by (rule cell_map [OF columns [OF assms(1)] assms(2)])

lemma set_column_other:
  assumes "t \<in> set ts" "map fst r = map col_name (tab_columns t)" "x \<notin> written t c"
  shows "cell (set_column st t c v r) x = cell r x"
proof (cases "x \<in> col_name ` set (tab_columns t)")
  case True
  then obtain d where "d \<in> set (tab_columns t)" "x = col_name d" by auto
  with set_column_cell [OF assms(1)] assms(3) show ?thesis by (auto simp: written_def)
next
  case False
  with assms(2) have "x \<notin> fst ` set r" by (metis list.set_map)
  with False show ?thesis by (simp add: set_column_def cell_map_other cell_other)
qed

lemma written_plain:
  assumes "t \<in> set ts" "plain_column ts t c" "x \<in> written t c"
  shows "plain_column ts t x"
  using assms(2,3) onupdate [OF assms(1)] by (auto simp: written_def)

lemma set_column_local:
  assumes t: "t \<in> set ts" and names: "map fst r = map col_name (tab_columns t)"
    and ok: "local_error t r = None" "column_error t c v = None"
  shows "local_error t (set_column st t c v r) = None"
proof -
  let ?r = "set_column st t c v r"
  from ok(2) have v: "\<And>d. d \<in> set (tab_columns t) \<Longrightarrow> col_name d = c \<Longrightarrow> holds (col_type d) v \<and> (\<not> col_nullable d \<longrightarrow> v \<noteq> VNull)"
      "\<And>n cmp. (n, cmp) \<in> set (checks_on t c) \<Longrightarrow> compares cmp v"
    by (auto simp: column_error_def list_ex_iff find_none split: if_splits)
  have "holds (col_type d) (cell ?r (col_name d)) \<and> (\<not> col_nullable d \<longrightarrow> cell ?r (col_name d) \<noteq> VNull)"
    if "d \<in> set (tab_columns t)" for d
    using that ok(1) v(1) onupdate [OF t] by (auto simp: set_column_cell [OF t that] local_error_None)
  moreover have "\<not> fails_check ?r k" if k: "k \<in> set (tab_constraints t)" for k
  proof (cases k)
    case (CheckConstraint n x cmp)
    with k have on: "(n, cmp) \<in> set (checks_on t x)" by (force simp: checks_on_def)
    then have "checks_on t x \<noteq> []" by auto
    with onupdate [OF t] have "x \<in> written t c \<Longrightarrow> x = c" by (auto simp: written_def)
    then consider "x \<notin> written t c" | "x = c" "c \<in> col_name ` set (tab_columns t)" | "x = c" "c \<notin> col_name ` set (tab_columns t)"
      by blast
    then show ?thesis
    proof cases
      case 1
      with set_column_other [OF t names] ok(1) k CheckConstraint show ?thesis by (auto simp: local_error_None)
    next
      case 2
      then obtain d where d: "d \<in> set (tab_columns t)" "col_name d = c" by auto
      with set_column_cell [OF t d(1), of st c v r] have "cell ?r c = v" by simp
      with 2 v(2) on CheckConstraint show ?thesis by auto
    next
      case 3
      with CheckConstraint show ?thesis by (cases cmp) (simp_all add: set_column_def cell_map_other)
    qed
  qed simp
  ultimately show ?thesis by (auto simp: local_error_None)
qed

lemma update_where_keeps:
  assumes t: "t \<in> set ts" and plain: "plain_column ts t c"
  shows "keeps (satisfies ts) (update_where t c v k x)"
proof (rule keepsI)
  fix st assume sat: "satisfies ts st"
  define f where "f = (\<lambda>r. if cell r k = x then set_column st t c v r else r)"
  define st' where "st' = st\<lparr>rel_rows := (rel_rows st)(tab_name t := map f (rel_rows st (tab_name t)))\<rparr>"
  have ok: "row_ok st t r" if "r \<in> set (rel_rows st (tab_name t))" for r using sat t that by (simp add: satisfies_def table_ok_def)
  have same: "cell (f r) y = cell r y" if "y \<notin> written t c" "r \<in> set (rel_rows st (tab_name t))" for r y
    using set_column_other [OF t _ that(1)] ok [OF that(2)] by (simp add: f_def row_ok_def)
  have refs: "\<not> dangling st' r d" if "\<not> dangling st r d" "t' \<in> set ts" "d \<in> set (tab_columns t')" for r d t'
  proof -
    have "y \<notin> written t c" if "col_references d = Some (tab_name t, y)" for y
      using written_plain [OF t plain] \<open>t' \<in> set ts\<close> \<open>d \<in> set (tab_columns t')\<close> that by (fastforce simp: plain_column_def)
    then have "(\<lambda>p. cell p y) ` set (rel_rows st' n) = (\<lambda>p. cell p y) ` set (rel_rows st n)" if "col_references d = Some (n, y)" for n y
      using that same by (cases "n = tab_name t") (auto simp: st'_def image_image)
    with \<open>\<not> dangling st r d\<close> show ?thesis by (auto simp: dangling_def split: option.splits)
  qed
  have seq: "rel_seq st' = rel_seq st" by (simp add: st'_def)
  have kept: "row_ok st' t' r" if "row_ok st t' r" "t' \<in> set ts" for t' r
    using that refs by (auto simp: row_ok_def numbered_def seq)
  have new: "row_ok st' t (f r)" if "column_error t c v = None" "r \<in> set (rel_rows st (tab_name t))" for r
  proof -
    note r = ok [OF that(2)]
    then have "local_error t (f r) = None"
      using set_column_local [OF t _ _ that(1)] by (simp add: f_def row_ok_def)
    moreover have "map fst (f r) = map col_name (tab_columns t)" using r by (simp add: f_def row_ok_def set_column_def comp_def)
    moreover have "\<not> dangling st (f r) d \<and> numbered st t (f r) d" if d: "d \<in> set (tab_columns t)" for d
    proof (cases "col_name d \<in> written t c")
      case True
      with written_plain [OF t plain] d show ?thesis by (auto simp: plain_column_def dangling_def numbered_def)
    next
      case False
      with same \<open>r \<in> set (rel_rows st (tab_name t))\<close> have eq: "cell (f r) (col_name d) = cell r (col_name d)" by blast
      have "dangling st (f r) d = dangling st r d" "numbered st t (f r) d = numbered st t r d"
        unfolding dangling_def numbered_def eq by (rule refl)+
      with r d show ?thesis by (simp add: row_ok_def)
    qed
    ultimately show ?thesis using refs t by (auto simp: row_ok_def numbered_def seq)
  qed
  have "table_ok st' t'" if "column_error t c v = None" "t' \<in> set ts" for t'
  proof (cases "t' = t")
    case True
    have rows: "rel_rows st' (tab_name t) = map f (rel_rows st (tab_name t))" by (simp add: st'_def)
    have "collide cs (f r) (f r') = collide cs r r'"
      if "cs \<in> snd ` set (keys_of t)" "r \<in> set (rel_rows st (tab_name t))" "r' \<in> set (rel_rows st (tab_name t))" for cs r r'
    proof -
      have "y \<notin> written t c" if "y \<in> set cs" for y
        using written_plain [OF t plain] that \<open>cs \<in> snd ` set (keys_of t)\<close> unfolding plain_column_def by blast
      then have "map (cell (f r)) cs = map (cell r) cs" "map (cell (f r')) cs = map (cell r') cs"
        using same that by auto
      then show ?thesis by (simp only: collide_def)
    qed
    moreover have "table_ok st t" using sat t by (simp add: satisfies_def)
    ultimately have "\<forall>cs \<in> snd ` set (keys_of t). sorted_wrt (\<lambda>r r'. \<not> collide cs r r') (map f (rel_rows st (tab_name t)))"
      unfolding sorted_wrt_map table_ok_def by (blast intro: sorted_wrt_mono_rel [rotated])
    with new that True show ?thesis by (simp add: table_ok_def rows)
  next
    case False
    with same_table [OF that(2) t] have "rel_rows st' (tab_name t') = rel_rows st (tab_name t')" by (simp add: st'_def)
    with sat kept that(2) show ?thesis by (simp add: satisfies_def table_ok_def)
  qed
  with sat show "satisfies ts (snd (update_where t c v k x st))"
    by (auto simp: update_where_def satisfies_def st'_def f_def split: option.split)
qed

end

subsection \<open>The registry\<close>

lemma tables_distinct: "distinct (map tab_name metadata)"
  by (simp add: metadata_def table_defs)

lemma metadata_columns: "t \<in> set metadata \<Longrightarrow> distinct (map col_name (tab_columns t))"
  by (auto simp: metadata_def) (simp_all add: table_defs)

lemma metadata_references:
  "t \<in> set metadata \<Longrightarrow> d \<in> set (tab_columns t) \<Longrightarrow> col_references d \<in> {None, Some (''jobs'', ''id'')}"
  by (auto simp: metadata_def table_defs)

lemma plain_in_jobs:
  assumes "c \<notin> {''id'', ''idempotency_key''}" 
  shows "plain_column metadata jobs_table c"
proof -
  have "\<forall>d \<in> set (tab_columns jobs_table). col_references d = None \<and> col_server_default d \<noteq> Some Autoincrement"
    by (simp add: jobs_table_def)
  with assms metadata_references show ?thesis by (fastforce simp: plain_column_def jobs_keys)
qed

lemma metadata_onupdate:
  "t \<in> set metadata \<Longrightarrow> d \<in> set (tab_columns t) \<Longrightarrow> col_onupdate_now d \<Longrightarrow>
    t = jobs_table \<and> col_name d = ''updated_at'' \<and> col_type d = SaDateTime"
  by (auto simp: metadata_def) (auto simp: table_defs)

interpretation declared_schema: schema metadata
proof
  show "distinct (map tab_name metadata)" by (rule tables_distinct)
  show "distinct (map col_name (tab_columns t))" if "t \<in> set metadata" for t using that by (rule metadata_columns)
  show "col_type d = SaDateTime \<and> plain_column metadata t (col_name d) \<and> checks_on t (col_name d) = []"
    if "t \<in> set metadata" "d \<in> set (tab_columns t)" "col_onupdate_now d" for t d
  proof -
    have "checks_on jobs_table ''updated_at'' = []" by (simp add: checks_on_def jobs_table_def)
    with metadata_onupdate [OF that] plain_in_jobs [of "''updated_at''"] show ?thesis by simp
  qed
qed

text \<open>What \<open>create_all\<close> leaves: the tables without rows.\<close>

lemma no_rows: "(\<And>t. t \<in> set ts \<Longrightarrow> rel_rows st (tab_name t) = []) \<Longrightarrow> satisfies ts st"
  by (simp add: satisfies_def table_ok_def)

lemma empty_satisfies: "satisfies metadata (relations_of (empty_database t))"
  by (rule no_rows) (simp add: relations_of_def empty_database_def)

end
