(* ===== verification/RedisReference.thy ===== *)
theory RedisReference
  imports JobQueue
begin

section \<open>A reference server\<close>

text \<open>
  A Redis server in memory, with the commands the queue uses. It shows that the documented laws of
  \<open>redis_streams\<close> can hold together, and the interpretations make the queue's contract available on
  a server that the witnesses can run. It stands for software outside the repository and is not a
  model of code.
\<close>

definition mem_xgroup_create :: "pystr \<Rightarrow> pystr \<Rightarrow> pystr \<Rightarrow> bool \<Rightarrow> (redis_view, unit) prog" where
  "mem_xgroup_create st g i mk = (\<lambda>v. case rv_group v st g of
      Some _ \<Rightarrow> (Inl (RedisResponseError ''BUSYGROUP Consumer Group name already exists''), v)
    | None \<Rightarrow> (Inr (), set_group st g (map fst (rv_entries v st), []) v))"

definition mem_xadd :: "pystr \<Rightarrow> fields \<Rightarrow> (redis_view, pystr) prog" where
  "mem_xadd st f = (\<lambda>v. let i = nat_digits (length (rv_entries v st)) @ ''-1'' in
     if entry v st i \<noteq> None then (Inl (RedisResponseError ''The ID specified in XADD is equal or smaller''), v)
     else (Inr i, v\<lparr>rv_entries := (rv_entries v)(st := rv_entries v st @ [(i, f)]),
            rv_group := (rv_group v)(st := (\<lambda>g. map_option (\<lambda>(u, p). (u @ [i], p)) (rv_group v st g)))\<rparr>))"

definition mem_xreadgroup ::
    "pystr \<Rightarrow> pystr \<Rightarrow> pystr \<Rightarrow> pystr \<Rightarrow> int \<Rightarrow> int \<Rightarrow> (redis_view, (pystr \<times> (pystr \<times> fields) list) list) prog" where
  "mem_xreadgroup g c st i n block = (\<lambda>v. case rv_group v st g of
      None \<Rightarrow> (Inl (RedisResponseError ''NOGROUP''), v)
    | Some (u, p) \<Rightarrow> let ids = take (min (nat n) (length u)) u in
        if \<exists>j \<in> set ids. entry v st j = None then (Inl (RedisOtherError ''deleted entry''), v)
        else (Inr (if ids = [] then [] else [(st, map (\<lambda>j. (j, the (entry v st j))) ids)]),
              set_group st g (drop (length ids) u, map (age 0) p @ map (fresh_lease c) ids) v))"

definition mem_xpending_range :: "pystr \<Rightarrow> pystr \<Rightarrow> pystr \<Rightarrow> pystr \<Rightarrow> int \<Rightarrow> int \<Rightarrow> (redis_view, pending_info list) prog" where
  "mem_xpending_range st g lo hi n idle = (\<lambda>v. case rv_group v st g of
      None \<Rightarrow> (Inl (RedisResponseError ''NOGROUP''), v)
    | Some (u, p) \<Rightarrow> (Inr (take (nat n) (filter (\<lambda>x. idle \<le> pi_time_since_delivered x) p)), v))"

definition mem_xrange :: "pystr \<Rightarrow> pystr \<Rightarrow> pystr \<Rightarrow> (redis_view, (pystr \<times> fields) list) prog" where
  "mem_xrange st lo hi = getM (\<lambda>v. filter (\<lambda>(j, _). j = lo) (rv_entries v st))"

definition mem_xclaim ::
    "pystr \<Rightarrow> pystr \<Rightarrow> pystr \<Rightarrow> int \<Rightarrow> pystr list \<Rightarrow> bool \<Rightarrow> (redis_view, pystr list) prog" where
  "mem_xclaim st g c idle ids justid = (\<lambda>v. case rv_group v st g of
      None \<Rightarrow> (Inl (RedisResponseError ''NOGROUP''), v)
    | Some (u, p) \<Rightarrow> (Inr (filter (\<lambda>i. i \<in> pi_message_id ` set p) ids),
        set_group st g (u, map (\<lambda>x. if pi_message_id x \<in> set ids
         then x\<lparr>pi_consumer := c, pi_time_since_delivered := 0\<rparr> else x) p) v))"

definition mem_xack :: "pystr \<Rightarrow> pystr \<Rightarrow> pystr \<Rightarrow> (redis_view, int) prog" where
  "mem_xack st g i = (\<lambda>v. case rv_group v st g of
      None \<Rightarrow> (Inr 0, v)
    | Some (u, p) \<Rightarrow> (Inr (int (length (filter (\<lambda>x. pi_message_id x = i) p))),
        set_group st g (u, filter (\<lambda>x. pi_message_id x \<noteq> i) p) v))"

definition mem_redis :: "redis_view redis_client" where
  "mem_redis = \<lparr>xgroup_create = mem_xgroup_create, xadd = mem_xadd, xreadgroup = mem_xreadgroup,
     xpending_range = mem_xpending_range, xrange = mem_xrange, xclaim = mem_xclaim, xack = mem_xack\<rparr>"

definition empty_redis :: redis_view where
  "empty_redis = \<lparr>rv_entries = (\<lambda>_. []), rv_group = (\<lambda>_ _. None)\<rparr>"

definition mem_queue :: "redis_view queue_api" where
  "mem_queue = redis_queue mem_redis default_queue_config"

lemma read_newI:
  assumes "rv_group v st g = Some (u, p)" "map fst (concat (map snd resp)) = take (min (nat n) (length u)) u"
    and "\<And>i f. (i, f) \<in> set (concat (map snd resp)) \<Longrightarrow> entry v st i = Some f"
    and "v' = set_group st g (drop (min (nat n) (length u)) u,
           map (age 0) p @ map (fresh_lease c) (take (min (nat n) (length u)) u)) v"
  shows "read_new g c st n resp v v'"
  unfolding read_new_def using assms
  by (intro exI [of _ u] exI [of _ p] exI [of _ 0]) (simp add: Let_def del: set_concat; blast)

interpretation mem: redis_streams_queue mem_redis "\<lambda>v. v" default_queue_config
proof unfold_locales
  show "command (\<lambda>v. v) (\<lambda>_. group_created st g) (xgroup_create mem_redis st g ''0-0'' True)" for st g
    by (rule commandI) (auto simp: mem_redis_def mem_xgroup_create_def group_created_def split: option.splits)
  show "command (\<lambda>v. v) (added st f) (xadd mem_redis st f)" for st f
    by (rule commandI) (auto simp: mem_redis_def mem_xadd_def added_def Let_def split: if_splits)
  show "command (\<lambda>v. v) (read_new g c st n) (xreadgroup mem_redis g c st ''>'' n b)" for g c st n b
    by (rule commandI)
       (auto simp: mem_redis_def mem_xreadgroup_def Let_def o_def split: option.splits if_splits
         intro!: read_newI)
  show "command (\<lambda>v. v) (\<lambda>_. acked st g i) (xack mem_redis st g i)" for st g i
    by (rule commandI) (auto simp: mem_redis_def mem_xack_def acked_def split: option.splits)
qed (auto simp: mem_redis_def mem_xgroup_create_def mem_xpending_range_def mem_xrange_def mem_xclaim_def
       claimed_def default_queue_config_def split: option.splits if_splits)

interpretation mem_jobs: job_queue mem_queue "queue_view_of default_queue_config"
  unfolding mem_queue_def by (rule mem.queue_contract.job_queue_axioms)

subsection \<open>Properties of the queue\<close>

definition stamped :: "queue_job_message list \<Rightarrow> pystr list \<Rightarrow> queue_job_message list" where
  "stamped ms is = map2 (\<lambda>m i. m\<lparr>qm_entry_id := Some i\<rparr>) ms is"

context job_queue
begin

lemma publish_all:
  "mapM (q_publish_job q) msgs s = (Inr ids, s') \<Longrightarrow>
     length ids = length msgs
   \<and> qv_waiting (view s') = qv_waiting (view s) @ ids \<and> qv_leased (view s') = qv_leased (view s)
   \<and> qv_fields (view s) \<subseteq>\<^sub>m qv_fields (view s')
   \<and> list_all2 (message_at (view s')) ids (stamped msgs ids)"
proof (induction msgs arbitrary: s ids)
  case Nil
  then show ?case by (simp add: stamped_def)
next
  case (Cons m msgs)
  then obtain i s1 ids' where p: "q_publish_job q m s = (Inr i, s1)"
    and rest: "mapM (q_publish_job q) msgs s1 = (Inr ids', s')" "ids = i # ids'"
    by (auto simp: bindM_eq split: prod.splits sum.splits)
  have pub: "published m i (view s) (view s1)" by (rule command_Inr [OF publish p])
  note IH = Cons.IH [OF rest(1)]
  have le: "qv_fields (view s) \<subseteq>\<^sub>m qv_fields (view s1)"
    using pub by (auto simp: published_def map_le_def)
  have "qv_fields (view s1) i = Some (to_stream_fields m)" using pub by (simp add: published_def)
  with IH have "qv_fields (view s') i = Some (to_stream_fields m)" by (auto simp: map_le_def dom_def)
  then have "message_at (view s') i (m\<lparr>qm_entry_id := Some i\<rparr>)" by (simp add: message_at_def)
  moreover have "qv_fields (view s) \<subseteq>\<^sub>m qv_fields (view s')"
    using map_le_trans [OF le] IH by blast
  ultimately show ?case using IH pub rest by (simp add: published_def stamped_def)
qed

lemma messages_unique: "list_all2 (message_at v) is ms \<Longrightarrow> list_all2 (message_at v) is ms' \<Longrightarrow> ms = ms'"
  by (rule right_uniqueD [OF list.right_unique_rel]) (auto simp: right_unique_def message_at_def)

lemma fifo:
  assumes "qv_waiting (view s) = []" "mapM (q_publish_job q) msgs s = (Inr ids, s1)"
    and "q_lease_jobs q c n block s1 = (Inr got, s2)"
  shows "got = take (nat n) (stamped msgs ids)
    \<and> qv_waiting (view s2) = drop (nat n) ids \<and> lease_ids (view s2) = lease_ids (view s) @ take (nat n) ids"
proof -
  note pub = publish_all [OF assms(2)]
  have w: "qv_waiting (view s1) = ids" using pub assms(1) by auto
  have t: "take (min (nat n) (length ids)) ids = take (nat n) ids" "drop (min (nat n) (length ids)) ids = drop (nat n) ids"
    by (auto simp: min_def)
  have lease1: "leased_out c (min (nat n) (length ids)) (view s1) (view s2)"
    using command_Inr [OF lease assms(3)] w by simp
  have "list_all2 (message_at (view s1)) (take (nat n) ids) got"
    using lease_messages [OF assms(3)] w t by simp
  moreover have "list_all2 (message_at (view s1)) (take (nat n) ids) (take (nat n) (stamped msgs ids))"
    using pub by (simp add: list_all2_takeI)
  ultimately have "got = take (nat n) (stamped msgs ids)" by (rule messages_unique)
  with lease1 t w pub show ?thesis
    by (auto simp: leased_out_def lease_ids_def age_def fresh_lease_def o_def)
qed

lemma renewed_not_stale:
  assumes "qv_fields (view s) i \<noteq> None" "q_renew_pending_lease q i c s = (Inr ok, s1)"
    and "q_find_stale_leases q idle n s1 = (Inr stale, s2)" "0 < idle" "sl \<in> set stale"
  shows "qm_entry_id (sl_message sl) \<noteq> Some i"
proof -
  let ?leases = "filter (\<lambda>p. qv_fields (view s1) (pi_message_id p) \<noteq> None)
      (take (nat n) (filter (\<lambda>p. idle \<le> pi_time_since_delivered p) (qv_leased (view s1))))"
  have "list_all2 (stale_of (view s1)) ?leases stale" by (rule find_stale_leases [OF assms(3)])
  with assms(5) obtain p where p: "p \<in> set ?leases" "stale_of (view s1) p sl"
    by (blast dest: list_all2_right_member)
  have "renewed i c (view s) (view s1)" using renew_True [OF assms(1,2)] by simp
  then have "qv_leased (view s1) = map (\<lambda>p. if pi_message_id p = i
     then p\<lparr>pi_consumer := c, pi_time_since_delivered := 0\<rparr> else p) (qv_leased (view s))"
    by (simp add: renewed_def)
  then have "\<forall>p \<in> set (qv_leased (view s1)). pi_message_id p = i \<longrightarrow> pi_time_since_delivered p = 0"
    by (simp only: list.set_map ball_simps) simp
  moreover from p(1) have "p \<in> set (take (nat n) (filter (\<lambda>p. idle \<le> pi_time_since_delivered p) (qv_leased (view s1))))"
    by simp
  then have "p \<in> set (filter (\<lambda>p. idle \<le> pi_time_since_delivered p) (qv_leased (view s1)))"
    by (rule in_set_takeD)
  then have "p \<in> set (qv_leased (view s1))" "idle \<le> pi_time_since_delivered p" by simp_all
  ultimately have "pi_message_id p \<noteq> i" using assms(4) by auto
  with p(2) show ?thesis by (auto simp: stale_of_def message_at_def dest: message_entry)
qed

end

context redis_streams_queue
begin

lemmas redis_contract = queue_contract.fifo queue_contract.renewed_not_stale

lemma redis_fifo:
  "qv_waiting (qview s) = [] \<Longrightarrow> mapM (publish_job rc cfg) msgs s = (Inr ids, s1) \<Longrightarrow>
     lease_jobs rc cfg c n block s1 = (Inr got, s2) \<Longrightarrow>
     got = take (nat n) (stamped msgs ids)
    \<and> qv_waiting (qview s2) = drop (nat n) ids \<and> lease_ids (qview s2) = lease_ids (qview s) @ take (nat n) ids"
  using queue_contract.fifo [of s msgs ids s1 c n block got s2] by (simp add: redis_queue_def)

lemma redis_renewed:
  "qv_fields (qview s) i \<noteq> None \<Longrightarrow> renew_pending_lease rc cfg i c s = (Inr ok, s1) \<Longrightarrow>
     find_stale_leases rc cfg idle n s1 = (Inr stale, s2) \<Longrightarrow> 0 < idle \<Longrightarrow>
     \<forall>sl \<in> set stale. qm_entry_id (sl_message sl) \<noteq> Some i"
  using queue_contract.renewed_not_stale [of s i c ok s1 idle n stale s2] by (auto simp: redis_queue_def)

lemma stale_poison:
  assumes "p \<in> set (take (nat n) (filter (\<lambda>p. idle \<le> pi_time_since_delivered p) (qv_leased (qview s))))"
    and "qv_fields (qview s) (pi_message_id p) = Some fs" "queue_message_from_stream_entry (pi_message_id p) fs = Inl e"
  shows "find_stale_leases rc cfg idle n s \<noteq> (Inr ls, s')"
proof
  let ?leases = "filter (\<lambda>p. qv_fields (qview s) (pi_message_id p) \<noteq> None)
      (take (nat n) (filter (\<lambda>p. idle \<le> pi_time_since_delivered p) (qv_leased (qview s))))"
  assume "find_stale_leases rc cfg idle n s = (Inr ls, s')"
  then have "list_all2 (stale_of (qview s)) ?leases ls" by (rule find_stale_result)
  moreover have "p \<in> set ?leases" unfolding set_filter using assms(1,2) by blast
  ultimately obtain sl where "stale_of (qview s) p sl" by (blast dest: list_all2_left_member)
  with assms(2,3) show False by (simp add: stale_of_def message_at_def)
qed

lemma dead_letter_safe:
  assumes "move_to_dead_letter rc cfg m cls k s = (r, s')"
  shows "qv_dead (qview s') = qv_dead (qview s) @ [dead_letter_fields (dead_letter m cls k)]
       \<or> (\<exists>e. r = Inl e) \<and> qview s' = qview s"
    and "qv_waiting (qview s') = qv_waiting (qview s)"
    and "r = Inr x \<Longrightarrow> qm_entry_id m = Some i \<Longrightarrow> i \<notin> set (lease_ids (qview s'))"
proof -
  show "qv_waiting (qview s') = qv_waiting (qview s)"
    using dead_spec(1) [OF assms] by (auto simp: buried_def acknowledged_def)
  show "qv_dead (qview s') = qv_dead (qview s) @ [dead_letter_fields (dead_letter m cls k)]
       \<or> (\<exists>e. r = Inl e) \<and> qview s' = qview s"
  proof (cases r)
    case (Inl e)
    then show ?thesis using dead_spec(1) [OF assms] by (auto simp: buried_def acknowledged_def)
  next
    case (Inr y)
    from dead_spec(2) [OF assms this] show ?thesis
      by (auto simp: buried_def acknowledged_def split: option.splits)
  qed
  assume "r = Inr x" "qm_entry_id m = Some i"
  with dead_spec(2) [OF assms, of x] obtain v where "acknowledged i v (qview s')" by auto
  then show "i \<notin> set (lease_ids (qview s'))" by (auto simp: acknowledged_def lease_ids_def)
qed

end

lemma mem_redis_streams_queue: "redis_streams_queue mem_redis (\<lambda>v. v) default_queue_config"
  by (rule mem.redis_streams_queue_axioms)

text \<open>
  Delivery is in order and loses nothing: on a Redis that keeps its documented behaviour, when
  messages are published while none waits and a consumer then reads \<open>n\<close> of them, it is handed the
  first \<open>n\<close> messages as they were published (every field survives the trip through the stream's
  string fields), each with its entry id; these become its leases and the others go on waiting.
\<close>

theorem publish_lease_fifo:
  assumes "redis_streams_queue rc rview cfg"
    and "qv_waiting (queue_view_of cfg (rview s)) = []"
    and "mapM (publish_job rc cfg) msgs s = (Inr ids, s1)"
    and "lease_jobs rc cfg consumer n block s1 = (Inr got, s2)"
  shows "got = take (nat n) (map2 (\<lambda>m i. m\<lparr>qm_entry_id := Some i\<rparr>) msgs ids)
    \<and> qv_waiting (queue_view_of cfg (rview s2)) = drop (nat n) ids
    \<and> lease_ids (queue_view_of cfg (rview s2)) = lease_ids (queue_view_of cfg (rview s)) @ take (nat n) ids"
  using redis_streams_queue.redis_fifo [OF assms] by (simp add: stamped_def)

definition example_message :: "int \<Rightarrow> queue_job_message" where
  "example_message a = \<lparr>qm_job_id = ''j'', qm_run_id = ''r'', qm_attempt_number = a, qm_trace_id = ''t'', qm_entry_id = None\<rparr>"

lemmas mem_simps = mem_redis_def mem_xgroup_create_def mem_xadd_def mem_xreadgroup_def mem_xpending_range_def
  mem_xrange_def mem_xclaim_def mem_xack_def empty_redis_def default_queue_config_def entry_def set_group_def
  publish_job_def lease_jobs_def ensure_consumer_group_def try_exceptM_def busygroup_handler_def
  find_stale_leases_def stale_lease_of_def renew_pending_lease_def acknowledge_def move_to_dead_letter_def
  thenM_eq bindM_eq queue_view_of_def

definition two_published :: redis_view where
  "two_published = snd (mapM (publish_job mem_redis default_queue_config) [example_message 1, example_message 2] empty_redis)"

lemma two_published_eq: "mapM (publish_job mem_redis default_queue_config) [example_message 1, example_message 2] empty_redis =
    (Inr [''0-1'', ''1-1''], two_published)"
  by (simp add: two_published_def mem_simps Let_def nat_digits.simps)

lemma publish_lease_fifo_witness:
  "\<exists>s2. lease_jobs mem_redis default_queue_config ''w'' 1 100 two_published = (Inr [(example_message 1)\<lparr>qm_entry_id := Some ''0-1''\<rparr>], s2)
     \<and> lease_ids (queue_view_of default_queue_config s2) = [''0-1'']"
proof -
  obtain s2 where leased: "lease_jobs mem_redis default_queue_config ''w'' 1 100 two_published =
      (Inr [(example_message 1)\<lparr>qm_entry_id := Some ''0-1''\<rparr>], s2)"
    by (simp add: two_published_def mem_simps Let_def nat_digits.simps)
  from publish_lease_fifo [OF mem_redis_streams_queue _ two_published_eq this] leased show ?thesis
    by (simp add: queue_view_of_def empty_redis_def lease_ids_def)
qed

definition one_leased :: redis_view where
  "one_leased = snd (lease_jobs mem_redis default_queue_config ''w'' 1 100 two_published)"

text \<open>
  A worker that keeps its heartbeat keeps its job: after a successful renewal of a lease on a
  known entry, a scan for leases idle for at least any positive time, made before the clock moves
  on, does not report that entry, so the recovery cannot requeue it.
\<close>

theorem renewed_lease_not_stale:
  assumes "redis_streams_queue rc rview cfg"
    and "qv_fields (queue_view_of cfg (rview s)) i \<noteq> None"
    and "renew_pending_lease rc cfg i consumer s = (Inr ok, s1)"
    and "find_stale_leases rc cfg idle n s1 = (Inr stale, s2)" "0 < idle"
  shows "\<forall>sl \<in> set stale. qm_entry_id (sl_message sl) \<noteq> Some i"
  by (rule redis_streams_queue.redis_renewed [OF assms])

lemma renewed_lease_not_stale_witness:
  "\<exists>s1 s2. renew_pending_lease mem_redis default_queue_config ''0-1'' ''w'' one_leased = (Inr True, s1)
    \<and> find_stale_leases mem_redis default_queue_config 1 100 s1 = (Inr [], s2)
    \<and> (\<forall>sl \<in> set ([] :: stale_lease list). qm_entry_id (sl_message sl) \<noteq> Some ''0-1'')"
proof -
  obtain s1 where s1: "renew_pending_lease mem_redis default_queue_config ''0-1'' ''w'' one_leased = (Inr True, s1)"
    by (simp add: one_leased_def two_published_def mem_simps Let_def nat_digits.simps fresh_lease_def)
  have "find_stale_leases mem_redis default_queue_config 1 100
      (snd (renew_pending_lease mem_redis default_queue_config ''0-1'' ''w'' one_leased)) =
      (Inr [], snd (renew_pending_lease mem_redis default_queue_config ''0-1'' ''w'' one_leased))"
    by (simp add: one_leased_def two_published_def mem_simps Let_def nat_digits.simps fresh_lease_def)
  then have s2: "find_stale_leases mem_redis default_queue_config 1 100 s1 = (Inr [], s1)" by (simp add: s1)
  have "qv_fields (queue_view_of default_queue_config one_leased) ''0-1'' \<noteq> None"
    by (simp add: one_leased_def two_published_def mem_simps Let_def nat_digits.simps)
  from renewed_lease_not_stale [OF mem_redis_streams_queue this s1 s2] s1 s2 show ?thesis by auto
qed

text \<open>
  C27. One entry that does not parse blocks the recovery of all the others: while a pending entry
  among the stale ones of the scan has fields from which no message can be read,
  \<open>find_stale_leases\<close> never returns a list, whatever the other leases are.
\<close>

theorem find_stale_leases_blocked_by_malformed_entry:
  assumes "redis_streams_queue rc rview cfg"
    and "p \<in> set (take (nat n) (filter (\<lambda>p. idle \<le> pi_time_since_delivered p)
           (qv_leased (queue_view_of cfg (rview s)))))"
    and "qv_fields (queue_view_of cfg (rview s)) (pi_message_id p) = Some fs"
    and "queue_message_from_stream_entry (pi_message_id p) fs = Inl e"
  shows "find_stale_leases rc cfg idle n s \<noteq> (Inr stale, s')"
  using redis_streams_queue.stale_poison [OF assms] .

definition malformed_redis :: redis_view where
  "malformed_redis = empty_redis\<lparr>rv_entries := (\<lambda>_. [(''0-1'', [(''job_id'', ''x'')])]),
     rv_group := (\<lambda>_ _. Some ([], [fresh_lease ''w'' ''0-1'']))\<rparr>"

lemma find_stale_leases_blocked_by_malformed_entry_witness:
  "find_stale_leases mem_redis default_queue_config 0 100 malformed_redis \<noteq> (Inr [], malformed_redis)"
  by (rule find_stale_leases_blocked_by_malformed_entry [OF mem_redis_streams_queue,
        of "fresh_lease ''w'' ''0-1''" _ _ _ "[(''job_id'', ''x'')]" "KeyError ''run_id''"])
     (simp_all add: malformed_redis_def queue_view_of_def fresh_lease_def entry_def
        queue_message_from_stream_entry_def field_def)

text \<open>
  Moving a message to the dead-letter stream never loses it: either the dead letter with the
  message's identity, attempt, error class and attempt count has been appended, or the call raised
  with the queue unchanged, lease included; it never touches the waiting entries, and when it
  returns the entry is no longer leased.
\<close>

theorem move_to_dead_letter_safe:
  assumes "redis_streams_queue rc rview cfg" "move_to_dead_letter rc cfg m cls attempts s = (r, s')"
  shows "(qv_dead (queue_view_of cfg (rview s')) = qv_dead (queue_view_of cfg (rview s)) @
          [[(''job_id'', qm_job_id m), (''run_id'', qm_run_id m), (''attempt_number'', py_str_int (qm_attempt_number m)),
            (''trace_id'', qm_trace_id m), (''final_error_class'', cls), (''attempt_count'', py_str_int attempts)]]
        \<or> (\<exists>e. r = Inl e) \<and> queue_view_of cfg (rview s') = queue_view_of cfg (rview s))
      \<and> qv_waiting (queue_view_of cfg (rview s')) = qv_waiting (queue_view_of cfg (rview s))
      \<and> (\<forall>x i. r = Inr x \<and> qm_entry_id m = Some i \<longrightarrow> i \<notin> set (lease_ids (queue_view_of cfg (rview s'))))"
  using redis_streams_queue.dead_letter_safe [OF assms]
  by (auto simp: dead_letter_fields_def dead_letter_def)

lemma move_to_dead_letter_safe_witness:
  "\<exists>r s'. move_to_dead_letter mem_redis default_queue_config ((example_message 1)\<lparr>qm_entry_id := Some ''0-1''\<rparr>) ''E'' 1 one_leased = (r, s')
     \<and> r = Inr ''0-1'' \<and> ''0-1'' \<notin> set (lease_ids (queue_view_of default_queue_config s'))"
proof -
  obtain s' where "move_to_dead_letter mem_redis default_queue_config
      ((example_message 1)\<lparr>qm_entry_id := Some ''0-1''\<rparr>) ''E'' 1 one_leased = (Inr ''0-1'', s')"
    by (simp add: one_leased_def two_published_def mem_simps Let_def nat_digits.simps)
  from move_to_dead_letter_safe [OF mem_redis_streams_queue this] this show ?thesis by auto
qed

end
