(* ===== verification/Delivery.thy ===== *)
theory Delivery
  imports RedisReference Recovery
begin

section \<open>Delivery: what the worker and the recovery guarantee\<close>

text \<open>
  The properties that span the registry, the queue, the worker (\<open>worker/loop.py\<close>) and the recovery
  (\<open>worker/recovery.py\<close>): no job is lost, each outcome of a run is recorded as the right terminal
  state, redelivery is harmless, and the two windows in which the code does lose or regress a job.
\<close>

context redis_streams_queue
begin

lemma redis_job_queue: "job_queue (redis_queue rc cfg) (\<lambda>s. queue_view_of cfg (rview s))"
  by (rule queue_contract.job_queue_axioms)

end

lemmas redis_job_queue = redis_streams_queue.redis_job_queue

subsection \<open>Recorded outcomes\<close>

text \<open>
  The terminal status and the event type that an outcome of a run calls for, or nothing when the job
  is to be tried again.
\<close>

definition expected_record :: "budget_policy \<Rightarrow> job_record \<Rightarrow> int \<Rightarrow> exc + items \<Rightarrow> (pystr \<times> pystr) option" where
  "expected_record p job attempt outcome = (case outcome of
      Inr _ \<Rightarrow> Some (''completed'', ''completed'')
    | Inl JobTimedOutError \<Rightarrow> Some (''timed_out'', ''timed_out'')
    | Inl JobCancelledError \<Rightarrow> Some (''cancelled'', ''cancelled'')
    | Inl TransientRunnerError \<Rightarrow>
        if job_max_retries job < attempt then Some (''failed'', ''failed'')
        else if bp_retry_budget p < attempt then Some (''failed'', ''budget_blocked'')
        else None
    | Inl _ \<Rightarrow> Some (''failed'', ''failed''))"

definition recorded :: "(pystr \<times> pystr) option \<Rightarrow> job_record \<Rightarrow> database \<Rightarrow> database \<Rightarrow> bool" where
  "recorded e job db db' \<longleftrightarrow> (case e of
      Some (s, t) \<Rightarrow> (\<exists>d. db' = finalize_effect job s t d db)
    | None \<Rightarrow> (\<exists>d. db' = state_event_effect job ''queued'' ''retry_scheduled'' d db))"

lemma record_ack_returned:
  assumes "thenM (inDb (transaction P)) (ack_message wk m) w = (Inr (), w')"
  shows "\<exists>a. P (w_db w) = (Inr a, w_db w')"
proof -
  obtain r db where P: "P (w_db w) = (r, db)" by (cases "P (w_db w)")
  show ?thesis
  proof (cases r)
    case (Inl e)
    with assms P show ?thesis by (simp add: thenM_eq world_eqs transaction_def)
  next
    case (Inr a)
    with assms P have "ack_message wk m (w\<lparr>w_db := db\<rparr>) = (Inr (), w')"
      by (simp add: thenM_eq world_eqs transaction_def)
    then have "w_db w' = db"
      by (auto simp: ack_message_def thenM_eq world_eqs split: option.splits sum.splits prod.splits)
    with P Inr show ?thesis by simp
  qed
qed

lemma terminal_records:
  assumes "job_known db job"
  shows "\<exists>d. snd (record_completed job w a r db) = finalize_effect job ''completed'' ''completed'' d db"
    "\<exists>d. snd (record_failed job w a c rt db) = finalize_effect job ''failed'' ''failed'' d db"
    "\<exists>d. snd (record_timed_out job w a db) = finalize_effect job ''timed_out'' ''timed_out'' d db"
    "\<exists>d. snd (record_cancelled job w a cw db) = finalize_effect job ''cancelled'' ''cancelled'' d db"
    "\<exists>d. snd (record_budget_blocked job w a rs x y db) = finalize_effect job ''failed'' ''budget_blocked'' d db"
    "\<exists>d. snd (record_retry_scheduled job w a n c db) = state_event_effect job ''queued'' ''retry_scheduled'' d db"
  using assms unfolding record_defs by (simp_all add: finalize_job_eq record_state_event_eq) (rule exI, rule refl)+

lemma record_ack_recorded:
  assumes "thenM (inDb (transaction P)) (ack_message wk m) w = (Inr (), w')" "\<exists>d. snd (P (w_db w)) = f d"
  shows "\<exists>d. w_db w' = f d"
  using record_ack_returned [OF assms(1)] assms(2) by auto

lemma budget_error_snd:
  "budget_error e = Some (rs, x, y) \<Longrightarrow> record_budget_error wk m job e db =
     thenM (record_budget_blocked job (wk_id wk) (qm_attempt_number m) rs x y) (returnM ()) db"
  by (simp add: record_budget_error_def)

lemma settle_recorded:
  assumes "settle wk m job outcome w = (Inr (), w')" "job_known (w_db w) job"
  shows "recorded (expected_record (wk_budget_policy wk) job (qm_attempt_number m) outcome) job (w_db w) (w_db w')"
proof (cases outcome)
  case (Inr result)
  show ?thesis
  proof (cases "wk_artifact_store wk")
    case None
    with assms(1) Inr have "thenM (inDb (transaction (record_completed job (wk_id wk) (qm_attempt_number m) result))) (ack_message wk m) w = (Inr (), w')"
      by (simp add: settle_def handle_success_def)
    from record_ack_recorded [OF this terminal_records(1) [OF assms(2)]] Inr show ?thesis
      by (simp add: expected_record_def recorded_def)
  next
    case (Some writer)
    obtain r0 e where wr: "writer job (wk_id wk) (qm_attempt_number m) result (w_env w) = (r0, e)"
      by (cases "writer job (wk_id wk) (qm_attempt_number m) result (w_env w)")
    with assms(1) Inr Some obtain p where "r0 = Inr p"
      by (cases r0) (simp_all add: settle_def handle_success_def bindM_eq world_eqs)
    with assms(1) Inr Some wr have "thenM (inDb (transaction (record_completed job (wk_id wk) (qm_attempt_number m)
            (dupdate result [(''artifact_path'', JStr (fst p)), (''artifact'', JObj (snd p))])))) (ack_message wk m)
            (w\<lparr>w_env := e\<rparr>) = (Inr (), w')"
      by (simp add: settle_def handle_success_def bindM_eq world_eqs case_prod_unfold)
    from record_ack_recorded [OF this terminal_records(1)] assms(2) Inr show ?thesis
      by (simp add: expected_record_def recorded_def)
  qed
next
  case (Inl e)
  let ?a = "qm_attempt_number m"
  have transient: "recorded (expected_record (wk_budget_policy wk) job ?a (Inl TransientRunnerError)) job (w_db w) (w_db w')"
    if h: "handle_transient_error wk m job c w = (Inr (), w')" for c
  proof (cases "?a \<le> job_max_retries job")
    case False
    with h have "thenM (inDb (transaction (record_failed job (wk_id wk) ?a c True))) (ack_message wk m) w = (Inr (), w')"
      by (simp add: handle_transient_error_def)
    from record_ack_recorded [OF this terminal_records(2) [OF assms(2)]] False show ?thesis
      by (simp add: expected_record_def recorded_def)
  next
    case True
    show ?thesis
    proof (cases "?a \<le> bp_retry_budget (wk_budget_policy wk)")
      case False
      let ?e = "BudgetExceededError ''retry_budget_overrun'' dec_zero dec_zero"
      have "validate_retry (wk_budget_policy wk) (?a + 1) = Inl ?e" using False by (simp add: validate_retry_def)
      with h True have "thenM (inDb (transaction (record_budget_error wk m job ?e))) (ack_message wk m) w = (Inr (), w')"
        by (simp add: handle_transient_error_def Let_def)
      moreover have "\<exists>d. snd (record_budget_error wk m job ?e (w_db w)) = finalize_effect job ''failed'' ''budget_blocked'' d (w_db w)"
        using terminal_records(5) [OF assms(2)] finalize_job_eq [of "''failed''" "''budget_blocked''" "w_db w" job] assms(2)
        by (simp add: budget_error_snd record_budget_blocked_def thenM_eq)
      ultimately have "\<exists>d. w_db w' = finalize_effect job ''failed'' ''budget_blocked'' d (w_db w)"
        by (rule record_ack_recorded)
      with True False show ?thesis by (simp add: expected_record_def recorded_def)
    next
      case within: True
      then have ok: "validate_retry (wk_budget_policy wk) (?a + 1) = Inr ()" by (simp add: validate_retry_iff)
      obtain d where rec: "record_retry_scheduled job (wk_id wk) ?a (?a + 1) c (w_db w) =
          (Inr (), state_event_effect job ''queued'' ''retry_scheduled'' d (w_db w))"
        using assms(2) by (simp add: record_retry_scheduled_def record_state_event_eq)
      have "w_db w' = state_event_effect job ''queued'' ''retry_scheduled'' d (w_db w)"
        using h True ok rec
        by (auto simp: handle_transient_error_def Let_def thenM_eq world_eqs transaction_def ack_message_def
            split: sum.splits prod.splits option.splits)
      with True within show ?thesis by (auto simp: expected_record_def recorded_def)
    qed
  qed
  have policy: "\<exists>d. w_db w' = finalize_effect job ''failed'' ''failed'' d (w_db w)"
    if "handle_policy_error wk m job c w = (Inr (), w')" for c
    by (rule record_ack_recorded [OF that [unfolded handle_policy_error_def] terminal_records(2) [OF assms(2)]])
  have timeout: "\<exists>d. w_db w' = finalize_effect job ''timed_out'' ''timed_out'' d (w_db w)"
    if "handle_timeout wk m job w = (Inr (), w')"
    by (rule record_ack_recorded [OF that [unfolded handle_timeout_def] terminal_records(3) [OF assms(2)]])
  have cancel: "\<exists>d. w_db w' = finalize_effect job ''cancelled'' ''cancelled'' d (w_db w)"
    if "handle_cancellation wk m job w = (Inr (), w')"
    by (rule record_ack_recorded [OF that [unfolded handle_cancellation_def] terminal_records(4) [OF assms(2)]])
  show ?thesis
    using assms(1) Inl transient policy timeout cancel
    by (cases e) (simp_all add: settle_def expected_record_def recorded_def)
qed

lemma thenM_returned: "thenM m n w = (Inr x, w') \<Longrightarrow> \<exists>w1. n w1 = (Inr x, w')"
  by (auto simp: thenM_eq split: prod.splits sum.splits)

lemma bindM_returned: "bindM m f w = (Inr x, w') \<Longrightarrow> \<exists>a w1. m w = (Inr a, w1) \<and> f a w1 = (Inr x, w')"
  by (auto simp: bindM_eq split: prod.splits sum.splits)

lemma settle_acks:
  assumes "settle wk m job outcome w = (Inr (), w')"
  shows "\<exists>w1. ack_message wk m w1 = (Inr (), w')"
proof -
  have transient: "\<exists>w1. ack_message wk m w1 = (Inr (), w')" if "handle_transient_error wk m job c w = (Inr (), w')" for c
    using that unfolding handle_transient_error_def Let_def
    by (auto split: if_splits sum.splits dest!: thenM_returned)
  have "\<exists>w1. ack_message wk m w1 = (Inr (), w')" if "handle_success wk m job result w = (Inr (), w')" for result
    using that unfolding handle_success_def by (auto dest!: bindM_returned thenM_returned)
  moreover have "\<exists>w1. ack_message wk m w1 = (Inr (), w')" if "handle_policy_error wk m job c w = (Inr (), w')" for c
    using that unfolding handle_policy_error_def by (rule thenM_returned)
  moreover have "\<exists>w1. ack_message wk m w1 = (Inr (), w')" if "handle_timeout wk m job w = (Inr (), w')"
    using that unfolding handle_timeout_def by (rule thenM_returned)
  moreover have "\<exists>w1. ack_message wk m w1 = (Inr (), w')" if "handle_cancellation wk m job w = (Inr (), w')"
    using that unfolding handle_cancellation_def by (rule thenM_returned)
  ultimately show ?thesis
    using assms transient by (auto simp: settle_def split: sum.splits exc.splits)
qed

definition cancelled_before :: "cancellation_registry \<Rightarrow> job_record \<Rightarrow> bool" where
  "cancelled_before reg job = (case reg (uuid_str (job_id job)) of None \<Rightarrow> False | Some b \<Rightarrow> b)"

definition run_outcome :: "('r, 'e) worker \<Rightarrow> job_record \<Rightarrow> int \<Rightarrow> ('r, 'e) world \<Rightarrow> exc + items" where
  "run_outcome wk job attempt w =
     run_with_timeout (fst (run_job (wk_jobs wk) job attempt (cancelled_before (w_registry w) job) (w_env w)))"

lemma run_phase_outcome:
  assumes "run_phase wk m job w = (r, w')"
  shows "\<exists>ended. r = Inr (run_outcome wk job (qm_attempt_number m) w, ended)"
proof -
  have ev: "\<exists>reg. event_for (uuid_str (job_id job)) (w_registry w) = (Inr (cancelled_before (w_registry w) job), reg)"
    by (auto simp: event_for_def cancelled_before_def split: option.splits)
  have ren: "\<exists>e w2. renewals wk i n w1 = (Inr e, w2)" for i n and w1 :: "('a, 'b) world"
    by (induction n arbitrary: w1) (auto split: prod.splits sum.splits)
  have "\<exists>e w2. heartbeat wk m n w1 = (Inr e, w2)" for n and w1 :: "('a, 'b) world"
    using ren by (simp add: heartbeat_def)
  with ev assms show ?thesis
    by (auto simp: run_phase_def bindM_eq world_eqs run_outcome_def split: prod.splits sum.splits) (metis Inl_Inr_False fst_conv)
qed

lemma run_phase_db: "run_phase wk m job w = (r, w') \<Longrightarrow> w_db w' = w_db w"
  using keeps_run_phase [of "\<lambda>db. db = w_db w" wk m job] by (auto simp: keeps_def dest!: spec [of _ w])

lemma process_message_opened:
  assumes "schema_ok (w_db w)" "job \<in> set (jobs (w_db w))" "uuid_parse (qm_job_id m) = Some (job_id job)"
    "job_status job \<notin> TERMINAL_STATUSES" "validate_job_dispatch (wk_budget_policy wk) job = Inr ()"
    "process_message wk m w = (Inr (), w')"
  shows "\<exists>w2. settle wk m job (run_outcome wk job (qm_attempt_number m) w) w2 = (Inr (), w')
    \<and> w_db w2 = state_event_effect job ''running'' ''running''
        [(''worker_id'', JStr (wk_id wk)), (''attempt_number'', JInt (qm_attempt_number m))] (w_db w)"
proof -
  let ?db = "state_event_effect job ''running'' ''running''
        [(''worker_id'', JStr (wk_id wk)), (''attempt_number'', JInt (qm_attempt_number m))] (w_db w)"
  have known: "job_known (w_db w) job" by (rule job_known_member [OF assms(1,2)])
  have op: "open_message wk m w = (Inr (Some job), w\<lparr>w_db := ?db\<rparr>)"
    using assms(3-5) load_job_member [OF assms(1,2)] known
    by (simp add: open_message_def transactionW_def bindM_eq thenM_eq uuid_of_text_def world_eqs
        record_running_def record_state_event_eq)
  obtain r2 w2 where run: "run_phase wk m job (w\<lparr>w_db := ?db\<rparr>) = (r2, w2)" by (cases "run_phase wk m job (w\<lparr>w_db := ?db\<rparr>)")
  have out: "run_outcome wk job (qm_attempt_number m) (w\<lparr>w_db := ?db\<rparr>) = run_outcome wk job (qm_attempt_number m) w"
    by (simp add: run_outcome_def)
  from run_phase_outcome [OF run] out obtain ended where r2: "r2 = Inr (run_outcome wk job (qm_attempt_number m) w, ended)" by auto
  have "w_db w2 = ?db"
    using run_phase_db [OF run] by simp
  moreover have "settle wk m job (run_outcome wk job (qm_attempt_number m) w) w2 = (Inr (), w')"
    using assms(6) op run r2
    by (auto simp: process_message_def bindM_eq finallyM_def stop_lease_heartbeat_def split: prod.splits sum.splits option.splits)
  ultimately show ?thesis by blast
qed

subsection \<open>A small world\<close>

definition example_jobs :: "unit job_functions" where
  "example_jobs = \<lparr>jf_eval_lab_case = (\<lambda>p a c t e. (CutOff, e)), jf_gdev_webhook_eval = (\<lambda>p a c t e. (CutOff, e)),
     jf_stub = (\<lambda>p a c t e. (stub_run (\<lambda>_. None) (\<lambda>_. 0) (if c then Some 0 else None) p (of_int t) 0, e)),
     jf_heartbeats = (\<lambda>_ _. 1)\<rparr>"

definition example_worker :: "(redis_view, unit) worker" where
  "example_worker = \<lparr>wk_id = ''w'', wk_queue = redis_queue mem_redis default_queue_config, wk_jobs = example_jobs,
     wk_artifact_store = None, wk_budget_policy = stub_policy 2, wk_lease_renewal_interval = Some 5\<rparr>"

definition job_message :: "int \<Rightarrow> queue_job_message" where
  "job_message a = \<lparr>qm_job_id = uuid_str 1, qm_run_id = uuid_str 9, qm_attempt_number = a, qm_trace_id = ''t'',
     qm_entry_id = Some ''0-1''\<rparr>"

definition job_redis :: "int \<Rightarrow> redis_view" where
  "job_redis a = \<lparr>rv_entries = (\<lambda>st. if st = ''jobs'' then [(''0-1'', to_stream_fields (job_message a))] else []),
     rv_group = (\<lambda>st g. if st = ''jobs'' then Some ([], [fresh_lease ''w'' ''0-1'']) else None)\<rparr>"

definition example_world :: "int \<Rightarrow> (redis_view, unit) world" where
  "example_world a = \<lparr>w_db = example_db, w_redis = job_redis a, w_registry = (\<lambda>_. None), w_env = ()\<rparr>"

lemma example_world_ok:
  "db_inv (w_db (example_world a))" "carried (queue_view_of default_queue_config (w_redis (example_world a))) (job_message a)"
  "accounted (w_db (example_world a)) (queue_view_of default_queue_config (w_redis (example_world a))) 1"
  "dispatch_ok example_worker (job_message a) (w_db (example_world a))" "1 \<in> job_id ` set (jobs (w_db (example_world a)))"
proof -
  have at: "message_at (queue_view_of default_queue_config (w_redis (example_world a))) ''0-1'' (job_message a)"
    by (simp add: message_at_def queue_view_of_def default_queue_config_def example_world_def job_redis_def entry_def)
       (simp add: job_message_def)
  then show "carried (queue_view_of default_queue_config (w_redis (example_world a))) (job_message a)"
    by (simp add: carried_def job_message_def)
  have "''0-1'' \<in> set (lease_ids (queue_view_of default_queue_config (w_redis (example_world a))))"
    by (simp add: lease_ids_def queue_view_of_def default_queue_config_def example_world_def job_redis_def fresh_lease_def)
  moreover have "uuid_parse (qm_job_id (job_message a)) = Some 1" by (simp add: job_message_def)
  ultimately show "accounted (w_db (example_world a)) (queue_view_of default_queue_config (w_redis (example_world a))) 1"
    using at unfolding accounted_def live_except_def by blast
  show "db_inv (w_db (example_world a))" by (simp add: example_world_def example_db_ok)
qed (simp_all add: example_world_def dispatch_ok_def example_db_def example_worker_def
    validate_job_dispatch_def validate_dispatch_def stub_policy_def)

subsection \<open>Properties of the worker\<close>



text \<open>
  C10. Each outcome of a run is recorded as the right state. When a worker gets to the end of a message
  for a stored, non-terminal job that the policy lets run, the registry has gained the \<open>running\<close> event
  and then exactly the record that the outcome calls for: \<open>completed\<close>; \<open>timed_out\<close>; \<open>cancelled\<close>;
  \<open>failed\<close> for a payload or policy error and for a transient error beyond the job's retries;
  \<open>failed\<close> with \<open>budget_blocked\<close> for a transient error beyond the retry budget; and otherwise
  \<open>retry_scheduled\<close> with the job \<open>queued\<close>.
\<close>

theorem worker_records_outcome:
  assumes "schema_ok (w_db w)" "job \<in> set (jobs (w_db w))" "uuid_parse (qm_job_id m) = Some (job_id job)"
    and "job_status job \<notin> TERMINAL_STATUSES" "validate_job_dispatch (wk_budget_policy wk) job = Inr ()"
    and "process_message wk m w = (Inr (), w')"
  shows "\<exists>running. running = state_event_effect job ''running'' ''running''
        [(''worker_id'', JStr (wk_id wk)), (''attempt_number'', JInt (qm_attempt_number m))] (w_db w)
    \<and> (case expected_record (wk_budget_policy wk) job (qm_attempt_number m) (run_outcome wk job (qm_attempt_number m) w) of
         Some (status, event_type) \<Rightarrow> \<exists>d. w_db w' = finalize_effect job status event_type d running
       | None \<Rightarrow> \<exists>d. w_db w' = state_event_effect job ''queued'' ''retry_scheduled'' d running)"
proof -
  from process_message_opened [OF assms] obtain w2 where
    s: "settle wk m job (run_outcome wk job (qm_attempt_number m) w) w2 = (Inr (), w')"
    and db2: "w_db w2 = state_event_effect job ''running'' ''running''
        [(''worker_id'', JStr (wk_id wk)), (''attempt_number'', JInt (qm_attempt_number m))] (w_db w)"
    by blast
  have "job_known (w_db w2) job"
    using job_known_member [OF assms(1,2)] by (simp add: db2 state_event_effect_def)
  from settle_recorded [OF s this] db2 show ?thesis by (auto simp: recorded_def)
qed

lemmas worker_simps = process_message_def open_message_def transactionW_def bindM_eq thenM_eq uuid_of_text_def world_eqs
  finallyM_def stop_lease_heartbeat_def run_phase_def heartbeat_def heartbeat_runs_def run_job_def settle_def
  handle_success_def handle_transient_error_def handle_timeout_def handle_cancellation_def handle_policy_error_def
  ack_message_def run_with_timeout_def stub_run_def event_for_def transaction_def

lemma example_load: "load_job_for_update 1 example_db = (Inr (Some example_job), example_db)"
  using load_job_member [of example_db example_job] example_db_ok
  by (simp add: db_inv_def) (simp add: example_job_def example_db_def)

lemma example_known: "job_known example_db example_job"
  using example_db_ok by (simp add: db_inv_def job_known_member)

lemma example_job_sel: "job_id example_job = 1" "job_status example_job = ''running''" "job_type example_job = ''stub''"
    "job_payload example_job = []" "job_timeout_seconds example_job = 30" "job_max_retries example_job = 1"
  by (simp_all add: example_job_def example_db_def)

lemma example_dispatch: "validate_job_dispatch (stub_policy 2) example_job = Inr ()"
  by (simp add: validate_job_dispatch_def validate_dispatch_def stub_policy_def example_job_sel)

lemma example_run:
  "\<exists>w'. process_message example_worker (job_message 1) (example_world 1) = (Inr (), w')"
proof -
  have known: "job_known (state_event_effect example_job ''running'' ''running'' d example_db) example_job" for d
    using example_known by (simp add: state_event_effect_def)
  show ?thesis
    by (simp add: worker_simps example_world_def job_message_def example_load example_job_sel example_dispatch
        example_worker_def record_running_def record_completed_def record_state_event_eq [OF example_known]
        finalize_job_eq [OF _ _ known] example_jobs_def redis_queue_def mem_simps job_redis_def numeral_eq_Suc)
qed

lemma worker_records_outcome_witness:
  "\<exists>w' d. process_message example_worker (job_message 1) (example_world 1) = (Inr (), w')
    \<and> w_db w' = finalize_effect example_job ''completed'' ''completed'' d (state_event_effect example_job ''running'' ''running''
        [(''worker_id'', JStr ''w''), (''attempt_number'', JInt 1)] example_db)"
proof -
  from example_run obtain w' where run: "process_message example_worker (job_message 1) (example_world 1) = (Inr (), w')" ..
  have "schema_ok (w_db (example_world 1))" "example_job \<in> set (jobs (w_db (example_world 1)))"
    using example_db_ok by (simp_all add: example_world_def db_inv_def)
  moreover have "uuid_parse (qm_job_id (job_message 1)) = Some (job_id example_job)"
    by (simp add: job_message_def example_job_sel)
  moreover have "job_status example_job \<notin> TERMINAL_STATUSES" by (simp add: example_job_sel)
  moreover have "validate_job_dispatch (wk_budget_policy example_worker) example_job = Inr ()"
    by (simp add: example_worker_def example_dispatch)
  moreover have "run_outcome example_worker example_job 1 (example_world 1) = Inr (stub_result [])"
    by (simp add: run_outcome_def run_job_def example_job_sel example_worker_def example_jobs_def run_with_timeout_def stub_run_def)
  ultimately show ?thesis
    using worker_records_outcome [OF _ _ _ _ _ run, of example_job] run
    by (simp add: expected_record_def) (simp add: job_message_def example_world_def example_worker_def)
qed

subsection \<open>Properties of the recovery\<close>

definition job_of :: "database \<Rightarrow> queue_job_message \<Rightarrow> job_record option" where
  "job_of db m = (case filter (\<lambda>r. uuid_parse (qm_job_id m) = Some (job_id r)) (jobs db) of [] \<Rightarrow> None | r # _ \<Rightarrow> Some r)"

lemma job_of_Some:
  assumes "schema_ok db" "job \<in> set (jobs db)" "uuid_parse (qm_job_id m) = Some (job_id job)"
  shows "job_of db m = Some job"
proof -
  have "filter (\<lambda>r. job_id r = job_id job) (jobs db) = [job]"
    by (rule filter_key_in [OF schema_okD(1) [OF assms(1)] assms(2)])
  moreover have "filter (\<lambda>r. uuid_parse (qm_job_id m) = Some (job_id r)) (jobs db) = filter (\<lambda>r. job_id r = job_id job) (jobs db)"
    by (rule filter_cong) (auto simp: assms(3))
  ultimately have "filter (\<lambda>r. uuid_parse (qm_job_id m) = Some (job_id r)) (jobs db) = [job]" by (rule trans [rotated])
  then show ?thesis unfolding job_of_def by simp
qed

lemma job_of_None: "uuid_parse (qm_job_id m) = Some j \<Longrightarrow> j \<notin> job_id ` set (jobs db) \<Longrightarrow> job_of db m = None"
proof -
  assume "uuid_parse (qm_job_id m) = Some j" "j \<notin> job_id ` set (jobs db)"
  then have "filter (\<lambda>r. uuid_parse (qm_job_id m) = Some (job_id r)) (jobs db) = []"
    by (auto simp: filter_empty_conv)
  then show ?thesis by (simp add: job_of_def)
qed

text \<open>
  C14. What the recovery does with a stale lease, when it gets through: a message of an unknown or
  terminal job is acknowledged and the registry left alone; while the attempt is within the job's
  retries the job becomes \<open>queued\<close> with a \<open>stale_lease_recovered\<close> event and a message for the next
  attempt waits in the queue; beyond them the job is failed and the dead-letter stream gets the
  message with the error class \<open>StaleLeaseExhaustedError\<close>. The matching counter goes up by one, and in
  every case the old entry is no longer leased.
\<close>

theorem recovery_rule:
  assumes "redis_streams_queue rc rview cfg" "schema_ok (w_db w)"
    and "recover_lease (redis_queue rc cfg) rid lease c w = (Inr c', w')"
  shows "(case job_of (w_db w) (sl_message lease) of
        None \<Rightarrow> w_db w' = w_db w \<and> c' = c\<lparr>rr_acknowledged_missing_count := rr_acknowledged_missing_count c + 1\<rparr>
      | Some job \<Rightarrow>
          if job_status job \<in> TERMINAL_STATUSES then
            w_db w' = w_db w \<and> c' = c\<lparr>rr_acknowledged_terminal_count := rr_acknowledged_terminal_count c + 1\<rparr>
          else if qm_attempt_number (sl_message lease) \<le> job_max_retries job then
            (\<exists>d. w_db w' = state_event_effect job ''queued'' ''stale_lease_recovered'' d (w_db w))
            \<and> (\<exists>k m. k \<in> set (qv_waiting (queue_view_of cfg (rview (w_redis w')))) \<and> message_at (queue_view_of cfg (rview (w_redis w'))) k m
                 \<and> qm_job_id m = uuid_str (job_id job) \<and> qm_attempt_number m = qm_attempt_number (sl_message lease) + 1)
            \<and> c' = c\<lparr>rr_requeued_count := rr_requeued_count c + 1\<rparr>
          else
            (\<exists>d. w_db w' = finalize_effect job ''failed'' ''failed'' d (w_db w))
            \<and> qv_dead (queue_view_of cfg (rview (w_redis w'))) = qv_dead (queue_view_of cfg (rview (w_redis w))) @
                [dead_letter_fields (dead_letter (sl_message lease) ''StaleLeaseExhaustedError'' (qm_attempt_number (sl_message lease)))]
            \<and> c' = c\<lparr>rr_dlq_count := rr_dlq_count c + 1\<rparr>)
     \<and> (\<forall>i. qm_entry_id (sl_message lease) = Some i \<longrightarrow> i \<notin> set (lease_ids (queue_view_of cfg (rview (w_redis w')))))"
    (is "?rule \<and> ?acked")
proof -
  let ?view = "\<lambda>s. queue_view_of cfg (rview s)" and ?m = "sl_message lease"
  have acked: "?acked" if "ack_effect ?m v (?view (w_redis w'))" for v
    using that by (auto simp: ack_effect_def acknowledged_def lease_ids_def)
  show ?thesis
    using assms(2,3)
  proof (cases rule: job_queue.recover_lease_cases [OF redis_job_queue [OF assms(1)],
        case_names bad_id missing terminal requeue exhausted, consumes 2])
    case (bad_id e)
    then show ?thesis by simp
  next
    case (missing j)
    then show ?thesis using acked by (auto simp: job_of_None)
  next
    case (terminal job)
    then show ?thesis using acked by (auto simp: job_of_Some [OF assms(2)])
  next
    case (requeue job)
    then obtain k v1 where pub: "published (next_message job (qm_attempt_number ?m + 1)) k (?view (w_redis w)) v1"
      and ack: "ack_effect ?m v1 (?view (w_redis w'))" by auto
    have w: "k \<in> set (qv_waiting (?view (w_redis w')))"
      "message_at (?view (w_redis w')) k ((next_message job (qm_attempt_number ?m + 1))\<lparr>qm_entry_id := Some k\<rparr>)"
      using pub ack by (auto simp: published_def ack_effect_def acknowledged_def message_at_def split: option.splits)
    have "\<exists>k m. k \<in> set (qv_waiting (?view (w_redis w'))) \<and> message_at (?view (w_redis w')) k m
                 \<and> qm_job_id m = uuid_str (job_id job) \<and> qm_attempt_number m = qm_attempt_number ?m + 1"
      using w by (intro exI [of _ k] exI [of _ "(next_message job (qm_attempt_number ?m + 1))\<lparr>qm_entry_id := Some k\<rparr>"])
        (simp add: next_message_def)
    with requeue acked [OF ack] show ?thesis by (simp add: job_of_Some [OF assms(2)])
  next
    case (exhausted job)
    then obtain v where b: "buried ?m STALE_LEASE_EXHAUSTED_ERROR_CLASS (qm_attempt_number ?m) (?view (w_redis w)) v"
      and ack: "ack_effect ?m v (?view (w_redis w'))" by auto
    have "qv_dead (?view (w_redis w')) = qv_dead (?view (w_redis w)) @
                [dead_letter_fields (dead_letter ?m ''StaleLeaseExhaustedError'' (qm_attempt_number ?m))]"
      using b ack by (auto simp: buried_def ack_effect_def acknowledged_def STALE_LEASE_EXHAUSTED_ERROR_CLASS_def split: option.splits)
    with exhausted acked [OF ack] show ?thesis by (simp add: job_of_Some [OF assms(2)])
  qed
qed

definition example_lease :: "int \<Rightarrow> stale_lease" where
  "example_lease a = \<lparr>sl_message = job_message a, sl_consumer_name = ''w'', sl_idle_ms = 100, sl_delivery_count = 1\<rparr>"

definition no_counts :: stale_lease_recovery_result where
  "no_counts = \<lparr>rr_detected_count = 1, rr_requeued_count = 0, rr_dlq_count = 0, rr_acknowledged_terminal_count = 0,
     rr_acknowledged_missing_count = 0\<rparr>"

lemma recovery_rule_witness:
  "\<exists>w' d. recover_lease (redis_queue mem_redis default_queue_config) ''rec'' (example_lease 2) no_counts (example_world 2) =
      (Inr (no_counts\<lparr>rr_dlq_count := 1\<rparr>), w')
    \<and> w_db w' = finalize_effect example_job ''failed'' ''failed'' d example_db"
proof -
  have schema: "schema_ok (w_db (example_world 2))" using example_db_ok by (simp add: example_world_def db_inv_def)
  obtain c' w' where run: "recover_lease (redis_queue mem_redis default_queue_config) ''rec'' (example_lease 2) no_counts (example_world 2) =
      (Inr c', w')"
    by (simp add: recover_lease_def plan_recovery_action_def example_lease_def job_message_def example_world_def worker_simps
        example_load example_job_sel record_failed_def finalize_job_eq [OF _ _ example_known] redis_queue_def mem_simps
        job_redis_def nat_digits.simps Let_def)
  have "job_of example_db (job_message 2) = Some example_job"
    using example_db_ok by (intro job_of_Some) (simp_all add: db_inv_def job_message_def example_job_sel)
  with recovery_rule [OF mem_redis_streams_queue schema run] run show ?thesis
    by (simp add: example_lease_def job_message_def example_world_def example_job_sel no_counts_def)
qed

text \<open>
  C13. A scan for stale leases loses no job, even when it raises on the way: every stored job that was
  accounted for (finalized, or with a message waiting or leased) is accounted for afterwards. When it
  returns, its counters add up: each detected lease was requeued, dead-lettered or acknowledged.
\<close>

theorem recovery_loses_no_job:
  assumes "redis_streams_queue rc rview cfg" "db_inv (w_db w)"
    and "recover_stale_leases (redis_queue rc cfg) rid stale_after_ms n w = (r, w')"
    and "j \<in> job_id ` set (jobs (w_db w))" "accounted (w_db w) (queue_view_of cfg (rview (w_redis w))) j"
  shows "accounted (w_db w') (queue_view_of cfg (rview (w_redis w'))) j
    \<and> (case r of Inl _ \<Rightarrow> True | Inr c \<Rightarrow> rr_requeued_count c + rr_dlq_count c + rr_acknowledged_terminal_count c
         + rr_acknowledged_missing_count c = rr_detected_count c)"
  using job_queue.recover_stale_leases_step [OF redis_job_queue [OF assms(1)] assms(2,3)] assms(4,5)
  by (auto simp: counted_def split: sum.splits)

lemma recovery_loses_no_job_witness:
  "\<exists>r w'. recover_stale_leases (redis_queue mem_redis default_queue_config) ''rec'' 0 100 (example_world 2) = (r, w')
    \<and> accounted (w_db w') (queue_view_of default_queue_config (w_redis w')) 1"
proof -
  obtain r w' where run: "recover_stale_leases (redis_queue mem_redis default_queue_config) ''rec'' 0 100 (example_world 2) = (r, w')"
    by fastforce
  from recovery_loses_no_job [OF mem_redis_streams_queue example_world_ok(1) run example_world_ok(5,3)] run
  show ?thesis by blast
qed

subsection \<open>Redelivery, and two windows\<close>

lemma ack_message_db: "ack_message wk m w = (r, w') \<Longrightarrow> w_db w' = w_db w"
  by (auto simp: ack_message_def thenM_eq world_eqs split: option.splits sum.splits prod.splits)

lemma settled_opening:
  assumes "open_message wk m = transactionW (thenM (ack_message wk m) (returnM None))"
  shows "process_message wk m w = ack_message wk m w"
proof -
  obtain r1 w1 where ack: "ack_message wk m w = (r1, w1)" by (cases "ack_message wk m w")
  then have "w1\<lparr>w_db := w_db w\<rparr> = w1" by (simp add: ack_message_db [OF ack, symmetric])
  with assms ack show ?thesis
    by (simp add: process_message_def bindM_eq transactionW_def thenM_eq split: sum.splits)
qed

text \<open>
  C23. Redelivery is harmless: a message whose job is unknown, or already in a terminal status, is
  acknowledged and nothing else happens; the job is not run, and the registry is not touched.
\<close>

theorem redelivery_only_acknowledges:
  assumes "schema_ok (w_db w)" "uuid_parse (qm_job_id m) = Some j"
    and "list_all (\<lambda>job. job_id job = j \<longrightarrow> job_status job \<in> TERMINAL_STATUSES) (jobs (w_db w))"
  shows "process_message wk m w = ack_message wk m w"
proof -
  obtain r1 w1 where ack: "ack_message wk m w = (r1, w1)" by (cases "ack_message wk m w")
  then have same: "w1\<lparr>w_db := w_db w\<rparr> = w1" by (simp add: ack_message_db [OF ack, symmetric])
  have "open_message wk m w = (case r1 of Inl e \<Rightarrow> (Inl e, w1) | Inr _ \<Rightarrow> (Inr None, w1))"
  proof (cases rule: load_job_cases [OF assms(1), of j])
    case 1
    with assms(2) ack same show ?thesis
      by (simp add: open_message_def transactionW_def bindM_eq thenM_eq uuid_of_text_def world_eqs split: sum.splits)
  next
    case (2 job)
    with assms(3) have "job_status job \<in> TERMINAL_STATUSES" by (auto simp: list_all_iff)
    with 2 assms(2) ack same show ?thesis
      by (simp add: open_message_def transactionW_def bindM_eq thenM_eq uuid_of_text_def world_eqs split: sum.splits)
  qed
  with ack show ?thesis by (simp add: process_message_def bindM_eq split: sum.splits)
qed

lemma redelivery_only_acknowledges_witness:
  "process_message example_worker ((job_message 1)\<lparr>qm_job_id := uuid_str 4\<rparr>) (example_world 1) =
     ack_message example_worker ((job_message 1)\<lparr>qm_job_id := uuid_str 4\<rparr>) (example_world 1)"
  by (rule redelivery_only_acknowledges [where j = 4])
     (use example_db_ok in \<open>simp_all add: example_world_def db_inv_def example_db_def example_job_sel\<close>)

text \<open>
  C21. The window in which a job is lost: a job whose dispatch is refused by the budget policy is
  recorded and acknowledged inside one transaction, so when the acknowledgement reaches Redis but the
  call raises, the record is rolled back while the message is gone. If the job had no other message,
  it is then neither finalized nor waiting, and no delivery or recovery will ever reach it.
\<close>

theorem refused_job_lost_on_failed_acknowledgement:
  assumes "schema_ok (w_db w)" "job \<in> set (jobs (w_db w))" "uuid_parse (qm_job_id m) = Some (job_id job)"
    and "job_status job \<notin> TERMINAL_STATUSES" "validate_job_dispatch (wk_budget_policy wk) job = Inl e"
    and "qm_entry_id m = Some i" "q_acknowledge (wk_queue wk) i (w_redis w) = (Inl failure, s')"
    and "acknowledged i (view (w_redis w)) (view s')" "\<not> live_except {i} (view (w_redis w)) (job_id job)"
    and "job_id job \<notin> finalized_ids (w_db w)" "i \<notin> set (qv_waiting (view (w_redis w)))"
  shows "process_message wk m w = (Inl failure, w\<lparr>w_redis := s'\<rparr>) \<and> \<not> accounted (w_db w) (view s') (job_id job)"
proof -
  have known: "job_known (w_db w) job" by (rule job_known_member [OF assms(1,2)])
  from assms(5) obtain rs x y where be: "budget_error e = Some (rs, x, y)"
    unfolding validate_job_dispatch_def by (metis option.exhaust surj_pair validate_dispatch_budget_error)
  have rec: "record_budget_error wk m job e (w_db w) = (Inr (), snd (record_budget_error wk m job e (w_db w)))"
    by (simp add: record_budget_error_def be thenM_eq record_budget_blocked_def finalize_job_eq [OF _ _ known])
  have "open_message wk m w = (Inl failure, w\<lparr>w_redis := s'\<rparr>)"
    using assms(3-7) load_job_member [OF assms(1,2)]
    by (simp add: open_message_def transactionW_def bindM_eq thenM_eq uuid_of_text_def world_eqs ack_message_def, subst rec, simp add: thenM_eq world_eqs)
  moreover have "\<not> live_except {} (view s') (job_id job)"
    using assms(8,9,11) by (fastforce simp: acknowledged_def live_except_def message_at_def lease_ids_def)
  ultimately show ?thesis using assms(10) by (simp add: process_message_def bindM_eq accounted_def)
qed

definition flaky_redis :: "redis_view redis_client" where
  "flaky_redis = mem_redis\<lparr>xack := (\<lambda>st g i v. (Inl (RedisOtherError ''connection closed''), snd (mem_xack st g i v)))\<rparr>"

definition live_worker :: "(redis_view, unit) worker" where
  "live_worker = example_worker\<lparr>wk_queue := redis_queue flaky_redis default_queue_config,
     wk_budget_policy := live_policy (Some 10) (Some 10) 2 500\<rparr>"

lemma refused_job_lost_on_failed_acknowledgement_witness:
  "\<exists>s'. process_message live_worker (job_message 1) (example_world 1) =
      (Inl (RedisOtherError ''connection closed''), (example_world 1)\<lparr>w_redis := s'\<rparr>)
    \<and> \<not> accounted example_db (queue_view_of default_queue_config s') 1"
proof -
  let ?s = "snd (mem_xack ''jobs'' ''workers'' ''0-1'' (job_redis 1))"
  have ack: "q_acknowledge (wk_queue live_worker) ''0-1'' (w_redis (example_world 1)) = (Inl (RedisOtherError ''connection closed''), ?s)"
    by (simp add: live_worker_def redis_queue_def acknowledge_def flaky_redis_def example_world_def default_queue_config_def)
  have view: "acknowledged ''0-1'' (queue_view_of default_queue_config (w_redis (example_world 1))) (queue_view_of default_queue_config ?s)"
    by (simp add: acknowledged_def example_world_def queue_view_of_def job_redis_def mem_xack_def set_group_def entry_def
        default_queue_config_def fun_eq_iff)
  have alone: "\<not> live_except {''0-1''} (queue_view_of default_queue_config (w_redis (example_world 1))) (job_id example_job)"
    by (simp add: live_except_def example_world_def queue_view_of_def job_redis_def lease_ids_def fresh_lease_def default_queue_config_def)
  have refused: "validate_job_dispatch (wk_budget_policy live_worker) example_job = Inl (LiveBudgetRequiredError ''missing_job_budget'' dec_zero dec_zero)"
    by (simp add: validate_job_dispatch_def validate_dispatch_def live_worker_def live_policy_def example_job_def example_db_def)
  from refused_job_lost_on_failed_acknowledgement [OF _ _ _ _ refused _ ack view alone, of "job_message 1"] example_db_ok
  show ?thesis
    by (auto simp: example_world_def db_inv_def example_job_sel job_message_def queue_view_of_def job_redis_def
        default_queue_config_def)
qed

interpretation flaky: redis_streams_queue flaky_redis "\<lambda>v. v" default_queue_config
proof unfold_locales
  show "command (\<lambda>v. v) (\<lambda>_. acked st g i) (xack flaky_redis st g i)" for st g i
    by (rule commandI) (auto simp: flaky_redis_def mem_xack_def acked_def split: option.splits)
qed (simp_all add: flaky_redis_def mem.group_create mem.busygroup mem.add mem.read mem.pending mem.pending_range
       mem.range mem.range_entries mem.claim mem.claim_ids mem.distinct_streams)

lemma status_after_state_event:
  "row \<in> set (jobs db) \<Longrightarrow> job_id row = job_id job \<Longrightarrow>
     row\<lparr>job_status := s, job_updated_at := db_now db\<rparr> \<in> set (jobs (state_event_effect job s t d db))"
  by (force simp: state_event_effect_def set_jobs_set_status)

text \<open>
  C20. The window in which a job regresses: the record of a retry does not look at the finalizations.
  When a worker reports a transient error for a job that another worker has completed meanwhile (its
  lease had gone stale), and retries are left, the terminal status of the job is overwritten with
  \<open>queued\<close> and a new message for it is published, although its \<open>completed\<close> finalization stands.
\<close>

theorem late_transient_error_regresses_status:
  assumes "schema_ok (w_db w)" "row \<in> set (jobs (w_db w))" "job_id row = job_id job" "varchar 128 (job_trace_id job)"
    and "finalized_as (w_db w) (job_id job) ''completed''"
    and "qm_attempt_number m \<le> job_max_retries job" "qm_attempt_number m \<le> bp_retry_budget (wk_budget_policy wk)"
    and "q_publish_job (wk_queue wk) (retry_message job (qm_attempt_number m + 1)) (w_redis w) = (Inr k, s')"
    and "settle wk m job (Inl TransientRunnerError) w = (r, w')"
  shows "finalized_as (w_db w') (job_id job) ''completed''
    \<and> (\<exists>row' \<in> set (jobs (w_db w')). job_id row' = job_id job \<and> job_status row' = ''queued'')"
proof -
  have "job_id job \<in> job_id ` set (jobs (w_db w))"
    unfolding assms(3) [symmetric] by (rule imageI [OF assms(2)])
  then have known: "job_known (w_db w) job" using assms(4) by (simp add: job_known_def)
  obtain d where rec: "record_retry_scheduled job (wk_id wk) (qm_attempt_number m) (qm_attempt_number m + 1) ''TransientRunnerError'' (w_db w) =
      (Inr (), state_event_effect job ''queued'' ''retry_scheduled'' d (w_db w))"
    by (simp add: record_retry_scheduled_def record_state_event_eq [OF known])
  have ok: "validate_retry (wk_budget_policy wk) (qm_attempt_number m + 1) = Inr ()" using assms(7) by (simp add: validate_retry_iff)
  have "w_db w' = state_event_effect job ''queued'' ''retry_scheduled'' d (w_db w)"
    using assms(6,8,9) ok rec
    by (auto simp: settle_def handle_transient_error_def Let_def thenM_eq world_eqs transaction_def ack_message_def
        split: option.splits sum.splits prod.splits)
  moreover have "row\<lparr>job_status := ''queued'', job_updated_at := db_now (w_db w)\<rparr> \<in>
      set (jobs (state_event_effect job ''queued'' ''retry_scheduled'' d (w_db w)))"
    by (rule status_after_state_event [OF assms(2,3)])
  ultimately show ?thesis
    using assms(3,5) by (auto simp: state_event_effect_def intro!: bexI [of _ "row\<lparr>job_status := ''queued'', job_updated_at := db_now (w_db w)\<rparr>"])
qed

definition completed_world :: "(redis_view, unit) world" where
  "completed_world = (example_world 1)\<lparr>w_db := finalize_effect example_job ''completed'' ''completed'' [] example_db\<rparr>"

lemma completed_world_ok: "schema_ok (w_db completed_world)" "finalized_as (w_db completed_world) 1 ''completed''"
    "\<exists>row \<in> set (jobs (w_db completed_world)). job_id row = 1"
proof -
  show "schema_ok (w_db completed_world)"
    using example_db_ok example_known
    by (simp add: completed_world_def db_inv_def schema_ok_finalize_effect)
  have "job_id example_job \<notin> finalized_ids example_db" by (rule example_db_ok)
  then show "finalized_as (w_db completed_world) 1 ''completed''"
    by (simp add: completed_world_def finalize_effect_def example_job_sel)
  have "1 \<in> job_id ` set (jobs (w_db completed_world))"
    using example_world_ok(5) by (simp add: completed_world_def finalize_effect_sel example_world_def)
  then show "\<exists>row \<in> set (jobs (w_db completed_world)). job_id row = 1" by (metis imageE)
qed

lemma late_transient_error_regresses_status_witness:
  "\<exists>r w'. settle example_worker (job_message 1) example_job (Inl TransientRunnerError) completed_world = (r, w')
    \<and> finalized_as (w_db w') 1 ''completed''
    \<and> (\<exists>row' \<in> set (jobs (w_db w')). job_id row' = 1 \<and> job_status row' = ''queued'')"
proof -
  obtain r w' where run: "settle example_worker (job_message 1) example_job (Inl TransientRunnerError) completed_world = (r, w')"
    by fastforce
  obtain row where row: "row \<in> set (jobs (w_db completed_world))" "job_id row = job_id example_job"
    using completed_world_ok(3) by (auto simp: example_job_sel)
  obtain k s' where pub: "q_publish_job (wk_queue example_worker) (retry_message example_job (qm_attempt_number (job_message 1) + 1))
      (w_redis completed_world) = (Inr k, s')"
    by (simp add: example_worker_def redis_queue_def mem_simps completed_world_def example_world_def job_redis_def Let_def nat_digits.simps)
  have trace: "varchar 128 (job_trace_id example_job)" using example_known by (simp add: job_known_def)
  have bounds: "qm_attempt_number (job_message 1) \<le> job_max_retries example_job"
    "qm_attempt_number (job_message 1) \<le> bp_retry_budget (wk_budget_policy example_worker)"
    by (simp_all add: job_message_def example_job_sel example_worker_def stub_policy_def)
  have fin: "finalized_as (w_db completed_world) (job_id example_job) ''completed''"
    by (simp add: completed_world_ok(2) example_job_sel)
  from late_transient_error_regresses_status [OF completed_world_ok(1) row trace fin bounds pub run] run
  show ?thesis by (auto simp: example_job_sel)
qed

text \<open>
  A job that has regressed this way never shows its terminal status again: whatever terminal
  outcome the next run of a finalized job reports, the report is a conflict, and the job is left with
  the status \<open>running\<close>.
\<close>

theorem finalized_job_left_running:
  assumes "schema_ok (w_db w)" "job \<in> set (jobs (w_db w))" "uuid_parse (qm_job_id m) = Some (job_id job)"
    and "job_status job \<notin> TERMINAL_STATUSES" "validate_job_dispatch (wk_budget_policy wk) job = Inr ()"
    and "process_message wk m w = (Inr (), w')" "job_id job \<in> finalized_ids (w_db w)"
    and "expected_record (wk_budget_policy wk) job (qm_attempt_number m) (run_outcome wk job (qm_attempt_number m) w) = Some (s, t)"
  shows "(\<exists>row \<in> set (jobs (w_db w')). job_id row = job_id job \<and> job_status row = ''running'')
    \<and> length (conflict_attempts (w_db w')) = length (conflict_attempts (w_db w)) + 1
    \<and> job_finalizations (w_db w') = job_finalizations (w_db w)"
proof -
  let ?run = "state_event_effect job ''running'' ''running''
        [(''worker_id'', JStr (wk_id wk)), (''attempt_number'', JInt (qm_attempt_number m))] (w_db w)"
  from process_message_opened [OF assms(1-6)] obtain w2 where
    st: "settle wk m job (run_outcome wk job (qm_attempt_number m) w) w2 = (Inr (), w')" and db2: "w_db w2 = ?run" by blast
  have "job_known (w_db w2) job" using job_known_member [OF assms(1,2)] by (simp add: db2 state_event_effect_def)
  from settle_recorded [OF st this] assms(8) db2 obtain d where "w_db w' = finalize_effect job s t d ?run"
    by (auto simp: recorded_def)
  moreover have "job_id job \<in> finalized_ids ?run" using assms(7) by (simp add: state_event_effect_def finalized_ids_def)
  ultimately have db': "w_db w' = add_conflict job s t ?run" by (simp add: finalize_effect_def)
  have "job\<lparr>job_status := ''running'', job_updated_at := db_now (w_db w)\<rparr> \<in> set (jobs ?run)"
    by (rule status_after_state_event [OF assms(2) refl])
  then have "\<exists>row \<in> set (jobs (w_db w')). job_id row = job_id job \<and> job_status row = ''running''"
    unfolding db' add_conflict_sel by (rule bexI [rotated]) simp
  then show ?thesis by (simp add: db' state_event_effect_def)
qed

definition regressed_world :: "(redis_view, unit) world" where
  "regressed_world = (example_world 1)\<lparr>w_db := add_finalization example_job ''completed'' ''completed'' example_db\<rparr>"

lemma regressed_world_ok: "schema_ok (w_db regressed_world)" "example_job \<in> set (jobs (w_db regressed_world))"
    "job_id example_job \<in> finalized_ids (w_db regressed_world)"
  using example_db_ok example_known
  by (simp_all add: regressed_world_def db_inv_def schema_ok_add_finalization) (simp add: finalized_ids_def)

lemma regressed_run: "\<exists>w'. process_message example_worker (job_message 1) regressed_world = (Inr (), w')"
proof -
  have load: "load_job_for_update 1 (add_finalization example_job ''completed'' ''completed'' example_db) =
      (Inr (Some example_job), add_finalization example_job ''completed'' ''completed'' example_db)"
    using load_job_member [OF regressed_world_ok(1,2)] by (simp add: example_job_sel regressed_world_def)
  have known: "job_known (add_finalization example_job ''completed'' ''completed'' example_db) example_job"
    "job_known (state_event_effect example_job ''running'' ''running'' d (add_finalization example_job ''completed'' ''completed'' example_db)) example_job" for d
    using example_known by (simp_all add: state_event_effect_def)
  show ?thesis
    by (simp add: worker_simps regressed_world_def example_world_def job_message_def load example_job_sel example_dispatch
        example_worker_def record_running_def record_completed_def record_state_event_eq [OF known(1)]
        finalize_job_eq [OF _ _ known(2)] example_jobs_def redis_queue_def mem_simps job_redis_def numeral_eq_Suc)
qed

lemma finalized_job_left_running_witness:
  "\<exists>w'. process_message example_worker (job_message 1) regressed_world = (Inr (), w')
    \<and> (\<exists>row \<in> set (jobs (w_db w')). job_id row = 1 \<and> job_status row = ''running'')"
proof -
  from regressed_run obtain w' where run: "process_message example_worker (job_message 1) regressed_world = (Inr (), w')" ..
  have expected: "expected_record (wk_budget_policy example_worker) example_job (qm_attempt_number (job_message 1))
      (run_outcome example_worker example_job (qm_attempt_number (job_message 1)) regressed_world) = Some (''completed'', ''completed'')"
    by (simp add: run_outcome_def run_job_def example_job_sel example_worker_def example_jobs_def run_with_timeout_def
        stub_run_def expected_record_def)
  have "uuid_parse (qm_job_id (job_message 1)) = Some (job_id example_job)" "job_status example_job \<notin> TERMINAL_STATUSES"
    "validate_job_dispatch (wk_budget_policy example_worker) example_job = Inr ()"
    by (simp_all add: job_message_def example_job_sel example_worker_def example_dispatch)
  from finalized_job_left_running [OF regressed_world_ok(1,2) this run regressed_world_ok(3) expected] run
  show ?thesis by (auto simp: example_job_sel)
qed

text \<open>
  Nothing that the worker or the recovery does breaks the registry: for every queue object,
  artifact store, job function and message, honest or not, and wherever a call raises, processing one
  message and scanning for stale leases keep the registry's invariant and only extend its history.
\<close>

theorem workers_keep_registry:
  "keeps (\<lambda>w. db_inv (w_db w)) (process_one wk) \<and> keeps (\<lambda>w. extends db0 (w_db w)) (process_one wk)
   \<and> keeps (\<lambda>w. db_inv (w_db w)) (process_message wk m) \<and> keeps (\<lambda>w. extends db0 (w_db w)) (process_message wk m)
   \<and> keeps (\<lambda>w. db_inv (w_db w)) (recover_stale_leases q rid stale_after_ms n)
   \<and> keeps (\<lambda>w. extends db0 (w_db w)) (recover_stale_leases q rid stale_after_ms n)"
  by (intro conjI registry.keeps_process_one history.keeps_process_one registry.keeps_process_message
      history.keeps_process_message registry.keeps_recover_stale_leases history.keeps_recover_stale_leases)

end
