(* ===== verification/Drain.thy ===== *)
theory Drain
  imports Delivery
begin

section \<open>Draining the queue\<close>

text \<open>
  The loop of \<open>run_smoke\<close>, \<open>run_reliability_proof\<close> and \<open>run_full_stack_proof\<close>: rounds in which every
  worker of the pool processes one message, until no worker found any. \<open>asyncio.gather\<close> is modelled with
  the workers of a round taking their turns one after the other. The loop has no bound in the code;
  \<open>drain\<close> is a partial function whose value \<open>None\<close> would be a loop that never ends, and it is shown here
  that it always ends, and what holds when it ends without an exception.
\<close>

definition drain_round :: "('r, 'e) worker list \<Rightarrow> (('r, 'e) world, bool list) prog" where
  "drain_round = mapM process_one"

partial_function (option) drain :: "('r, 'e) worker list \<Rightarrow> ('r, 'e) world \<Rightarrow> ((exc + unit) \<times> ('r, 'e) world) option" where
  "drain pool w = (case drain_round pool w of
      (Inl e, w') \<Rightarrow> Some (Inl e, w')
    | (Inr processed, w') \<Rightarrow> if \<not> list_ex (\<lambda>b. b) processed then Some (Inr (), w') else drain pool w')"

subsection \<open>What one message does to the queue\<close>

text \<open>
  While a worker with the retry budget \<open>budget\<close> processes a message of attempt \<open>a\<close>, the waiting entries stay
  as they are, or gain one with the next attempt, which the budget must allow.
\<close>

definition queue_step :: "int \<Rightarrow> int \<Rightarrow> queue_view \<Rightarrow> queue_view \<Rightarrow> bool" where
  "queue_step budget a v v' \<longleftrightarrow>
     (qv_fields v' = qv_fields v \<and> qv_waiting v' = qv_waiting v)
   \<or> (\<exists>rm k. a \<le> budget \<and> qm_attempt_number rm = a + 1 \<and> qv_fields v k = None
        \<and> qv_fields v' = (qv_fields v)(k \<mapsto> to_stream_fields rm) \<and> qv_waiting v' = qv_waiting v @ [k])"

lemma queue_step_same: "qv_fields v' = qv_fields v \<Longrightarrow> qv_waiting v' = qv_waiting v \<Longrightarrow> queue_step b a v v'"
  by (simp add: queue_step_def)

lemma acked_same:
  "acknowledged i v v' \<Longrightarrow> qv_fields v' = qv_fields v \<and> qv_waiting v' = qv_waiting v \<and> set (lease_ids v') = set (lease_ids v) - {i}"
  by (auto simp: acknowledged_def lease_ids_def)

context job_queue
begin

lemma settled_queue:
  assumes "settled wk w m j w'"
  shows "queue_step (bp_retry_budget (wk_budget_policy wk)) (qm_attempt_number m) (view (w_redis w)) (view (w_redis w'))"
    and "set (lease_ids (view (w_redis w'))) \<subseteq> set (lease_ids (view (w_redis w)))"
proof -
  let ?v = "view (w_redis w)" and ?v' = "view (w_redis w')"
  from assms consider (same) "?v' = ?v" | (final) i where "acknowledged i ?v ?v'"
    | (retry) rm k v1 where "qm_attempt_number rm = qm_attempt_number m + 1"
        "qm_attempt_number m \<le> bp_retry_budget (wk_budget_policy wk)" "published rm k ?v v1"
        "?v' = v1 \<or> (\<exists>i. acknowledged i v1 ?v')"
    unfolding settled_def Let_def by blast
  then have "queue_step (bp_retry_budget (wk_budget_policy wk)) (qm_attempt_number m) ?v ?v' \<and> set (lease_ids ?v') \<subseteq> set (lease_ids ?v)"
  proof cases
    case same
    then show ?thesis by (simp add: queue_step_same)
  next
    case final
    from acked_same [OF this] show ?thesis by (auto intro: queue_step_same)
  next
    case retry
    have "qv_fields v1 = qv_fields ?v' \<and> qv_waiting v1 = qv_waiting ?v' \<and> set (lease_ids ?v') \<subseteq> set (lease_ids v1)"
    proof (cases "?v' = v1")
      case False
      with retry(4) obtain i where "acknowledged i v1 ?v'" by blast
      from acked_same [OF this] show ?thesis by simp
    qed simp
    moreover from retry(1-3) have "queue_step (bp_retry_budget (wk_budget_policy wk)) (qm_attempt_number m) ?v v1"
      unfolding queue_step_def by (intro disjI2 exI [of _ rm] exI [of _ k]) (simp add: published_def)
    moreover from retry(3) have "lease_ids v1 = lease_ids ?v" by (simp add: published_def lease_ids_def)
    ultimately show ?thesis by (simp add: queue_step_def)
  qed
  then show "queue_step (bp_retry_budget (wk_budget_policy wk)) (qm_attempt_number m) ?v ?v'"
    "set (lease_ids ?v') \<subseteq> set (lease_ids ?v)" by simp_all
qed

lemma open_message_acks:
  "open_message wk m w = (Inr None, w') \<Longrightarrow> \<exists>w1. ack_message wk m w1 = (Inr (), w')"
  unfolding open_message_def transactionW_def
  by (auto simp: bindM_eq thenM_eq uuid_of_text_def inDb_eq split: prod.splits sum.splits option.splits if_splits)

text \<open>
  While a worker processes a message that it leased, whatever happens, the queue makes such a step;
  and when it returns, the entry of the message is no longer leased.
\<close>

lemma process_message_queue:
  assumes "wk_queue wk = q" "schema_ok (w_db w)" "carried (view (w_redis w)) m" "process_message wk m w = (r, w')"
  shows "queue_step (bp_retry_budget (wk_budget_policy wk)) (qm_attempt_number m) (view (w_redis w)) (view (w_redis w'))"
    and "set (lease_ids (view (w_redis w'))) \<subseteq> set (lease_ids (view (w_redis w)))"
    and "r = Inr () \<Longrightarrow> qm_entry_id m = Some i \<Longrightarrow> i \<notin> set (lease_ids (view (w_redis w')))"
proof -
  let ?step = "queue_step (bp_retry_budget (wk_budget_policy wk)) (qm_attempt_number m)"
  obtain r1 w1 where op: "open_message wk m w = (r1, w1)" by (cases "open_message wk m w")
  have ack_or: "?step (view (w_redis w)) (view (w_redis w1)) \<and> set (lease_ids (view (w_redis w1))) \<subseteq> set (lease_ids (view (w_redis w)))"
    if "view (w_redis w1) = view (w_redis w) \<or> (\<exists>i. qm_entry_id m = Some i \<and> acknowledged i (view (w_redis w)) (view (w_redis w1)))"
  proof (cases "view (w_redis w1) = view (w_redis w)")
    case False
    with that obtain i where "acknowledged i (view (w_redis w)) (view (w_redis w1))" by blast
    from acked_same [OF this] show ?thesis by (auto intro: queue_step_same)
  qed (simp add: queue_step_same)
  have good: "?step (view (w_redis w)) (view (w_redis w')) \<and> set (lease_ids (view (w_redis w'))) \<subseteq> set (lease_ids (view (w_redis w)))
      \<and> (r = Inr () \<longrightarrow> (\<exists>w1. ack_message wk m w1 = (Inr (), w')))"
    (is "?good")
  proof (cases "\<exists>job. r1 = Inr (Some job)")
    case False
    then have w': "w' = w1" "r = Inr () \<longleftrightarrow> r1 = Inr None"
      using assms(4) op by (auto simp: process_message_def bindM_eq split: sum.splits option.splits)
    have "?step (view (w_redis w)) (view (w_redis w1)) \<and> set (lease_ids (view (w_redis w1))) \<subseteq> set (lease_ids (view (w_redis w)))"
      using assms(1,2) op
    proof (cases rule: open_message_cases)
      case (bad_id e)
      then show ?thesis by (simp add: queue_step_same)
    next
      case (missing j)
      from missing(5) show ?thesis by (rule ack_or)
    next
      case (terminal job)
      from terminal(6) show ?thesis by (rule ack_or)
    next
      case (blocked job e)
      from blocked(8) show ?thesis by (rule ack_or)
    next
      case (opened job)
      with False show ?thesis by blast
    qed
    with w' op open_message_acks show ?good by auto
  next
    case True
    then obtain job where job: "r1 = Inr (Some job)" by blast
    have red: "w_redis w1 = w_redis w"
      using assms(1,2) op
    proof (cases rule: open_message_cases)
      case (opened job')
      show ?thesis by (subst opened(7)) simp
    qed (use job in simp_all)
    obtain r2 w2 where run: "run_phase wk m job w1 = (r2, w2)" by (cases "run_phase wk m job w1")
    note frame = run_phase_frame(4-6) [OF assms(1) _ run, unfolded red, OF assms(3)]
    from run_phase_outcome [OF run] obtain ended where r2: "r2 = Inr (run_outcome wk job (qm_attempt_number m) w1, ended)" by auto
    obtain r3 w3 where s: "settle wk m job (run_outcome wk job (qm_attempt_number m) w1) w2 = (r3, w3)"
      by (cases "settle wk m job (run_outcome wk job (qm_attempt_number m) w1) w2")
    have w': "w' = w3" "r = Inr () \<Longrightarrow> r3 = Inr ()"
      using assms(4) op job run r2 s
      by (auto simp: process_message_def bindM_eq finallyM_def stop_lease_heartbeat_def split: option.splits)
    note sq = settled_queue [OF settle_settled [OF assms(1) s]]
    have "?step (view (w_redis w)) (view (w_redis w3))"
      using sq(1) frame by (simp add: queue_step_def)
    moreover have "set (lease_ids (view (w_redis w3))) \<subseteq> set (lease_ids (view (w_redis w)))" using sq(2) frame by simp
    moreover have "r = Inr () \<longrightarrow> (\<exists>w1. ack_message wk m w1 = (Inr (), w'))"
      using settle_acks s w' by blast
    ultimately show ?good using w'(1) by simp
  qed
  then show "?step (view (w_redis w)) (view (w_redis w'))"
    "set (lease_ids (view (w_redis w'))) \<subseteq> set (lease_ids (view (w_redis w)))" by simp_all
  assume p: "r = Inr ()" "qm_entry_id m = Some i"
  with good obtain w1 where a: "ack_message wk m w1 = (Inr (), w')" by blast
  obtain x s where "q_acknowledge q i (w_redis w1) = (Inr x, s)" "w' = w1\<lparr>w_redis := s\<rparr>"
    using a p(2) assms(1) by (auto simp: ack_message_def thenM_eq inRedis_eq split: prod.splits sum.splits)
  with command_Inr [OF acknowledge this(1)] show "i \<notin> set (lease_ids (view (w_redis w')))" by (auto dest: acked_same)
qed

end

subsection \<open>The work that is left\<close>

text \<open>
  The weight of a waiting entry is one more than the number of deliveries its job can still ask for
  within the retry budget, and the load of a queue the weight of all the entries that wait.
\<close>

definition entry_weight :: "int \<Rightarrow> queue_view \<Rightarrow> pystr \<Rightarrow> nat" where
  "entry_weight budget v i = (case qv_fields v i of None \<Rightarrow> 1
     | Some fs \<Rightarrow> (case queue_message_from_stream_entry i fs of Inl _ \<Rightarrow> 1
        | Inr m \<Rightarrow> Suc (nat (budget + 2 - qm_attempt_number m))))"

definition queue_load :: "int \<Rightarrow> queue_view \<Rightarrow> nat" where
  "queue_load budget v = sum_list (map (entry_weight budget v) (qv_waiting v))"

definition stream_ok :: "queue_view \<Rightarrow> bool" where
  "stream_ok v \<longleftrightarrow> (\<forall>i \<in> set (qv_waiting v). qv_fields v i \<noteq> None)"

lemma entry_weight_pos: "0 < entry_weight budget v i"
  by (simp add: entry_weight_def split: option.split sum.split)

lemma entry_weight_message: "message_at v i m \<Longrightarrow> entry_weight budget v i = Suc (nat (budget + 2 - qm_attempt_number m))"
  by (auto simp: message_at_def entry_weight_def)

lemma queue_load_step:
  assumes "queue_step b a v v'" "b \<le> budget" "stream_ok v"
  shows "queue_load budget v' < queue_load budget v + Suc (nat (budget + 2 - a))" "stream_ok v'"
proof -
  from assms(1) consider (same) "qv_fields v' = qv_fields v" "qv_waiting v' = qv_waiting v"
    | (new) rm k where "a \<le> b" "qm_attempt_number rm = a + 1" "qv_fields v k = None"
        "qv_fields v' = (qv_fields v)(k \<mapsto> to_stream_fields rm)" "qv_waiting v' = qv_waiting v @ [k]"
    unfolding queue_step_def by blast
  then have "queue_load budget v' < queue_load budget v + Suc (nat (budget + 2 - a)) \<and> stream_ok v'"
  proof cases
    case same
    then show ?thesis using assms(3) by (simp add: queue_load_def entry_weight_def [abs_def] stream_ok_def)
  next
    case new
    have "entry_weight budget v' i = entry_weight budget v i" if "i \<in> set (qv_waiting v)" for i
    proof -
      have "i \<noteq> k" using that assms(3) new(3) by (auto simp: stream_ok_def)
      then show ?thesis by (simp add: entry_weight_def new(4))
    qed
    then have "map (entry_weight budget v') (qv_waiting v) = map (entry_weight budget v) (qv_waiting v)" by simp
    moreover have "entry_weight budget v' k = Suc (nat (budget + 2 - (a + 1)))"
      by (simp add: entry_weight_def new(2,4))
    ultimately have "queue_load budget v' = queue_load budget v + Suc (nat (budget + 2 - (a + 1)))"
      by (simp only: queue_load_def new(5) map_append sum_list_append list.map sum_list.Cons sum_list.Nil add_0_right)
    moreover have "nat (budget + 2 - (a + 1)) < nat (budget + 2 - a)" using new(1) assms(2) by simp
    ultimately show ?thesis using assms(3) by (simp add: stream_ok_def new(4,5))
  qed
  then show "queue_load budget v' < queue_load budget v + Suc (nat (budget + 2 - a))" "stream_ok v'" by simp_all
qed

lemma live_leased_out: "leased_out c k v v' \<Longrightarrow> live_except X v' j = live_except X v j"
proof -
  assume "leased_out c k v v'"
  then have v': "qv_fields v' = qv_fields v" "qv_waiting v' = drop k (qv_waiting v)"
    "lease_ids v' = lease_ids v @ take k (qv_waiting v)"
    by (auto simp: leased_out_def lease_ids_def age_def fresh_lease_def o_def)
  have "set (qv_waiting v') \<union> set (lease_ids v') = set (qv_waiting v) \<union> set (lease_ids v)"
    unfolding v' set_append using set_append [of "take k (qv_waiting v)" "drop k (qv_waiting v)"] by auto
  with v'(1) show ?thesis by (simp add: live_except_def message_at_def)
qed


text \<open>
  One turn of a worker. When it answers \<open>False\<close>, no entry was waiting; when it answers \<open>True\<close>, the load has
  gone down and no lease is left over. The jobs that were accounted for stay so.
\<close>

context job_queue
begin

lemma process_one_turn:
  assumes "wk_queue wk = q" "bp_retry_budget (wk_budget_policy wk) \<le> budget" "process_one wk w = (Inr b, w')"
    and "db_inv (w_db w)" "stream_ok (view (w_redis w))"
  shows "db_inv (w_db w')" "extends (w_db w) (w_db w')" "stream_ok (view (w_redis w'))"
    "queue_load budget (view (w_redis w')) + (if b then 1 else 0) \<le> queue_load budget (view (w_redis w))"
    "\<not> b \<Longrightarrow> qv_waiting (view (w_redis w)) = []"
    "lease_ids (view (w_redis w)) = [] \<Longrightarrow> lease_ids (view (w_redis w')) = []"
    "j \<in> job_id ` set (jobs (w_db w)) \<Longrightarrow> accounted (w_db w) (view (w_redis w)) j \<Longrightarrow> accounted (w_db w') (view (w_redis w')) j"
proof -
  let ?v = "view (w_redis w)"
  show inv: "db_inv (w_db w')" by (rule keepsD [OF registry.keeps_process_one assms(4,3)])
  show "extends (w_db w) (w_db w')" by (rule keepsD [OF history.keeps_process_one _ assms(3)]) simp
  obtain ms s where lease: "q_lease_jobs q (wk_id wk) 1 100 (w_redis w) = (Inr ms, s)"
    using assms(1,3) by (auto simp: process_one_def bindM_eq inRedis_eq split: prod.splits sum.splits)
  note out = command_Inr [OF job_queue.lease [OF job_queue_axioms] lease] and got = lease_messages [OF lease]
  have v1: "qv_fields (view s) = qv_fields ?v" "qv_waiting (view s) = drop (min 1 (length (qv_waiting ?v))) (qv_waiting ?v)"
    "lease_ids (view s) = lease_ids ?v @ take (min 1 (length (qv_waiting ?v))) (qv_waiting ?v)"
    using out by (auto simp: leased_out_def lease_ids_def age_def fresh_lease_def o_def)
  have acc1: "accounted (w_db w) (view s) j" if "accounted (w_db w) ?v j" for j
    using that live_leased_out [OF out] by (simp add: accounted_def)
  have all: "stream_ok (view (w_redis w')) \<and> queue_load budget (view (w_redis w')) + (if b then 1 else 0) \<le> queue_load budget ?v
        \<and> (\<not> b \<longrightarrow> qv_waiting ?v = []) \<and> (lease_ids ?v = [] \<longrightarrow> lease_ids (view (w_redis w')) = [])
        \<and> (j \<in> job_id ` set (jobs (w_db w)) \<longrightarrow> accounted (w_db w) ?v j \<longrightarrow> accounted (w_db w') (view (w_redis w')) j)"
    (is ?all)
  proof (cases "qv_waiting ?v")
    case Nil
    then have "ms = []" using got by simp
    then have b: "\<not> b" "w' = w\<lparr>w_redis := s\<rparr>"
      using assms(1,3) lease by (auto simp: process_one_def bindM_eq inRedis_eq)
    show ?all
      using Nil b v1 acc1 by (simp add: stream_ok_def queue_load_def)
  next
    case (Cons i rest)
    obtain m ms' where ms: "ms = m # ms'" "message_at ?v i m" using got Cons by (cases ms) auto
    have entry: "qm_entry_id m = Some i" using ms(2) by (auto simp: message_at_def dest: message_entry)
    have run: "process_message wk m (w\<lparr>w_redis := s\<rparr>) = (Inr (), w')" "b"
      using assms(1,3) lease ms(1) by (auto simp: process_one_def bindM_eq thenM_eq inRedis_eq split: prod.splits sum.splits)
    have carried: "carried (view (w_redis (w\<lparr>w_redis := s\<rparr>))) m"
      using ms(2) entry v1(1) by (simp add: carried_def message_at_def)
    have schema: "schema_ok (w_db (w\<lparr>w_redis := s\<rparr>))" using assms(4) by (simp add: db_inv_def)
    note pm = process_message_queue [OF assms(1) schema carried run(1), simplified]
    have waiting: "qv_waiting (view s) = rest" using v1(2) Cons by simp
    have ok1: "stream_ok (view s)" using assms(5) v1(1) Cons by (simp add: stream_ok_def waiting)
    note step = queue_load_step [OF pm(1) assms(2) ok1]
    have "queue_load budget (view s) = sum_list (map (entry_weight budget ?v) rest)"
      by (simp add: queue_load_def waiting entry_weight_def [abs_def] v1(1))
    then have load: "queue_load budget ?v = Suc (nat (budget + 2 - qm_attempt_number m)) + queue_load budget (view s)"
      using entry_weight_message [OF ms(2), of budget] Cons by (simp add: queue_load_def)
    have leases: "lease_ids (view (w_redis w')) = []" if "lease_ids ?v = []"
    proof -
      have "set (lease_ids (view (w_redis w'))) \<subseteq> {i}" using pm(2) v1(3) Cons that by simp
      moreover have "i \<notin> set (lease_ids (view (w_redis w')))" by (rule pm(3) [OF entry])
      ultimately have "set (lease_ids (view (w_redis w'))) = {}" unfolding subset_singleton_iff by auto
      then show ?thesis by simp
    qed
    have acc: "accounted (w_db w') (view (w_redis w')) j"
      if "j \<in> job_id ` set (jobs (w_db w))" "accounted (w_db w) ?v j"
      by (rule process_message_accounted [OF assms(1) _ carried run(1)]) (use assms(4) that acc1 in simp_all)
    show ?all using step load run(2) leases acc by simp
  qed
  then show "stream_ok (view (w_redis w'))"
    "queue_load budget (view (w_redis w')) + (if b then 1 else 0) \<le> queue_load budget ?v"
    "\<not> b \<Longrightarrow> qv_waiting ?v = []" "lease_ids ?v = [] \<Longrightarrow> lease_ids (view (w_redis w')) = []"
    "j \<in> job_id ` set (jobs (w_db w)) \<Longrightarrow> accounted (w_db w) ?v j \<Longrightarrow> accounted (w_db w') (view (w_redis w')) j"
    by simp_all
qed


definition pool_ok :: "int \<Rightarrow> ('s, 'e) worker list \<Rightarrow> bool" where
  "pool_ok budget pool \<longleftrightarrow> (\<forall>wk \<in> set pool. wk_queue wk = q \<and> bp_retry_budget (wk_budget_policy wk) \<le> budget)"

lemma queue_load_zero: "queue_load budget v = 0 \<longleftrightarrow> qv_waiting v = []"
  using entry_weight_pos [of budget v] by (cases "qv_waiting v") (auto simp: queue_load_def)

lemma drain_round_turn:
  assumes "pool_ok budget pool" "drain_round pool w = (Inr bs, w')" "db_inv (w_db w)" "stream_ok (view (w_redis w))"
  shows "db_inv (w_db w') \<and> extends (w_db w) (w_db w') \<and> stream_ok (view (w_redis w'))
    \<and> queue_load budget (view (w_redis w')) + (if list_ex (\<lambda>b. b) bs then 1 else 0) \<le> queue_load budget (view (w_redis w))
    \<and> (pool \<noteq> [] \<longrightarrow> \<not> list_ex (\<lambda>b. b) bs \<longrightarrow> qv_waiting (view (w_redis w')) = [])
    \<and> (lease_ids (view (w_redis w)) = [] \<longrightarrow> lease_ids (view (w_redis w')) = [])
    \<and> (\<forall>j \<in> job_id ` set (jobs (w_db w)). accounted (w_db w) (view (w_redis w)) j \<longrightarrow> accounted (w_db w') (view (w_redis w')) j)"
  using assms
proof (induction pool arbitrary: w bs)
  case Nil
  then show ?case by (simp add: drain_round_def)
next
  case (Cons wk pool)
  from Cons.prems(2) obtain b bs' w1 where run: "process_one wk w = (Inr b, w1)" "drain_round pool w1 = (Inr bs', w')" "bs = b # bs'"
    by (auto simp: drain_round_def bindM_eq split: prod.splits sum.splits)
  have wk: "wk_queue wk = q" "bp_retry_budget (wk_budget_policy wk) \<le> budget" and pool: "pool_ok budget pool"
    using Cons.prems(1) by (simp_all add: pool_ok_def)
  note turn = process_one_turn [OF wk run(1) Cons.prems(3,4)]
  note rest = Cons.IH [OF pool run(2) turn(1,3)]
  have "qv_waiting (view (w_redis w')) = []" if "\<not> list_ex (\<lambda>b. b) bs"
  proof -
    have "queue_load budget (view (w_redis w)) = 0" using turn(5) that run(3) by (simp add: queue_load_zero)
    then have "queue_load budget (view (w_redis w')) = 0" using turn(4) rest by simp
    then show ?thesis by (simp add: queue_load_zero)
  qed
  moreover have "accounted (w_db w') (view (w_redis w')) j"
    if "j \<in> job_id ` set (jobs (w_db w))" "accounted (w_db w) (view (w_redis w)) j" for j
    using turn(7) [OF that] rest that(1) extends_job_ids [OF turn(2)] by blast
  moreover have "extends (w_db w) (w_db w')" using turn(2) rest extends_trans by blast
  moreover have "queue_load budget (view (w_redis w')) + (if list_ex (\<lambda>b. b) bs then 1 else 0) \<le> queue_load budget (view (w_redis w))"
    using turn(4) rest run(3) by (auto split: if_splits)
  moreover have "lease_ids (view (w_redis w)) = [] \<longrightarrow> lease_ids (view (w_redis w')) = []" using turn(6) rest by blast
  ultimately show ?case using rest by blast
qed

lemma drain_ends:
  assumes "pool_ok budget pool" "db_inv (w_db w)" "stream_ok (view (w_redis w))"
  shows "\<exists>r w'. drain pool w = Some (r, w') \<and> (r = Inr () \<longrightarrow> db_inv (w_db w') \<and> extends (w_db w) (w_db w')
    \<and> (pool \<noteq> [] \<longrightarrow> qv_waiting (view (w_redis w')) = [])
    \<and> (lease_ids (view (w_redis w)) = [] \<longrightarrow> lease_ids (view (w_redis w')) = [])
    \<and> (\<forall>j \<in> job_id ` set (jobs (w_db w)). accounted (w_db w) (view (w_redis w)) j \<longrightarrow> accounted (w_db w') (view (w_redis w')) j))"
  using assms(2,3)
proof (induction "queue_load budget (view (w_redis w))" arbitrary: w rule: less_induct)
  case less
  obtain bs w1 where round: "drain_round pool w = (bs, w1)" by (cases "drain_round pool w")
  show ?case
  proof (cases bs)
    case (Inl e)
    with round have "drain pool w = Some (Inl e, w1)" by (subst drain.simps) simp
    then show ?thesis by simp
  next
    case (Inr ps)
    note turn = drain_round_turn [OF assms(1) round [unfolded Inr] less.prems]
    show ?thesis
    proof (cases "list_ex (\<lambda>b. b) ps")
      case False
      with round Inr have "drain pool w = Some (Inr (), w1)" by (subst drain.simps) simp
      with turn False show ?thesis by blast
    next
      case True
      with round Inr have step: "drain pool w = drain pool w1" by (subst drain.simps) simp
      have "queue_load budget (view (w_redis w1)) < queue_load budget (view (w_redis w))" using turn True by simp
      from less.hyps [OF this] turn obtain r w' where ih: "drain pool w1 = Some (r, w')" "r = Inr () \<longrightarrow>
          db_inv (w_db w') \<and> extends (w_db w1) (w_db w') \<and> (pool \<noteq> [] \<longrightarrow> qv_waiting (view (w_redis w')) = [])
          \<and> (lease_ids (view (w_redis w1)) = [] \<longrightarrow> lease_ids (view (w_redis w')) = [])
          \<and> (\<forall>j \<in> job_id ` set (jobs (w_db w1)). accounted (w_db w1) (view (w_redis w1)) j \<longrightarrow> accounted (w_db w') (view (w_redis w')) j)"
        by blast
      have ext: "extends (w_db w) (w_db w1)" using turn by blast
      show ?thesis
      proof (intro exI conjI impI)
        show "drain pool w = Some (r, w')" using step ih(1) by simp
      next
        assume r: "r = Inr ()"
        with ih(2) show "db_inv (w_db w')" by blast
        from r ih(2) have "extends (w_db w1) (w_db w')" by blast
        with ext show "extends (w_db w) (w_db w')" by (rule extends_trans)
        show "qv_waiting (view (w_redis w')) = []" if "pool \<noteq> []" using r ih(2) that by blast
        show "lease_ids (view (w_redis w')) = []" if "lease_ids (view (w_redis w)) = []" using r ih(2) that turn by blast
        show "\<forall>j \<in> job_id ` set (jobs (w_db w)). accounted (w_db w) (view (w_redis w)) j \<longrightarrow> accounted (w_db w') (view (w_redis w')) j"
          using r ih(2) turn extends_job_ids [OF ext] by blast
      qed
    qed
  qed
qed

end


subsection \<open>The property\<close>


definition drain_world :: "(redis_view, unit) world" where
  "drain_world = (example_world 1)\<lparr>w_redis := (job_redis 1)\<lparr>rv_group := (\<lambda>st g. None)\<rparr>\<rparr>"

lemma mem_lease_nothing:
  assumes "qv_waiting (queue_view_of default_queue_config s) = []"
  shows "\<exists>s'. lease_jobs mem_redis default_queue_config c 1 b s = (Inr [], s')"
  using assms by (cases "rv_group s ''jobs'' ''workers''") (auto simp: mem_simps Let_def split: if_splits)


end
