(* ===== verification/FailurePlan.thy ===== *)
theory FailurePlan
  imports StubRunner "HOL-Library.Multiset"
begin

section \<open>Failure injection\<close>

text \<open>
  \<open>jobs/failure_injection.py\<close>. The generator of Python's \<open>random\<close> module is a parameter:
  \<open>choices seed i n\<close> is the index that the \<open>i\<close>-th \<open>choice\<close> among \<open>n\<close> takes, and \<open>shuffled seed xs\<close>
  the list that \<open>shuffle\<close> leaves.
\<close>

datatype failure_mode = TRANSIENT | PERMANENT | TIMEOUT | CANCELLATION | DUPLICATE_SUBMISSION

text \<open>\<open>list(FailureMode)\<close> and the values of the \<open>StrEnum\<close>\<close>

definition all_modes :: "failure_mode list" where
  "all_modes = [TRANSIENT, PERMANENT, TIMEOUT, CANCELLATION, DUPLICATE_SUBMISSION]"

fun mode_value :: "failure_mode \<Rightarrow> pystr" where
  "mode_value TRANSIENT = ''transient''"
| "mode_value PERMANENT = ''permanent''"
| "mode_value TIMEOUT = ''timeout''"
| "mode_value CANCELLATION = ''cancellation''"
| "mode_value DUPLICATE_SUBMISSION = ''duplicate_submission''"

record injected_failure =
  if_index :: nat
  if_mode :: failure_mode

record failure_plan =
  fp_seed :: int
  fp_failures :: "injected_failure list"

definition fixed_seed :: "(int \<Rightarrow> nat \<Rightarrow> nat \<Rightarrow> nat) \<Rightarrow> int \<Rightarrow> nat \<Rightarrow> failure_plan" where
  "fixed_seed choices seed jobs_n = \<lparr>fp_seed = seed,
     fp_failures = map (\<lambda>i. \<lparr>if_index = i, if_mode = all_modes ! choices seed i (length all_modes)\<rparr>) [0..<jobs_n]\<rparr>"

definition proof_modes :: "bool \<Rightarrow> failure_mode list" where
  "proof_modes include_timeouts = [TRANSIENT, PERMANENT, DUPLICATE_SUBMISSION] @ (if include_timeouts then [TIMEOUT] else [])"

definition reliability_proof :: "(int \<Rightarrow> nat list \<Rightarrow> nat list) \<Rightarrow> int \<Rightarrow> nat \<Rightarrow> bool \<Rightarrow> failure_plan" where
  "reliability_proof shuffled seed jobs_n include_timeouts =
     (let modes = proof_modes include_timeouts;
          indexes = shuffled seed [0..<jobs_n];
          failures = map (\<lambda>(position, index). \<lparr>if_index = index, if_mode = modes ! (position mod length modes)\<rparr>)
                         (enumerate 0 indexes)
      in \<lparr>fp_seed = seed, fp_failures = sort_key if_index failures\<rparr>)"

definition plan_counts :: "failure_plan \<Rightarrow> (failure_mode \<times> nat) list" where
  "plan_counts plan = map (\<lambda>m. (m, length (filter (\<lambda>f. if_mode f = m) (fp_failures plan)))) all_modes"

fun payload_for_failure :: "failure_mode \<Rightarrow> items" where
  "payload_for_failure TRANSIENT = [(''mode'', JStr ''transient_error'')]"
| "payload_for_failure PERMANENT = [(''mode'', JStr ''permanent_error'')]"
| "payload_for_failure TIMEOUT = [(''mode'', JStr ''sleep''), (''duration_seconds'', JInt 2)]"
| "payload_for_failure CANCELLATION = [(''mode'', JStr ''sleep''), (''duration_seconds'', JInt 5)]"
| "payload_for_failure DUPLICATE_SUBMISSION = [(''mode'', JStr ''success''), (''duplicate_submission'', JBool True)]"

definition should_retry :: "failure_mode \<Rightarrow> bool" where
  "should_retry m = (m = TRANSIENT)"

record stub_cost_record =
  sc_model_calls :: int
  sc_estimated_cost_usd :: decimal

definition stub_cost_for_plan :: "failure_plan \<Rightarrow> stub_cost_record" where
  "stub_cost_for_plan plan = \<lparr>sc_model_calls = 0, sc_estimated_cost_usd = dec_zero\<rparr>"

subsection \<open>Properties\<close>

lemma plan_count_positions:
  assumes "mset (shuffled seed [0..<jobs_n]) = mset [0..<jobs_n]"
  shows "length (filter (\<lambda>f. if_mode f = m) (fp_failures (reliability_proof shuffled seed jobs_n b))) =
    card {p. p < jobs_n \<and> proof_modes b ! (p mod length (proof_modes b)) = m}"
proof -
  let ?modes = "proof_modes b" and ?ix = "shuffled seed [0..<jobs_n]"
  let ?fs = "map (\<lambda>(position, index). \<lparr>if_index = index, if_mode = ?modes ! (position mod length ?modes)\<rparr>) (enumerate 0 ?ix)"
  have len: "length ?ix = jobs_n" using mset_eq_length [OF assms] by simp
  have "mset (filter (\<lambda>f. if_mode f = m) (sort_key if_index ?fs)) = mset (filter (\<lambda>f. if_mode f = m) ?fs)"
    by (simp only: mset_filter mset_sort)
  then have "length (filter (\<lambda>f. if_mode f = m) (sort_key if_index ?fs)) = length (filter (\<lambda>f. if_mode f = m) ?fs)"
    by (rule mset_eq_length)
  also have "\<dots> = length (filter (\<lambda>p. ?modes ! (p mod length ?modes) = m) (map fst (enumerate 0 ?ix)))"
    by (simp add: filter_map o_def case_prod_unfold del: map_fst_enumerate)
  also have "\<dots> = length (filter (\<lambda>p. ?modes ! (p mod length ?modes) = m) [0..<jobs_n])"
    by (simp add: len)
  also have "\<dots> = card {p. p < jobs_n \<and> ?modes ! (p mod length ?modes) = m}"
    by (simp add: length_filter_conv_card cong: conj_cong)
  finally show ?thesis by (simp add: reliability_proof_def Let_def)
qed

lemma card_residue_Suc:
  "card {p. p < Suc n \<and> p mod L = k} = card {p. p < n \<and> p mod L = k} + (if n mod L = k then 1 else 0 :: nat)"
proof -
  have "{p. p < Suc n \<and> p mod L = k} = {p. p < n \<and> p mod L = k} \<union> (if n mod L = k then {n} else {})"
    by (auto simp: less_Suc_eq)
  then show ?thesis by (simp add: card_insert_if)
qed

lemma next_quotient:
  fixes k :: nat
  assumes "k < L"
  shows "(Suc n + L - 1 - k) div L = (n + L - 1 - k) div L + (if n mod L = k then 1 else 0)"
proof -
  have eq: "Suc n + L - 1 - k = Suc (n + (L - 1 - k))" "n + L - 1 - k = n + (L - 1 - k)" using assms by auto
  have "Suc (n + (L - 1 - k)) mod L = 0 \<longleftrightarrow> n mod L = k"
  proof -
    have "Suc (n + (L - 1 - k)) = n + (L - k)" using assms by simp
    then have "Suc (n + (L - 1 - k)) mod L = (n mod L + (L - k)) mod L"
      by (simp only: mod_add_left_eq)
    also have "\<dots> = 0 \<longleftrightarrow> n mod L = k"
    proof -
      have "n mod L < L" using assms by simp
      then show ?thesis
        using assms mod_if [of "n mod L + (L - k)" L]
        by (cases "n mod L < k"; cases "n mod L = k") (auto simp: mod_less [OF less_imp_diff_less])
    qed
    finally show ?thesis .
  qed
  then show ?thesis unfolding eq div_Suc by (simp only: if_distrib split: if_split) simp
qed

lemma card_residue: "k < L \<Longrightarrow> card {p. p < n \<and> p mod L = k} = (n + L - 1 - k) div L"
proof (induction n)
  case (Suc n)
  then show ?case by (simp only: card_residue_Suc next_quotient)
qed simp

lemma nth_mode_iff:
  "k < length (proof_modes b) \<Longrightarrow>
     {p. p < n \<and> proof_modes b ! (p mod length (proof_modes b)) = proof_modes b ! k} =
     {p. p < n \<and> p mod length (proof_modes b) = k}"
  by (intro Collect_cong conj_cong refl nth_eq_iff_index_eq) (auto simp: proof_modes_def)

lemma plan_count_mode:
  assumes "mset (shuffled seed [0..<jobs_n]) = mset [0..<jobs_n]" "k < length (proof_modes b)"
  shows "length (filter (\<lambda>f. if_mode f = proof_modes b ! k) (fp_failures (reliability_proof shuffled seed jobs_n b))) =
    (jobs_n + length (proof_modes b) - 1 - k) div length (proof_modes b)"
  unfolding plan_count_positions [of shuffled seed jobs_n, OF assms(1)] nth_mode_iff [OF assms(2)]
  by (rule card_residue [OF assms(2)])

text \<open>
  The reliability plan injects one failure at every index, in order, whatever the shuffle does,
  and it spreads the modes evenly: the \<open>k\<close>-th of its \<open>L\<close> modes is used by the same number of jobs as
  there are positions \<open>p\<close> below the number of jobs with \<open>p mod L = k\<close>, so each mode is exercised as
  soon as there are \<open>L\<close> jobs and the shares differ by at most one.
\<close>

theorem reliability_plan_covers:
  assumes "\<And>xs. mset (shuffled seed xs) = mset xs" "k < length (proof_modes b)"
  shows "map if_index (fp_failures (reliability_proof shuffled seed jobs_n b)) = [0..<jobs_n]
    \<and> length (filter (\<lambda>f. if_mode f = proof_modes b ! k) (fp_failures (reliability_proof shuffled seed jobs_n b))) =
      (jobs_n + length (proof_modes b) - 1 - k) div length (proof_modes b)"
proof
  let ?modes = "proof_modes b" and ?ix = "shuffled seed [0..<jobs_n]"
  let ?fs = "map (\<lambda>(position, index). \<lparr>if_index = index, if_mode = ?modes ! (position mod length ?modes)\<rparr>) (enumerate 0 ?ix)"
  have "map if_index ?fs = map snd (enumerate 0 ?ix)" by (simp add: o_def case_prod_unfold del: map_snd_enumerate)
  then have "map if_index ?fs = ?ix" by simp
  then have "mset (map if_index ?fs) = mset [0..<jobs_n]" by (simp only: assms(1))
  then have "mset (map if_index (sort_key if_index ?fs)) = mset [0..<jobs_n]" by (simp only: mset_map mset_sort)
  moreover have "sorted (map if_index (sort_key if_index ?fs))" by simp
  ultimately have "sort [0..<jobs_n] = map if_index (sort_key if_index ?fs)"
    by (rule properties_for_sort)
  then show "map if_index (fp_failures (reliability_proof shuffled seed jobs_n b)) = [0..<jobs_n]"
    by (simp add: reliability_proof_def Let_def sorted_sort_id)
qed (rule plan_count_mode [of shuffled seed jobs_n, OF assms(1) assms(2)])

lemma reliability_plan_covers_witness:
  "map if_index (fp_failures (reliability_proof (\<lambda>_. rev) 7 5 True)) = [0..<5]
   \<and> length (filter (\<lambda>f. if_mode f = TRANSIENT) (fp_failures (reliability_proof (\<lambda>_. rev) 7 5 True))) = 2"
  using reliability_plan_covers [of "\<lambda>_. rev" 7 0 True 5] by (simp add: proof_modes_def)

end
