(* ===== verification/Submission.thy ===== *)
theory Submission
  imports Drain FailurePlan
begin

section \<open>Submitting a run\<close>

text \<open>
  The three submitters of the command line: \<open>submit_batch\<close> of \<open>cli/main.py\<close>, \<open>_submit_smoke_batch\<close> of
  \<open>cli/smoke.py\<close> and \<open>_submit_reliability_batch\<close> of \<open>cli/benchmark.py\<close>. Each stores a job and then publishes
  its first message, one job after the other. The identifiers that \<open>uuid4\<close> gives are arguments: \<open>run\<close> for the
  run and \<open>ids i\<close> for the \<open>i\<close>-th job.
\<close>

definition submission_message :: "job_record \<Rightarrow> queue_job_message" where
  "submission_message job = \<lparr>qm_job_id = uuid_str (job_id job), qm_run_id = uuid_str (job_run_id job),
     qm_attempt_number = 1, qm_trace_id = job_trace_id job, qm_entry_id = None\<rparr>"

definition submit_job :: "platform \<Rightarrow> 'r queue_api \<Rightarrow> job_submission \<Rightarrow> (('r, 'e) world, job_record) prog" where
  "submit_job pf q sub = bindM (inDb (create_job pf sub)) (\<lambda>job.
     thenM (inRedis (q_publish_job q (submission_message job))) (returnM job))"

definition run_submission :: "uuid \<Rightarrow> uuid \<Rightarrow> nat \<Rightarrow> pystr \<Rightarrow> items \<Rightarrow> int \<Rightarrow> int \<Rightarrow> job_submission" where
  "run_submission run i index jtype payload timeout_seconds max_retries = \<lparr>sub_job_type = jtype, sub_payload = payload,
     sub_idempotency_key = uuid_str run @ '':'' @ nat_digits index, sub_timeout_seconds = timeout_seconds,
     sub_max_retries = max_retries, sub_trace_id = ''trace-'' @ uuid_str run, sub_budget_cents = None,
     sub_job_id = i, sub_run_id = run\<rparr>"

definition success_payload :: "nat \<Rightarrow> items" where
  "success_payload index = [(''index'', JInt (int index)), (''mode'', JStr ''success'')]"

definition submit_all :: "platform \<Rightarrow> 'r queue_api \<Rightarrow> job_submission list \<Rightarrow> (('r, 'e) world, unit) prog" where
  "submit_all pf q subs = forM subs (\<lambda>sub. thenM (submit_job pf q sub) (returnM ()))"

record batch_submission_result =
  bs_run_id :: uuid
  bs_job_count :: int

definition submit_batch ::
    "platform \<Rightarrow> 'r queue_api \<Rightarrow> uuid \<Rightarrow> (nat \<Rightarrow> uuid) \<Rightarrow> int \<Rightarrow> pystr \<Rightarrow> int \<Rightarrow> int
      \<Rightarrow> (('r, 'e) world, batch_submission_result) prog" where
  "submit_batch pf q run ids n jtype timeout_seconds max_retries =
     thenM (submit_all pf q (map (\<lambda>i. run_submission run (ids i) i jtype (success_payload i) timeout_seconds max_retries) [0..<nat n]))
       (returnM \<lparr>bs_run_id = run, bs_job_count = n\<rparr>)"

definition submit_smoke_batch ::
    "platform \<Rightarrow> 'r queue_api \<Rightarrow> uuid \<Rightarrow> (nat \<Rightarrow> uuid) \<Rightarrow> int \<Rightarrow> (('r, 'e) world, uuid) prog" where
  "submit_smoke_batch pf q run ids n =
     thenM (submit_all pf q (map (\<lambda>i. run_submission run (ids i) i ''stub'' (success_payload i) 30 1) [0..<nat n])) (returnM run)"

text \<open>
  The submissions of a reliability proof: the failure that the plan has for an index decides the payload,
  the timeout and the retries, and a job that is planned as a duplicate is submitted twice.
\<close>

definition planned_mode :: "failure_plan \<Rightarrow> nat \<Rightarrow> failure_mode option" where
  "planned_mode plan i = map_of (rev (map (\<lambda>f. (if_index f, if_mode f)) (fp_failures plan))) i"

definition reliability_submission :: "uuid \<Rightarrow> (nat \<Rightarrow> uuid) \<Rightarrow> failure_plan \<Rightarrow> nat \<Rightarrow> job_submission" where
  "reliability_submission run ids plan i =
     (let mode = planned_mode plan i;
          payload = (case mode of Some m \<Rightarrow> payload_for_failure m | None \<Rightarrow> success_payload i)
      in run_submission run (ids i) i ''stub'' (dupdate payload [(''index'', JInt (int i))])
           (if mode = Some TIMEOUT then 1 else 30) (if mode = Some TRANSIENT then 1 else 0))"

definition submit_reliability_job ::
    "platform \<Rightarrow> 'r queue_api \<Rightarrow> uuid \<Rightarrow> (nat \<Rightarrow> uuid) \<Rightarrow> failure_plan \<Rightarrow> bool \<Rightarrow> nat \<Rightarrow> (('r, 'e) world, int) prog" where
  "submit_reliability_job pf q run ids plan repeat_submissions i =
     (let submission = reliability_submission run ids plan i in
      bindM (inDb (create_job pf submission)) (\<lambda>job.
      bindM (if repeat_submissions \<and> planned_mode plan i = Some DUPLICATE_SUBMISSION
             then bindM (inDb (create_job pf submission)) (\<lambda>replayed_job.
               if job_id replayed_job \<noteq> job_id job
               then raiseM (RuntimeError ''idempotency replay returned a different job'') else returnM 1)
             else returnM 0) (\<lambda>replays.
      thenM (inRedis (q_publish_job q (submission_message job))) (returnM replays))))"

definition submit_reliability_batch ::
    "platform \<Rightarrow> 'r queue_api \<Rightarrow> uuid \<Rightarrow> (nat \<Rightarrow> uuid) \<Rightarrow> int \<Rightarrow> failure_plan \<Rightarrow> bool \<Rightarrow> (('r, 'e) world, uuid \<times> int) prog" where
  "submit_reliability_batch pf q run ids n plan repeat_submissions =
     bindM (mapM (submit_reliability_job pf q run ids plan repeat_submissions) [0..<nat n])
       (\<lambda>replays. returnM (run, sum_list replays))"

subsection \<open>What a submission does\<close>

lemma create_job_cases:
  assumes "schema_ok db" "create_job pf sub db = (r, db')"
  obtains (same) "db' = db" "\<And>job. r = Inr job \<Longrightarrow> job \<in> set (jobs db)"
    | (new) "sub_idempotency_key sub \<notin> job_idempotency_key ` set (jobs db)" "insertable pf sub db"
        "r = Inr (stored_row pf sub db)" "db' = create_effect pf sub db"
proof (cases "sub_idempotency_key sub \<in> job_idempotency_key ` set (jobs db)")
  case True
  then obtain j where j: "j \<in> set (jobs db)" "job_idempotency_key j = sub_idempotency_key sub" by auto
  from create_job_existing [OF assms(1) this, of pf] assms(2) j(1) show thesis by (intro same) (auto split: if_splits)
next
  case False
  show thesis
  proof (cases "insertable pf sub db")
    case True
    with create_job_fresh [OF assms(1) False] assms(2) False show thesis by (intro new) auto
  next
    case bad: False
    from create_job_rejected [OF assms(1) False bad] obtain e where "create_job pf sub db = (Inl e, db)" ..
    with assms(2) show thesis by (intro same) auto
  qed
qed

lemma create_effect_jobs: "jobs (create_effect pf sub db) = jobs db @ [stored_row pf sub db]"
  by (simp add: create_effect_def Let_def)

lemma events_own_run_create: "events_own_run db \<Longrightarrow> events_own_run (create_effect pf sub db)"
  by (fastforce simp: events_own_run_def create_effect_def Let_def)

lemma finalized_create: "finalized_ids (create_effect pf sub db) = finalized_ids db"
  by (simp add: finalized_ids_def create_effect_def Let_def)


text \<open>
  \<open>row_of pf sub r\<close>: the row that stores a submission. \<open>enters\<close> says what one step of a submitter does,
  returning or raising: the registry gains no row or the one row of the submission, and keeps its invariant and
  its history; nothing is leased and no job loses its message; and when the step returns, the job has one.
\<close>

definition row_of :: "platform \<Rightarrow> job_submission \<Rightarrow> job_record \<Rightarrow> bool" where
  "row_of pf sub r \<longleftrightarrow> (\<exists>t. r = (submission_row pf sub)\<lparr>job_created_at := t, job_updated_at := t\<rparr>)"

lemma row_of_stored: "row_of pf sub (stored_row pf sub db)"
  by (auto simp: row_of_def stored_row_def)

lemma row_of_sel:
  assumes "row_of pf sub r"
  shows "job_id r = sub_job_id sub" "job_run_id r = sub_run_id sub" "job_idempotency_key r = sub_idempotency_key sub"
    "job_status r = ''submitted''" "job_payload r = sub_payload sub"
  using assms by (auto simp: row_of_def submission_row_def)

definition grid_ok :: "database \<Rightarrow> queue_view \<Rightarrow> bool" where
  "grid_ok db v \<longleftrightarrow> db_inv db \<and> events_own_run db \<and> stream_ok v"

definition moved_on :: "(database \<times> queue_view) \<Rightarrow> (database \<times> queue_view) \<Rightarrow> bool" where
  "moved_on = (\<lambda>(db, v) (db', v'). grid_ok db' v' \<and> extends db db' \<and> lease_ids v' = lease_ids v
     \<and> (\<forall>j. accounted db v j \<longrightarrow> accounted db' v' j))"

lemma moved_on_refl: "grid_ok db v \<Longrightarrow> moved_on (db, v) (db, v)"
  by (simp add: moved_on_def)

lemma moved_on_trans: "moved_on x y \<Longrightarrow> moved_on y z \<Longrightarrow> moved_on x z"
  by (auto simp: moved_on_def intro: extends_trans)

definition enters :: "platform \<Rightarrow> job_submission \<Rightarrow> database \<times> queue_view \<Rightarrow> database \<times> queue_view \<Rightarrow> bool \<Rightarrow> bool" where
  "enters pf sub x y returned \<longleftrightarrow> moved_on x y \<and>
     (jobs (fst y) = jobs (fst x) \<and> \<not> returned
      \<or> (\<exists>r. row_of pf sub r \<and> jobs (fst y) = jobs (fst x) @ [r] \<and> (returned \<longrightarrow> accounted (fst y) (snd y) (job_id r))))"

lemma moved_on_create:
  assumes "grid_ok db v" "sub_idempotency_key sub \<notin> job_idempotency_key ` set (jobs db)" "insertable pf sub db"
  shows "moved_on (db, v) (create_effect pf sub db, v)"
proof -
  have "db_inv (create_effect pf sub db)"
    using keeps_snd [OF keeps_create_job [of pf sub], of db] create_job_fresh [OF _ assms(2,3)] assms(1)
    by (simp add: grid_ok_def db_inv_def)
  with assms(1) show ?thesis
    by (simp add: moved_on_def grid_ok_def events_own_run_create extends_create_effect accounted_def finalized_create)
qed

context job_queue
begin

abbreviation state_of :: "('s, 'e) world \<Rightarrow> database \<times> queue_view" where
  "state_of w \<equiv> (w_db w, view (w_redis w))"

lemma publish_moves:
  assumes "grid_ok (w_db w) (view (w_redis w))" "inRedis (q_publish_job q m) w = (r, w')"
  shows "moved_on (state_of w) (state_of w')" "w_db w' = w_db w"
    "r = Inr x \<Longrightarrow> uuid_parse (qm_job_id m) = Some j \<Longrightarrow> accounted (w_db w') (view (w_redis w')) j"
proof -
  from assms(2) obtain s where s: "q_publish_job q m (w_redis w) = (r, s)" "w' = w\<lparr>w_redis := s\<rparr>"
    by (auto simp: inRedis_eq split: prod.splits)
  then show "w_db w' = w_db w" by simp
  have grows: "moved_on (state_of w) (w_db w, view s)" if "published m i (view (w_redis w)) (view s)" for i
    using that assms(1) live_published [OF that]
    by (auto simp: moved_on_def grid_ok_def accounted_def published_def stream_ok_def lease_ids_def)
  show "moved_on (state_of w) (state_of w')"
    using publish s(1)
  proof (cases rule: command_cases)
    case same
    with assms(1) s(2) show ?thesis by (simp add: moved_on_def)
  qed (use grows s(2) in auto)
  assume "r = Inr x" "uuid_parse (qm_job_id m) = Some j"
  with s command_Inr [OF publish, of m "w_redis w"] live_published_new [of m _ "view (w_redis w)" "view s" "{}" j]
  show "accounted (w_db w') (view (w_redis w')) j" by (auto simp: accounted_def)
qed

text \<open>What follows the creation of a new job may repeat the creation, and ends with the message.\<close>

lemma create_then_enters:
  assumes ok: "grid_ok (w_db w) (view (w_redis w))"
    and new: "sub_idempotency_key sub \<notin> job_idempotency_key ` set (jobs (w_db w))"
    and run: "bindM (inDb (create_job pf sub)) rest w = (r, w')"
    and rest: "\<And>job w1 r w'. insertable pf sub (w_db w) \<Longrightarrow> w_db w1 = create_effect pf sub (w_db w) \<Longrightarrow> job = stored_row pf sub (w_db w) \<Longrightarrow>
      grid_ok (w_db w1) (view (w_redis w1)) \<Longrightarrow> rest job w1 = (r, w') \<Longrightarrow>
      moved_on (state_of w1) (state_of w') \<and> w_db w' = w_db w1 \<and> (\<not> isl r \<longrightarrow> accounted (w_db w') (view (w_redis w')) (job_id job))"
  shows "enters pf sub (state_of w) (state_of w') (\<not> isl r)"
proof -
  have schema: "schema_ok (w_db w)" using ok by (simp add: grid_ok_def db_inv_def)
  show ?thesis
  proof (cases "insertable pf sub (w_db w)")
    case False
    from create_job_rejected [OF schema new False] obtain e where "create_job pf sub (w_db w) = (Inl e, w_db w)" ..
    with run have "w' = w" "isl r" by (auto simp: bindM_eq inDb_eq)
    with ok show ?thesis by (simp add: enters_def moved_on_refl)
  next
    case True
    let ?w1 = "w\<lparr>w_db := create_effect pf sub (w_db w)\<rparr>"
    have moved: "moved_on (state_of w) (state_of ?w1)" using moved_on_create [OF ok new True] by simp
    then have ok1: "grid_ok (w_db ?w1) (view (w_redis ?w1))" by (simp add: moved_on_def)
    from run create_job_fresh [OF schema new True] have r1: "rest (stored_row pf sub (w_db w)) ?w1 = (r, w')"
      by (simp add: bindM_eq inDb_eq)
    have eq: "w_db ?w1 = create_effect pf sub (w_db w)" by simp
    note last = rest [OF True eq refl ok1 r1]
    have "jobs (w_db w') = jobs (w_db w) @ [stored_row pf sub (w_db w)]"
      using last by (simp add: create_effect_jobs)
    with moved_on_trans [OF moved conjunct1 [OF last]] last row_of_stored show ?thesis
      unfolding enters_def fst_conv snd_conv by blast
  qed
qed

lemma message_of_job: "uuid_parse (qm_job_id (submission_message job)) = Some (job_id job)"
  by (simp add: submission_message_def)

lemma submit_job_enters:
  assumes "grid_ok (w_db w) (view (w_redis w))" "sub_idempotency_key sub \<notin> job_idempotency_key ` set (jobs (w_db w))"
    and "thenM (submit_job pf q sub) (returnM ()) w = (r, w')"
  shows "enters pf sub (state_of w) (state_of w') (\<not> isl r)"
proof (rule create_then_enters [OF assms(1,2)])
  show "bindM (inDb (create_job pf sub)) (\<lambda>job. thenM (inRedis (q_publish_job q (submission_message job))) (returnM ())) w = (r, w')"
    using assms(3) by (simp add: submit_job_def thenM_def bindM_assoc del: prog_eqs)
next
  fix job w1 r w'
  assume ok: "grid_ok (w_db w1) (view (w_redis w1))"
    and run: "thenM (inRedis (q_publish_job q (submission_message job))) (returnM ()) w1 = (r, w')"
  then obtain r1 where p: "inRedis (q_publish_job q (submission_message job)) w1 = (r1, w')" "isl r = isl r1"
    by (auto simp: thenM_eq split: prod.splits sum.splits)
  note moves = publish_moves [OF ok p(1)]
  have "accounted (w_db w') (view (w_redis w')) (job_id job)" if "\<not> isl r"
    using that p(2) moves(3) [OF _ message_of_job] by (cases r1) auto
  with moves(1,2) show "moved_on (state_of w1) (state_of w') \<and> w_db w' = w_db w1
      \<and> (\<not> isl r \<longrightarrow> accounted (w_db w') (view (w_redis w')) (job_id job))" by simp
qed

lemma submit_reliability_job_enters:
  fixes run ids plan i defines "sub \<equiv> reliability_submission run ids plan i"
  assumes "grid_ok (w_db w) (view (w_redis w))" "sub_idempotency_key sub \<notin> job_idempotency_key ` set (jobs (w_db w))"
    and "submit_reliability_job pf q run ids plan b i w = (r, w')"
  shows "enters pf sub (state_of w) (state_of w') (\<not> isl r)"
    and "r = Inr n \<Longrightarrow> n = (if b \<and> planned_mode plan i = Some DUPLICATE_SUBMISSION then 1 else 0)"
proof -
  let ?n = "if b \<and> planned_mode plan i = Some DUPLICATE_SUBMISSION then 1 else 0 :: int"
  let ?publish = "\<lambda>job replays. thenM (inRedis (q_publish_job q (submission_message job))) (returnM replays)"
  let ?replay = "\<lambda>job. if b \<and> planned_mode plan i = Some DUPLICATE_SUBMISSION
    then bindM (inDb (create_job pf sub)) (\<lambda>replayed_job.
      if job_id replayed_job \<noteq> job_id job then raiseM (RuntimeError ''idempotency replay returned a different job'') else returnM 1)
    else returnM 0"
  have run: "bindM (inDb (create_job pf sub)) (\<lambda>job. bindM (?replay job) (?publish job)) w = (r, w')"
    using assms(4) by (simp only: submit_reliability_job_def sub_def Let_def)
  have replay: "?replay job w1 = (Inr ?n, w1)"
    if "schema_ok (w_db w1)" "job \<in> set (jobs (w_db w1))" "job_idempotency_key job = sub_idempotency_key sub"
      "job_payload_hash job = submission_payload_hash pf sub" for job w1
    using create_job_existing [OF that(1-3)] that(4) by (simp add: bindM_eq inDb_eq)
  have rest: "moved_on (state_of w1) (state_of w') \<and> w_db w' = w_db w1
      \<and> (\<not> isl r \<longrightarrow> accounted (w_db w') (view (w_redis w')) (job_id job)) \<and> (\<forall>n. r = Inr n \<longrightarrow> n = ?n)"
    if "insertable pf sub (w_db w)" "w_db w1 = create_effect pf sub (w_db w)" "job = stored_row pf sub (w_db w)"
      "grid_ok (w_db w1) (view (w_redis w1))" "bindM (?replay job) (?publish job) w1 = (r, w')" for job w1 r w'
  proof -
    have "?replay job w1 = (Inr ?n, w1)"
      using that(2-4) by (intro replay) (simp_all add: grid_ok_def db_inv_def create_effect_jobs)
    with that(5) have "?publish job ?n w1 = (r, w')" by (simp only: bindM_Inr)
    then obtain r1 where p: "inRedis (q_publish_job q (submission_message job)) w1 = (r1, w')"
      "r = (case r1 of Inl e \<Rightarrow> Inl e | Inr _ \<Rightarrow> Inr ?n)"
      by (auto simp: thenM_eq split: prod.splits sum.splits)
    note moves = publish_moves [OF that(4) p(1)]
    have "accounted (w_db w') (view (w_redis w')) (job_id job)" if "\<not> isl r"
      using that p(2) moves(3) [OF _ message_of_job] by (cases r1) auto
    moreover have "\<forall>n. r = Inr n \<longrightarrow> n = ?n" using p(2) by (simp split: sum.splits)
    ultimately show ?thesis using moves(1,2) by blast
  qed
  show "enters pf sub (state_of w) (state_of w') (\<not> isl r)"
    by (rule create_then_enters [OF assms(2,3) run]) (use rest in blast)
  assume r: "r = Inr n"
  have schema: "schema_ok (w_db w)" using assms(2) by (simp add: grid_ok_def db_inv_def)
  have ins: "insertable pf sub (w_db w)"
    using create_job_rejected [OF schema assms(3)] run r by (fastforce simp: bindM_eq inDb_eq)
  have "grid_ok (create_effect pf sub (w_db w)) (view (w_redis w))"
    using moved_on_create [OF assms(2,3) ins] by (simp add: moved_on_def)
  with rest [of "w\<lparr>w_db := create_effect pf sub (w_db w)\<rparr>" "stored_row pf sub (w_db w)" r w'] ins r run
    create_job_fresh [OF schema assms(3) ins]
  show "n = ?n" by (simp add: bindM_eq inDb_eq)
qed

end

context job_queue
begin

lemma batch_enters:
  assumes step: "\<And>i w r w'. grid_ok (w_db w) (view (w_redis w)) \<Longrightarrow>
      sub_idempotency_key (sub i) \<notin> job_idempotency_key ` set (jobs (w_db w)) \<Longrightarrow> f i w = (r, w') \<Longrightarrow>
      enters pf (sub i) (state_of w) (state_of w') (\<not> isl r)"
    and "grid_ok (w_db w) (view (w_redis w))" "mapM f xs w = (r, w')" "distinct (map (\<lambda>i. sub_idempotency_key (sub i)) xs)"
    and "\<And>i. i \<in> set xs \<Longrightarrow> sub_idempotency_key (sub i) \<notin> job_idempotency_key ` set (jobs (w_db w))"
  shows "moved_on (state_of w) (state_of w') \<and> (\<exists>new. jobs (w_db w') = jobs (w_db w) @ new
    \<and> list_all2 (row_of pf) (take (length new) (map sub xs)) new
    \<and> (\<forall>r \<in> set (butlast new). accounted (w_db w') (view (w_redis w')) (job_id r))
    \<and> (\<not> isl r \<longrightarrow> length new = length xs \<and> (\<forall>r \<in> set new. accounted (w_db w') (view (w_redis w')) (job_id r))))"
  using assms(2-5)
proof (induction xs arbitrary: w r)
  case Nil
  then show ?case by (auto simp: moved_on_refl)
next
  case (Cons i xs)
  obtain r1 w1 where one: "f i w = (r1, w1)" by (cases "f i w")
  have fresh: "sub_idempotency_key (sub i) \<notin> job_idempotency_key ` set (jobs (w_db w))" using Cons.prems(4) by simp
  note en = step [OF Cons.prems(1) fresh one]
  then have moved: "moved_on (state_of w) (state_of w1)" by (simp add: enters_def)
  then have ok: "grid_ok (w_db w1) (view (w_redis w1))" by (simp add: moved_on_def)
  show ?case
  proof (cases r1)
    case (Inl e)
    then have w': "w' = w1" "isl r" using one Cons.prems(2) by (auto simp: bindM_eq)
    from en Inl consider "jobs (w_db w1) = jobs (w_db w)"
      | r0 where "row_of pf (sub i) r0" "jobs (w_db w1) = jobs (w_db w) @ [r0]" unfolding enters_def by auto
    then show ?thesis
    proof cases
      case 1
      then show ?thesis using moved w' by (intro conjI exI [of _ "[]"]) auto
    next
      case 2
      then show ?thesis using moved w' by (intro conjI exI [of _ "[r0]"]) auto
    qed
  next
    case (Inr y)
    with en obtain r0 where r0: "row_of pf (sub i) r0" "jobs (w_db w1) = jobs (w_db w) @ [r0]"
      "accounted (w_db w1) (view (w_redis w1)) (job_id r0)" unfolding enters_def by auto
    obtain r2 where rest: "mapM f xs w1 = (r2, w')" "isl r = isl r2"
      using one Inr Cons.prems(2) by (auto simp: bindM_eq split: prod.splits sum.splits)
    have "sub_idempotency_key (sub k) \<notin> job_idempotency_key ` set (jobs (w_db w1))" if "k \<in> set xs" for k
    proof -
      have "sub_idempotency_key (sub k) \<noteq> sub_idempotency_key (sub i)"
        using Cons.prems(3) that by (metis (no_types, lifting) distinct.simps(2) image_eqI list.simps(9) set_map)
      with Cons.prems(4) [of k] that show ?thesis by (simp add: r0(2) row_of_sel(3) [OF r0(1)])
    qed
    moreover have "distinct (map (\<lambda>i. sub_idempotency_key (sub i)) xs)" using Cons.prems(3) by simp
    ultimately obtain new where
      ih: "moved_on (state_of w1) (state_of w')" "jobs (w_db w') = jobs (w_db w1) @ new"
        "list_all2 (row_of pf) (take (length new) (map sub xs)) new"
        "\<forall>r \<in> set (butlast new). accounted (w_db w') (view (w_redis w')) (job_id r)"
        "\<not> isl r2 \<longrightarrow> length new = length xs \<and> (\<forall>r \<in> set new. accounted (w_db w') (view (w_redis w')) (job_id r))"
      using Cons.IH [OF ok rest(1)] by blast
    have acc: "accounted (w_db w') (view (w_redis w')) (job_id r0)" using r0(3) ih(1) by (simp add: moved_on_def)
    show ?thesis
    proof (intro conjI exI [of _ "r0 # new"])
      show "moved_on (state_of w) (state_of w')" by (rule moved_on_trans [OF moved ih(1)])
      show "jobs (w_db w') = jobs (w_db w) @ r0 # new" using r0(2) ih(2) by simp
      show "list_all2 (row_of pf) (take (length (r0 # new)) (map sub (i # xs))) (r0 # new)" using r0(1) ih(3) by simp
      show "\<forall>r \<in> set (butlast (r0 # new)). accounted (w_db w') (view (w_redis w')) (job_id r)" using acc ih(4) by simp
      show "\<not> isl r \<longrightarrow> length (r0 # new) = length (i # xs) \<and> (\<forall>r \<in> set (r0 # new). accounted (w_db w') (view (w_redis w')) (job_id r))"
        using acc ih(5) rest(2) by simp
    qed
  qed
qed

end


subsection \<open>Batches\<close>

lemma forM_mapM: "forM xs f = bindM (mapM f xs) (\<lambda>_. returnM ())"
proof (induction xs)
  case Nil
  show ?case by (rule ext) (simp add: bindM_eq)
next
  case (Cons x xs)
  show ?case
    by (rule ext) (simp add: Cons bindM_eq thenM_eq split: prod.split sum.split)
qed

lemma mapM_map: "mapM f (map g xs) = mapM (\<lambda>x. f (g x)) xs"
  by (induction xs) simp_all

lemma nat_digits_inject [simp]: "nat_digits i = nat_digits j \<longleftrightarrow> i = j"
proof -
  have "nat_digits n = py_str_int (int n)" for n by (simp add: py_str_int_def)
  then show ?thesis by simp
qed

lemma run_submission_sel [simp]:
  "sub_idempotency_key (run_submission run i n t p ts mr) = uuid_str run @ '':'' @ nat_digits n"
  "sub_run_id (run_submission run i n t p ts mr) = run" "sub_job_id (run_submission run i n t p ts mr) = i"
  by (simp_all add: run_submission_def)

lemma reliability_submission_sel [simp]:
  "sub_idempotency_key (reliability_submission run ids plan i) = uuid_str run @ '':'' @ nat_digits i"
  "sub_run_id (reliability_submission run ids plan i) = run" "sub_job_id (reliability_submission run ids plan i) = ids i"
  by (simp_all add: reliability_submission_def Let_def)

text \<open>A run is fresh when none of its idempotency keys is in use.\<close>

definition fresh_run :: "uuid \<Rightarrow> database \<Rightarrow> bool" where
  "fresh_run run db \<longleftrightarrow> (\<forall>r \<in> set (jobs db). \<not> Sublist.prefix (uuid_str run @ '':'') (job_idempotency_key r))"

lemma fresh_run_key: "fresh_run run db \<Longrightarrow> uuid_str run @ '':'' @ nat_digits i \<notin> job_idempotency_key ` set (jobs db)"
proof
  assume f: "fresh_run run db" and "uuid_str run @ '':'' @ nat_digits i \<in> job_idempotency_key ` set (jobs db)"
  then obtain r where r: "r \<in> set (jobs db)" "job_idempotency_key r = (uuid_str run @ '':'') @ nat_digits i" by auto
  have "Sublist.prefix (uuid_str run @ '':'') (job_idempotency_key r)" unfolding r(2) by (rule prefixI) (rule refl)
  with f r(1) show False by (simp add: fresh_run_def)
qed

text \<open>What a batch leaves: the rows of a prefix of the submissions, of all of them when it returns.\<close>

definition submitted_rows ::
    "platform \<Rightarrow> job_submission list \<Rightarrow> database \<times> queue_view \<Rightarrow> database \<times> queue_view \<Rightarrow> bool \<Rightarrow> bool" where
  "submitted_rows pf subs x y returned \<longleftrightarrow> moved_on x y \<and> (\<exists>new. jobs (fst y) = jobs (fst x) @ new
     \<and> list_all2 (row_of pf) (take (length new) subs) new
     \<and> (\<forall>r \<in> set (butlast new). accounted (fst y) (snd y) (job_id r))
     \<and> (returned \<longrightarrow> length new = length subs \<and> (\<forall>r \<in> set new. accounted (fst y) (snd y) (job_id r))))"

context job_queue
begin

lemma submit_all_rows:
  assumes "grid_ok (w_db w) (view (w_redis w))" "submit_all pf q (map sub xs) w = (r, w')"
    and "distinct (map (\<lambda>i. sub_idempotency_key (sub i)) xs)"
    and "\<And>i. i \<in> set xs \<Longrightarrow> sub_idempotency_key (sub i) \<notin> job_idempotency_key ` set (jobs (w_db w))"
  shows "submitted_rows pf (map sub xs) (state_of w) (state_of w') (\<not> isl r)"
proof -
  obtain r1 where run: "mapM (\<lambda>i. thenM (submit_job pf q (sub i)) (returnM ())) xs w = (r1, w')" "isl r = isl r1"
    using assms(2) by (auto simp: submit_all_def forM_mapM mapM_map bindM_eq split: prod.splits sum.splits)
  from batch_enters [where sub = sub, OF submit_job_enters assms(1) run(1) assms(3,4)]
  show ?thesis unfolding submitted_rows_def fst_conv snd_conv run(2) length_map .
qed

lemma submit_run_rows:
  assumes "grid_ok (w_db w) (view (w_redis w))" "fresh_run run (w_db w)"
    and "submit_all pf q (map (\<lambda>i. run_submission run (ids i) i t (p i) ts mr) [0..<n]) w = (r, w')"
  shows "submitted_rows pf (map (\<lambda>i. run_submission run (ids i) i t (p i) ts mr) [0..<n]) (state_of w) (state_of w') (\<not> isl r)"
  by (rule submit_all_rows [OF assms(1,3)]) (simp_all add: fresh_run_key [OF assms(2), simplified] distinct_map inj_on_def)

lemma submit_reliability_rows:
  assumes "grid_ok (w_db w) (view (w_redis w))" "fresh_run run (w_db w)"
    and "submit_reliability_batch pf q run ids n plan b w = (r, w')"
  shows "submitted_rows pf (map (reliability_submission run ids plan) [0..<nat n]) (state_of w) (state_of w') (\<not> isl r)"
proof -
  obtain r1 where run: "mapM (submit_reliability_job pf q run ids plan b) [0..<nat n] w = (r1, w')" "isl r = isl r1"
    using assms(3) by (auto simp: submit_reliability_batch_def bindM_eq split: prod.splits sum.splits)
  have d: "distinct (map (\<lambda>i. sub_idempotency_key (reliability_submission run ids plan i)) [0..<nat n])"
    by (simp add: distinct_map inj_on_def)
  have k: "sub_idempotency_key (reliability_submission run ids plan i) \<notin> job_idempotency_key ` set (jobs (w_db w))" for i
    using fresh_run_key [OF assms(2)] by simp
  from batch_enters [where sub = "reliability_submission run ids plan", OF submit_reliability_job_enters(1) assms(1) run(1) d k]
  show ?thesis unfolding submitted_rows_def fst_conv snd_conv run(2) length_map .
qed

end


subsection \<open>The property\<close>

text \<open>
  C18. A submission loses no job that it reports. Take a Redis with its documented behaviour, a registry
  that satisfies its invariant, and a fresh run identifier. Whatever call raises, the registry then holds
  what it held and the rows of a prefix of the batch, each exactly the row of its submission, and each but
  the last has its message in the queue. When \<open>submit_batch\<close> returns, it reports the run and the number that
  were asked for, all the jobs are stored, and all have their message. No job that was there loses its message.
\<close>

theorem submission_accounts:
  assumes "redis_streams_queue rc rview cfg"
    and "grid_ok (w_db w) (queue_view_of cfg (rview (w_redis w)))" "fresh_run run (w_db w)"
    and "submit_batch pf (redis_queue rc cfg) run ids n jtype timeout_seconds max_retries w = (r, w')"
  shows "\<exists>new. jobs (w_db w') = jobs (w_db w) @ new
    \<and> list_all2 (row_of pf) (take (length new)
        (map (\<lambda>i. run_submission run (ids i) i jtype (success_payload i) timeout_seconds max_retries) [0..<nat n])) new
    \<and> (\<forall>j \<in> set (butlast new). accounted (w_db w') (queue_view_of cfg (rview (w_redis w'))) (job_id j))
    \<and> (\<forall>res. r = Inr res \<longrightarrow> res = \<lparr>bs_run_id = run, bs_job_count = n\<rparr> \<and> length new = nat n
        \<and> (\<forall>j \<in> set new. accounted (w_db w') (queue_view_of cfg (rview (w_redis w'))) (job_id j)))
    \<and> (\<forall>j. accounted (w_db w) (queue_view_of cfg (rview (w_redis w))) j
        \<longrightarrow> accounted (w_db w') (queue_view_of cfg (rview (w_redis w'))) j)"
proof -
  let ?subs = "map (\<lambda>i. run_submission run (ids i) i jtype (success_payload i) timeout_seconds max_retries) [0..<nat n]"
  obtain r1 where run: "submit_all pf (redis_queue rc cfg) ?subs w = (r1, w')"
    and r: "r = (case r1 of Inl e \<Rightarrow> Inl e | Inr _ \<Rightarrow> Inr \<lparr>bs_run_id = run, bs_job_count = n\<rparr>)"
    using assms(4) by (auto simp: submit_batch_def thenM_eq split: prod.splits sum.splits)
  have res: "\<not> isl r1 \<and> res = \<lparr>bs_run_id = run, bs_job_count = n\<rparr>" if "r = Inr res" for res
    using that r by (cases r1) auto
  from job_queue.submit_run_rows [OF redis_job_queue [OF assms(1)] assms(2,3) run] obtain new where
    new: "jobs (w_db w') = jobs (w_db w) @ new" "list_all2 (row_of pf) (take (length new) ?subs) new"
      "\<forall>j \<in> set (butlast new). accounted (w_db w') (queue_view_of cfg (rview (w_redis w'))) (job_id j)"
      "\<not> isl r1 \<longrightarrow> length new = nat n \<and> (\<forall>j \<in> set new. accounted (w_db w') (queue_view_of cfg (rview (w_redis w'))) (job_id j))"
    and moved: "moved_on (w_db w, queue_view_of cfg (rview (w_redis w))) (w_db w', queue_view_of cfg (rview (w_redis w')))"
    unfolding submitted_rows_def fst_conv snd_conv by auto
  show ?thesis
    by (intro exI [of _ new] conjI new(1-3)) (use new(4) res moved in \<open>auto simp: moved_on_def\<close>)
qed

definition blank_world :: "(redis_view, unit) world" where
  "blank_world = \<lparr>w_db = empty_database 7, w_redis = empty_redis, w_registry = (\<lambda>_. None), w_env = ()\<rparr>"

lemma blank_world_ok:
  "grid_ok (w_db blank_world) (queue_view_of default_queue_config (w_redis blank_world))" "fresh_run run (w_db blank_world)"
  by (simp_all add: blank_world_def grid_ok_def fresh_run_def events_own_run_def stream_ok_def empty_redis_def db_inv_def schema_ok_def
      lifecycle_ok_def empty_database_def terminal_events_def terminal_finalizations_def queue_view_of_def default_queue_config_def)

lemma blank_submission:
  "\<exists>w'. submit_batch example_platform (redis_queue mem_redis default_queue_config) 5 (\<lambda>_. 7) 1 ''stub'' 30 1 blank_world
     = (Inr \<lparr>bs_run_id = 5, bs_job_count = 1\<rparr>, w')"
proof -
  let ?sub = "run_submission 5 7 0 ''stub'' (success_payload 0) 30 1"
  have len: "length (uuid_str u) \<le> 36" for u
    using uuid_hex_props(1) [of u] by (simp add: uuid_str_def Let_def)
  have ins: "insertable example_platform ?sub (empty_database 7)"
    using len [of 5]
    by (simp add: insertable_def job_columns_ok_def submission_row_def run_submission_def int4_def empty_database_def
        nat_digits.simps submission_payload_hash_def payload_sha256_def example_platform_def)
  have "sub_idempotency_key ?sub \<notin> job_idempotency_key ` set (jobs (empty_database 7))" by (simp add: empty_database_def)
  note created = create_job_fresh [OF _ this ins]
  have schema: "schema_ok (empty_database 7)"
    using blank_world_ok(1) by (simp add: grid_ok_def db_inv_def blank_world_def)
  show ?thesis
    using created [OF schema]
    by (simp add: submit_batch_def submit_all_def submit_job_def blank_world_def thenM_eq bindM_eq inDb_eq inRedis_eq
        redis_queue_def mem_simps Let_def)
qed

lemma submission_accounts_witness:
  "\<exists>w' j. submit_batch example_platform (redis_queue mem_redis default_queue_config) 5 (\<lambda>_. 7) 1 ''stub'' 30 1 blank_world
      = (Inr \<lparr>bs_run_id = 5, bs_job_count = 1\<rparr>, w')
    \<and> jobs (w_db w') = [j] \<and> accounted (w_db w') (queue_view_of default_queue_config (w_redis w')) (job_id j)"
proof -
  obtain w' where run: "submit_batch example_platform (redis_queue mem_redis default_queue_config) 5 (\<lambda>_. 7) 1 ''stub'' 30 1 blank_world
     = (Inr \<lparr>bs_run_id = 5, bs_job_count = 1\<rparr>, w')" using blank_submission by blast
  from submission_accounts [OF mem_redis_streams_queue _ _ run] blank_world_ok
  obtain new where "jobs (w_db w') = new" "length new = 1"
    "\<forall>j \<in> set new. accounted (w_db w') (queue_view_of default_queue_config (w_redis w')) (job_id j)"
    by (auto simp: blank_world_def empty_database_def)
  with run show ?thesis by (auto simp: length_Suc_conv)
qed

end
