(* ===== verification/Ledger.thy ===== *)
theory Ledger
  imports Submission
begin

section \<open>The registry as a ledger of outcomes\<close>

text \<open>
  What the registry promises to the rest of the system, on two levels. The types of its text columns: the
  statuses and event types that the code can ever store. And its abstract specification: a ledger that
  maps a job to its outcome, which is written once, and counts the reports that came too late. Everything
  the lifecycle operations, the worker, the recovery and the submitters do to the four tables is a
  sequence of steps of that ledger.
\<close>

subsection \<open>The values of the text columns\<close>

definition JOB_STATUSES :: "pystr set" where
  "JOB_STATUSES = {''submitted'', ''queued'', ''running''} \<union> TERMINAL_STATUSES"

definition EVENT_TYPES :: "pystr set" where
  "EVENT_TYPES = {''submitted'', ''running'', ''retry_scheduled'', ''stale_lease_recovered'', ''budget_blocked''} \<union> TERMINAL_STATUSES"

definition registry_typed :: "database \<Rightarrow> bool" where
  "registry_typed db \<longleftrightarrow> (\<forall>j \<in> set (jobs db). job_status j \<in> JOB_STATUSES)
     \<and> (\<forall>e \<in> set (job_events db). ev_type e \<in> EVENT_TYPES)
     \<and> (\<forall>f \<in> set (job_finalizations db). fin_status f \<in> TERMINAL_STATUSES
          \<and> (fin_event_type f = fin_status f \<or> (fin_status f = ''failed'' \<and> fin_event_type f = ''budget_blocked'')))"

lemma typed_set_status: "registry_typed db \<Longrightarrow> s \<in> JOB_STATUSES \<Longrightarrow> registry_typed (set_status i s db)"
  by (auto simp: registry_typed_def set_status_def)

lemma typed_add_event: "registry_typed db \<Longrightarrow> t \<in> EVENT_TYPES \<Longrightarrow> registry_typed (add_event job t d db)"
  by (auto simp: registry_typed_def add_event_def)

lemma typed_state_event:
  assumes "s \<in> JOB_STATUSES" "t \<in> EVENT_TYPES"
  shows "keeps registry_typed (record_state_event job s t d)"
proof -
  have "keeps registry_typed (update_job_status i s)" for i
    by (rule keepsI) (simp add: update_job_status_def set_status_def [symmetric] typed_set_status assms(1))
  moreover have "keeps registry_typed (insert_event i r t d tr)" for i r tr
    by (rule keepsI) (auto simp: insert_event_def registry_typed_def assms(2))
  ultimately show ?thesis unfolding record_state_event_def by (intro keeps_then)
qed

lemma typed_finalize:
  assumes "s \<in> TERMINAL_STATUSES \<Longrightarrow> t = s \<or> (s = ''failed'' \<and> t = ''budget_blocked'')"
  shows "keeps registry_typed (finalize_job job s t d)"
proof (rule keepsI)
  fix db assume I: "registry_typed db"
  show "registry_typed (snd (finalize_job job s t d db))"
  proof (cases rule: finalize_job_cases [of job s t d db])
    case effect
    have f: "registry_typed (add_finalization job s t db)"
      using I effect(1) assms by (auto simp: registry_typed_def)
    have "s \<in> JOB_STATUSES" "t \<in> EVENT_TYPES"
      using effect(1) assms by (auto simp: JOB_STATUSES_def EVENT_TYPES_def)
    with f I show ?thesis
      by (simp add: effect(4) finalize_effect_def typed_set_status typed_add_event) (simp add: registry_typed_def)
  qed (use I in simp)
qed

lemma typed_records:
  "keeps registry_typed (record_running job w a)" "keeps registry_typed (record_retry_scheduled job w a n c)"
  "keeps registry_typed (record_stale_lease_recovered job w sc se si dc a n)"
  "keeps registry_typed (record_completed job w a r)" "keeps registry_typed (record_failed job w a c rt)"
  "keeps registry_typed (record_timed_out job w a)" "keeps registry_typed (record_cancelled job w a cw)"
  "keeps registry_typed (record_budget_blocked job w a rs x y)"
  unfolding record_defs
  by (rule typed_state_event typed_finalize, simp_all add: JOB_STATUSES_def EVENT_TYPES_def)+

lemma typed_create: "keeps registry_typed (create_job pf sub)"
proof -
  have "keeps registry_typed (insert_job (submission_row pf sub))"
    by (rule keepsI) (auto simp: insert_job_def Let_def registry_typed_def submission_row_def JOB_STATUSES_def)
  moreover have "keeps registry_typed (insert_event i r ''submitted'' d t)" for i r d t
    by (rule keepsI) (auto simp: insert_event_def registry_typed_def EVENT_TYPES_def)
  moreover have "keeps registry_typed (get_by_idempotency_key k)" for k
    by (rule keepsI) (simp add: get_by_idempotency_key_def select_jobs_def bindM_eq one_or_none_state)
  ultimately show ?thesis
    unfolding create_job_def
    by (intro keeps_transaction keeps_bind keeps_option keeps_if keeps_then keeps_raise keeps_return) auto
qed

interpretation typed: lifecycle_invariant registry_typed
  by unfold_locales (rule typed_create typed_records)+

subsection \<open>The ledger\<close>

record ledger =
  lg_outcome :: "uuid \<rightharpoonup> pystr"
  lg_rejected :: nat

definition ledger_report :: "uuid \<Rightarrow> pystr \<Rightarrow> ledger \<Rightarrow> bool \<times> ledger" where
  "ledger_report j s l = (case lg_outcome l j of
      None \<Rightarrow> (True, l\<lparr>lg_outcome := (lg_outcome l)(j \<mapsto> s)\<rparr>)
    | Some _ \<Rightarrow> (False, l\<lparr>lg_rejected := Suc (lg_rejected l)\<rparr>))"

inductive ledger_step :: "ledger \<Rightarrow> ledger \<Rightarrow> bool" where
  accept: "lg_outcome l j = None \<Longrightarrow> s \<in> TERMINAL_STATUSES \<Longrightarrow> ledger_step l (l\<lparr>lg_outcome := (lg_outcome l)(j \<mapsto> s)\<rparr>)"
| reject: "lg_outcome l j \<noteq> None \<Longrightarrow> ledger_step l (l\<lparr>lg_rejected := Suc (lg_rejected l)\<rparr>)"

inductive_cases ledger_stepE: "ledger_step l l'"

text \<open>An outcome is written once, and late reports are only ever counted.\<close>

lemma ledger_keeps_outcomes: "ledger_step\<^sup>*\<^sup>* l l' \<Longrightarrow> lg_outcome l \<subseteq>\<^sub>m lg_outcome l' \<and> lg_rejected l \<le> lg_rejected l'"
proof (induction rule: rtranclp_induct)
  case base
  show ?case by simp
next
  case (step l1 l2)
  have "lg_outcome l1 \<subseteq>\<^sub>m lg_outcome l2 \<and> lg_rejected l1 \<le> lg_rejected l2"
    using step(2) by cases (auto simp: map_le_def)
  with step(3) show ?case by (auto intro: map_le_trans)
qed

definition ledger_of :: "database \<Rightarrow> ledger" where
  "ledger_of db = \<lparr>lg_outcome = map_of (map (\<lambda>f. (fin_job_id f, fin_status f)) (job_finalizations db)),
     lg_rejected = length (conflict_attempts db)\<rparr>"

lemma outcome_dom: "lg_outcome (ledger_of db) j = None \<longleftrightarrow> j \<notin> finalized_ids db"
  by (auto simp: ledger_of_def finalized_ids_def map_of_eq_None_iff image_image)

lemma ledger_of_same:
  "job_finalizations db' = job_finalizations db \<Longrightarrow> conflict_attempts db' = conflict_attempts db \<Longrightarrow> ledger_of db' = ledger_of db"
  by (simp add: ledger_of_def)

lemma ledger_finalize_effect:
  "ledger_of (finalize_effect job s t d db) = snd (ledger_report (job_id job) s (ledger_of db))"
proof (cases "job_id job \<in> finalized_ids db")
  case True
  then have "lg_outcome (ledger_of db) (job_id job) \<noteq> None" by (simp add: outcome_dom)
  with True show ?thesis by (auto simp: finalize_effect_def ledger_report_def ledger_of_def)
next
  case False
  then have none: "lg_outcome (ledger_of db) (job_id job) = None" by (simp add: outcome_dom)
  then have "map_of (map (\<lambda>f. (fin_job_id f, fin_status f)) (job_finalizations db)) (job_id job) = None" by (simp add: ledger_of_def)
  from map_of_snoc [OF this, of s] False none show ?thesis
    by (simp add: finalize_effect_def ledger_report_def ledger_of_def)
qed

lemma ledger_report_step: "s \<in> TERMINAL_STATUSES \<Longrightarrow> ledger_step l (snd (ledger_report j s l))"
  by (auto simp: ledger_report_def split: option.split intro: ledger_step.intros)

definition in_ledger :: "ledger \<Rightarrow> database \<Rightarrow> bool" where
  "in_ledger l db \<longleftrightarrow> ledger_step\<^sup>*\<^sup>* l (ledger_of db)"

lemma in_ledger_same: "in_ledger l db \<Longrightarrow> ledger_of db' = ledger_of db \<Longrightarrow> in_ledger l db'"
  by (simp add: in_ledger_def)

lemma in_ledger_finalize: "keeps (in_ledger l) (finalize_job job s t d)"
proof (rule keepsI)
  fix db assume I: "in_ledger l db"
  show "in_ledger l (snd (finalize_job job s t d db))"
  proof (cases rule: finalize_job_cases [of job s t d db])
    case effect
    from ledger_report_step [OF effect(1), of "ledger_of db" "job_id job"]
    have "ledger_step (ledger_of db) (ledger_of (finalize_effect job s t d db))" by (simp add: ledger_finalize_effect)
    with I effect(4) show ?thesis by (simp add: in_ledger_def)
  qed (use I in simp)
qed

lemma in_ledger_statements:
  "keeps (in_ledger l) (insert_event i r t d tr)" "keeps (in_ledger l) (update_job_status i s)"
  "keeps (in_ledger l) (insert_job row)" "keeps (in_ledger l) (get_by_idempotency_key k)"
  by (rule keepsI, erule in_ledger_same, rule ledger_of_same;
      simp add: insert_event_def update_job_status_def insert_job_def Let_def get_by_idempotency_key_def select_jobs_def
        bindM_eq one_or_none_state)+

lemma in_ledger_state_event: "keeps (in_ledger l) (record_state_event job s t d)"
  unfolding record_state_event_def by (intro keeps_then in_ledger_statements)

interpretation outcomes: lifecycle_invariant "in_ledger l" for l
proof unfold_locales
  show "keeps (in_ledger l) (create_job pf sub)" for pf sub
    unfolding create_job_def
    by (intro keeps_transaction keeps_bind keeps_option keeps_if keeps_then keeps_raise keeps_return in_ledger_statements)
qed (simp_all add: record_defs in_ledger_finalize in_ledger_state_event keeps_then keeps_return)


subsection \<open>The submitters\<close>

context lifecycle_invariant
begin

lemma keeps_submit_all: "keeps (\<lambda>w. I (w_db w)) (submit_all pf q subs)"
  unfolding submit_all_def submit_job_def by (intro keep_intros create)

lemma keeps_submit_batch: "keeps (\<lambda>w. I (w_db w)) (submit_batch pf q run ids n t ts mr)"
  unfolding submit_batch_def by (intro keep_intros keeps_submit_all)

lemma keeps_submit_smoke: "keeps (\<lambda>w. I (w_db w)) (submit_smoke_batch pf q run ids n)"
  unfolding submit_smoke_batch_def by (intro keep_intros keeps_submit_all)

lemma keeps_submit_reliability: "keeps (\<lambda>w. I (w_db w)) (submit_reliability_batch pf q run ids n plan b)"
  unfolding submit_reliability_batch_def submit_reliability_job_def Let_def by (intro keep_intros create)

end

subsection \<open>Properties\<close>

text \<open>
  The text columns are typed. Whoever changes the registry (a submitter, the worker, the stale lease
  recovery, a cancellation), on whatever messages and wherever a call raises, every stored status is one of
  submitted, queued, running and the four terminal statuses, every event has one of the nine known types, and
  every finalization has a terminal status and the event type that belongs to it. In particular no job ever
  has the status \<open>dlq\<close> that the status commands count.
\<close>

theorem registry_columns_typed:
  "keeps registry_typed (create_job pf sub) \<and> keeps registry_typed (cancel_queued_job job worker)
   \<and> keeps (\<lambda>w. registry_typed (w_db w)) (submit_batch pf q run ids n jtype timeout_seconds max_retries)
   \<and> keeps (\<lambda>w. registry_typed (w_db w)) (submit_reliability_batch pf q run ids n plan repeat_submissions)
   \<and> keeps (\<lambda>w. registry_typed (w_db w)) (process_one wk)
   \<and> keeps (\<lambda>w. registry_typed (w_db w)) (recover_stale_leases q rid stale_after_ms batch)"
  by (intro conjI typed.create typed.cancel_queued typed.keeps_submit_batch typed.keeps_submit_reliability
      typed.keeps_process_one typed.keeps_recover_stale_leases)

text \<open>
  C15. The registry refines the ledger of outcomes. \<open>finalize_job\<close> is the ledger's report operation: what it
  answers and what it leaves is exactly what the ledger answers and leaves, and when it raises, the ledger is
  as it was. And whatever a submitter, a worker or a recovery does, the ledger makes some steps of its own:
  an outcome is written once for a job, and a report that comes later is only counted.
\<close>

theorem registry_refines_ledger:
  "(case finalize_job job s t d db of
      (Inr res, db') \<Rightarrow> ledger_report (job_id job) s (ledger_of db) = (fr_finalized res, ledger_of db')
    | (Inl e, db') \<Rightarrow> ledger_of db' = ledger_of db)
   \<and> keeps (in_ledger l) (create_job pf sub) \<and> keeps (in_ledger l) (cancel_queued_job job worker)
   \<and> keeps (\<lambda>w. in_ledger l (w_db w)) (submit_batch pf q run ids n jtype timeout_seconds max_retries)
   \<and> keeps (\<lambda>w. in_ledger l (w_db w)) (process_one wk)
   \<and> keeps (\<lambda>w. in_ledger l (w_db w)) (recover_stale_leases q rid stale_after_ms batch)"
proof (intro conjI outcomes.create outcomes.cancel_queued outcomes.keeps_submit_batch
      outcomes.keeps_process_one outcomes.keeps_recover_stale_leases)
  show "case finalize_job job s t d db of
      (Inr res, db') \<Rightarrow> ledger_report (job_id job) s (ledger_of db) = (fr_finalized res, ledger_of db')
    | (Inl e, db') \<Rightarrow> ledger_of db' = ledger_of db"
  proof (cases rule: finalize_job_cases [of job s t d db])
    case effect
    have "fst (ledger_report (job_id job) s (ledger_of db)) = (job_id job \<notin> finalized_ids db)"
      by (simp add: ledger_report_def outcome_dom [symmetric] split: option.split)
    then show ?thesis by (simp add: effect(4) ledger_finalize_effect prod_eq_iff)
  qed simp
qed

end
