(* ===== verification/Files.thy ===== *)
theory Files
  imports Program
begin

section \<open>Paths and files\<close>

text \<open>
  \<open>pathlib.Path\<close> and the file operations of the program. A path is its root (empty for a relative
  path) and its parts. The file system is a table of the paths, as they are written, with directories, files
  and symbolic links; a link is followed where the operating system follows it, at most 40 times in a row.
  Permissions, full disks and links among the directories of a path are not modelled.
\<close>

subsection \<open>Paths\<close>

fun split_on :: "char \<Rightarrow> pystr \<Rightarrow> pystr list" where
  "split_on d [] = [[]]"
| "split_on d (c # cs) = (if c = d then [] # split_on d cs
     else (case split_on d cs of [] \<Rightarrow> [[c]] | p # ps \<Rightarrow> (c # p) # ps))"

datatype path = Path (p_root: pystr) (p_parts: "pystr list")

definition path_parts :: "pystr \<Rightarrow> pystr list" where
  "path_parts s = filter (\<lambda>x. x \<noteq> [] \<and> x \<noteq> ''.'') (split_on CHR ''/'' s)"

definition path_of :: "pystr \<Rightarrow> path" where
  "path_of s = Path (if starts_with s ''//'' \<and> \<not> starts_with s ''///'' then ''//''
     else if starts_with s ''/'' then ''/'' else []) (path_parts s)"

definition path_str :: "path \<Rightarrow> pystr" where
  "path_str p = (if p_root p = [] \<and> p_parts p = [] then ''.'' else p_root p @ join ''/'' (p_parts p))"

definition path_name :: "path \<Rightarrow> pystr" where
  "path_name p = (if p_parts p = [] then [] else last (p_parts p))"

definition path_parent :: "path \<Rightarrow> path" where
  "path_parent p = Path (p_root p) (butlast (p_parts p))"

text \<open>\<open>p / s\<close>\<close>

definition path_join :: "path \<Rightarrow> pystr \<Rightarrow> path" where
  "path_join p s = (let q = path_of s in if p_root q \<noteq> [] then q else Path (p_root p) (p_parts p @ p_parts q))"

definition is_absolute :: "path \<Rightarrow> bool" where
  "is_absolute p = (p_root p \<noteq> [])"

text \<open>\<open>suffix\<close> and \<open>stem\<close>: the last dot counts when it is neither the first nor the last character.\<close>

definition last_dot :: "pystr \<Rightarrow> nat option" where
  "last_dot s = (let i = length s - 1 - length (takeWhile (\<lambda>c. c \<noteq> CHR ''.'') (rev s)) in
     if CHR ''.'' \<in> set s \<and> 0 < i \<and> i < length s - 1 then Some i else None)"

definition path_suffix :: "path \<Rightarrow> pystr" where
  "path_suffix p = (case last_dot (path_name p) of None \<Rightarrow> [] | Some i \<Rightarrow> drop i (path_name p))"

definition path_stem :: "path \<Rightarrow> pystr" where
  "path_stem p = (case last_dot (path_name p) of None \<Rightarrow> path_name p | Some i \<Rightarrow> take i (path_name p))"

definition with_name :: "path \<Rightarrow> pystr \<Rightarrow> path" where
  "with_name p n = Path (p_root p) (butlast (p_parts p) @ [n])"

definition with_suffix :: "path \<Rightarrow> pystr \<Rightarrow> path" where
  "with_suffix p s = with_name p (path_stem p @ s)"

definition ends_with :: "pystr \<Rightarrow> pystr \<Rightarrow> bool" where
  "ends_with s e = starts_with (rev s) (rev e)"

subsection \<open>The file system\<close>

datatype node = Dir | File bytes | Symlink path

type_synonym files = "(path \<times> node) list"

text \<open>What the operating system finds at a path: the path itself, or the end of a chain of links.\<close>

fun follow :: "nat \<Rightarrow> files \<Rightarrow> path \<Rightarrow> path option" where
  "follow n fs p = (case map_of fs p of
     Some (Symlink q) \<Rightarrow> (case n of 0 \<Rightarrow> None | Suc m \<Rightarrow> follow m fs q)
   | _ \<Rightarrow> Some p)"

declare follow.simps [simp del]

definition node_at :: "files \<Rightarrow> path \<Rightarrow> node option" where
  "node_at fs p = (if p_parts p = [] then Some Dir
     else case follow 40 fs p of None \<Rightarrow> None | Some q \<Rightarrow> map_of fs q)"

definition is_file :: "files \<Rightarrow> path \<Rightarrow> bool" where
  "is_file fs p = (case node_at fs p of Some (File _) \<Rightarrow> True | _ \<Rightarrow> False)"

definition is_dir :: "files \<Rightarrow> path \<Rightarrow> bool" where
  "is_dir fs p = (node_at fs p = Some Dir)"

definition path_exists :: "files \<Rightarrow> path \<Rightarrow> bool" where
  "path_exists fs p = (node_at fs p \<noteq> None)"

definition is_symlink :: "files \<Rightarrow> path \<Rightarrow> bool" where
  "is_symlink fs p = (case map_of fs p of Some (Symlink _) \<Rightarrow> True | _ \<Rightarrow> False)"

text \<open>\<open>OSError\<close> and the subclasses of it that the program meets\<close>

fun is_os_error :: "exc \<Rightarrow> bool" where
  "is_os_error (OSError _) = True"
| "is_os_error (FileNotFoundError _) = True"
| "is_os_error BuiltinTimeoutError = True"
| "is_os_error _ = False"

definition read_bytes :: "path \<Rightarrow> (files, bytes) prog" where
  "read_bytes p = (\<lambda>fs. (case node_at fs p of
       Some (File b) \<Rightarrow> Inr b
     | Some Dir \<Rightarrow> Inl (OSError ''IsADirectoryError'')
     | _ \<Rightarrow> Inl (FileNotFoundError (path_str p)), fs))"

text \<open>\<open>read_text\<close>: UTF-8, with every line end read as a newline\<close>

fun universal_newlines :: "pystr \<Rightarrow> pystr" where
  "universal_newlines [] = []"
| "universal_newlines [c] = [if c = CHR 0x0D then CHR 0x0A else c]"
| "universal_newlines (c # d # cs) =
     (if c = CHR 0x0D then CHR 0x0A # universal_newlines (if d = CHR 0x0A then cs else d # cs)
      else c # universal_newlines (d # cs))"

definition read_text :: "path \<Rightarrow> (files, pystr) prog" where
  "read_text p = bindM (read_bytes p) (\<lambda>b. case utf8_decode b of
       None \<Rightarrow> raiseM UnicodeDecodeError | Some s \<Rightarrow> returnM (universal_newlines s))"

definition write_bytes :: "path \<Rightarrow> bytes \<Rightarrow> (files, unit) prog" where
  "write_bytes p b = (\<lambda>fs.
     if \<not> is_dir fs (path_parent p) then (Inl (FileNotFoundError (path_str p)), fs)
     else if is_dir fs p then (Inl (OSError ''IsADirectoryError''), fs)
     else case follow 40 fs p of
        None \<Rightarrow> (Inl (OSError ''Too many levels of symbolic links''), fs)
      | Some q \<Rightarrow> (Inr (), AList.update q (File b) fs))"

definition write_text :: "path \<Rightarrow> pystr \<Rightarrow> (files, unit) prog" where
  "write_text p s = write_bytes p (utf8_encode s)"

text \<open>\<open>p.mkdir(parents=True, exist_ok=True)\<close>: every missing directory on the way is made.\<close>

definition ancestors :: "path \<Rightarrow> path list" where
  "ancestors p = map (\<lambda>n. Path (p_root p) (take n (p_parts p))) [1..<Suc (length (p_parts p))]"

definition mkdir_parents :: "path \<Rightarrow> (files, unit) prog" where
  "mkdir_parents p = forM (ancestors p) (\<lambda>q fs.
     if is_dir fs q then (Inr (), fs)
     else if map_of fs q = None then (Inr (), AList.update q Dir fs)
     else (Inl (OSError ''FileExistsError''), fs))"

text \<open>
  \<open>os.replace(temporary, p)\<close> after the temporary file was written in the same directory: the name \<open>p\<close>
  gets the new content in one step, a link at \<open>p\<close> is replaced and not followed.
\<close>

definition replace_file :: "path \<Rightarrow> bytes \<Rightarrow> (files, unit) prog" where
  "replace_file p b = (\<lambda>fs.
     if \<not> is_dir fs (path_parent p) then (Inl (FileNotFoundError (path_str p)), fs)
     else if map_of fs p = Some Dir \<or> p_parts p = [] then (Inl (OSError ''IsADirectoryError''), fs)
     else (Inr (), AList.update p (File b) fs))"

text \<open>\<open>p.iterdir()\<close>, as the names of the entries\<close>

definition entry_names :: "files \<Rightarrow> path \<Rightarrow> pystr list" where
  "entry_names fs p = remdups (map path_name (filter (\<lambda>q. p_parts q \<noteq> [] \<and> path_parent q = p) (map fst fs)))"

definition iterdir :: "path \<Rightarrow> (files, pystr list) prog" where
  "iterdir p = (\<lambda>fs. if is_dir fs p then (Inr (entry_names fs p), fs)
     else if path_exists fs p then (Inl (OSError ''NotADirectoryError''), fs)
     else (Inl (FileNotFoundError (path_str p)), fs))"

text \<open>\<open>p.unlink()\<close> and \<open>shutil.rmtree(p)\<close>: a link is removed and not followed, and refused by \<open>rmtree\<close>.\<close>

definition inside :: "path \<Rightarrow> path \<Rightarrow> bool" where
  "inside p q = (p_root q = p_root p \<and> take (length (p_parts p)) (p_parts q) = p_parts p)"

definition unlink :: "path \<Rightarrow> (files, unit) prog" where
  "unlink p = (\<lambda>fs. case map_of fs p of
       None \<Rightarrow> (Inl (FileNotFoundError (path_str p)), fs)
     | Some Dir \<Rightarrow> (Inl (OSError ''IsADirectoryError''), fs)
     | Some _ \<Rightarrow> (Inr (), filter (\<lambda>(q, _). q \<noteq> p) fs))"

definition rmtree :: "path \<Rightarrow> (files, unit) prog" where
  "rmtree p = (\<lambda>fs. case map_of fs p of
       Some Dir \<Rightarrow> (Inr (), filter (\<lambda>(q, _). \<not> inside p q) fs)
     | Some (Symlink _) \<Rightarrow> (Inl (OSError ''Cannot call rmtree on a symbolic link''), fs)
     | Some (File _) \<Rightarrow> (Inl (OSError ''NotADirectoryError''), fs)
     | None \<Rightarrow> (Inl (FileNotFoundError (path_str p)), fs))"

text \<open>\<open>text.splitlines()\<close>\<close>

definition is_line_end :: "char \<Rightarrow> bool" where
  "is_line_end c = (let n = of_char c :: nat in (10 \<le> n \<and> n \<le> 13) \<or> (28 \<le> n \<and> n \<le> 30) \<or> n = 133)"

function splitlines :: "pystr \<Rightarrow> pystr list" where
  "splitlines s = (if s = [] then []
     else let line = takeWhile (\<lambda>c. \<not> is_line_end c) s; rest = dropWhile (\<lambda>c. \<not> is_line_end c) s in
       line # (case rest of [] \<Rightarrow> []
               | c # cs \<Rightarrow> splitlines (if c = CHR 0x0D \<and> starts_with cs [CHR 0x0A] then tl cs else cs)))"
  by pat_completeness auto
termination splitlines
proof (relation "measure length", goal_cases)
  case (2 s line rest c cs)
  then have "length (c # cs) \<le> length s" using length_dropWhile_le [of "\<lambda>c. \<not> is_line_end c" s] by simp
  then show ?case by (auto simp: le_diff_conv)
qed simp

declare splitlines.simps [simp del]

subsection \<open>Paths and their text\<close>

lemma split_on_absent: "d \<notin> set s \<Longrightarrow> split_on d s = [s]"
  by (induction s) auto

text \<open>The paths that a text can name\<close>

definition wf_path :: "path \<Rightarrow> bool" where
  "wf_path p \<longleftrightarrow> p_root p \<in> {[], ''/'', ''//''} \<and> (\<forall>s \<in> set (p_parts p). s \<noteq> [] \<and> s \<noteq> ''.'' \<and> CHR ''/'' \<notin> set s)"

lemma split_on_join: "\<forall>s \<in> set ps. d \<notin> set s \<Longrightarrow> ps \<noteq> [] \<Longrightarrow> split_on d (join [d] ps) = ps"
proof (induction "[d]" ps rule: join.induct)
  case (3 x y ys)
  have app: "d \<notin> set u \<Longrightarrow> split_on d (u @ d # w) = u # split_on d w" for u w
    by (induction u) auto
  from 3 show ?case by (simp add: app)
qed (auto simp: split_on_absent)

lemma join_head: "ps \<noteq> [] \<Longrightarrow> hd ps \<noteq> [] \<Longrightarrow> join s ps \<noteq> [] \<and> hd (join s ps) = hd (hd ps)"
  by (cases "(s, ps)" rule: join.cases) auto

lemma starts_with_Cons: "starts_with s (c # p) \<longleftrightarrow> s \<noteq> [] \<and> hd s = c \<and> starts_with (tl s) p"
  by (cases s) auto

lemma path_of_str:
  assumes "wf_path p"
  shows "path_of (path_str p) = p"
proof (cases "p_parts p = []")
  case True
  with assms show ?thesis by (cases p) (auto simp: wf_path_def path_str_def path_of_def path_parts_def)
next
  case False
  let ?j = "join ''/'' (p_parts p)"
  have parts: "filter (\<lambda>x. x \<noteq> [] \<and> x \<noteq> ''.'') (split_on CHR ''/'' ?j) = p_parts p"
    using assms False by (simp add: wf_path_def split_on_join filter_id_conv)
  have "hd (p_parts p) \<in> set (p_parts p)" using False by simp
  with assms have h: "hd (p_parts p) \<noteq> []" "CHR ''/'' \<notin> set (hd (p_parts p))" by (auto simp: wf_path_def)
  then have j: "?j \<noteq> []" "hd ?j \<noteq> CHR ''/''" using join_head [OF False, of "''/''"] by (auto, metis hd_in_set)
  from assms have "p_root p = [] \<or> p_root p = ''/'' \<or> p_root p = ''//''" by (auto simp: wf_path_def)
  with j parts False show ?thesis
    by (cases p) (auto simp: path_str_def path_of_def path_parts_def starts_with_Cons)
qed

lemma split_on_parts: "s \<in> set (split_on d u) \<Longrightarrow> d \<notin> set s"
  by (induction u arbitrary: s) (auto split: list.splits if_splits)

lemma wf_path_of [simp]: "wf_path (path_of u)"
  by (auto simp: wf_path_def path_of_def path_parts_def dest: split_on_parts)

lemma wf_path_join [simp]: "wf_path p \<Longrightarrow> wf_path (path_join p s)"
  using wf_path_of [of s] by (auto simp: path_join_def wf_path_def Let_def)

subsection \<open>Reading what was written\<close>

lemma follow_not_link: "map_of fs p = None \<or> map_of fs p = Some Dir \<or> (\<exists>b. map_of fs p = Some (File b)) \<Longrightarrow> follow n fs p = Some p"
  by (auto simp: follow.simps)

lemma follow_end: "follow n fs p = Some q \<Longrightarrow> (\<forall>r. map_of fs q \<noteq> Some (Symlink r))"
  by (induction n arbitrary: p) (auto simp: follow.simps split: option.splits node.splits if_splits)

lemma follow_update:
  assumes "follow n fs p = Some q" "\<forall>r. map_of fs q' \<noteq> Some (Symlink r)" "\<forall>r. x \<noteq> Symlink r"
  shows "follow n (AList.update q' x fs) p = Some q"
  using assms(1)
proof (induction n arbitrary: p)
  case 0
  then show ?case using assms(2,3) by (auto simp: follow.simps update_conv split: option.splits node.splits if_splits)
next
  case (Suc n)
  show ?case
  proof (cases "\<exists>r. map_of fs p = Some (Symlink r)")
    case True
    then obtain r where r: "map_of fs p = Some (Symlink r)" ..
    with Suc.prems have "follow n fs r = Some q" by (simp add: follow.simps [of "Suc n"])
    with Suc.IH [of r] r assms(2) show ?thesis by (auto simp: follow.simps [of "Suc n"] update_conv)
  next
    case False
    with Suc.prems have "p = q" by (auto simp: follow.simps [of "Suc n"] split: option.splits node.splits)
    with False assms(3) show ?thesis
      by (cases "p = q'") (auto simp: follow.simps [of "Suc n"] update_conv split: option.splits node.splits)
  qed
qed

lemma node_at_update:
  assumes "follow 40 fs p = Some q" "q' \<noteq> q" "\<forall>r. map_of fs q' \<noteq> Some (Symlink r)" "\<forall>r. x \<noteq> Symlink r"
  shows "node_at (AList.update q' x fs) p = node_at fs p"
  using follow_update [OF assms(1,3,4)] assms by (auto simp: node_at_def update_conv)

lemma node_at_mkdir:
  assumes "mkdir_parents d fs = (r, fs')" "node_at fs p = Some x" "x \<noteq> Dir"
  shows "node_at fs' p = Some x \<and> follow 40 fs' p = follow 40 fs p"
proof -
  define step where "step = (\<lambda>q fs. if is_dir fs q then (Inr (), fs)
     else if map_of fs q = None then (Inr (), AList.update q Dir fs)
     else (Inl (OSError ''FileExistsError'') :: exc + unit, fs))"
  have "forM qs step fs = (r, fs') \<Longrightarrow> node_at fs p = Some x \<Longrightarrow> follow 40 fs' p = follow 40 fs p \<and> node_at fs' p = Some x" for qs fs
  proof (induction qs arbitrary: fs)
    case (Cons q qs)
    obtain t where t: "follow 40 fs p = Some t" "map_of fs t = Some x" "p_parts p \<noteq> []"
      using Cons.prems(2) assms(3) by (auto simp: node_at_def split: if_splits option.splits)
    show ?case
    proof (cases "is_dir fs q \<or> map_of fs q \<noteq> None")
      case True
      with Cons show ?thesis by (auto simp: thenM_eq step_def split: if_splits)
    next
      case False
      with Cons.prems(1) have "forM qs step (AList.update q Dir fs) = (r, fs')" by (simp add: thenM_eq step_def)
      moreover have "q \<noteq> t" using False t(2) by auto
      then have "node_at (AList.update q Dir fs) p = Some x" "follow 40 (AList.update q Dir fs) p = Some t"
        using False t node_at_update [OF t(1), of q Dir] follow_update [OF t(1), of q Dir] Cons.prems(2) by auto
      ultimately show ?thesis using Cons.IH t(1) by simp
    qed
  qed simp
  from this [of "ancestors d" fs] assms show ?thesis by (simp add: mkdir_parents_def step_def)
qed

lemma follow_write: "follow n fs p = Some q \<Longrightarrow> follow n (AList.update q (File b) fs) p = Some q"
  by (rule follow_update) (auto dest: follow_end)

lemma read_after_write:
  assumes "write_bytes p b fs = (Inr (), fs')"
  shows "read_bytes p fs' = (Inr b, fs')" "is_file fs' p" "node_at fs' p = Some (File b)"
proof -
  obtain q where q: "follow 40 fs p = Some q" "fs' = AList.update q (File b) fs" and "\<not> is_dir fs p"
    using assms(1) by (auto simp: write_bytes_def split: if_splits option.splits)
  then have "p_parts p \<noteq> []" by (auto simp: is_dir_def node_at_def)
  moreover have "follow 40 fs' p = Some q" using q by (simp add: follow_write)
  ultimately show n: "node_at fs' p = Some (File b)" using q by (simp add: node_at_def update_conv)
  then show "read_bytes p fs' = (Inr b, fs')" "is_file fs' p" by (simp_all add: read_bytes_def is_file_def)
qed

lemma read_after_replace:
  assumes "replace_file p b fs = (Inr (), fs')"
  shows "read_bytes p fs' = (Inr b, fs')" "is_file fs' p" "\<not> is_symlink fs' p"
    "q \<noteq> p \<Longrightarrow> map_of fs' q = map_of fs q"
proof -
  have fs': "fs' = AList.update p (File b) fs" "p_parts p \<noteq> []" using assms by (auto simp: replace_file_def split: if_splits)
  then have "node_at fs' p = Some (File b)" by (simp add: node_at_def follow_not_link update_conv)
  with fs' show "read_bytes p fs' = (Inr b, fs')" "is_file fs' p" "\<not> is_symlink fs' p" "q \<noteq> p \<Longrightarrow> map_of fs' q = map_of fs q"
    by (simp_all add: read_bytes_def is_file_def is_symlink_def update_conv)
qed

lemma universal_newlines_id: "CHR 0x0D \<notin> set s \<Longrightarrow> universal_newlines s = s"
  by (induction s rule: universal_newlines.induct) auto

lemma read_text_after_write:
  "write_text p s fs = (Inr (), fs') \<Longrightarrow> CHR 0x0D \<notin> set s \<Longrightarrow> read_text p fs' = (Inr s, fs')"
  by (simp add: write_text_def read_text_def bindM_eq read_after_write(1) universal_newlines_id)

end
