(* ===== verification/Boundary.thy ===== *)
theory Boundary
  imports Program
begin

section \<open>Boundaries: local API, database resets, logs and traces\<close>

text \<open>
  The guards at the edges of the program: \<open>config.py\<close> and \<open>api/\<close> (who may call the HTTP API),
  \<open>storage/safety.py\<close> (which database may be reset), \<open>logging.py\<close> and \<open>observability/tracing.py\<close>
  (what may be written to logs and spans). The environment variables are a map, and SQLAlchemy's
  \<open>make_url\<close> is a function that gives the host and the database name of a URL.
\<close>

subsection \<open>Bind host and API token\<close>

definition LOCAL_BIND_HOSTS :: "pystr list" where
  "LOCAL_BIND_HOSTS = [''127.0.0.1'', ''localhost'', ''::1'']"

definition is_local_bind_host :: "pystr \<Rightarrow> bool" where
  "is_local_bind_host host = (lower (strip host) \<in> set LOCAL_BIND_HOSTS)"

definition nonempty :: "pystr option \<Rightarrow> bool" where
  "nonempty t = (case t of None \<Rightarrow> False | Some s \<Rightarrow> s \<noteq> [])"

definition validate_local_auth_boundary :: "pystr option \<Rightarrow> pystr \<Rightarrow> exc + unit" where
  "validate_local_auth_boundary api_token api_bind_host =
     (if nonempty api_token then Inr ()
      else if \<not> is_local_bind_host api_bind_host
        then Inl (ValueError ''API_TOKEN is required when API_BIND_HOST is not localhost'')
      else Inr ())"

type_synonym environ = "pystr \<Rightarrow> pystr option"

text \<open>The application is the list of its routes with whether the token dependency guards them.\<close>

definition job_routes :: "(pystr \<times> pystr \<times> bool) list" where
  "job_routes = [(''POST'', ''/jobs/batch'', True), (''GET'', ''/jobs/runs/{run_id}/status'', True)]"

definition bind_host :: "environ \<Rightarrow> pystr" where
  "bind_host env = (case env ''API_BIND_HOST'' of None \<Rightarrow> ''127.0.0.1'' | Some h \<Rightarrow> h)"

definition create_app :: "environ \<Rightarrow> exc + (pystr \<times> pystr \<times> bool) list" where
  "create_app env = (case validate_local_auth_boundary (env ''API_TOKEN'') (bind_host env) of
       Inl e \<Rightarrow> Inl e
     | Inr _ \<Rightarrow> Inr (job_routes @ [(''GET'', ''/health'', False)]))"

definition require_local_token :: "environ \<Rightarrow> pystr option \<Rightarrow> exc + unit" where
  "require_local_token env authorization =
     (let api_token = env ''API_TOKEN'' in
      if nonempty api_token \<and> authorization \<noteq> Some (''Bearer '' @ the api_token)
      then Inl (HTTPException 401 ''unauthorized'') else Inr ())"

text \<open>The two handlers behind the dependency; neither reads or writes a store.\<close>

definition submit_batch_route :: "environ \<Rightarrow> pystr option \<Rightarrow> int \<Rightarrow> pystr \<Rightarrow> exc + (pystr \<times> pystr) list" where
  "submit_batch_route env authorization n job_type = (case require_local_token env authorization of
       Inl e \<Rightarrow> Inl e | Inr _ \<Rightarrow> Inr [(''status'', ''accepted'')])"

definition run_status_route :: "environ \<Rightarrow> pystr option \<Rightarrow> pystr \<Rightarrow> exc + (pystr \<times> pystr) list" where
  "run_status_route env authorization run_id = (case require_local_token env authorization of
       Inl e \<Rightarrow> Inl e | Inr _ \<Rightarrow> Inr [(''run_id'', run_id), (''status'', ''pending'')])"

subsection \<open>Database resets\<close>

definition LOCAL_HOSTS :: "pystr list" where
  "LOCAL_HOSTS = [''localhost'', ''127.0.0.1'', ''::1'', ''postgres'']"

definition LOCAL_DATABASES :: "pystr list" where
  "LOCAL_DATABASES = [''agent_runtime_grid'', ''agent_runtime_grid_test'']"

definition or_empty :: "pystr option \<Rightarrow> pystr" where
  "or_empty t = (case t of None \<Rightarrow> [] | Some s \<Rightarrow> s)"

definition require_safe_local_reset :: "(pystr \<Rightarrow> exc + pystr option \<times> pystr option) \<Rightarrow> pystr \<Rightarrow> exc + unit" where
  "require_safe_local_reset make_url database_url = (case make_url database_url of
       Inl e \<Rightarrow> Inl e
     | Inr (url_host, url_database) \<Rightarrow>
         let host = lower (or_empty url_host); database = lower (or_empty url_database) in
         if host \<notin> set LOCAL_HOSTS \<or> database \<notin> set LOCAL_DATABASES
         then Inl (UnsafeDatabaseResetError
           ''database reset is restricted to the local agent_runtime_grid project/test database'')
         else Inr ())"

subsection \<open>Log records\<close>

definition SECRET_FIELD_PARTS :: "pystr list" where
  "SECRET_FIELD_PARTS = [''token'', ''secret'', ''password'', ''credential'', ''api_key'', ''key'']"

definition is_secret_like_field :: "pystr \<Rightarrow> bool" where
  "is_secret_like_field k = (let normalized = lower k in list_ex (contains normalized) SECRET_FIELD_PARTS)"

text \<open>\<open>c.isalnum()\<close> for the characters of the model\<close>

definition is_alnum :: "char \<Rightarrow> bool" where
  "is_alnum c = (let n = of_char c :: nat in
     (48 \<le> n \<and> n \<le> 57) \<or> (65 \<le> n \<and> n \<le> 90) \<or> (97 \<le> n \<and> n \<le> 122)
     \<or> n \<in> {170, 178, 179, 181, 185, 186, 188, 189, 190} \<or> (192 \<le> n \<and> n \<le> 255 \<and> n \<noteq> 215 \<and> n \<noteq> 247))"

definition sanitize_error_class :: "pystr \<Rightarrow> pystr" where
  "sanitize_error_class error_class =
     (let bare = filter (\<lambda>c. c \<noteq> CHR ''.'') (filter (\<lambda>c. c \<noteq> CHR ''_'') error_class) in
      if error_class = [] \<or> \<not> (bare \<noteq> [] \<and> list_all is_alnum bare) then ''SanitizedError'' else error_class)"

definition job_log_record ::
    "pystr \<Rightarrow> pystr \<Rightarrow> pystr \<Rightarrow> pystr \<Rightarrow> pystr \<Rightarrow> pystr option \<Rightarrow> items \<Rightarrow> items" where
  "job_log_record job_id run_id worker_id trace_id event_type error_class extra =
     (let record0 = [(''job_id'', JStr job_id), (''run_id'', JStr run_id), (''worker_id'', JStr worker_id),
            (''trace_id'', JStr trace_id), (''event_type'', JStr event_type)];
          record1 = (case error_class of None \<Rightarrow> record0
            | Some e \<Rightarrow> AList.update ''error_class'' (JStr (sanitize_error_class e)) record0)
      in fold (\<lambda>(k, v) r. if is_secret_like_field k then r else AList.update k v r) extra record1)"

subsection \<open>Spans\<close>

definition RAW_PAYLOAD_ATTRIBUTE_PARTS :: "pystr list" where
  "RAW_PAYLOAD_ATTRIBUTE_PARTS = [''payload'', ''prompt'', ''response_body'']"

definition is_hidden_attribute :: "pystr \<Rightarrow> bool" where
  "is_hidden_attribute k = (let normalized = lower k in
     list_ex (contains normalized) SECRET_FIELD_PARTS \<or> list_ex (contains normalized) RAW_PAYLOAD_ATTRIBUTE_PARTS)"

definition sanitize_span_attributes :: "items \<Rightarrow> items" where
  "sanitize_span_attributes attributes =
     fold (\<lambda>(k, v) r. if is_hidden_attribute k then r else AList.update k v r) attributes []"

record span_record =
  sp_trace_id :: pystr
  sp_operation_name :: pystr
  sp_attributes :: items

text \<open>The span is appended when its body ends, also when it ends with an exception.\<close>

definition span :: "pystr \<Rightarrow> pystr \<Rightarrow> items \<Rightarrow> (span_record list, 'a) prog \<Rightarrow> (span_record list, 'a) prog" where
  "span trace_id operation_name attributes body =
     (let sanitized = sanitize_span_attributes attributes in
      finallyM body (modifyM (\<lambda>spans. spans @
        [\<lparr>sp_trace_id = trace_id, sp_operation_name = operation_name, sp_attributes = sanitized\<rparr>])))"

definition JOB_TRACE_OPERATIONS :: "pystr list" where
  "JOB_TRACE_OPERATIONS = [''api.submit'', ''queue.publish'', ''worker.lease'', ''job.execute'', ''artifact.write'', ''job.finalize'']"

definition record_job_lifecycle_trace :: "pystr \<Rightarrow> pystr \<Rightarrow> pystr \<Rightarrow> (span_record list, span_record list) prog" where
  "record_job_lifecycle_trace trace_id job_id run_id =
     thenM (forM JOB_TRACE_OPERATIONS (\<lambda>operation_name.
         span trace_id operation_name [(''job_id'', JStr job_id), (''run_id'', JStr run_id)] (returnM ())))
       (getM (\<lambda>spans. spans))"

subsection \<open>Filtering updates\<close>

lemma fold_filtered_update_get:
  "map_of (fold (\<lambda>(k, v) r. if P k then r else AList.update k v r) extra acc) k =
     (if P k then map_of acc k else case map_of (rev extra) k of None \<Rightarrow> map_of acc k | Some v \<Rightarrow> Some v)"
  by (induction extra arbitrary: acc)
     (auto simp: update_conv map_of_append map_add_Some_iff split: option.splits)

lemma record_base_get:
  "map_of (job_log_record i r w t e None []) k =
     map_of [(''job_id'', JStr i), (''run_id'', JStr r), (''worker_id'', JStr w), (''trace_id'', JStr t), (''event_type'', JStr e)] k"
  by (simp add: job_log_record_def)

lemma sanitized_characters: "c \<in> set (sanitize_error_class e) \<Longrightarrow> is_alnum c \<or> c = CHR ''_'' \<or> c = CHR ''.''"
proof -
  have "list_all is_alnum ''SanitizedError''" by (simp add: is_alnum_def)
  then show "c \<in> set (sanitize_error_class e) \<Longrightarrow> ?thesis"
    by (auto simp: sanitize_error_class_def Let_def list_all_iff split: if_splits)
qed

subsection \<open>Properties\<close>



text \<open>
  Logs and spans carry no secrets and lose nothing else: a field of a log record beyond its named
  ones is present with its value exactly when its name does not look like a secret's, the named
  fields stand for themselves, the error class is made of word characters and dots, and an attribute
  of a span is kept exactly when its name looks neither like a secret's nor like a raw payload's.
\<close>

theorem secrets_are_dropped:
  assumes "distinct (map fst extra)" "set (map fst extra) \<inter>
      {''job_id'', ''run_id'', ''worker_id'', ''trace_id'', ''event_type'', ''error_class''} = {}"
  shows "(\<forall>k v. k \<in> set (map fst extra) \<longrightarrow>
      map_of (job_log_record i r w t e err extra) k = (if is_secret_like_field k then None else map_of extra k)
    \<and> map_of (sanitize_span_attributes extra) k = (if is_hidden_attribute k then None else map_of extra k))
    \<and> map_of (job_log_record i r w t e err extra) ''job_id'' = Some (JStr i)
    \<and> map_of (job_log_record i r w t e err extra) ''trace_id'' = Some (JStr t)
    \<and> (\<forall>c. err = Some c \<longrightarrow> map_of (job_log_record i r w t e err extra) ''error_class'' = Some (JStr (sanitize_error_class c))
        \<and> (\<forall>x \<in> set (sanitize_error_class c). is_alnum x \<or> x = CHR ''_'' \<or> x = CHR ''.''))"
proof -
  let ?rec = "job_log_record i r w t e err extra" and ?base = "job_log_record i r w t e err []"
  have rv: "map_of (rev extra) = map_of extra"
    using map_of_inject_set [of "rev extra" extra] assms(1) by (simp add: rev_map [symmetric])
  have get: "map_of ?rec k = (if is_secret_like_field k then map_of ?base k
      else case map_of extra k of None \<Rightarrow> map_of ?base k | Some v \<Rightarrow> Some v)" for k
    by (cases err) (simp_all add: job_log_record_def Let_def fold_filtered_update_get rv split: option.splits)
  have base: "map_of ?base ''job_id'' = Some (JStr i)" "map_of ?base ''trace_id'' = Some (JStr t)"
    "err = Some c \<Longrightarrow> map_of ?base ''error_class'' = Some (JStr (sanitize_error_class c))" for c
    by (simp_all add: job_log_record_def Let_def update_conv split: option.splits)
  have other: "map_of ?base k = None" if "k \<in> set (map fst extra)" for k
  proof -
    have "k \<notin> {''job_id'', ''run_id'', ''worker_id'', ''trace_id'', ''event_type'', ''error_class''}"
      using assms(2) that unfolding disjoint_iff by (elim allE) (erule (1) mp)
    then show ?thesis by (simp add: job_log_record_def Let_def update_conv split: option.splits)
  qed
  have absent: "map_of extra ''job_id'' = None" "map_of extra ''trace_id'' = None" "map_of extra ''error_class'' = None"
    using assms(2) by (auto simp: map_of_eq_None_iff)
  show ?thesis
  proof (intro conjI allI impI ballI)
    fix k v
    assume k: "k \<in> set (map fst extra)"
    then show "map_of ?rec k = (if is_secret_like_field k then None else map_of extra k)"
      by (simp add: get other split: option.splits)
    show "map_of (sanitize_span_attributes extra) k = (if is_hidden_attribute k then None else map_of extra k)"
      by (simp add: sanitize_span_attributes_def fold_filtered_update_get rv split: option.splits)
  next
    fix c
    assume "err = Some c"
    with get [of "''error_class''"] base(3) [of c] absent
    show "map_of ?rec ''error_class'' = Some (JStr (sanitize_error_class c))" by simp
  qed (simp_all add: get absent base sanitized_characters)
qed

lemma secrets_are_dropped_witness:
  "map_of (job_log_record ''j'' ''r'' ''w'' ''t'' ''e'' None [(''API_Key'', JInt 1), (''note'', JInt 2)]) ''note'' = Some (JInt 2)
   \<and> map_of (job_log_record ''j'' ''r'' ''w'' ''t'' ''e'' None [(''API_Key'', JInt 1), (''note'', JInt 2)]) ''API_Key'' = None"
proof -
  have "is_secret_like_field ''API_Key''" "\<not> is_secret_like_field ''note''"
    by (simp_all add: is_secret_like_field_def SECRET_FIELD_PARTS_def lower_def)
  with secrets_are_dropped [of "[(''API_Key'', JInt 1), (''note'', JInt 2)]" "''j''" "''r''" "''w''" "''t''" "''e''" None]
  show ?thesis by simp
qed

lemma lifecycle_trace:
  "record_job_lifecycle_trace trace j run spans = (Inr spans', s') \<Longrightarrow>
     s' = spans' \<and> map sp_operation_name spans' = map sp_operation_name spans @ JOB_TRACE_OPERATIONS"
  by (auto simp: record_job_lifecycle_trace_def JOB_TRACE_OPERATIONS_def span_def finallyM_def thenM_eq Let_def)

end
