(* ===== verification/PyValue.thy ===== *)
theory PyValue
  imports Files Boundary
begin

section \<open>Values as Python sees them\<close>

text \<open>
  What the job functions, the artifact store and the evidence use of Python's operations on the values
  that \<open>json.loads\<close> gives: \<open>str\<close> and \<open>repr\<close>, \<open>==\<close> (where \<open>True\<close>, \<open>1\<close> and \<open>1.0\<close> are equal, a \<open>NaN\<close>
  equals nothing and the order of keys does not matter), and \<open>a or b\<close>.
\<close>

subsection \<open>Texts\<close>

fun special_str :: "special_float \<Rightarrow> pystr" where
  "special_str SNaN = ''nan''"
| "special_str SPosInf = ''inf''"
| "special_str SNegInf = ''-inf''"

function py_repr :: "(rat \<Rightarrow> pystr) \<Rightarrow> json \<Rightarrow> pystr" where
  "py_repr fr JNull = ''None''"
| "py_repr fr (JBool b) = (if b then ''True'' else ''False'')"
| "py_repr fr (JInt i) = py_str_int i"
| "py_repr fr (JFloat q) = fr q"
| "py_repr fr (JSpecial x) = special_str x"
| "py_repr fr (JStr s) = repr_str s"
| "py_repr fr (JList xs) = ''['' @ join '', '' (map (py_repr fr) xs) @ '']''"
| "py_repr fr (JObj d) = ''{'' @ join '', '' (map (\<lambda>(k, v). repr_str k @ '': '' @ py_repr fr v) d) @ ''}''"
  by pat_completeness auto
termination py_repr
  by (relation "measure (\<lambda>(fr, j). size j)") (auto simp: size_json_member less_Suc_eq_le size_list_estimation')

definition py_str :: "(rat \<Rightarrow> pystr) \<Rightarrow> json \<Rightarrow> pystr" where
  "py_str fr v = (case v of JStr s \<Rightarrow> s | _ \<Rightarrow> py_repr fr v)"

subsection \<open>Equality\<close>

definition number_of :: "json \<Rightarrow> rat option" where
  "number_of v = (case v of JBool b \<Rightarrow> Some (if b then 1 else 0) | JInt i \<Rightarrow> Some (of_int i)
     | JFloat q \<Rightarrow> Some q | _ \<Rightarrow> None)"

function py_eq :: "json \<Rightarrow> json \<Rightarrow> bool" where
  "py_eq (JList xs) w = (case w of JList ys \<Rightarrow> length xs = length ys \<and> list_all (\<lambda>(x, y). py_eq x y) (zip xs ys) | _ \<Rightarrow> False)"
| "py_eq (JObj d) w = (case w of
     JObj e \<Rightarrow> length d = length e \<and> list_all (\<lambda>(k, v). case map_of e k of None \<Rightarrow> False | Some u \<Rightarrow> py_eq v u) d
   | _ \<Rightarrow> False)"
| "py_eq JNull w = (w = JNull)"
| "py_eq (JStr s) w = (w = JStr s)"
| "py_eq (JSpecial x) w = (w = JSpecial x \<and> x \<noteq> SNaN)"
| "py_eq (JBool b) w = (number_of w = Some (if b then 1 else 0))"
| "py_eq (JInt i) w = (number_of w = Some (of_int i))"
| "py_eq (JFloat q) w = (number_of w = Some q)"
  by pat_completeness auto
termination py_eq
  by (relation "measure (\<lambda>(v, w). size v)")
     (auto simp: size_json_member less_Suc_eq_le size_list_estimation' dest: set_zip_leftD)

text \<open>\<open>a or b\<close>\<close>

definition py_or :: "json \<Rightarrow> json \<Rightarrow> json" where
  "py_or a b = (if truthy a then a else b)"

text \<open>\<open>str(payload.get(key) or "").strip()\<close>, which must not be empty\<close>

definition stripped_text :: "platform \<Rightarrow> json \<Rightarrow> pystr" where
  "stripped_text pf v = strip (py_str (float_repr pf) (py_or v (JStr [])))"

definition required_str :: "platform \<Rightarrow> (pystr \<Rightarrow> exc) \<Rightarrow> items \<Rightarrow> pystr \<Rightarrow> exc + pystr" where
  "required_str pf err payload k = (let value = stripped_text pf (dget_none payload k) in
     if value = [] then Inl (err (k @ '' is required'')) else Inr value)"

text \<open>\<open>str(payload.get("candidate_id") or payload.get("candidate") or "").strip()\<close>\<close>

definition candidate_text :: "platform \<Rightarrow> items \<Rightarrow> pystr" where
  "candidate_text pf payload =
     stripped_text pf (py_or (dget_none payload ''candidate_id'') (dget_none payload ''candidate''))"

text \<open>\<open>Path(str(payload.get("eval_result_path", default)))\<close>\<close>

definition eval_result_path_of :: "platform \<Rightarrow> items \<Rightarrow> pystr \<Rightarrow> pystr \<Rightarrow> path" where
  "eval_result_path_of pf payload candidate_id case_id =
     (case dget payload ''eval_result_path'' of
        Some v \<Rightarrow> path_of (py_str (float_repr pf) v)
      | None \<Rightarrow> path_join (path_join (path_join (path_of ''reports'') ''eval-lab'') candidate_id) (case_id @ ''.json''))"

definition optional_string :: "json \<Rightarrow> pystr" where
  "optional_string v = (case v of JStr s \<Rightarrow> s | _ \<Rightarrow> [])"

subsection \<open>The environment of a job\<close>

text \<open>\<open>time.perf_counter()\<close> gives the next reading of a list; \<open>max(0, int((b - a) * 1000))\<close>\<close>

definition perf_counter :: "(rat list, rat) prog" where
  "perf_counter = (\<lambda>ts. case ts of [] \<Rightarrow> (Inr 0, []) | t # ts' \<Rightarrow> (Inr t, ts'))"

definition elapsed_ms :: "rat \<Rightarrow> rat \<Rightarrow> int" where
  "elapsed_ms a b = max 0 (let d = (b - a) * 1000 in if d < 0 then - floor (- d) else floor d)"

record job_env =
  je_files :: files
  je_environ :: environ
  je_clock :: "rat list"

definition inFiles :: "(files, 'a) prog \<Rightarrow> (job_env, 'a) prog" where
  "inFiles = onM je_files je_files_update"

definition inClock :: "(rat list, 'a) prog \<Rightarrow> (job_env, 'a) prog" where
  "inClock = onM je_clock je_clock_update"

definition pick :: "items \<Rightarrow> pystr list \<Rightarrow> items" where
  "pick d ks = map (\<lambda>k. (k, dget_none d k)) ks"

definition write_json_file :: "platform \<Rightarrow> path \<Rightarrow> items \<Rightarrow> (files, unit) prog" where
  "write_json_file pf p d =
     thenM (mkdir_parents (path_parent p)) (write_text p (dump_json indent_style (float_repr pf) 0 (JObj d)))"

lemma elapsed_ms_nonneg [simp]: "0 \<le> elapsed_ms a b"
  by (simp add: elapsed_ms_def)

lemma required_str_cases:
  "required_str pf err payload k = Inr v \<Longrightarrow> v \<noteq> []"
  by (auto simp: required_str_def Let_def split: if_splits)

lemma py_eq_str: "py_eq v (JStr s) \<longleftrightarrow> v = JStr s"
  by (cases v) (auto simp: number_of_def)

lemma py_eq_int: "py_eq v (JInt i) \<longleftrightarrow> number_of v = Some (of_int i)"
  by (cases v) (auto simp: number_of_def)

lemma dget_none_str: "dget_none d k = JStr s \<longleftrightarrow> dget d k = Some (JStr s)"
  by (simp add: dget_none_def split: option.splits)

subsection \<open>What a written JSON file reads back as\<close>

lemma printable_get: "printable fr fp (JObj d) \<Longrightarrow> dget d k = Some v \<Longrightarrow> printable fr fp v"
  by (auto dest: map_of_SomeD)

lemma printable_update:
  assumes "printable fr fp (JObj d)" "printable fr fp v"
  shows "printable fr fp (JObj (AList.update k v d))"
proof -
  have member: "p \<in> set (AList.update k v d) \<Longrightarrow> p \<in> set d \<or> p = (k, v)" for p
    by (induction d) (auto split: if_splits)
  have "printable fr fp u" if "(j, u) \<in> set (AList.update k v d)" for j u
    using member [OF that] assms by auto
  moreover have "distinct (map fst (AList.update k v d))" using assms(1) by (simp add: distinct_update)
  ultimately show ?thesis by (simp only: printable.simps) blast
qed

lemma printable_dupdate: "printable fr fp (JObj d) \<Longrightarrow> printable fr fp (JObj e) \<Longrightarrow> printable fr fp (JObj (dupdate d e))"
proof (induction e arbitrary: d)
  case Nil
  then show ?case by (simp add: dupdate_def)
next
  case (Cons p e)
  obtain k v where p: "p = (k, v)" by (cases p)
  have "printable fr fp (JObj (dupdate (AList.update k v d) e))"
    using Cons.prems p by (intro Cons.IH printable_update) auto
  then show ?case by (simp add: p dupdate_def)
qed

lemma dupdate_get_distinct:
  assumes "distinct (map fst e)"
  shows "dget (dupdate d e) k = (case dget e k of None \<Rightarrow> dget d k | Some v \<Rightarrow> Some v)"
proof -
  have "map_of (rev e) = map_of e" using map_of_inject_set [of "rev e" e] assms by (simp add: rev_map [symmetric])
  then show ?thesis by (simp add: dupdate_get)
qed

text \<open>Reading a member of a value after its members were sorted\<close>

lemma canon_object:
  assumes "distinct (map fst d)"
  obtains e where "canon (JObj d) = JObj e" "\<And>k. dget e k = map_option canon (dget d k)" "distinct (map fst e)"
proof (rule that [of "sort_key fst (map (\<lambda>(k, v). (k, canon v)) d)"])
  let ?m = "map (\<lambda>(k, v). (k, canon v)) d"
  have m: "distinct (map fst ?m)" using assms by (simp add: case_prod_unfold comp_def)
  moreover have s: "distinct (map fst (sort_key fst ?m))"
    using m by (simp only: distinct_map distinct_sort set_sort)
  ultimately have "map_of (sort_key fst ?m) = map_of ?m" by (simp add: map_of_inject_set)
  then show "dget (sort_key fst ?m) k = map_option canon (dget d k)" for k by (simp add: map_of_map)
  show "distinct (map fst (sort_key fst ?m))" by (rule s)
qed simp

lemma canon_str [simp]: "canon v = JStr s \<longleftrightarrow> v = JStr s"
  and canon_null [simp]: "canon v = JNull \<longleftrightarrow> v = JNull"
  and number_of_canon [simp]: "number_of (canon v) = number_of v"
  by (cases v; simp only: canon.simps number_of_def json.simps)+

lemma read_text_state: "read_text p fs = (r, fs') \<Longrightarrow> fs' = fs"
  by (auto simp: read_text_def read_bytes_def bindM_eq split: prod.splits sum.splits option.splits node.splits)


fun floats_of :: "json \<Rightarrow> rat list" where
  "floats_of (JFloat q) = [q]"
| "floats_of (JList xs) = concat (map floats_of xs)"
| "floats_of (JObj d) = concat (map (\<lambda>(k, v). floats_of v) d)"
| "floats_of _ = []"

lemma escape_no_cr: "CHR 0x0D \<notin> set (escape_char b c)"
proof -
  have "CHR 0x0D \<noteq> digit_char (n mod 16)" for n
  proof
    assume cr: "CHR 0x0D = digit_char (n mod 16)"
    have "n mod 16 < 36" by (rule less_trans [of _ 16]) simp_all
    from digit_char_no_sign(4) [OF this] show False unfolding cr [symmetric] by (simp add: is_space_def)
  qed
  then have "CHR 0x0D \<notin> set (hex2 n)" for n unfolding hex2_def by simp
  then show ?thesis by (auto simp: escape_char_def)
qed

lemma quote_no_cr: "CHR 0x0D \<notin> set (quote b s)"
  using escape_no_cr by (auto simp: quote_def)

lemma int_no_cr: "CHR 0x0D \<notin> set (py_str_int i)"
proof -
  have "c \<noteq> CHR 0x0D" if "c \<in> set (nat_digits n)" for c n
  proof -
    have "is_digit c" using nat_digits_head [of n] that by blast
    from digit_no_prefix(10) [OF this] show ?thesis by (auto simp: is_json_ws_def)
  qed
  then show ?thesis by (auto simp: py_str_int_def)
qed

lemma join_no_cr: "CHR 0x0D \<notin> set sep \<Longrightarrow> \<forall>x \<in> set xs. CHR 0x0D \<notin> set x \<Longrightarrow> CHR 0x0D \<notin> set (join sep xs)"
  by (induction sep xs rule: join.induct) auto

lemma enclosed_no_cr:
  assumes "\<forall>x \<in> set xs. CHR 0x0D \<notin> set x" "CHR 0x0D \<notin> set (js_item_separator st)" "CHR 0x0D \<notin> set a" "CHR 0x0D \<notin> set b"
  shows "CHR 0x0D \<notin> set (enclosed st l a b xs)"
proof -
  have "CHR 0x0D \<notin> set (newline st n)" for n by (auto simp: newline_def split: option.splits)
  with assms show ?thesis by (simp add: enclosed_def join_no_cr)
qed

lemma dump_no_cr:
  assumes "CHR 0x0D \<notin> set (js_item_separator st)" "CHR 0x0D \<notin> set (js_key_separator st)"
    "\<forall>q \<in> set (floats_of v). CHR 0x0D \<notin> set (fr q)"
  shows "CHR 0x0D \<notin> set (dump_json st fr l v)"
  using assms
proof (induction st fr l v rule: dump_json.induct)
  case (5 st fr level x)
  then show ?case by (cases x) simp_all
next
  case (7 st fr level xs)
  then have "\<forall>x \<in> set (map (dump_json st fr (Suc level)) xs). CHR 0x0D \<notin> set x" by auto
  with 7 show ?case by (simp only: dump_json.simps) (rule enclosed_no_cr, simp_all)
next
  case (8 st fr level d)
  then have "\<forall>x \<in> set (map snd (sort_key fst (map (\<lambda>(k, v). (k, quote (js_ascii st) k @ js_key_separator st @
      dump_json st fr (Suc level) v)) d))). CHR 0x0D \<notin> set x"
    by (auto simp: quote_no_cr)
  with 8 show ?case by (simp only: dump_json.simps) (rule enclosed_no_cr, simp_all)
qed (simp_all add: quote_no_cr int_no_cr)

lemma written_json_reads:
  assumes "write_json_file pf p d fs = (Inr (), fs')"
    and "printable (float_repr pf) (float_parse pf) (JObj d)"
    and "\<forall>q \<in> set (floats_of (JObj d)). CHR 0x0D \<notin> set (float_repr pf q)"
  shows "\<exists>s. read_text p fs' = (Inr s, fs') \<and> loads (float_parse pf) s = Some (canon (JObj d))"
proof -
  obtain u fs1 where "write_text p (dump_json indent_style (float_repr pf) 0 (JObj d)) fs1 = (Inr (), fs')"
    using assms(1) unfolding write_json_file_def by (elim thenM_InrE) blast
  moreover have "CHR 0x0D \<notin> set (dump_json indent_style (float_repr pf) 0 (JObj d))"
    using assms(3) by (intro dump_no_cr) (simp_all add: indent_style_def)
  ultimately have "read_text p fs' = (Inr (dump_json indent_style (float_repr pf) 0 (JObj d)), fs')"
    by (rule read_text_after_write)
  with loads_dump [OF styles_ok(3) assms(2)] show ?thesis by blast
qed

end
