(* ===== verification/Formats.thy ===== *)
theory Formats
  imports PyValue Storage
begin

section \<open>Dates and formatted numbers\<close>

text \<open>
  \<open>datetime\<close> values with \<open>isoformat\<close>, the format specifications \<open>.3f\<close> and \<open>.2%\<close>, and \<open>int(v)\<close> of a
  JSON value. A date and time is its fields, as Python keeps them, with the offset to UTC in
  microseconds. A formatted number is the exact value rounded half to even.
\<close>

subsection \<open>Dates\<close>

definition pad :: "nat \<Rightarrow> nat \<Rightarrow> pystr" where
  "pad w n = replicate (w - length (nat_digits n)) CHR ''0'' @ nat_digits n"

record datetime =
  dt_year :: nat
  dt_month :: nat
  dt_day :: nat
  dt_hour :: nat
  dt_minute :: nat
  dt_second :: nat
  dt_microsecond :: nat
  dt_utcoffset :: "int option"

definition offset_text :: "int \<Rightarrow> pystr" where
  "offset_text offset = (let n = nat \<bar>offset\<bar>; us = n mod 1000000; s = n div 1000000 in
     (if offset < 0 then ''-'' else ''+'') @ pad 2 (s div 3600) @ '':'' @ pad 2 (s div 60 mod 60)
     @ (if s mod 60 = 0 \<and> us = 0 then [] else '':'' @ pad 2 (s mod 60) @ (if us = 0 then [] else ''.'' @ pad 6 us)))"

definition isoformat :: "datetime \<Rightarrow> pystr" where
  "isoformat d = pad 4 (dt_year d) @ ''-'' @ pad 2 (dt_month d) @ ''-'' @ pad 2 (dt_day d) @ ''T''
     @ pad 2 (dt_hour d) @ '':'' @ pad 2 (dt_minute d) @ '':'' @ pad 2 (dt_second d)
     @ (if dt_microsecond d = 0 then [] else ''.'' @ pad 6 (dt_microsecond d))
     @ (case dt_utcoffset d of None \<Rightarrow> [] | Some n \<Rightarrow> offset_text n)"

subsection \<open>Numbers\<close>

definition round_half_even :: "rat \<Rightarrow> int" where
  "round_half_even x = (let n = floor x; r = x - of_int n in
     if r < 1 / 2 \<or> (r = 1 / 2 \<and> even n) then n else n + 1)"

definition fixed :: "nat \<Rightarrow> rat \<Rightarrow> pystr" where
  "fixed places x = (let k = nat (round_half_even (\<bar>x\<bar> * 10 ^ places)) in
     (if x < 0 then ''-'' else []) @ nat_digits (k div 10 ^ places) @ ''.'' @ pad places (k mod 10 ^ places))"

definition percent :: "nat \<Rightarrow> rat \<Rightarrow> pystr" where
  "percent places x = fixed places (x * 100) @ ''%''"

text \<open>\<open>int(v)\<close>\<close>

definition int_of_json :: "json \<Rightarrow> exc + int" where
  "int_of_json v = (case v of
     JInt i \<Rightarrow> Inr i
   | JBool b \<Rightarrow> Inr (if b then 1 else 0)
   | JFloat q \<Rightarrow> Inr (if q < 0 then - floor (- q) else floor q)
   | JSpecial SNaN \<Rightarrow> Inl (ValueError ''cannot convert float NaN to integer'')
   | JSpecial _ \<Rightarrow> Inl (OverflowError ''cannot convert float infinity to integer'')
   | JStr s \<Rightarrow> (case py_int 10 s of
       Some i \<Rightarrow> Inr i | None \<Rightarrow> Inl (ValueError (''invalid literal for int() with base 10: '' @ repr_str s)))
   | _ \<Rightarrow> Inl (TypeError ''int() argument must be a string or a number''))"

lemma round_half_even_bounds: "\<bar>of_int (round_half_even x) - x\<bar> \<le> 1 / 2"
  unfolding abs_le_iff round_half_even_def Let_def by (auto; linarith)

end
