(* ===== verification/Artifacts.thy ===== *)
theory Artifacts
  imports Formats
begin

section \<open>The artifact store\<close>

text \<open>
  \<open>artifacts/store.py\<close> and the two path functions of \<open>evidence.py\<close> that it uses: the artifact that the
  worker writes for a completed job, its metadata, the check of a written artifact against its
  metadata, and the link that is added to the result file of an evaluation. \<open>datetime.fromisoformat\<close>
  is a parameter of \<open>from_dict\<close>.
\<close>

subsection \<open>Portable paths\<close>

definition portable_artifact_path :: "pystr \<Rightarrow> path \<Rightarrow> pystr" where
  "portable_artifact_path jid p = ''artifact://'' @ jid @ ''/'' @ path_name p"

subsection \<open>Metadata\<close>

record artifact_metadata =
  am_path :: path
  am_size_bytes :: int
  am_sha256 :: pystr
  am_job_id :: pystr
  am_run_id :: pystr
  am_attempt_number :: int
  am_input_digest :: pystr
  am_created_at :: datetime
  am_eval_result_path :: "pystr option"

record artifact_integrity_summary =
  ai_checked_count :: nat
  ai_valid_count :: nat
  ai_rows :: "artifact_metadata list"

definition to_dict :: "artifact_metadata \<Rightarrow> items" where
  "to_dict a = [(''path'', JStr (path_str (am_path a))), (''size_bytes'', JInt (am_size_bytes a)),
     (''sha256'', JStr (am_sha256 a)), (''job_id'', JStr (am_job_id a)), (''run_id'', JStr (am_run_id a)),
     (''attempt_number'', JInt (am_attempt_number a)), (''input_digest'', JStr (am_input_digest a)),
     (''created_at'', JStr (isoformat (am_created_at a)))]
     @ (case am_eval_result_path a of None \<Rightarrow> [] | Some p \<Rightarrow> [(''eval_result_path'', JStr p)])"

text \<open>\<open>str(value[k])\<close> and \<open>int(value[k])\<close>\<close>

definition str_item :: "platform \<Rightarrow> items \<Rightarrow> pystr \<Rightarrow> exc + pystr" where
  "str_item pf d k = (case dget d k of None \<Rightarrow> Inl (KeyError k) | Some v \<Rightarrow> Inr (py_str (float_repr pf) v))"

definition int_item :: "items \<Rightarrow> pystr \<Rightarrow> exc + int" where
  "int_item d k = (case dget d k of None \<Rightarrow> Inl (KeyError k) | Some v \<Rightarrow> int_of_json v)"

definition from_dict :: "platform \<Rightarrow> (pystr \<Rightarrow> exc + datetime) \<Rightarrow> items \<Rightarrow> exc + artifact_metadata" where
  "from_dict pf fromisoformat v =
     (case str_item pf v ''path'' of Inl e \<Rightarrow> Inl e | Inr p \<Rightarrow>
     (case int_item v ''size_bytes'' of Inl e \<Rightarrow> Inl e | Inr n \<Rightarrow>
     (case str_item pf v ''sha256'' of Inl e \<Rightarrow> Inl e | Inr h \<Rightarrow>
     (case str_item pf v ''job_id'' of Inl e \<Rightarrow> Inl e | Inr j \<Rightarrow>
     (case str_item pf v ''run_id'' of Inl e \<Rightarrow> Inl e | Inr r \<Rightarrow>
     (case int_item v ''attempt_number'' of Inl e \<Rightarrow> Inl e | Inr a \<Rightarrow>
     (case str_item pf v ''input_digest'' of Inl e \<Rightarrow> Inl e | Inr i \<Rightarrow>
     (case str_item pf v ''created_at'' of Inl e \<Rightarrow> Inl e | Inr t \<Rightarrow>
     (case fromisoformat t of Inl e \<Rightarrow> Inl e | Inr c \<Rightarrow>
       Inr \<lparr>am_path = path_of p, am_size_bytes = n, am_sha256 = h, am_job_id = j, am_run_id = r,
         am_attempt_number = a, am_input_digest = i, am_created_at = c,
         am_eval_result_path = (case dget_none v ''eval_result_path'' of JNull \<Rightarrow> None
           | e \<Rightarrow> Some (py_str (float_repr pf) e))\<rparr>)))))))))"

subsection \<open>Writing an artifact\<close>

definition artifact_path :: "path \<Rightarrow> job_record \<Rightarrow> int \<Rightarrow> path" where
  "artifact_path base job attempt_number =
     path_join (path_join base (uuid_str (job_id job))) (''attempt-'' @ py_str_int attempt_number @ ''.json'')"

definition artifact_content ::
    "platform \<Rightarrow> job_record \<Rightarrow> pystr \<Rightarrow> int \<Rightarrow> datetime \<Rightarrow> items \<Rightarrow> items \<Rightarrow> items" where
  "artifact_content pf job worker_id attempt_number created_at result payload =
     dupdate [(''job_id'', JStr (uuid_str (job_id job))), (''run_id'', JStr (uuid_str (job_run_id job))),
       (''input_digest'', JStr (payload_sha256 pf (job_payload job))), (''worker_id'', JStr worker_id),
       (''attempt_number'', JInt attempt_number), (''created_at'', JStr (isoformat created_at)),
       (''result_summary'', (case dget result ''summary'' of None \<Rightarrow> JStr [] | Some v \<Rightarrow> v))] payload"

text \<open>The dictionary that \<open>artifact_payload\<close> of a result is, none when it is absent or \<open>None\<close>\<close>

definition artifact_payload_of :: "items \<Rightarrow> exc + items option" where
  "artifact_payload_of result = (case dget_none result ''artifact_payload'' of
     JNull \<Rightarrow> Inr None | JObj d \<Rightarrow> Inr (Some d)
   | _ \<Rightarrow> Inl (TypeError ''artifact_payload must be a dictionary when provided''))"

definition eval_path_in :: "platform \<Rightarrow> items option \<Rightarrow> pystr option" where
  "eval_path_in pf payload = (case payload of None \<Rightarrow> None
     | Some d \<Rightarrow> (case dget_none d ''eval_result_path'' of JNull \<Rightarrow> None | v \<Rightarrow> Some (py_str (float_repr pf) v)))"

text \<open>The result file as it is, \<open>{}\<close> when it is missing or is not JSON\<close>

definition read_eval_result :: "platform \<Rightarrow> path \<Rightarrow> (files, json) prog" where
  "read_eval_result pf p = bindM (getM (\<lambda>fs. path_exists fs p)) (\<lambda>there.
     if there then bindM (read_text p) (\<lambda>s. returnM (case loads (float_parse pf) s of None \<Rightarrow> JObj [] | Some v \<Rightarrow> v))
     else returnM (JObj []))"

definition upsert_eval_result_cross_link :: "platform \<Rightarrow> path \<Rightarrow> path \<Rightarrow> pystr \<Rightarrow> items \<Rightarrow> (files, unit) prog" where
  "upsert_eval_result_cross_link pf eval_result_path artifact_file jid artifact_payload =
     thenM (mkdir_parents (path_parent eval_result_path))
     (bindM (read_eval_result pf eval_result_path) (\<lambda>v. case v of
        JObj result \<Rightarrow> write_text eval_result_path (dump_json indent_style (float_repr pf) 0
          (JObj (dupdate result [(''case_id'', dget_none artifact_payload ''case_id''),
            (''quality_status'', dget_none artifact_payload ''quality_status''),
            (''runtime_artifact_path'', JStr (portable_artifact_path jid artifact_file))])))
      | _ \<Rightarrow> raiseM (AttributeError ''update'')))"

definition write_stub_job_artifact ::
    "platform \<Rightarrow> path \<Rightarrow> datetime \<Rightarrow> job_record \<Rightarrow> pystr \<Rightarrow> int \<Rightarrow> items \<Rightarrow> (files, artifact_metadata) prog" where
  "write_stub_job_artifact pf base created_at job worker_id attempt_number result =
     (let p = artifact_path base job attempt_number in
      thenM (mkdir_parents (path_join base (uuid_str (job_id job))))
      (bindM (liftM (artifact_payload_of result)) (\<lambda>payload.
       let eval_result_path = eval_path_in pf payload;
           content = artifact_content pf job worker_id attempt_number created_at result (case payload of None \<Rightarrow> [] | Some d \<Rightarrow> d);
           encoded = utf8_encode (dump_json indent_style (float_repr pf) 0 (JObj content))
       in thenM (write_bytes p encoded)
          (thenM (case eval_result_path of None \<Rightarrow> returnM ()
             | Some e \<Rightarrow> upsert_eval_result_cross_link pf (path_of e) p (uuid_str (job_id job))
                 (case payload of None \<Rightarrow> [] | Some d \<Rightarrow> d))
           (returnM \<lparr>am_path = p, am_size_bytes = int (length encoded), am_sha256 = sha256_hex pf encoded,
              am_job_id = uuid_str (job_id job), am_run_id = uuid_str (job_run_id job),
              am_attempt_number = attempt_number, am_input_digest = payload_sha256 pf (job_payload job),
              am_created_at = created_at, am_eval_result_path = eval_result_path\<rparr>)))))"

subsection \<open>Checking an artifact\<close>

definition expected_fields :: "artifact_metadata \<Rightarrow> items" where
  "expected_fields a = [(''job_id'', JStr (am_job_id a)), (''run_id'', JStr (am_run_id a)),
     (''attempt_number'', JInt (am_attempt_number a)), (''input_digest'', JStr (am_input_digest a)),
     (''created_at'', JStr (isoformat (am_created_at a)))]
     @ (case am_eval_result_path a of None \<Rightarrow> [] | Some p \<Rightarrow> [(''eval_result_path'', JStr p)])"

definition mismatch_text :: "platform \<Rightarrow> path \<Rightarrow> pystr \<Rightarrow> json \<Rightarrow> json \<Rightarrow> pystr" where
  "mismatch_text pf p field expected got = ''artifact field '' @ field @ '' mismatch for '' @ path_str p @ '': expected ''
     @ py_repr (float_repr pf) expected @ '', got '' @ py_repr (float_repr pf) got"

definition check_content :: "platform \<Rightarrow> artifact_metadata \<Rightarrow> json \<Rightarrow> exc + unit" where
  "check_content pf a content = (case content of
     JObj d \<Rightarrow> (case find (\<lambda>(k, v). \<not> py_eq (dget_none d k) v) (expected_fields a) of
         None \<Rightarrow> Inr ()
       | Some (k, v) \<Rightarrow> Inl (ArtifactIntegrityError (mismatch_text pf (am_path a) k v (dget_none d k))))
   | _ \<Rightarrow> Inl (AttributeError ''get''))"

definition validate_artifact_integrity :: "platform \<Rightarrow> artifact_metadata \<Rightarrow> (files, unit) prog" where
  "validate_artifact_integrity pf a =
     bindM (getM (\<lambda>fs. is_file fs (am_path a))) (\<lambda>there.
     if \<not> there then raiseM (ArtifactIntegrityError (''missing artifact: '' @ path_str (am_path a)))
     else bindM (read_bytes (am_path a)) (\<lambda>artifact_bytes.
       let actual_size = int (length artifact_bytes); actual_sha256 = sha256_hex pf artifact_bytes in
       if actual_size \<noteq> am_size_bytes a
       then raiseM (ArtifactIntegrityError (''artifact size mismatch for '' @ path_str (am_path a) @ '': expected ''
              @ py_str_int (am_size_bytes a) @ '', got '' @ py_str_int actual_size))
       else if actual_sha256 \<noteq> am_sha256 a
       then raiseM (ArtifactIntegrityError (''artifact sha256 mismatch for '' @ path_str (am_path a) @ '': expected ''
              @ am_sha256 a @ '', got '' @ actual_sha256))
       else (case Option.bind (utf8_decode artifact_bytes) (loads (float_parse pf)) of
          None \<Rightarrow> raiseM (ArtifactIntegrityError (''artifact is not valid JSON: '' @ path_str (am_path a)))
        | Some content \<Rightarrow> liftM (check_content pf a content))))"

subsection \<open>What was written\<close>

lemma artifact_payload_some:
  "artifact_payload_of result = Inr (Some d) \<Longrightarrow> dget result ''artifact_payload'' = Some (JObj d)"
  by (auto simp: artifact_payload_of_def dget_none_def split: json.splits option.splits)

lemma artifact_content_get:
  assumes "distinct (map fst d)"
  shows "dget (artifact_content pf job w n t result d) k =
     (case dget d k of Some v \<Rightarrow> Some v | None \<Rightarrow> dget (artifact_content pf job w n t result []) k)"
  by (simp add: artifact_content_def dupdate_get_distinct [OF assms] dupdate_get_distinct [of "[]"] split: option.split)

lemma artifact_content_printable:
  assumes "printable fr fp (JObj result)" "printable fr fp (JObj d)"
  shows "printable fr fp (JObj (artifact_content pf job w n t result d))"
  unfolding artifact_content_def
  using assms by (intro printable_dupdate) (auto split: option.splits dest: map_of_SomeD)

text \<open>Writing the link leaves every other file as it was.\<close>

lemma read_eval_result_state: "read_eval_result pf p fs = (r, fs') \<Longrightarrow> fs' = fs"
  by (auto simp: read_eval_result_def bindM_eq dest: read_text_state split: prod.splits sum.splits if_splits)

lemma cross_link_other_file:
  assumes "upsert_eval_result_cross_link pf e p j d fs = (Inr (), fs')"
    and "node_at fs p' = Some (File b)" "follow 40 fs' e \<noteq> follow 40 fs' p'"
  shows "node_at fs' p' = Some (File b)"
  using assms(1) unfolding upsert_eval_result_cross_link_def
proof (elim thenM_InrE bindM_InrE, goal_cases)
  case (1 u fs1 v fs2)
  from node_at_mkdir [OF 1(1) assms(2)] have n1: "node_at fs1 p' = Some (File b)" by simp
  have "fs2 = fs1" using read_eval_result_state [OF 1(2)] .
  then obtain s where "write_text e s fs1 = (Inr (), fs')" using 1(3) by (cases v) auto
  then obtain q where q: "follow 40 fs1 e = Some q" "fs' = AList.update q (File (utf8_encode s)) fs1"
    by (auto simp: write_text_def write_bytes_def split: if_splits option.splits)
  obtain t where t: "follow 40 fs1 p' = Some t" using n1 by (auto simp: node_at_def split: if_splits option.splits)
  have "follow 40 fs' p' = Some t" "follow 40 fs' e = Some q"
    using q follow_end [OF q(1)] t by (auto intro!: follow_update)
  with assms(3) have "q \<noteq> t" by simp
  with node_at_update [OF t, of q "File (utf8_encode s)"] n1 q(2) follow_end [OF q(1)] show ?case by simp
qed

subsection \<open>Where it is written\<close>

lemma path_of_name: "s \<noteq> [] \<Longrightarrow> CHR ''/'' \<notin> set s \<Longrightarrow> s \<noteq> ''.'' \<Longrightarrow> path_of s = Path [] [s]"
  by (cases s) (auto simp: path_of_def path_parts_def split_on_absent)

lemma path_of_uuid: "path_of (uuid_str u) = Path [] [uuid_str u]"
proof (rule path_of_name)
  show "CHR ''/'' \<notin> set (uuid_str u)"
  proof
    assume "CHR ''/'' \<in> set (uuid_str u)"
    from uuid_str_chars [OF this] obtain d where d: "d < 16" "CHR ''/'' = digit_char d" by (elim disjE exE conjE) simp_all
    have "digit_val 16 CHR ''/'' = Some d" unfolding d(2) using d(1) by (rule digit_val_char) simp
    then show False by (simp add: digit_val_def)
  qed
  have n: "length (uuid_str u) = 36" using uuid_hex_props(1) [of u] by (simp add: uuid_str_def Let_def)
  have "length ''.'' \<noteq> (36 :: nat)" "length [] \<noteq> (36 :: nat)" by simp_all
  with n show "uuid_str u \<noteq> ''.''" "uuid_str u \<noteq> []" by (metis, metis list.size(3))
qed

lemma path_of_attempt: "path_of (''attempt-'' @ py_str_int n @ ''.json'') = Path [] [''attempt-'' @ py_str_int n @ ''.json'']"
proof (rule path_of_name)
  have "CHR ''/'' \<notin> set (nat_digits k)" for k
  proof
    assume "CHR ''/'' \<in> set (nat_digits k)"
    with nat_digits_head [of k] have "is_digit CHR ''/''" by blast
    then show False by (simp add: is_digit_def digit_val_def)
  qed
  then show "CHR ''/'' \<notin> set (''attempt-'' @ py_str_int n @ ''.json'')" by (simp add: py_str_int_def)
qed simp_all

lemma artifact_path_inside:
  "artifact_path base job n =
     Path (p_root base) (p_parts base @ [uuid_str (job_id job), ''attempt-'' @ py_str_int n @ ''.json''])"
  by (simp add: artifact_path_def path_join_def path_of_uuid path_of_attempt [simplified] Let_def)

subsection \<open>The check of a written artifact\<close>

definition payload_items :: "items \<Rightarrow> items" where
  "payload_items result = (case dget_none result ''artifact_payload'' of JObj d \<Rightarrow> d | _ \<Rightarrow> [])"

lemma artifact_payload_items:
  "artifact_payload_of result = Inr p \<Longrightarrow> (case p of None \<Rightarrow> [] | Some d \<Rightarrow> d) = payload_items result"
  by (auto simp: artifact_payload_of_def payload_items_def split: json.splits)

lemma payload_items_printable: "printable fr fp (JObj result) \<Longrightarrow> printable fr fp (JObj (payload_items result))"
proof (cases "dget result ''artifact_payload''")
  case (Some v)
  moreover assume "printable fr fp (JObj result)"
  ultimately have "printable fr fp v" by (rule printable_get [rotated])
  with Some show ?thesis by (cases v) (simp_all add: payload_items_def dget_none_def)
qed (simp add: payload_items_def dget_none_def)

lemma written_artifact:
  assumes "write_stub_job_artifact pf base t job w n result fs = (Inr a, fs')"
    and "\<forall>e. am_eval_result_path a = Some e \<longrightarrow> follow 40 fs' (path_of e) \<noteq> follow 40 fs' (am_path a)"
  obtains b where "b = utf8_encode (dump_json indent_style (float_repr pf) 0
      (JObj (artifact_content pf job w n t result (payload_items result))))"
    "node_at fs' (artifact_path base job n) = Some (File b)"
    "a = \<lparr>am_path = artifact_path base job n, am_size_bytes = int (length b), am_sha256 = sha256_hex pf b,
       am_job_id = uuid_str (job_id job), am_run_id = uuid_str (job_run_id job), am_attempt_number = n,
       am_input_digest = payload_sha256 pf (job_payload job), am_created_at = t,
       am_eval_result_path = eval_path_in pf (Some (payload_items result))\<rparr>"
  using assms(1) unfolding write_stub_job_artifact_def Let_def
proof (elim thenM_InrE bindM_InrE, goal_cases)
  case (1 u1 fs1 p fs2 u2 fs3 u3 fs4)
  let ?b = "utf8_encode (dump_json indent_style (float_repr pf) 0
      (JObj (artifact_content pf job w n t result (payload_items result))))"
  have p: "artifact_payload_of result = Inr p" "fs2 = fs1" using 1(3) by simp_all
  note items = artifact_payload_items [OF p(1)]
  have e: "eval_path_in pf p = eval_path_in pf (Some (payload_items result))"
    using items by (cases p) (auto simp: eval_path_in_def dget_none_def)
  have a: "a = \<lparr>am_path = artifact_path base job n, am_size_bytes = int (length ?b), am_sha256 = sha256_hex pf ?b,
       am_job_id = uuid_str (job_id job), am_run_id = uuid_str (job_run_id job), am_attempt_number = n,
       am_input_digest = payload_sha256 pf (job_payload job), am_created_at = t,
       am_eval_result_path = eval_path_in pf (Some (payload_items result))\<rparr>" "fs4 = fs'"
    using 1(6) items e by simp_all
  have w: "node_at fs3 (artifact_path base job n) = Some (File ?b)"
    using 1(4) items read_after_write(3) by (cases p) auto
  have "node_at fs' (artifact_path base job n) = Some (File ?b)"
  proof (cases "eval_path_in pf p")
    case None
    with 1(5) w a(2) show ?thesis by simp
  next
    case (Some ep)
    with 1(5) a(2) have "upsert_eval_result_cross_link pf (path_of ep) (artifact_path base job n) (uuid_str (job_id job))
        (case p of None \<Rightarrow> [] | Some d \<Rightarrow> d) fs3 = (Inr (), fs')" by simp
    from cross_link_other_file [OF this w] assms(2) Some e a(1) show ?thesis by simp
  qed
  with a(1) 1(1) show ?case by blast
qed

lemma expected_fields_member:
  "(k, v) \<in> set (expected_fields a) \<longleftrightarrow> k = ''job_id'' \<and> v = JStr (am_job_id a) \<or> k = ''run_id'' \<and> v = JStr (am_run_id a)
     \<or> k = ''attempt_number'' \<and> v = JInt (am_attempt_number a) \<or> k = ''input_digest'' \<and> v = JStr (am_input_digest a)
     \<or> k = ''created_at'' \<and> v = JStr (isoformat (am_created_at a))
     \<or> k = ''eval_result_path'' \<and> (\<exists>e. am_eval_result_path a = Some e \<and> v = JStr e)"
  by (cases "am_eval_result_path a") (simp_all add: expected_fields_def)

lemma base_content:
  "artifact_content pf job w n t result [] =
     [(''job_id'', JStr (uuid_str (job_id job))), (''run_id'', JStr (uuid_str (job_run_id job))),
      (''input_digest'', JStr (payload_sha256 pf (job_payload job))), (''worker_id'', JStr w),
      (''attempt_number'', JInt n), (''created_at'', JStr (isoformat t)),
      (''result_summary'', (case dget result ''summary'' of None \<Rightarrow> JStr [] | Some v \<Rightarrow> v))]"
  by (simp add: artifact_content_def dupdate_def)

lemma eval_path_in_key: "eval_path_in pf (Some d) = Some e \<Longrightarrow> dget d ''eval_result_path'' \<noteq> None"
  by (simp add: eval_path_in_def dget_none_def split: option.splits)

lemma base_content_fields:
  assumes "(k, v) \<in> set (expected_fields a)"
    and "a = \<lparr>am_path = p, am_size_bytes = s, am_sha256 = h, am_job_id = uuid_str (job_id job),
       am_run_id = uuid_str (job_run_id job), am_attempt_number = n,
       am_input_digest = payload_sha256 pf (job_payload job), am_created_at = t, am_eval_result_path = eval_path_in pf (Some d)\<rparr>"
  shows "dget d k = None \<Longrightarrow> dget (artifact_content pf job w n t result []) k = Some v"
    "(\<exists>x. v = JStr x) \<or> (\<exists>i. v = JInt i)"
proof -
  show "dget (artifact_content pf job w n t result []) k = Some v" if none: "dget d k = None"
  proof (cases "k = ''eval_result_path''")
    case True
    with assms obtain e where "eval_path_in pf (Some d) = Some e" by (auto simp: expected_fields_member)
    from eval_path_in_key [OF this] none True show ?thesis by simp
  next
    case False
    with assms(1) show ?thesis unfolding expected_fields_member base_content by (elim disjE conjE) (simp_all add: assms(2))
  qed
  show "(\<exists>x. v = JStr x) \<or> (\<exists>i. v = JInt i)"
    using assms(1) unfolding expected_fields_member by (elim disjE conjE exE) simp_all
qed

lemma py_eq_canon: "(\<exists>x. v = JStr x) \<or> (\<exists>i. v = JInt i) \<Longrightarrow> py_eq (canon u) v = py_eq u v"
  by (auto simp: py_eq_str py_eq_int)

text \<open>
  C38. When exactly a written artifact passes its check: right after the store wrote an artifact, with
  the result file of the evaluation not being the artifact itself, the check against the metadata that
  the store returned succeeds if and only if every identity field that the job's \<open>artifact_payload\<close>
  has as a key of its own equals the identity of the job; otherwise the check raises
  \<open>ArtifactIntegrityError\<close>. It changes no file.
\<close>

theorem artifact_valid_iff:
  assumes "write_stub_job_artifact pf base t job w n result fs = (Inr a, fs')"
    and "printable (float_repr pf) (float_parse pf) (JObj result)"
    and "\<forall>e. am_eval_result_path a = Some e \<longrightarrow> follow 40 fs' (path_of e) \<noteq> follow 40 fs' (am_path a)"
  shows "(validate_artifact_integrity pf a fs' = (Inr (), fs') \<longleftrightarrow>
      (\<forall>(k, v) \<in> set (expected_fields a). \<forall>u. dget (payload_items result) k = Some u \<longrightarrow> py_eq u v))
    \<and> (validate_artifact_integrity pf a fs' = (Inr (), fs') \<or>
      (\<exists>msg. validate_artifact_integrity pf a fs' = (Inl (ArtifactIntegrityError msg), fs')))"
proof -
  let ?d = "payload_items result"
  let ?c = "artifact_content pf job w n t result ?d"
  obtain b where b: "b = utf8_encode (dump_json indent_style (float_repr pf) 0 (JObj ?c))"
    "node_at fs' (artifact_path base job n) = Some (File b)"
    "a = \<lparr>am_path = artifact_path base job n, am_size_bytes = int (length b), am_sha256 = sha256_hex pf b,
       am_job_id = uuid_str (job_id job), am_run_id = uuid_str (job_run_id job), am_attempt_number = n,
       am_input_digest = payload_sha256 pf (job_payload job), am_created_at = t,
       am_eval_result_path = eval_path_in pf (Some ?d)\<rparr>"
    by (rule written_artifact [OF assms(1,3)])
  have pd: "printable (float_repr pf) (float_parse pf) (JObj ?d)" by (rule payload_items_printable [OF assms(2)])
  then have dist: "distinct (map fst ?d)" by simp
  have pc: "printable (float_repr pf) (float_parse pf) (JObj ?c)" by (rule artifact_content_printable [OF assms(2) pd])
  then obtain e where e: "canon (JObj ?c) = JObj e" "\<And>k. dget e k = map_option canon (dget ?c k)"
    using canon_object [of ?c] by auto
  have "loads (float_parse pf) (dump_json indent_style (float_repr pf) 0 (JObj ?c)) = Some (JObj e)"
    using loads_dump [OF styles_ok(3) pc, of 0] e(1) by simp
  then have run: "validate_artifact_integrity pf a fs' = (check_content pf a (JObj e), fs')"
    using b by (simp add: validate_artifact_integrity_def is_file_def read_bytes_def bindM_eq)
  have field: "py_eq (dget_none e k) v \<longleftrightarrow> (\<forall>u. dget ?d k = Some u \<longrightarrow> py_eq u v)"
    if kv: "(k, v) \<in> set (expected_fields a)" for k v
  proof -
    note base = base_content_fields [OF kv b(3)]
    have "py_eq v v" using base(2) by (auto simp: py_eq_str py_eq_int number_of_def)
    then show ?thesis using base(1) [of w result] py_eq_canon [OF base(2)]
      by (auto simp: dget_none_def e(2) artifact_content_get [OF dist] split: option.splits)
  qed
  have "validate_artifact_integrity pf a fs' = (Inr (), fs') \<longleftrightarrow>
      (\<forall>(k, v) \<in> set (expected_fields a). \<forall>u. dget ?d k = Some u \<longrightarrow> py_eq u v)"
  proof -
    have "validate_artifact_integrity pf a fs' = (Inr (), fs') \<longleftrightarrow> find (\<lambda>(k, v). \<not> py_eq (dget_none e k) v) (expected_fields a) = None"
      unfolding run check_content_def by (auto split: option.splits)
    also have "\<dots> \<longleftrightarrow> (\<forall>(k, v) \<in> set (expected_fields a). py_eq (dget_none e k) v)"
      by (auto simp: find_None_iff)
    also have "\<dots> \<longleftrightarrow> (\<forall>(k, v) \<in> set (expected_fields a). \<forall>u. dget ?d k = Some u \<longrightarrow> py_eq u v)"
      using field by auto
    finally show ?thesis .
  qed
  moreover have "validate_artifact_integrity pf a fs' = (Inr (), fs') \<or>
      (\<exists>msg. validate_artifact_integrity pf a fs' = (Inl (ArtifactIntegrityError msg), fs'))"
    unfolding run check_content_def by (auto split: option.splits)
  ultimately show ?thesis ..
qed

definition artifact_job :: job_record where
  "artifact_job = \<lparr>job_id = 7, job_run_id = 8, job_type = ''stub'', job_payload = [(''index'', JInt 0)], job_payload_hash = [],
     job_idempotency_key = ''k'', job_status = ''running'', job_timeout_seconds = 30, job_max_retries = 1, job_trace_id = ''t'',
     job_budget_cents = None, job_created_at = 0, job_updated_at = 0\<rparr>"

definition artifact_time :: datetime where
  "artifact_time = \<lparr>dt_year = 2025, dt_month = 1, dt_day = 2, dt_hour = 3, dt_minute = 4, dt_second = 5,
     dt_microsecond = 0, dt_utcoffset = Some 0\<rparr>"

lemma artifact_written_on_empty_disk:
  assumes "artifact_payload_of result = Inr p" "eval_path_in pf p = None"
  shows "\<exists>a fs'. write_stub_job_artifact pf (Path [] [''r'']) t job w n result [] = (Inr a, fs') \<and> am_eval_result_path a = None"
proof -
  have dirs: "map (\<lambda>m. take m [''r'', uuid_str (job_id job)]) [1..<Suc (length [''r'', uuid_str (job_id job)])] =
      [[''r''], [''r'', uuid_str (job_id job)]]" by (simp add: upt_conv_Cons)
  have anc: "ancestors (Path [] [''r'', uuid_str (job_id job)]) = [Path [] [''r''], Path [] [''r'', uuid_str (job_id job)]]"
    unfolding ancestors_def by (simp add: upt_conv_Cons)
  show ?thesis
    using assms unfolding write_stub_job_artifact_def artifact_path_inside
    by (simp add: path_join_def path_of_uuid Let_def mkdir_parents_def anc thenM_eq bindM_eq is_dir_def node_at_def
        write_bytes_def path_parent_def follow_not_link)
qed

lemma artifact_valid_iff_witness:
  "(\<exists>a fs'. write_stub_job_artifact text_platform (Path [] [''r'']) artifact_time artifact_job ''w'' 1 [(''summary'', JStr ''ok'')] [] = (Inr a, fs')
      \<and> validate_artifact_integrity text_platform a fs' = (Inr (), fs'))
   \<and> (\<exists>a fs' msg. write_stub_job_artifact text_platform (Path [] [''r'']) artifact_time artifact_job ''w'' 1
        [(''artifact_payload'', JObj [(''attempt_number'', JInt 2)])] [] = (Inr a, fs')
      \<and> validate_artifact_integrity text_platform a fs' = (Inl (ArtifactIntegrityError msg), fs'))"
proof
  let ?ok = "[(''summary'', JStr ''ok'')]" and ?bad = "[(''artifact_payload'', JObj [(''attempt_number'', JInt 2)])]"
  let ?wr = "\<lambda>result. write_stub_job_artifact text_platform (Path [] [''r'']) artifact_time artifact_job ''w'' 1 result []"
  have ok: "artifact_payload_of ?ok = Inr None" "artifact_payload_of ?bad = Inr (Some [(''attempt_number'', JInt 2)])"
    "payload_items ?ok = []" "payload_items ?bad = [(''attempt_number'', JInt 2)]"
    by (simp_all add: artifact_payload_of_def dget_none_def payload_items_def)
  have none: "eval_path_in text_platform None = None" "eval_path_in text_platform (Some [(''attempt_number'', JInt 2)]) = None"
    by (simp_all add: eval_path_in_def dget_none_def)
  obtain a fs' where a: "?wr ?ok = (Inr a, fs')" "am_eval_result_path a = None"
    using artifact_written_on_empty_disk [OF ok(1) none(1)] by blast
  from artifact_valid_iff [OF a(1)] a show "\<exists>a fs'. ?wr ?ok = (Inr a, fs')
      \<and> validate_artifact_integrity text_platform a fs' = (Inr (), fs')" by (auto simp: ok)
  obtain b fs2 where b: "?wr ?bad = (Inr b, fs2)" "am_eval_result_path b = None"
    using artifact_written_on_empty_disk [OF ok(2) none(2)] by blast
  have "am_attempt_number b = 1"
    by (rule written_artifact [OF b(1)]) (simp_all add: b(2))
  then have "(''attempt_number'', JInt 1) \<in> set (expected_fields b)" by (simp add: expected_fields_member)
  moreover have "dget (payload_items ?bad) ''attempt_number'' = Some (JInt 2)" "\<not> py_eq (JInt 2) (JInt 1)"
    by (simp_all add: ok number_of_def)
  ultimately have "\<not> (\<forall>(k, v) \<in> set (expected_fields b). \<forall>u. dget (payload_items ?bad) k = Some u \<longrightarrow> py_eq u v)" by blast
  with artifact_valid_iff [OF b(1)] b show "\<exists>a fs' msg. ?wr ?bad = (Inr a, fs')
      \<and> validate_artifact_integrity text_platform a fs' = (Inl (ArtifactIntegrityError msg), fs')" by auto
qed

text \<open>Metadata that was stored in an event is read back as it was.\<close>

lemma metadata_round_trip:
  assumes "wf_path (am_path a)" "fromisoformat (isoformat (am_created_at a)) = Inr (am_created_at a)"
  shows "from_dict pf fromisoformat (to_dict a) = Inr a"
proof -
  have "path_of (path_str (am_path a)) = am_path a" by (rule path_of_str [OF assms(1)])
  then show ?thesis using assms(2)
    by (cases "am_eval_result_path a")
       (simp_all add: to_dict_def from_dict_def str_item_def int_item_def py_str_def int_of_json_def dget_none_def)
qed

subsection \<open>The link in the result file\<close>

definition link_fields :: "pystr \<Rightarrow> path \<Rightarrow> items \<Rightarrow> items" where
  "link_fields jid p d = [(''case_id'', dget_none d ''case_id''), (''quality_status'', dget_none d ''quality_status''),
     (''runtime_artifact_path'', JStr (portable_artifact_path jid p))]"

lemma cross_link_written:
  assumes "upsert_eval_result_cross_link pf e p j d fs = (Inr (), fs')"
    and "\<And>r fs1. read_eval_result pf e fs1 = (Inr r, fs1) \<Longrightarrow> mkdir_parents (path_parent e) fs = (Inr (), fs1) \<Longrightarrow>
        printable (float_repr pf) (float_parse pf) r"
    and "printable (float_repr pf) (float_parse pf) (JObj d)"
    and "\<forall>q. CHR 0x0D \<notin> set (float_repr pf q)"
  shows "\<exists>r fs1 s c. read_eval_result pf e fs1 = (Inr (JObj r), fs1) \<and> mkdir_parents (path_parent e) fs = (Inr (), fs1)
    \<and> read_text e fs' = (Inr s, fs') \<and> loads (float_parse pf) s = Some (JObj c)
    \<and> (\<forall>k. dget c k = map_option canon (case dget (link_fields j p d) k of Some v \<Rightarrow> Some v | None \<Rightarrow> dget r k))"
  using assms(1) unfolding upsert_eval_result_cross_link_def link_fields_def [symmetric]
proof (elim thenM_InrE bindM_InrE, goal_cases)
  case (1 u fs1 v fs2)
  have "fs2 = fs1" using read_eval_result_state [OF 1(2)] .
  with 1 obtain r where r: "read_eval_result pf e fs1 = (Inr (JObj r), fs1)" "mkdir_parents (path_parent e) fs = (Inr (), fs1)"
    and w: "write_text e (dump_json indent_style (float_repr pf) 0 (JObj (dupdate r (link_fields j p d)))) fs1 = (Inr (), fs')"
    by (cases v) auto
  let ?d = "dupdate r (link_fields j p d)"
  have dn: "printable (float_repr pf) (float_parse pf) (dget_none d k)" for k
    using printable_get [OF assms(3)] by (auto simp: dget_none_def split: option.splits)
  have pr: "printable (float_repr pf) (float_parse pf) (JObj ?d)"
    using assms(2) [OF r] dn by (intro printable_dupdate) (auto simp: link_fields_def)
  then obtain c where c: "canon (JObj ?d) = JObj c" "\<And>k. dget c k = map_option canon (dget ?d k)"
    using canon_object [of ?d] by auto
  have "CHR 0x0D \<notin> set (dump_json indent_style (float_repr pf) 0 (JObj ?d))"
    using assms(4) by (intro dump_no_cr) (simp_all add: indent_style_def)
  from read_text_after_write [OF w this] loads_dump [OF styles_ok(3) pr, of 0] c(1)
  have "\<exists>s. read_text e fs' = (Inr s, fs') \<and> loads (float_parse pf) s = Some (JObj c)" by auto
  moreover have "dget c k = map_option canon (case dget (link_fields j p d) k of Some v \<Rightarrow> Some v | None \<Rightarrow> dget r k)" for k
    unfolding c(2) by (subst dupdate_get_distinct) (auto simp: link_fields_def split: option.split)
  ultimately show ?case using r by blast
qed

end
