(* ===== verification/Inspection.thy ===== *)
theory Inspection
  imports Worker RedisReference
begin

section \<open>Inspecting the queue\<close>

text \<open>
  \<open>queue/inspection.py\<close>: the backpressure snapshot of a run. The three Redis commands that only the
  inspection uses are an extension of the client; the locale \<open>redis_inspection\<close> states what Redis
  documents of them. Times of events are microseconds, and the seconds, ages and ratios of the
  snapshot are rational numbers: the rounding of the last bit of a Python float is not modelled.
  \<open>int((n - 1) * 0.95)\<close> is the floor of the exact product, which the product of doubles agrees with
  for the lists of at most three million values that it was compared for.
\<close>

subsection \<open>The client commands\<close>

record group_info =
  gi_name :: pystr
  gi_pending :: "int option"
  gi_lag :: "int option"

record 's inspection_client =
  xinfo_groups :: "pystr \<Rightarrow> ('s, group_info list) prog"
  xpending_sample :: "pystr \<Rightarrow> pystr \<Rightarrow> pystr \<Rightarrow> pystr \<Rightarrow> int \<Rightarrow> ('s, pending_info list) prog"
  xlen :: "pystr \<Rightarrow> ('s, int) prog"

definition as_int :: "int option \<Rightarrow> int" where
  "as_int value = (case value of None \<Rightarrow> 0 | Some i \<Rightarrow> i)"

definition consumer_group_info :: "'s inspection_client \<Rightarrow> queue_config \<Rightarrow> ('s, group_info) prog" where
  "consumer_group_info ic cfg = bindM (xinfo_groups ic (stream_name cfg)) (\<lambda>groups.
     case find (\<lambda>g. gi_name g = consumer_group cfg) groups of
       Some g \<Rightarrow> returnM g
     | None \<Rightarrow> returnM \<lparr>gi_name = [], gi_pending = Some 0, gi_lag = Some 0\<rparr>)"

subsection \<open>The events of a run\<close>

text \<open>\<open>events_by_job[row["job_id"]].append(...)\<close> on a \<open>defaultdict(list)\<close>\<close>

definition append_event :: "job_event_record \<Rightarrow> (uuid \<times> job_event_record list) list \<Rightarrow> (uuid \<times> job_event_record list) list" where
  "append_event e acc =
     AList.update (ev_job_id e) ((case map_of acc (ev_job_id e) of None \<Rightarrow> [] | Some es \<Rightarrow> es) @ [e]) acc"

definition events_by_job :: "job_event_record list \<Rightarrow> (uuid \<times> job_event_record list) list" where
  "events_by_job rows = fold append_event rows []"

definition first_event_time :: "job_event_record list \<Rightarrow> pystr \<Rightarrow> int option" where
  "first_event_time events event_type = map_option ev_created_at (find (\<lambda>e. ev_type e = event_type) events)"

definition first_terminal_event_time :: "job_event_record list \<Rightarrow> int option" where
  "first_terminal_event_time events = map_option ev_created_at (find (\<lambda>e. ev_type e \<in> TERMINAL_STATUSES) events)"

text \<open>\<open>max(0.0, (b - a).total_seconds())\<close>, when both times are there\<close>

definition elapsed_seconds :: "int option \<Rightarrow> int option \<Rightarrow> rat list" where
  "elapsed_seconds a b = (case (a, b) of
     (Some t, Some u) \<Rightarrow> [max 0 (of_int (u - t) / 1000000)] | _ \<Rightarrow> [])"

definition queue_wait :: "job_event_record list \<Rightarrow> rat list" where
  "queue_wait events = elapsed_seconds (first_event_time events ''submitted'') (first_event_time events ''running'')"

definition execution_duration :: "job_event_record list \<Rightarrow> rat list" where
  "execution_duration events = elapsed_seconds (first_event_time events ''running'') (first_terminal_event_time events)"

definition p95 :: "rat list \<Rightarrow> rat" where
  "p95 values = (if values = [] then 0
     else let sorted_values = sort values; index = (length sorted_values - 1) * 95 div 100 in sorted_values ! index)"

subsection \<open>The snapshot\<close>

record database_metrics =
  dm_running_jobs :: nat
  dm_retry_rate :: rat
  dm_p95_queue_wait_seconds :: rat
  dm_p95_execution_seconds :: rat

definition database_backpressure_metrics :: "uuid option \<Rightarrow> (database, database_metrics) prog" where
  "database_backpressure_metrics run_id = getM (\<lambda>db.
     let own_jobs = filter (\<lambda>r. run_matches run_id (job_run_id r)) (jobs db);
         own_events = filter (\<lambda>e. run_matches run_id (ev_run_id e)) (job_events db);
         submitted_jobs = length own_jobs;
         retry_count = length (filter (\<lambda>e. ev_type e = ''retry_scheduled'') own_events);
         groups = map snd (events_by_job own_events)
     in \<lparr>dm_running_jobs = length (filter (\<lambda>r. job_status r = ''running'') own_jobs),
         dm_retry_rate = (if submitted_jobs \<noteq> 0 then of_nat retry_count / of_nat submitted_jobs else 0),
         dm_p95_queue_wait_seconds = p95 (concat (map queue_wait groups)),
         dm_p95_execution_seconds = p95 (concat (map execution_duration groups))\<rparr>)"

record backpressure_snapshot =
  bs_queue_depth :: int
  bs_oldest_pending_age_seconds :: rat
  bs_consumer_lag :: int
  bs_leased_jobs :: int
  bs_running_jobs :: nat
  bs_worker_utilization :: rat
  bs_retry_rate :: rat
  bs_dlq_count :: int
  bs_p95_queue_wait_seconds :: rat
  bs_p95_execution_seconds :: rat

definition oldest_pending_age :: "pending_info list \<Rightarrow> rat" where
  "oldest_pending_age entries = (if entries = [] then 0
     else of_int (Max (set (map pi_time_since_delivered entries))) / 1000)"

definition utilization :: "nat \<Rightarrow> int option \<Rightarrow> rat" where
  "utilization running worker_count = (case worker_count of
     Some n \<Rightarrow> if 0 < n then min 1 (of_nat running / of_int n) else 0 | None \<Rightarrow> 0)"

definition inspect_queue_backpressure ::
    "'r redis_client \<Rightarrow> 'r inspection_client \<Rightarrow> queue_config \<Rightarrow> uuid option \<Rightarrow> int option \<Rightarrow> int
      \<Rightarrow> (('r, 'e) world, backpressure_snapshot) prog" where
  "inspect_queue_backpressure rc ic cfg run_id worker_count pending_sample_size =
     thenM (inRedis (ensure_consumer_group rc cfg))
     (bindM (inRedis (consumer_group_info ic cfg)) (\<lambda>group.
      bindM (inRedis (xpending_sample ic (stream_name cfg) (consumer_group cfg) ''-'' ''+'' pending_sample_size)) (\<lambda>entries.
      bindM (inRedis (xlen ic (dlq_stream_name cfg))) (\<lambda>dlq_count.
      bindM (inDb (database_backpressure_metrics run_id)) (\<lambda>dm.
      returnM \<lparr>bs_queue_depth = as_int (gi_pending group) + as_int (gi_lag group),
        bs_oldest_pending_age_seconds = oldest_pending_age entries,
        bs_consumer_lag = as_int (gi_lag group),
        bs_leased_jobs = as_int (gi_pending group),
        bs_running_jobs = dm_running_jobs dm,
        bs_worker_utilization = utilization (dm_running_jobs dm) worker_count,
        bs_retry_rate = dm_retry_rate dm,
        bs_dlq_count = dlq_count,
        bs_p95_queue_wait_seconds = dm_p95_queue_wait_seconds dm,
        bs_p95_execution_seconds = dm_p95_execution_seconds dm\<rparr>)))))"

subsection \<open>Grouping\<close>

lemma append_event_get:
  "map_of (append_event e acc) i = (if i = ev_job_id e
     then Some ((case map_of acc i of None \<Rightarrow> [] | Some es \<Rightarrow> es) @ [e]) else map_of acc i)"
  by (simp add: append_event_def update_conv)

lemma events_fold_get:
  "map_of (fold append_event rows acc) i =
     (case (map_of acc i, filter (\<lambda>e. ev_job_id e = i) rows) of
        (None, []) \<Rightarrow> None | (None, es) \<Rightarrow> Some es | (Some old, es) \<Rightarrow> Some (old @ es))"
  by (induction rows arbitrary: acc) (auto simp: append_event_get split: option.splits list.splits)

lemma events_by_job_get:
  "map_of (events_by_job rows) i =
     (if filter (\<lambda>e. ev_job_id e = i) rows = [] then None else Some (filter (\<lambda>e. ev_job_id e = i) rows))"
  by (simp add: events_by_job_def events_fold_get split: list.splits)

lemma distinct_events_by_job: "distinct (map fst (events_by_job rows))"
proof -
  have "distinct (map fst acc) \<Longrightarrow> distinct (map fst (fold append_event rows acc))" for acc
    by (induction rows arbitrary: acc) (simp_all add: append_event_def distinct_update)
  then show ?thesis by (simp add: events_by_job_def)
qed

lemma events_by_job_member:
  "(i, es) \<in> set (events_by_job rows) \<longleftrightarrow> es \<noteq> [] \<and> es = filter (\<lambda>e. ev_job_id e = i) rows"
  using map_of_eq_Some_iff [OF distinct_events_by_job, of rows i es]
  by (auto simp: events_by_job_get split: if_splits)

subsection \<open>The percentile\<close>

lemma p95_nth:
  assumes "vs \<noteq> []"
  obtains k where "k = (length vs - 1) * 95 div 100" "k < length vs" "p95 vs = sort vs ! k"
proof (rule that [OF refl])
  show "(length vs - 1) * 95 div 100 < length vs"
    using assms by (cases vs) auto
  show "p95 vs = sort vs ! ((length vs - 1) * 95 div 100)"
    using assms by (simp add: p95_def Let_def)
qed

lemma sorted_below:
  assumes "sorted xs" "k < length xs"
  shows "Suc k \<le> length (filter (\<lambda>x. x \<le> xs ! k) xs)" "length xs - k \<le> length (filter (\<lambda>x. xs ! k \<le> x) xs)"
proof -
  have "\<forall>x \<in> set (take (Suc k) xs). x \<le> xs ! k"
    using assms by (auto simp: in_set_conv_nth intro!: sorted_nth_mono)
  then have "filter (\<lambda>x. x \<le> xs ! k) (take (Suc k) xs) = take (Suc k) xs" by (simp add: filter_id_conv)
  moreover have "filter (\<lambda>x. x \<le> xs ! k) xs =
      filter (\<lambda>x. x \<le> xs ! k) (take (Suc k) xs) @ filter (\<lambda>x. x \<le> xs ! k) (drop (Suc k) xs)"
    by (simp only: filter_append [symmetric] append_take_drop_id)
  ultimately have "length (filter (\<lambda>x. x \<le> xs ! k) xs) =
      length (take (Suc k) xs) + length (filter (\<lambda>x. x \<le> xs ! k) (drop (Suc k) xs))"
    by (simp only: length_append)
  with assms show "Suc k \<le> length (filter (\<lambda>x. x \<le> xs ! k) xs)" by simp
  have "\<forall>x \<in> set (drop k xs). xs ! k \<le> x"
    using assms by (auto simp: in_set_conv_nth intro!: sorted_nth_mono)
  then have "filter (\<lambda>x. xs ! k \<le> x) (drop k xs) = drop k xs" by (simp add: filter_id_conv)
  moreover have "filter (\<lambda>x. xs ! k \<le> x) xs =
      filter (\<lambda>x. xs ! k \<le> x) (take k xs) @ filter (\<lambda>x. xs ! k \<le> x) (drop k xs)"
    by (simp only: filter_append [symmetric] append_take_drop_id)
  ultimately have "length (filter (\<lambda>x. xs ! k \<le> x) xs) = length (filter (\<lambda>x. xs ! k \<le> x) (take k xs)) + length (drop k xs)"
    by (simp only: length_append)
  with assms show "length xs - k \<le> length (filter (\<lambda>x. xs ! k \<le> x) xs)" by simp
qed

lemma length_filter_sort: "length (filter P (sort xs)) = length (filter P xs)"
  by (simp add: filter_sort)

subsection \<open>What the snapshot shows\<close>

lemma database_metrics_state: "database_backpressure_metrics run db = (res, db') \<Longrightarrow> db' = db"
  by (simp add: database_backpressure_metrics_def)

lemma utilization_bounds: "0 \<le> utilization n c" "utilization n c \<le> 1"
  by (auto simp: utilization_def split: option.splits)

locale redis_inspection = redis_streams_queue +
  fixes ic :: "'a inspection_client"
  assumes groups_read: "xinfo_groups ic st s = (gr, s') \<Longrightarrow> rview s' = rview s"
    and groups: "xinfo_groups ic (stream_name cfg) s = (Inr gs, s') \<Longrightarrow>
          rv_group (rview s) (stream_name cfg) (consumer_group cfg) = Some (u, p) \<Longrightarrow>
          find (\<lambda>x. gi_name x = consumer_group cfg) gs = Some \<lparr>gi_name = consumer_group cfg,
            gi_pending = Some (int (length p)), gi_lag = Some (int (length u))\<rparr>"
    and sample_read: "xpending_sample ic st g lo hi n s = (pr, s') \<Longrightarrow> rview s' = rview s"
    and sample: "xpending_sample ic st g ''-'' ''+'' n s = (Inr ps, s') \<Longrightarrow>
          (\<exists>u p. rv_group (rview s) st g = Some (u, p) \<and> ps = take (nat n) p)"
    and len_read: "xlen ic st s = (lr, s') \<Longrightarrow> rview s' = rview s"
    and len: "xlen ic st s = (Inr k, s') \<Longrightarrow> k = int (length (rv_entries (rview s) st))"
begin

lemma group_counts:
  assumes "consumer_group_info ic cfg s = (Inr gi, s')" "rv_group (rview s) (stream_name cfg) (consumer_group cfg) \<noteq> None"
  shows "as_int (gi_pending gi) = int (length (qv_leased (qview s)))"
    "as_int (gi_lag gi) = int (length (qv_waiting (qview s)))" "rview s' = rview s"
proof -
  obtain gs where g: "xinfo_groups ic (stream_name cfg) s = (Inr gs, s')"
    using assms(1) by (auto simp: consumer_group_info_def bindM_eq split: prod.splits sum.splits option.splits)
  obtain u p where up: "rv_group (rview s) (stream_name cfg) (consumer_group cfg) = Some (u, p)"
    using assms(2) by auto
  have "gi = \<lparr>gi_name = consumer_group cfg, gi_pending = Some (int (length p)), gi_lag = Some (int (length u))\<rparr>"
    using assms(1) g groups [OF g up] by (simp add: consumer_group_info_def bindM_eq)
  then show "as_int (gi_pending gi) = int (length (qv_leased (qview s)))"
    "as_int (gi_lag gi) = int (length (qv_waiting (qview s)))"
    by (simp_all add: as_int_def queue_view_of_def up)
  show "rview s' = rview s" using groups_read [OF g] .
qed

lemma snapshot_parts:
  assumes "inspect_queue_backpressure rc ic cfg run workers limit w = (Inr snap, w')"
  obtains s1 s2 s3 s4 gi ps k dm where "ensure_consumer_group rc cfg (w_redis w) = (Inr (), s1)"
    "consumer_group_info ic cfg s1 = (Inr gi, s2)"
    "xpending_sample ic (stream_name cfg) (consumer_group cfg) ''-'' ''+'' limit s2 = (Inr ps, s3)"
    "xlen ic (dlq_stream_name cfg) s3 = (Inr k, s4)" "database_backpressure_metrics run (w_db w) = (Inr dm, w_db w)"
    "w' = w\<lparr>w_redis := s4\<rparr>"
    "snap = \<lparr>bs_queue_depth = as_int (gi_pending gi) + as_int (gi_lag gi),
        bs_oldest_pending_age_seconds = oldest_pending_age ps, bs_consumer_lag = as_int (gi_lag gi),
        bs_leased_jobs = as_int (gi_pending gi), bs_running_jobs = dm_running_jobs dm,
        bs_worker_utilization = utilization (dm_running_jobs dm) workers, bs_retry_rate = dm_retry_rate dm,
        bs_dlq_count = k, bs_p95_queue_wait_seconds = dm_p95_queue_wait_seconds dm,
        bs_p95_execution_seconds = dm_p95_execution_seconds dm\<rparr>"
  using assms unfolding inspect_queue_backpressure_def inRedis_def inDb_def
proof (elim bindM_onM_InrE thenM_onM_InrE, goal_cases)
  case (1 u s1 gi s2 ps s3 k s4 dm s5)
  moreover from 1 have "s5 = w_db w" by (simp add: database_metrics_state)
  ultimately show ?case by (intro that [of s1 gi s2 ps s3 k s4 dm]) simp_all
qed

lemma snapshot_view:
  assumes "inspect_queue_backpressure rc ic cfg run workers limit w = (Inr snap, w')"
  shows "w_db w' = w_db w \<and> qview (w_redis w') = qview (w_redis w)
    \<and> bs_leased_jobs snap = int (length (qv_leased (qview (w_redis w))))
    \<and> bs_consumer_lag snap = int (length (qv_waiting (qview (w_redis w))))
    \<and> bs_queue_depth snap = bs_leased_jobs snap + bs_consumer_lag snap
    \<and> bs_dlq_count snap = int (length (qv_dead (qview (w_redis w))))
    \<and> bs_oldest_pending_age_seconds snap = oldest_pending_age (take (nat limit) (qv_leased (qview (w_redis w))))
    \<and> bs_running_jobs snap = length (filter (\<lambda>r. run_matches run (job_run_id r) \<and> job_status r = ''running'') (jobs (w_db w)))
    \<and> 0 \<le> bs_worker_utilization snap \<and> bs_worker_utilization snap \<le> 1"
  using assms
proof (cases rule: snapshot_parts)
  case (1 s1 s2 s3 s4 gi ps k dm)
  note v1 = ensure_group [OF 1(1)]
  note g = group_counts [OF 1(2) v1(2) [OF refl]]
  have v3: "rview s3 = rview s2" "rview s4 = rview s3" using sample_read [OF 1(3)] len_read [OF 1(4)] .
  have "ps = take (nat limit) (qv_leased (qview s2))" using sample [OF 1(3)] by (auto simp: queue_view_of_def)
  moreover have "k = int (length (qv_dead (qview s3)))" using len [OF 1(4)] by (simp add: queue_view_of_def)
  moreover have "dm_running_jobs dm = length (filter (\<lambda>r. run_matches run (job_run_id r) \<and> job_status r = ''running'') (jobs (w_db w)))"
    using 1(5) by (auto simp: database_backpressure_metrics_def Let_def conj_commute)
  ultimately show ?thesis
    using g v1(1) v3 by (simp add: 1(6,7) utilization_bounds)
qed

end

subsection \<open>The reference server\<close>

definition mem_inspection :: "redis_view inspection_client" where
  "mem_inspection = \<lparr>
     xinfo_groups = (\<lambda>st v. (case rv_group v st (consumer_group default_queue_config) of
        None \<Rightarrow> (Inl (RedisResponseError ''no such key''), v)
      | Some (u, p) \<Rightarrow> (Inr [\<lparr>gi_name = consumer_group default_queue_config, gi_pending = Some (int (length p)),
           gi_lag = Some (int (length u))\<rparr>], v))),
     xpending_sample = (\<lambda>st g lo hi n v. (case rv_group v st g of
        None \<Rightarrow> (Inl (RedisResponseError ''NOGROUP''), v) | Some (u, p) \<Rightarrow> (Inr (take (nat n) p), v))),
     xlen = (\<lambda>st. getM (\<lambda>v. int (length (rv_entries v st))))\<rparr>"


interpretation mem_inspect: redis_inspection mem_redis "\<lambda>v. v" default_queue_config mem_inspection
  by unfold_locales (auto simp: mem_inspection_def default_queue_config_def split: option.splits)

subsection \<open>Properties\<close>

text \<open>
  The snapshot tells the truth about the queue and the registry and changes neither: the leased
  jobs, the consumer lag and the dead letters are the numbers of leases, waiting entries and dead
  letters, the depth is their sum, the oldest age is that of the oldest lease in the sample, the
  running jobs are the rows of the run with status \<open>running\<close>, and the utilization is between 0 and 1.
\<close>

theorem inspection_snapshot:
  assumes "redis_inspection rc rview cfg ic"
    and "inspect_queue_backpressure rc ic cfg run workers limit w = (Inr snap, w')"
  shows "w_db w' = w_db w \<and> queue_view_of cfg (rview (w_redis w')) = queue_view_of cfg (rview (w_redis w))
    \<and> bs_leased_jobs snap = int (length (qv_leased (queue_view_of cfg (rview (w_redis w)))))
    \<and> bs_consumer_lag snap = int (length (qv_waiting (queue_view_of cfg (rview (w_redis w)))))
    \<and> bs_queue_depth snap = bs_leased_jobs snap + bs_consumer_lag snap
    \<and> bs_dlq_count snap = int (length (qv_dead (queue_view_of cfg (rview (w_redis w)))))
    \<and> bs_oldest_pending_age_seconds snap =
        oldest_pending_age (take (nat limit) (qv_leased (queue_view_of cfg (rview (w_redis w)))))
    \<and> bs_running_jobs snap = length (filter (\<lambda>r. run_matches run (job_run_id r) \<and> job_status r = ''running'') (jobs (w_db w)))
    \<and> 0 \<le> bs_worker_utilization snap \<and> bs_worker_utilization snap \<le> 1"
  by (rule redis_inspection.snapshot_view [OF assms])

definition leased_world :: "(redis_view, unit) world" where
  "leased_world = \<lparr>w_db = empty_database 0, w_redis = one_leased, w_registry = (\<lambda>_. None), w_env = ()\<rparr>"

lemma inspection_snapshot_witness:
  "\<exists>snap w'. inspect_queue_backpressure mem_redis mem_inspection default_queue_config None (Some 4) 1000 leased_world = (Inr snap, w')
    \<and> bs_leased_jobs snap = 1 \<and> bs_consumer_lag snap = 1 \<and> bs_queue_depth snap = 2"
proof -
  have run: "\<exists>snap w'. inspect_queue_backpressure mem_redis mem_inspection default_queue_config None (Some 4) 1000 leased_world = (Inr snap, w')"
    by (simp add: inspect_queue_backpressure_def leased_world_def inRedis_def inDb_def onM_def one_leased_def two_published_def
        mem_simps mem_inspection_def consumer_group_info_def database_backpressure_metrics_def Let_def nat_digits.simps fresh_lease_def)
  then obtain snap w' where snap: "inspect_queue_backpressure mem_redis mem_inspection default_queue_config None (Some 4) 1000 leased_world = (Inr snap, w')"
    by blast
  have v: "length (qv_leased (queue_view_of default_queue_config (w_redis leased_world))) = 1"
    "length (qv_waiting (queue_view_of default_queue_config (w_redis leased_world))) = 1"
    by (simp_all add: leased_world_def one_leased_def two_published_def mem_simps Let_def nat_digits.simps fresh_lease_def)
  from inspection_snapshot [OF mem_inspect.redis_inspection_axioms snap] snap v show ?thesis by simp
qed

text \<open>
  The 95th percentile of a non-empty sample is one of its values, at least 95 percent of the way
  through the sample in the sense of its index: no fewer than \<open>(n - 1) * 95 div 100 + 1\<close> values are at
  most it, and no fewer than \<open>n - (n - 1) * 95 div 100\<close> are at least it.
\<close>

theorem p95_rank:
  assumes "vs \<noteq> []"
  shows "p95 vs \<in> set vs
    \<and> (length vs - 1) * 95 div 100 + 1 \<le> length (filter (\<lambda>x. x \<le> p95 vs) vs)
    \<and> length vs - (length vs - 1) * 95 div 100 \<le> length (filter (\<lambda>x. p95 vs \<le> x) vs)"
proof -
  obtain k where k: "k = (length vs - 1) * 95 div 100" "k < length vs" "p95 vs = sort vs ! k"
    using p95_nth [OF assms] .
  then have "p95 vs \<in> set (sort vs)" by (metis length_sort nth_mem)
  with sorted_below [of "sort vs" k] k show ?thesis by (simp add: length_filter_sort)
qed

lemma p95_rank_witness: "p95 [3, 1, 2] = 2 \<and> p95 [3, 1, 2] \<in> set [3, 1, 2]"
  using p95_rank [of "[3, 1, 2]"] by (simp add: p95_def)



end
