(* ===== verification/Evidence.thy ===== *)
theory Evidence
  imports Artifacts Inspection
begin

section \<open>Run evidence\<close>

text \<open>
  \<open>evidence.py\<close>: the bundle of a report, its data and a manifest with their SHA-256 digests, the check
  of a manifest, and the check of the committed release evidence. The process's surroundings (working
  directory, time, Python and machine names, the \<open>git\<close> command) are a record. The report is the
  \<open>ReliabilityReport\<close> of \<open>cli/benchmark.py\<close>.
\<close>

subsection \<open>Surroundings\<close>

record host =
  h_cwd :: path
  h_now :: datetime
  h_git :: "pystr list \<Rightarrow> exc + int \<times> pystr"
  h_python_version :: pystr
  h_implementation :: pystr
  h_system :: pystr
  h_machine :: pystr

text \<open>\<open>path.resolve()\<close>: links are followed part by part, and \<open>..\<close> goes up\<close>

function resolve_parts :: "nat \<Rightarrow> files \<Rightarrow> pystr \<Rightarrow> pystr list \<Rightarrow> pystr list \<Rightarrow> path option" where
  "resolve_parts n fs r seen [] = Some (Path r seen)"
| "resolve_parts n fs r seen (x # rest) =
     (if x = ''..'' then resolve_parts n fs r (butlast seen) rest
      else case map_of fs (Path r (seen @ [x])) of
          Some (Symlink q) \<Rightarrow> (case n of 0 \<Rightarrow> None
            | Suc m \<Rightarrow> if is_absolute q then resolve_parts m fs (p_root q) [] (p_parts q @ rest)
                       else resolve_parts m fs r seen (p_parts q @ rest))
        | _ \<Rightarrow> resolve_parts n fs r (seen @ [x]) rest)"
  by pat_completeness auto
termination resolve_parts
  by (relation "measures [\<lambda>(n, fs, r, seen, todo). n, \<lambda>(n, fs, r, seen, todo). length todo]") auto

definition resolve :: "path \<Rightarrow> path \<Rightarrow> (files, path) prog" where
  "resolve cwd p = bindM (getM (\<lambda>fs. if is_absolute p then resolve_parts 40 fs (p_root p) [] (p_parts p)
      else resolve_parts 40 fs (p_root cwd) [] (p_parts cwd @ p_parts p)))
     (\<lambda>r. case r of None \<Rightarrow> raiseM (RuntimeError ''Symlink loop'') | Some q \<Rightarrow> returnM q)"

definition relative_to :: "path \<Rightarrow> path \<Rightarrow> path option" where
  "relative_to p q = (if p_root p = p_root q \<and> take (length (p_parts q)) (p_parts p) = p_parts q
     then Some (Path [] (drop (length (p_parts q)) (p_parts p))) else None)"

definition portable_path :: "path \<Rightarrow> path \<Rightarrow> pystr \<Rightarrow> (files, pystr) prog" where
  "portable_path cwd p namespace =
     (if \<not> is_absolute p then returnM (path_str p)
      else bindM (resolve cwd p) (\<lambda>q. bindM (resolve cwd cwd) (\<lambda>c.
        returnM (case relative_to q c of Some r \<Rightarrow> path_str r | None \<Rightarrow> namespace @ ''://'' @ path_name p))))"

subsection \<open>The report and its payload\<close>

record reliability_report =
  rp_submitted_jobs :: int
  rp_lifecycle_counts :: "(pystr \<times> int) list"
  rp_completion_rate :: rat
  rp_duplicate_finalization_count :: int
  rp_retry_count :: int
  rp_queue_lag_seconds :: rat
  rp_p95_duration_seconds :: rat
  rp_artifact_completeness :: rat
  rp_finalization_conflict_attempt_count :: int
  rp_failure_classification :: "(pystr \<times> int) list"
  rp_estimated_cost_usd :: decimal
  rp_run_id :: "pystr option"
  rp_source :: pystr
  rp_idempotency_replay_count :: int
  rp_injected_failure_count :: int
  rp_title :: pystr
  rp_backpressure :: "backpressure_snapshot option"
  rp_artifact_integrity :: "artifact_integrity_summary option"

definition counts_json :: "(pystr \<times> int) list \<Rightarrow> json" where
  "counts_json cs = JObj (map (\<lambda>(k, n). (k, JInt n)) cs)"

definition backpressure_json :: "backpressure_snapshot option \<Rightarrow> json" where
  "backpressure_json b = (case b of None \<Rightarrow> JNull | Some s \<Rightarrow> JObj
     [(''queue_depth'', JInt (bs_queue_depth s)), (''oldest_pending_age_seconds'', JFloat (bs_oldest_pending_age_seconds s)),
      (''consumer_lag'', JInt (bs_consumer_lag s)), (''leased_jobs'', JInt (bs_leased_jobs s)),
      (''running_jobs'', JInt (int (bs_running_jobs s))), (''worker_utilization'', JFloat (bs_worker_utilization s)),
      (''retry_rate'', JFloat (bs_retry_rate s)), (''dlq_count'', JInt (bs_dlq_count s)),
      (''p95_queue_wait_seconds'', JFloat (bs_p95_queue_wait_seconds s)),
      (''p95_execution_seconds'', JFloat (bs_p95_execution_seconds s))])"

definition optional_text :: "pystr option \<Rightarrow> json" where
  "optional_text t = (case t of None \<Rightarrow> JNull | Some s \<Rightarrow> JStr s)"

definition artifact_row :: "path \<Rightarrow> artifact_metadata \<Rightarrow> (files, json) prog" where
  "artifact_row cwd row =
     bindM (case am_eval_result_path row of None \<Rightarrow> returnM None
        | Some e \<Rightarrow> bindM (portable_path cwd (path_of e) ''eval-result'') (\<lambda>s. returnM (Some s)))
     (\<lambda>e. returnM (JObj
       [(''path'', JStr (portable_artifact_path (am_job_id row) (am_path row))), (''size_bytes'', JInt (am_size_bytes row)),
        (''sha256'', JStr (am_sha256 row)), (''job_id'', JStr (am_job_id row)), (''run_id'', JStr (am_run_id row)),
        (''attempt_number'', JInt (am_attempt_number row)), (''input_digest'', JStr (am_input_digest row)),
        (''created_at'', JStr (isoformat (am_created_at row))), (''eval_result_path'', optional_text e)]))"

definition report_payload :: "path \<Rightarrow> reliability_report \<Rightarrow> (files, json) prog" where
  "report_payload cwd r =
     bindM (mapM (artifact_row cwd) (case rp_artifact_integrity r of None \<Rightarrow> [] | Some ai \<Rightarrow> ai_rows ai)) (\<lambda>artifact_rows.
     returnM (JObj
       [(''title'', JStr (rp_title r)), (''run_id'', optional_text (rp_run_id r)), (''source'', JStr (rp_source r)),
        (''submitted_jobs'', JInt (rp_submitted_jobs r)), (''lifecycle_counts'', counts_json (rp_lifecycle_counts r)),
        (''completion_rate'', JFloat (rp_completion_rate r)),
        (''duplicate_terminal_event_count'', JInt (rp_duplicate_finalization_count r)),
        (''finalization_conflict_attempt_count'', JInt (rp_finalization_conflict_attempt_count r)),
        (''retry_count'', JInt (rp_retry_count r)), (''queue_lag_seconds'', JFloat (rp_queue_lag_seconds r)),
        (''p95_duration_seconds'', JFloat (rp_p95_duration_seconds r)),
        (''artifact_completeness'', JFloat (rp_artifact_completeness r)),
        (''failure_classification'', counts_json (rp_failure_classification r)),
        (''estimated_cost_usd'', JStr (dec_str (rp_estimated_cost_usd r))),
        (''idempotency_replay_count'', JInt (rp_idempotency_replay_count r)),
        (''injected_failure_count'', JInt (rp_injected_failure_count r)),
        (''backpressure'', backpressure_json (rp_backpressure r)),
        (''artifact_integrity'', JObj
           [(''checked_count'', JInt (case rp_artifact_integrity r of None \<Rightarrow> 0 | Some ai \<Rightarrow> int (ai_checked_count ai))),
            (''valid_count'', JInt (case rp_artifact_integrity r of None \<Rightarrow> 0 | Some ai \<Rightarrow> int (ai_valid_count ai))),
            (''artifacts'', JList artifact_rows)])]))"

text \<open>Configuration values, and \<open>_json_safe\<close>\<close>

datatype config_value = CValue json | CDecimal decimal | CPath path
  | CDict "(pystr \<times> config_value) list" | CList "config_value list"

lemma mapM_cong [fundef_cong]:
  "xs = ys \<Longrightarrow> (\<And>x. x \<in> set ys \<Longrightarrow> f x = g x) \<Longrightarrow> mapM f xs = mapM g ys"
  by (induction ys arbitrary: xs) auto

function json_safe :: "path \<Rightarrow> config_value \<Rightarrow> (files, json) prog" where
  "json_safe cwd (CValue j) = returnM j"
| "json_safe cwd (CDecimal d) = returnM (JStr (dec_str d))"
| "json_safe cwd (CPath p) = bindM (portable_path cwd p ''artifact'') (\<lambda>s. returnM (JStr s))"
| "json_safe cwd (CDict d) =
     bindM (mapM (\<lambda>(k, v). bindM (json_safe cwd v) (\<lambda>j. returnM (k, j))) d) (\<lambda>items. returnM (JObj (dupdate [] items)))"
| "json_safe cwd (CList vs) = bindM (mapM (json_safe cwd) vs) (\<lambda>js. returnM (JList js))"
  by pat_completeness auto
termination json_safe
  by (relation "measure (\<lambda>(cwd, v). size v)")
     (auto simp: less_Suc_eq_le size_list_estimation' elim: size_list_estimation')

subsection \<open>The manifest\<close>

definition RUN_EVIDENCE_SCHEMA :: pystr where
  "RUN_EVIDENCE_SCHEMA = ''agent-runtime-grid.run-evidence.v1''"

definition MANIFEST_SCHEMA :: pystr where
  "MANIFEST_SCHEMA = ''agent-runtime-grid.evidence-manifest.v1''"

definition file_sha256 :: "platform \<Rightarrow> path \<Rightarrow> (files, pystr) prog" where
  "file_sha256 pf p = bindM (read_bytes p) (\<lambda>b. returnM (sha256_hex pf b))"

definition evidence_error :: "pystr \<Rightarrow> ('s, 'a) prog" where
  "evidence_error msg = raiseM (EvidenceVerificationError msg)"

text \<open>The handler of \<open>except (OSError, json.JSONDecodeError)\<close>\<close>

definition reading_json :: "platform \<Rightarrow> path \<Rightarrow> pystr \<Rightarrow> (files, json) prog" where
  "reading_json pf p msg = try_exceptM
     (bindM (read_text p) (\<lambda>s. case loads (float_parse pf) s of None \<Rightarrow> raiseM JSONDecodeError | Some v \<Rightarrow> returnM v))
     (\<lambda>e. if is_os_error e \<or> e = JSONDecodeError then Some (evidence_error (msg @ path_str p)) else None)"

definition manifest_stem :: "path \<Rightarrow> pystr" where
  "manifest_stem p = take (length (path_name p) - 14) (path_name p)"

definition expected_names :: "path \<Rightarrow> pystr list" where
  "expected_names p = [manifest_stem p @ ''.md'', manifest_stem p @ ''.json'']"

text \<open>One entry of the manifest; the names declared before are \<open>declared\<close>\<close>

definition check_entry :: "platform \<Rightarrow> path \<Rightarrow> pystr list \<Rightarrow> json \<Rightarrow> (files, pystr list) prog" where
  "check_entry pf manifest_path declared item = (case item of
     JObj d \<Rightarrow> (case dget_none d ''path'' of
        JStr name \<Rightarrow>
          if path_name (path_of name) \<noteq> name then evidence_error ''manifest paths must be sibling file names''
          else if name \<in> set declared then evidence_error (''duplicate manifest path: '' @ name)
          else (case dget_none d ''sha256'' of
             JStr expected \<Rightarrow>
               if length expected \<noteq> 64 then evidence_error (''invalid sha256 for '' @ name)
               else let candidate = path_join (path_parent manifest_path) name in
                 bindM (getM (\<lambda>fs. (is_symlink fs candidate, is_file fs candidate))) (\<lambda>(symlink, there).
                   if symlink then evidence_error (''evidence file must not be a symlink: '' @ name)
                   else if \<not> there then evidence_error (''missing evidence file: '' @ name)
                   else bindM (file_sha256 pf candidate) (\<lambda>actual.
                     if actual \<noteq> expected then evidence_error (''sha256 mismatch: '' @ name)
                     else returnM (declared @ [name])))
           | _ \<Rightarrow> evidence_error (''invalid sha256 for '' @ name))
      | _ \<Rightarrow> evidence_error ''manifest paths must be sibling file names'')
   | _ \<Rightarrow> evidence_error ''invalid manifest file entry'')"

fun check_entries :: "platform \<Rightarrow> path \<Rightarrow> pystr list \<Rightarrow> json list \<Rightarrow> (files, pystr list) prog" where
  "check_entries pf manifest_path declared [] = returnM declared"
| "check_entries pf manifest_path declared (e # es) =
     bindM (check_entry pf manifest_path declared e) (\<lambda>declared'. check_entries pf manifest_path declared' es)"

definition unexpected_sidecars :: "path \<Rightarrow> pystr list \<Rightarrow> files \<Rightarrow> pystr list" where
  "unexpected_sidecars manifest_path names fs =
     filter (\<lambda>n. is_file fs (path_join (path_parent manifest_path) n) \<and> starts_with n (manifest_stem manifest_path @ ''.'')
       \<and> n \<notin> set (path_name manifest_path # expected_names manifest_path)) names"

definition verify_evidence_manifest :: "platform \<Rightarrow> path \<Rightarrow> (files, unit) prog" where
  "verify_evidence_manifest pf manifest_path =
     bindM (reading_json pf manifest_path ''cannot read manifest: '') (\<lambda>manifest. case manifest of
       JObj m \<Rightarrow>
         if \<not> py_eq (dget_none m ''schema_version'') (JStr MANIFEST_SCHEMA)
         then evidence_error ''unsupported evidence manifest schema''
         else if \<not> ends_with (path_name manifest_path) ''.manifest.json''
         then evidence_error ''manifest name must end in .manifest.json''
         else (case dget_none m ''files'' of
            JList entries \<Rightarrow>
              if length entries \<noteq> 2 then evidence_error ''manifest must contain the report and JSON data''
              else bindM (check_entries pf manifest_path [] entries) (\<lambda>declared_names.
                if set declared_names \<noteq> set (expected_names manifest_path)
                then evidence_error ''manifest file set does not match its report stem''
                else bindM (iterdir (path_parent manifest_path)) (\<lambda>names.
                  bindM (getM (unexpected_sidecars manifest_path names)) (\<lambda>unexpected.
                  if unexpected \<noteq> []
                  then evidence_error (''unexpected evidence sidecar(s): '' @ join '', '' (sort unexpected))
                  else returnM ())))
          | _ \<Rightarrow> evidence_error ''manifest must contain the report and JSON data'')
     | _ \<Rightarrow> raiseM (AttributeError ''get''))"

subsection \<open>Writing a bundle\<close>

record evidence_bundle =
  eb_report_path :: path
  eb_data_path :: path
  eb_manifest_path :: path

definition git_output :: "host \<Rightarrow> pystr list \<Rightarrow> exc + pystr option" where
  "git_output h arguments = (case h_git h arguments of Inl e \<Rightarrow> Inl e
     | Inr (returncode, stdout) \<Rightarrow> Inr (if returncode \<noteq> 0 then None else Some (strip stdout)))"

definition source_revision :: "host \<Rightarrow> exc + json" where
  "source_revision h = (case git_output h [''rev-parse'', ''HEAD''] of Inl e \<Rightarrow> Inl e | Inr commit \<Rightarrow>
     (case git_output h [''status'', ''--porcelain=v1'', ''--untracked-files=no''] of Inl e \<Rightarrow> Inl e | Inr status \<Rightarrow>
       Inr (JObj [(''commit'', JStr (if nonempty commit then the commit else ''unavailable'')),
         (''dirty'', (case status of None \<Rightarrow> JNull | Some s \<Rightarrow> JBool (s \<noteq> [])))])))"

definition evidence_payload ::
    "host \<Rightarrow> reliability_report \<Rightarrow> pystr \<Rightarrow> config_value \<Rightarrow> int option \<Rightarrow> (files, items) prog" where
  "evidence_payload h report cmd config seed =
     bindM (json_safe (h_cwd h) config) (\<lambda>config_json.
     bindM (liftM (source_revision h)) (\<lambda>revision.
     bindM (report_payload (h_cwd h) report) (\<lambda>report_json.
       returnM [(''schema_version'', JStr RUN_EVIDENCE_SCHEMA), (''generated_at'', JStr (isoformat (h_now h))),
         (''command'', JStr cmd), (''config'', config_json),
         (''seed'', (case seed of None \<Rightarrow> JNull | Some n \<Rightarrow> JInt n)), (''source_revision'', revision),
         (''environment'', JObj [(''python'', JStr (h_python_version h)), (''implementation'', JStr (h_implementation h)),
            (''platform'', JStr (h_system h)), (''machine'', JStr (h_machine h))]),
         (''report'', report_json)])))"

text \<open>\<open>(json.dumps(v, sort_keys=True, indent=2) + "\\n").encode("utf-8")\<close>\<close>

definition json_line :: "platform \<Rightarrow> items \<Rightarrow> bytes" where
  "json_line pf d = utf8_encode (dump_json indent_style (float_repr pf) 0 (JObj d) @ [CHR 0x0A])"

definition manifest_items :: "pystr \<Rightarrow> pystr \<Rightarrow> pystr \<Rightarrow> pystr \<Rightarrow> items" where
  "manifest_items report_name report_sha data_name data_sha =
     [(''schema_version'', JStr MANIFEST_SCHEMA),
      (''files'', JList [JObj [(''path'', JStr report_name), (''sha256'', JStr report_sha)],
         JObj [(''path'', JStr data_name), (''sha256'', JStr data_sha)]])]"

definition write_evidence_bundle ::
    "platform \<Rightarrow> host \<Rightarrow> path \<Rightarrow> pystr \<Rightarrow> reliability_report \<Rightarrow> pystr \<Rightarrow> config_value \<Rightarrow> int option
      \<Rightarrow> (files, evidence_bundle) prog" where
  "write_evidence_bundle pf h report_path rendered_report report cmd config seed =
     (if path_suffix report_path \<noteq> ''.md'' then raiseM (ValueError ''evidence report path must end in .md'')
      else
       (let data_path = with_suffix report_path ''.json'';
            manifest_path = with_name report_path (path_stem report_path @ ''.manifest.json'')
        in thenM (mkdir_parents (path_parent report_path))
          (bindM (evidence_payload h report cmd config seed) (\<lambda>payload.
           thenM (replace_file report_path (utf8_encode rendered_report))
          (thenM (replace_file data_path (json_line pf payload))
          (bindM (file_sha256 pf report_path) (\<lambda>report_sha.
           bindM (file_sha256 pf data_path) (\<lambda>data_sha.
           thenM (replace_file manifest_path
                (json_line pf (manifest_items (path_name report_path) report_sha (path_name data_path) data_sha)))
          (thenM (verify_evidence_manifest pf manifest_path)
             (returnM \<lparr>eb_report_path = report_path, eb_data_path = data_path, eb_manifest_path = manifest_path\<rparr>))))))))))"

subsection \<open>The committed release\<close>

definition COMMITTED_RELEASE_MANIFEST :: path where
  "COMMITTED_RELEASE_MANIFEST = path_of ''docs/evidence/releases/v0.1.0/runtime-smoke.manifest.json''"

definition COMMITTED_RELEASE_MANIFEST_SHA256 :: pystr where
  "COMMITTED_RELEASE_MANIFEST_SHA256 = ''07442b769fad42a1664cc3adc7a11d73cb2041ceb61f65e402087e096d5b12ed''"

definition COMMITTED_RELEASE_SOURCE_REVISION :: pystr where
  "COMMITTED_RELEASE_SOURCE_REVISION = ''ddf533b36bbca0fd90a3093984d0b3f36e8ebeab''"

record committed_evidence_verification =
  cv_manifest_path :: pystr
  cv_content_address :: pystr
  cv_source_revision :: pystr
  cv_submitted_jobs :: json
  cv_valid_artifacts :: json

definition require_committed_value :: "platform \<Rightarrow> json \<Rightarrow> json \<Rightarrow> pystr \<Rightarrow> exc + unit" where
  "require_committed_value pf actual expected what =
     (if py_eq actual expected then Inr ()
      else Inl (EvidenceVerificationError (''committed release semantic mismatch for '' @ what @ '': expected ''
        @ py_repr (float_repr pf) expected @ '', got '' @ py_repr (float_repr pf) actual)))"

text \<open>The loop over the items of a dictionary of expected values\<close>

fun require_committed_fields :: "platform \<Rightarrow> items \<Rightarrow> pystr \<Rightarrow> items \<Rightarrow> exc + unit" where
  "require_committed_fields pf d label [] = Inr ()"
| "require_committed_fields pf d label ((k, v) # rest) =
     (case require_committed_value pf (dget_none d k) v (label @ k) of Inl e \<Rightarrow> Inl e
      | Inr _ \<Rightarrow> require_committed_fields pf d label rest)"

definition is_sha256 :: "json \<Rightarrow> bool" where
  "is_sha256 v = (case v of JStr s \<Rightarrow> length s = 64 \<and> list_all (\<lambda>c. c \<in> set ''0123456789abcdef'') s | _ \<Rightarrow> False)"

definition expected_top_level :: items where
  "expected_top_level =
     [(''schema_version'', JStr RUN_EVIDENCE_SCHEMA), (''command'', JStr ''smoke''), (''seed'', JNull),
      (''source_revision'', JObj [(''commit'', JStr COMMITTED_RELEASE_SOURCE_REVISION), (''dirty'', JBool False)]),
      (''config'', JObj [(''artifact_root'', JStr ''artifacts''), (''failure_rate'', JFloat 0), (''jobs'', JInt 20),
         (''mode'', JStr ''stub''), (''workers'', JInt 4)]),
      (''environment'', JObj [(''implementation'', JStr ''CPython''), (''machine'', JStr ''x86_64''),
         (''platform'', JStr ''Linux''), (''python'', JStr ''3.12.3'')])]"

definition expected_report :: items where
  "expected_report =
     [(''title'', JStr ''Load Smoke Report''), (''source'', JStr ''runtime_state:artifacts''), (''submitted_jobs'', JInt 20),
      (''lifecycle_counts'', JObj [(''cancelled'', JInt 0), (''completed'', JInt 20), (''dlq'', JInt 0), (''failed'', JInt 0),
         (''queued'', JInt 0), (''running'', JInt 0), (''timed_out'', JInt 0)]),
      (''completion_rate'', JFloat 1), (''duplicate_terminal_event_count'', JInt 0),
      (''finalization_conflict_attempt_count'', JInt 0), (''retry_count'', JInt 0), (''artifact_completeness'', JFloat 1),
      (''failure_classification'', JObj []), (''estimated_cost_usd'', JStr ''0''), (''idempotency_replay_count'', JInt 0),
      (''injected_failure_count'', JInt 0)]"

definition zero_backpressure :: items where
  "zero_backpressure = map (\<lambda>k. (k, JInt 0)) [''consumer_lag'', ''dlq_count'', ''leased_jobs'', ''oldest_pending_age_seconds'',
     ''queue_depth'', ''retry_rate'', ''running_jobs'', ''worker_utilization'']"

definition row_error :: "nat \<Rightarrow> pystr \<Rightarrow> exc" where
  "row_error index what = EvidenceVerificationError (''artifact['' @ nat_digits index @ ''].'' @ what)"

definition check_committed_row ::
    "platform \<Rightarrow> pystr \<Rightarrow> nat \<Rightarrow> pystr list \<Rightarrow> json \<Rightarrow> exc + pystr list" where
  "check_committed_row pf run_id index job_ids artifact = (case artifact of
     JObj a \<Rightarrow> (case dget_none a ''job_id'' of
        JStr j \<Rightarrow>
          if j = [] \<or> j \<in> set job_ids
          then Inl (EvidenceVerificationError (''committed artifact row '' @ nat_digits index @ '' has a missing or duplicate job_id''))
          else (case require_committed_fields pf a (''artifact['' @ nat_digits index @ ''].'')
                 [(''run_id'', JStr run_id), (''path'', JStr (''artifact://'' @ j @ ''/attempt-1.json'')),
                  (''attempt_number'', JInt 1), (''eval_result_path'', JNull)] of
             Inl e \<Rightarrow> Inl e
           | Inr _ \<Rightarrow>
              if \<not> is_sha256 (dget_none a ''sha256'') then Inl (row_error index ''sha256 must be lowercase SHA-256'')
              else if \<not> is_sha256 (dget_none a ''input_digest'')
              then Inl (row_error index ''input_digest must be lowercase SHA-256'')
              else if (case dget_none a ''size_bytes'' of JInt n \<Rightarrow> 0 < n | JBool b \<Rightarrow> b | _ \<Rightarrow> False)
              then Inr (job_ids @ [j]) else Inl (row_error index ''size_bytes must be positive''))
      | _ \<Rightarrow> Inl (EvidenceVerificationError (''committed artifact row '' @ nat_digits index @ '' has a missing or duplicate job_id'')))
   | _ \<Rightarrow> Inl (EvidenceVerificationError (''committed artifact row '' @ nat_digits index @ '' must be an object'')))"

fun check_committed_rows :: "platform \<Rightarrow> pystr \<Rightarrow> nat \<Rightarrow> pystr list \<Rightarrow> json list \<Rightarrow> exc + pystr list" where
  "check_committed_rows pf run_id index job_ids [] = Inr job_ids"
| "check_committed_rows pf run_id index job_ids (a # artifacts) =
     (case check_committed_row pf run_id index job_ids a of Inl e \<Rightarrow> Inl e
      | Inr job_ids' \<Rightarrow> check_committed_rows pf run_id (Suc index) job_ids' artifacts)"

definition check_committed_artifacts :: "platform \<Rightarrow> items \<Rightarrow> exc + unit" where
  "check_committed_artifacts pf report = (case dget_none report ''artifact_integrity'' of
     JObj ai \<Rightarrow> (case require_committed_fields pf ai ''report.artifact_integrity.'' [(''checked_count'', JInt 20), (''valid_count'', JInt 20)] of
        Inl e \<Rightarrow> Inl e
      | Inr _ \<Rightarrow> (case dget_none ai ''artifacts'' of
          JList artifacts \<Rightarrow>
            if length artifacts \<noteq> 20
            then Inl (EvidenceVerificationError ''committed release artifact integrity must contain exactly 20 rows'')
            else (case dget_none report ''run_id'' of
               JStr run_id \<Rightarrow>
                 if run_id = [] then Inl (EvidenceVerificationError ''committed release run_id must be a non-empty string'')
                 else (case check_committed_rows pf run_id 0 [] artifacts of Inl e \<Rightarrow> Inl e | Inr _ \<Rightarrow> Inr ())
             | _ \<Rightarrow> Inl (EvidenceVerificationError ''committed release run_id must be a non-empty string''))
        | _ \<Rightarrow> Inl (EvidenceVerificationError ''committed release artifact integrity must contain exactly 20 rows'')))
   | _ \<Rightarrow> Inl (EvidenceVerificationError ''committed release artifact integrity must be an object''))"

definition verify_committed_release_semantics :: "platform \<Rightarrow> json \<Rightarrow> exc + unit" where
  "verify_committed_release_semantics pf payload = (case payload of
     JObj d \<Rightarrow> (case require_committed_fields pf d [] expected_top_level of Inl e \<Rightarrow> Inl e | Inr _ \<Rightarrow>
       (case dget_none d ''report'' of
          JObj report \<Rightarrow> (case require_committed_fields pf report ''report.'' expected_report of Inl e \<Rightarrow> Inl e | Inr _ \<Rightarrow>
            (case dget_none report ''backpressure'' of
               JObj b \<Rightarrow> (case require_committed_fields pf b ''report.backpressure.'' zero_backpressure of Inl e \<Rightarrow> Inl e | Inr _ \<Rightarrow>
                 (case require_committed_value pf (dget_none report ''queue_lag_seconds'')
                      (dget_none b ''p95_queue_wait_seconds'') ''report.queue_lag_seconds'' of Inl e \<Rightarrow> Inl e | Inr _ \<Rightarrow>
                 (case require_committed_value pf (dget_none report ''p95_duration_seconds'')
                      (dget_none b ''p95_execution_seconds'') ''report.p95_duration_seconds'' of Inl e \<Rightarrow> Inl e | Inr _ \<Rightarrow>
                   check_committed_artifacts pf report)))
             | _ \<Rightarrow> Inl (EvidenceVerificationError ''committed release backpressure must be a JSON object'')))
        | _ \<Rightarrow> Inl (EvidenceVerificationError ''committed release report must be a JSON object'')))
   | _ \<Rightarrow> Inl (EvidenceVerificationError ''committed release data must be a JSON object''))"

definition verify_committed_release_evidence ::
    "platform \<Rightarrow> path \<Rightarrow> path \<Rightarrow> (files, committed_evidence_verification) prog" where
  "verify_committed_release_evidence pf cwd repository_root =
     bindM (resolve cwd repository_root) (\<lambda>base.
     let manifest_path = Path (p_root base) (p_parts base @ p_parts COMMITTED_RELEASE_MANIFEST) in
     bindM (getM (\<lambda>fs. is_symlink fs manifest_path \<or> \<not> is_file fs manifest_path)) (\<lambda>unsafe.
     if unsafe then evidence_error (''committed release manifest is missing or unsafe: '' @ path_str COMMITTED_RELEASE_MANIFEST)
     else bindM (file_sha256 pf manifest_path) (\<lambda>manifest_sha256.
       if manifest_sha256 \<noteq> COMMITTED_RELEASE_MANIFEST_SHA256
       then evidence_error (''committed release manifest content address mismatch: expected ''
              @ COMMITTED_RELEASE_MANIFEST_SHA256 @ '', got '' @ manifest_sha256)
       else thenM (verify_evidence_manifest pf manifest_path)
        (bindM (reading_json pf (with_name manifest_path ''runtime-smoke.json'') ''cannot read committed release data: '') (\<lambda>payload.
         thenM (liftM (verify_committed_release_semantics pf payload))
           (let report = (case payload of JObj d \<Rightarrow> (case dget_none d ''report'' of JObj r \<Rightarrow> r | _ \<Rightarrow> []) | _ \<Rightarrow> []);
                artifact_integrity = (case dget_none report ''artifact_integrity'' of JObj a \<Rightarrow> a | _ \<Rightarrow> [])
            in returnM \<lparr>cv_manifest_path = path_str COMMITTED_RELEASE_MANIFEST,
                 cv_content_address = ''sha256:'' @ COMMITTED_RELEASE_MANIFEST_SHA256,
                 cv_source_revision = COMMITTED_RELEASE_SOURCE_REVISION,
                 cv_submitted_jobs = dget_none report ''submitted_jobs'',
                 cv_valid_artifacts = dget_none artifact_integrity ''valid_count''\<rparr>))))))"

subsection \<open>What a verified manifest says\<close>

text \<open>The entry names a regular file beside the manifest and its digest.\<close>

definition entry_holds :: "platform \<Rightarrow> path \<Rightarrow> files \<Rightarrow> json \<Rightarrow> pystr \<Rightarrow> bool" where
  "entry_holds pf manifest_path fs item name \<longleftrightarrow> (\<exists>d h b. item = JObj d \<and> dget d ''path'' = Some (JStr name)
     \<and> path_name (path_of name) = name \<and> dget d ''sha256'' = Some (JStr h) \<and> length h = 64
     \<and> \<not> is_symlink fs (path_join (path_parent manifest_path) name)
     \<and> node_at fs (path_join (path_parent manifest_path) name) = Some (File b) \<and> sha256_hex pf b = h)"

definition manifest_holds :: "platform \<Rightarrow> path \<Rightarrow> files \<Rightarrow> bool" where
  "manifest_holds pf manifest_path fs \<longleftrightarrow> (\<exists>t m e1 e2 n1 n2. read_text manifest_path fs = (Inr t, fs)
     \<and> loads (float_parse pf) t = Some (JObj m) \<and> dget m ''schema_version'' = Some (JStr MANIFEST_SCHEMA)
     \<and> ends_with (path_name manifest_path) ''.manifest.json'' \<and> dget m ''files'' = Some (JList [e1, e2])
     \<and> entry_holds pf manifest_path fs e1 n1 \<and> entry_holds pf manifest_path fs e2 n2
     \<and> {n1, n2} = set (expected_names manifest_path))
     \<and> is_dir fs (path_parent manifest_path)
     \<and> (\<forall>n \<in> set (entry_names fs (path_parent manifest_path)).
          is_file fs (path_join (path_parent manifest_path) n) \<longrightarrow> starts_with n (manifest_stem manifest_path @ ''.'') \<longrightarrow>
          n \<in> {path_name manifest_path, manifest_stem manifest_path @ ''.md'', manifest_stem manifest_path @ ''.json''})"

lemma dget_none_list: "dget_none d k = JList xs \<longleftrightarrow> dget d k = Some (JList xs)"
  by (simp add: dget_none_def split: option.splits)

lemma is_file_node: "is_file fs p \<longleftrightarrow> (\<exists>b. node_at fs p = Some (File b))"
  by (auto simp: is_file_def split: option.splits node.splits)

lemma check_entry_iff:
  "check_entry pf mp declared item fs = (Inr ds, fs') \<longleftrightarrow>
     fs' = fs \<and> (\<exists>name. entry_holds pf mp fs item name \<and> name \<notin> set declared \<and> ds = declared @ [name])"
proof
  assume a: "check_entry pf mp declared item fs = (Inr ds, fs')"
  then obtain d where d: "item = JObj d" by (cases item) (auto simp: check_entry_def evidence_error_def)
  with a obtain name where n: "dget_none d ''path'' = JStr name" by (cases "dget_none d ''path''") (auto simp: check_entry_def evidence_error_def)
  with a d obtain h where h: "dget_none d ''sha256'' = JStr h"
    by (cases "dget_none d ''sha256''") (auto simp: check_entry_def evidence_error_def split: if_splits)
  let ?c = "path_join (path_parent mp) name"
  have g: "path_name (path_of name) = name" "name \<notin> set declared" "length h = 64" "\<not> is_symlink fs ?c" "is_file fs ?c"
    using a by (simp_all add: check_entry_def d n h evidence_error_def Let_def split: if_splits)
  then obtain b where b: "node_at fs ?c = Some (File b)" by (auto simp: is_file_node)
  with a g have "sha256_hex pf b = h" "ds = declared @ [name]" "fs' = fs"
    by (simp_all add: check_entry_def d n h evidence_error_def Let_def file_sha256_def read_bytes_def bindM_eq split: if_splits)
  with g b d n h show "fs' = fs \<and> (\<exists>name. entry_holds pf mp fs item name \<and> name \<notin> set declared \<and> ds = declared @ [name])"
    by (auto simp: entry_holds_def dget_none_str)
next
  assume "fs' = fs \<and> (\<exists>name. entry_holds pf mp fs item name \<and> name \<notin> set declared \<and> ds = declared @ [name])"
  then show "check_entry pf mp declared item fs = (Inr ds, fs')"
    by (auto simp: entry_holds_def check_entry_def dget_none_def is_file_node file_sha256_def read_bytes_def bindM_eq Let_def)
qed

lemma check_entry_state: "check_entry pf mp declared item fs = (r, fs') \<Longrightarrow> fs' = fs"
  by (auto simp: check_entry_def evidence_error_def file_sha256_def read_bytes_def bindM_eq Let_def
      split: json.splits if_splits option.splits node.splits)

lemma check_two_entries:
  "check_entries pf mp [] [e1, e2] fs = (Inr ds, fs') \<longleftrightarrow>
     fs' = fs \<and> (\<exists>n1 n2. ds = [n1, n2] \<and> n1 \<noteq> n2 \<and> entry_holds pf mp fs e1 n1 \<and> entry_holds pf mp fs e2 n2)"
proof -
  have "check_entries pf mp [] [e1, e2] fs = (Inr ds, fs') \<longleftrightarrow>
      (\<exists>ds1 fs1. check_entry pf mp [] e1 fs = (Inr ds1, fs1) \<and> check_entry pf mp ds1 e2 fs1 = (Inr ds, fs'))"
    by (auto simp: bindM_eq split: prod.splits sum.splits)
  then show ?thesis by (auto simp: check_entry_iff)
qed

lemma check_entries_state: "check_entries pf mp declared es fs = (r, fs') \<Longrightarrow> fs' = fs"
  by (induction es arbitrary: declared fs) (auto simp: bindM_eq dest: check_entry_state split: prod.splits sum.splits)

lemma reading_json_Inr:
  "reading_json pf p msg fs = (Inr v, fs') \<longleftrightarrow> fs' = fs \<and> (\<exists>t. read_text p fs = (Inr t, fs) \<and> loads (float_parse pf) t = Some v)"
  using read_text_state [of p fs]
  by (cases "read_text p fs") (auto simp: reading_json_def try_exceptM_def bindM_eq evidence_error_def split: sum.splits option.splits if_splits)

lemma iterdir_Inr: "iterdir p fs = (Inr ns, fs') \<longleftrightarrow> is_dir fs p \<and> ns = entry_names fs p \<and> fs' = fs"
  by (auto simp: iterdir_def)

lemma two_entries: "length es = 2 \<longleftrightarrow> (\<exists>e1 e2. es = [e1, e2])"
  by (auto simp: numeral_2_eq_2 length_Suc_conv)

lemma unexpected_none:
  "unexpected_sidecars mp (entry_names fs (path_parent mp)) fs = [] \<longleftrightarrow> (\<forall>n \<in> set (entry_names fs (path_parent mp)).
     is_file fs (path_join (path_parent mp) n) \<longrightarrow> starts_with n (manifest_stem mp @ ''.'') \<longrightarrow>
     n \<in> {path_name mp, manifest_stem mp @ ''.md'', manifest_stem mp @ ''.json''})"
  by (auto simp: unexpected_sidecars_def filter_empty_conv expected_names_def)

lemma verify_iff: "verify_evidence_manifest pf mp fs = (Inr (), fs') \<longleftrightarrow> fs' = fs \<and> manifest_holds pf mp fs"
proof
  assume "verify_evidence_manifest pf mp fs = (Inr (), fs')"
  then show "fs' = fs \<and> manifest_holds pf mp fs" unfolding verify_evidence_manifest_def
  proof (elim bindM_InrE, goal_cases)
    case (1 v fs1)
    obtain t where t: "read_text mp fs = (Inr t, fs)" "loads (float_parse pf) t = Some v" "fs1 = fs"
      using 1(1) by (auto simp: reading_json_Inr)
    obtain m where m: "v = JObj m" using 1(2) by (cases v) auto
    have g: "dget m ''schema_version'' = Some (JStr MANIFEST_SCHEMA)" "ends_with (path_name mp) ''.manifest.json''"
      using 1(2) by (auto simp: m py_eq_str dget_none_str evidence_error_def split: if_splits)
    with 1(2) obtain es where es: "dget_none m ''files'' = JList es"
      by (cases "dget_none m ''files''") (auto simp: m py_eq_str dget_none_str evidence_error_def)
    with 1(2) g have "length es = 2"
      by (auto simp: m py_eq_str dget_none_str evidence_error_def split: if_splits)
    then obtain e1 e2 where e: "es = [e1, e2]" by (auto simp: two_entries)
    from 1(2) g es e have "bindM (check_entries pf mp [] [e1, e2]) (\<lambda>declared_names.
          if set declared_names \<noteq> set (expected_names mp)
          then evidence_error ''manifest file set does not match its report stem''
          else bindM (iterdir (path_parent mp)) (\<lambda>names.
            bindM (getM (unexpected_sidecars mp names)) (\<lambda>unexpected.
            if unexpected \<noteq> []
            then evidence_error (''unexpected evidence sidecar(s): '' @ join '', '' (sort unexpected))
            else returnM ()))) fs1 = (Inr (), fs')"
      by (simp add: m py_eq_str dget_none_str)
    then show ?case
    proof (elim bindM_InrE, goal_cases)
      case (1 ds fs2)
      then obtain n1 n2 where n: "ds = [n1, n2]" "entry_holds pf mp fs e1 n1" "entry_holds pf mp fs e2 n2" "fs2 = fs"
        unfolding check_two_entries t(3) by blast
      from 1(2) have d: "set ds = set (expected_names mp)" by (auto simp: evidence_error_def split: if_splits)
      from 1(2) d obtain ns fs3 where "iterdir (path_parent mp) fs2 = (Inr ns, fs3)"
        "bindM (getM (unexpected_sidecars mp ns)) (\<lambda>unexpected. if unexpected \<noteq> []
            then evidence_error (''unexpected evidence sidecar(s): '' @ join '', '' (sort unexpected))
            else returnM ()) fs3 = (Inr (), fs')"
        by (auto elim: bindM_InrE)
      then have "is_dir fs (path_parent mp)" "unexpected_sidecars mp (entry_names fs (path_parent mp)) fs = []" "fs' = fs"
        using n(4) by (auto simp: iterdir_Inr evidence_error_def split: if_splits)
      moreover have "{n1, n2} = set (expected_names mp)" using d n(1) by simp
      moreover have "dget m ''files'' = Some (JList [e1, e2])" using es e by (simp add: dget_none_list)
      ultimately show ?case
        unfolding manifest_holds_def unexpected_none using t(1,2) m g n(2,3) by blast
    qed
  qed
next
  assume "fs' = fs \<and> manifest_holds pf mp fs"
  then obtain t m e1 e2 n1 n2 where h: "fs' = fs" "read_text mp fs = (Inr t, fs)"
    "loads (float_parse pf) t = Some (JObj m)" "dget m ''schema_version'' = Some (JStr MANIFEST_SCHEMA)"
    "ends_with (path_name mp) ''.manifest.json''" "dget m ''files'' = Some (JList [e1, e2])"
    "entry_holds pf mp fs e1 n1" "entry_holds pf mp fs e2 n2" "{n1, n2} = set (expected_names mp)"
    "is_dir fs (path_parent mp)" "unexpected_sidecars mp (entry_names fs (path_parent mp)) fs = []"
    unfolding manifest_holds_def unexpected_none by blast
  have "n1 \<noteq> n2"
  proof
    assume "n1 = n2"
    moreover have "manifest_stem mp @ ''.md'' \<in> {n1, n2}" "manifest_stem mp @ ''.json'' \<in> {n1, n2}"
      unfolding h(9) by (simp_all add: expected_names_def)
    ultimately have "manifest_stem mp @ ''.md'' = manifest_stem mp @ ''.json''" by (simp only: insert_absorb2 singleton_iff)
    then show False by simp
  qed
  with h(7,8) have c: "check_entries pf mp [] [e1, e2] fs = (Inr [n1, n2], fs)" unfolding check_two_entries by blast
  have r: "reading_json pf mp ''cannot read manifest: '' fs = (Inr (JObj m), fs)" using h(2,3) by (simp add: reading_json_Inr)
  show "verify_evidence_manifest pf mp fs = (Inr (), fs')"
    unfolding verify_evidence_manifest_def bindM_Inr [of "reading_json pf mp ''cannot read manifest: ''", OF r]
    using h(1,4-6,9-11) c
    by (simp del: check_entries.simps add: dget_none_def py_eq_str bindM_eq iterdir_def)
qed

subsection \<open>A written bundle verifies\<close>

lemma loads_dump_line:
  assumes "style_ok st" "printable fr fp v"
  shows "loads fp (dump_json st fr l v @ [CHR 0x0A]) = Some (canon v)"
proof -
  have r: "reads fp (dump_json st fr l v) (canon v)" using assms by (rule dump_reads)
  have "number_end [CHR 0x0A]" by (simp add: number_end_def is_digit_def digit_val_def)
  with r have "parse_value fp (dump_json st fr l v @ [CHR 0x0A]) = Some (canon v, [CHR 0x0A])"
    unfolding reads_def by blast
  then show ?thesis using reads_skip [OF r, of "[CHR 0x0A]"] by (simp add: loads_def is_json_ws_def)
qed

lemma suffix_stem:
  assumes "path_suffix p = s" "s \<noteq> []"
  shows "path_name p = path_stem p @ s" "path_stem p \<noteq> []" "p_parts p \<noteq> []"
proof -
  obtain i where i: "last_dot (path_name p) = Some i" "s = drop i (path_name p)"
    using assms by (cases "last_dot (path_name p)") (auto simp: path_suffix_def)
  then show "path_name p = path_stem p @ s" by (simp add: path_stem_def)
  have "0 < i" "i < length (path_name p)" using i(1) by (auto simp: last_dot_def Let_def split: if_splits)
  with i show "path_stem p \<noteq> []" by (auto simp: path_stem_def)
  with i show "p_parts p \<noteq> []" by (auto simp: path_stem_def path_name_def last_dot_def Let_def split: if_splits)
qed

lemma with_name_parts [simp]:
  "path_name (with_name p n) = n" "path_parent (with_name p n) = path_parent p" "p_parts (with_name p n) \<noteq> []"
  "with_name p n = with_name p n' \<longleftrightarrow> n = n'"
  by (simp_all add: with_name_def path_name_def path_parent_def)

lemma with_name_id: "p_parts p \<noteq> [] \<Longrightarrow> with_name p (path_name p) = p"
  by (cases p) (simp add: with_name_def path_name_def)

lemma join_parent: "s \<noteq> [] \<Longrightarrow> CHR ''/'' \<notin> set s \<Longrightarrow> s \<noteq> ''.'' \<Longrightarrow> path_join (path_parent p) s = with_name p s"
  by (simp add: path_join_def path_of_name with_name_def path_parent_def)

lemma forM_append: "forM (xs @ ys) f = thenM (forM xs f) (forM ys f)"
proof (induction xs)
  case Nil
  show ?case unfolding append_Nil forM.simps(1) thenM_simple(1) ..
next
  case (Cons x xs)
  then show ?case by (simp add: thenM_def bindM_assoc)
qed

lemma mkdir_is_dir:
  assumes "mkdir_parents p fs = (Inr (), fs')"
  shows "is_dir fs' p"
proof (cases "p_parts p = []")
  case True
  then show ?thesis by (simp add: is_dir_def node_at_def)
next
  case False
  have "ancestors p = map (\<lambda>n. Path (p_root p) (take n (p_parts p))) [1..<length (p_parts p)] @ [p]"
    using False by (cases p) (auto simp: ancestors_def Suc_le_eq)
  with assms obtain fs1 where "(if is_dir fs1 p then (Inr (), fs1) else if map_of fs1 p = None then (Inr (), AList.update p Dir fs1)
      else (Inl (OSError ''FileExistsError''), fs1)) = (Inr (), fs')"
    by (auto simp: mkdir_parents_def forM_append elim!: thenM_InrE)
  then show ?thesis using False by (auto simp: is_dir_def node_at_def follow_not_link update_conv split: if_splits)
qed

lemma set_entry_names: "set (entry_names fs d) = path_name ` {q \<in> fst ` set fs. p_parts q \<noteq> [] \<and> path_parent q = d}"
  by (auto simp: entry_names_def)

lemma entry_names_update:
  "set (entry_names (AList.update (with_name p n) x fs) (path_parent p)) = insert n (set (entry_names fs (path_parent p)))"
proof -
  have "{q \<in> insert (with_name p n) S. p_parts q \<noteq> [] \<and> path_parent q = path_parent p} =
      insert (with_name p n) {q \<in> S. p_parts q \<noteq> [] \<and> path_parent q = path_parent p}" for S by auto
  then show ?thesis by (simp add: set_entry_names dom_update)
qed

lemma json_line_reads:
  assumes "printable (float_repr pf) (float_parse pf) (JObj d)" "\<forall>q \<in> set (floats_of (JObj d)). CHR 0x0D \<notin> set (float_repr pf q)"
    and "node_at fs p = Some (File (json_line pf d))"
  shows "\<exists>t. read_text p fs = (Inr t, fs) \<and> loads (float_parse pf) t = Some (canon (JObj d))"
proof -
  let ?t = "dump_json indent_style (float_repr pf) 0 (JObj d) @ [CHR 0x0A]"
  have "CHR 0x0D \<notin> set ?t" using dump_no_cr [of indent_style "JObj d" "float_repr pf" 0] assms(2) by (simp add: indent_style_def)
  with assms(3) have "read_text p fs = (Inr ?t, fs)"
    by (simp add: read_text_def read_bytes_def bindM_eq json_line_def universal_newlines_id)
  with loads_dump_line [OF styles_ok(3) assms(1), of 0] show ?thesis by blast
qed

lemma manifest_line:
  "canon (JObj (manifest_items n1 h1 n2 h2)) =
     JObj [(''files'', JList [JObj [(''path'', JStr n1), (''sha256'', JStr h1)], JObj [(''path'', JStr n2), (''sha256'', JStr h2)]]),
       (''schema_version'', JStr MANIFEST_SCHEMA)]"
  "printable fr fp (JObj (manifest_items n1 h1 n2 h2))" "floats_of (JObj (manifest_items n1 h1 n2 h2)) = []"
  by (simp_all add: manifest_items_def)

lemma replace_in_dir:
  assumes "is_dir fs (path_parent p)" "p_parts p \<noteq> []" "map_of fs p = None \<or> (\<exists>c. map_of fs p = Some (File c))"
  shows "replace_file p b fs = (Inr (), AList.update p (File b) fs)"
    "is_dir (AList.update p (File b) fs) (path_parent p)"
    "node_at (AList.update p (File b) fs) p = Some (File b)" "\<not> is_symlink (AList.update p (File b) fs) p"
proof -
  show "replace_file p b fs = (Inr (), AList.update p (File b) fs)" using assms by (auto simp: replace_file_def)
  show "node_at (AList.update p (File b) fs) p = Some (File b)" "\<not> is_symlink (AList.update p (File b) fs) p"
    using assms(2) by (simp_all add: node_at_def follow_not_link update_conv is_symlink_def)
  show "is_dir (AList.update p (File b) fs) (path_parent p)"
  proof (cases "p_parts (path_parent p) = []")
    case False
    then obtain t where t: "follow 40 fs (path_parent p) = Some t" "map_of fs t = Some Dir"
      using assms(1) by (auto simp: is_dir_def node_at_def split: option.splits)
    with assms(3) have "p \<noteq> t" by auto
    with t assms(1,3) node_at_update [OF t(1), of p "File b"] show ?thesis by (auto simp: is_dir_def)
  qed (simp add: is_dir_def node_at_def)
qed

lemma node_at_other:
  assumes "map_of fs p = Some (File c)" "p_parts p \<noteq> []" "p \<noteq> q"
  shows "node_at (AList.update q x fs) p = Some (File c)" "\<not> is_symlink (AList.update q x fs) p"
  using assms by (simp_all add: node_at_def follow_not_link update_conv is_symlink_def)

text \<open>The three files of a bundle after they were written\<close>

lemma bundle_files:
  assumes dir: "is_dir fs (path_parent p)"
    and free: "\<forall>n \<in> {n1, n2, n3}. map_of fs (with_name p n) = None \<or> (\<exists>c. map_of fs (with_name p n) = Some (File c))"
    and ne: "n1 \<noteq> n2" "n1 \<noteq> n3" "n2 \<noteq> n3"
  obtains fs1 fs2 fs3 where
    "replace_file (with_name p n1) b1 fs = (Inr (), fs1)" "replace_file (with_name p n2) b2 fs1 = (Inr (), fs2)"
    "replace_file (with_name p n3) b3 fs2 = (Inr (), fs3)" "is_dir fs3 (path_parent p)"
    "node_at fs2 (with_name p n1) = Some (File b1)" "node_at fs2 (with_name p n2) = Some (File b2)"
    "node_at fs3 (with_name p n1) = Some (File b1)" "node_at fs3 (with_name p n2) = Some (File b2)"
    "node_at fs3 (with_name p n3) = Some (File b3)"
    "\<not> is_symlink fs3 (with_name p n1)" "\<not> is_symlink fs3 (with_name p n2)"
    "set (entry_names fs3 (path_parent p)) = {n1, n2, n3} \<union> set (entry_names fs (path_parent p))"
proof (rule that)
  let ?fs1 = "AList.update (with_name p n1) (File b1) fs"
  let ?fs2 = "AList.update (with_name p n2) (File b2) ?fs1"
  let ?fs3 = "AList.update (with_name p n3) (File b3) ?fs2"
  have d0: "is_dir fs (path_parent (with_name p n1))" using dir by simp
  from replace_in_dir(1,2) [OF d0, of b1] free
  show "replace_file (with_name p n1) b1 fs = (Inr (), ?fs1)" by auto
  from replace_in_dir(2) [OF d0, of b1] free have d1: "is_dir ?fs1 (path_parent p)" by auto
  from replace_in_dir(1) [of ?fs1 "with_name p n2" b2] d1 free ne
  show "replace_file (with_name p n2) b2 ?fs1 = (Inr (), ?fs2)" by (auto simp: update_conv)
  from replace_in_dir(2) [of ?fs1 "with_name p n2" b2] d1 free ne have d2: "is_dir ?fs2 (path_parent p)"
    by (auto simp: update_conv)
  from replace_in_dir(1) [of ?fs2 "with_name p n3" b3] d2 free ne
  show "replace_file (with_name p n3) b3 ?fs2 = (Inr (), ?fs3)" by (auto simp: update_conv)
  from replace_in_dir(2) [of ?fs2 "with_name p n3" b3] d2 free ne show "is_dir ?fs3 (path_parent p)"
    by (auto simp: update_conv)
  show "node_at ?fs2 (with_name p n1) = Some (File b1)" "node_at ?fs2 (with_name p n2) = Some (File b2)"
    "node_at ?fs3 (with_name p n1) = Some (File b1)" "node_at ?fs3 (with_name p n2) = Some (File b2)"
    "node_at ?fs3 (with_name p n3) = Some (File b3)"
    "\<not> is_symlink ?fs3 (with_name p n1)" "\<not> is_symlink ?fs3 (with_name p n2)"
    using ne by (simp_all add: node_at_def follow_not_link is_symlink_def update_conv)
  show "set (entry_names ?fs3 (path_parent p)) = {n1, n2, n3} \<union> set (entry_names fs (path_parent p))"
    by (auto simp: entry_names_update)
qed

lemma bundle_written:
  assumes "path_suffix rp = ''.md''" "wf_path rp"
    and "mkdir_parents (path_parent rp) fs = (Inr (), fs1)"
    and "evidence_payload h report cmd config seed fs1 = (Inr payload, fs1)"
    and "\<forall>n \<in> {path_stem rp @ ''.md'', path_stem rp @ ''.json'', path_stem rp @ ''.manifest.json''}.
      map_of fs1 (with_name rp n) = None \<or> (\<exists>c. map_of fs1 (with_name rp n) = Some (File c))"
    and "\<forall>n \<in> set (entry_names fs1 (path_parent rp)). starts_with n (path_stem rp @ ''.'') \<longrightarrow>
      n \<in> {path_stem rp @ ''.md'', path_stem rp @ ''.json'', path_stem rp @ ''.manifest.json''}"
    and "\<forall>b. length (sha256_hex pf b) = 64"
    and "printable (float_repr pf) (float_parse pf) (JObj payload)"
    and "\<forall>q \<in> set (floats_of (JObj payload)). CHR 0x0D \<notin> set (float_repr pf q)"
  shows "\<exists>bundle fs' t. write_evidence_bundle pf h rp text report cmd config seed fs = (Inr bundle, fs')
    \<and> read_bytes rp fs' = (Inr (utf8_encode text), fs')
    \<and> read_text (eb_data_path bundle) fs' = (Inr t, fs') \<and> loads (float_parse pf) t = Some (canon (JObj payload))
    \<and> verify_evidence_manifest pf (eb_manifest_path bundle) fs' = (Inr (), fs')"
proof -
  define stem where "stem = path_stem rp"
  let ?n1 = "stem @ ''.md''" and ?n2 = "stem @ ''.json''" and ?n3 = "stem @ ''.manifest.json''"
  let ?D = "with_name rp ?n2" and ?M = "with_name rp ?n3"
  have stem: "path_name rp = ?n1" "stem \<noteq> []" "p_parts rp \<noteq> []" using suffix_stem [OF assms(1)] by (simp_all add: stem_def)
  have rp: "with_name rp ?n1 = rp" using with_name_id [OF stem(3)] stem(1) by simp
  have "last (p_parts rp) = ?n1" using stem by (simp add: path_name_def)
  moreover have "last (p_parts rp) \<in> set (p_parts rp)" using stem(3) by (rule last_in_set)
  then have "CHR ''/'' \<notin> set (last (p_parts rp))" using assms(2) by (simp add: wf_path_def)
  ultimately have slash: "CHR ''/'' \<notin> set stem" by simp
  let ?b1 = "utf8_encode text" and ?b2 = "json_line pf payload"
  let ?m = "manifest_items ?n1 (sha256_hex pf ?b1) ?n2 (sha256_hex pf ?b2)"
  let ?b3 = "json_line pf ?m"
  have pre: "\<forall>n \<in> {?n1, ?n2, ?n3}. map_of fs1 (with_name rp n) = None \<or> (\<exists>c. map_of fs1 (with_name rp n) = Some (File c))"
    using assms(5) by (simp only: stem_def)
  have ne: "?n1 \<noteq> ?n2" "?n1 \<noteq> ?n3" "?n2 \<noteq> ?n3" by simp_all
  obtain fs2 fs3 fs4 where f: "replace_file rp ?b1 fs1 = (Inr (), fs2)" "replace_file ?D ?b2 fs2 = (Inr (), fs3)"
    "replace_file ?M ?b3 fs3 = (Inr (), fs4)" "is_dir fs4 (path_parent rp)"
    "node_at fs3 rp = Some (File ?b1)" "node_at fs3 ?D = Some (File ?b2)"
    "node_at fs4 rp = Some (File ?b1)" "node_at fs4 ?D = Some (File ?b2)" "node_at fs4 ?M = Some (File ?b3)"
    "\<not> is_symlink fs4 rp" "\<not> is_symlink fs4 ?D"
    "set (entry_names fs4 (path_parent rp)) = {?n1, ?n2, ?n3} \<union> set (entry_names fs1 (path_parent rp))"
    by (rule bundle_files [OF mkdir_is_dir [OF assms(3)] pre ne, unfolded rp])
  have m: "path_name ?M = ?n3" "path_parent ?M = path_parent rp" "manifest_stem ?M = stem" "expected_names ?M = [?n1, ?n2]"
    by (simp_all add: manifest_stem_def expected_names_def)
  have join1: "path_join (path_parent rp) ?n1 = rp" using slash stem(2) rp by (subst join_parent) simp_all
  have join2: "path_join (path_parent rp) ?n2 = ?D" using slash stem(2) by (subst join_parent) simp_all
  have names: "path_name (path_of ?n1) = ?n1" "path_name (path_of ?n2) = ?n2"
    using slash stem(2) by (simp_all add: path_of_name path_name_def)
  have holds: "entry_holds pf ?M fs4 (JObj [(''path'', JStr ?n1), (''sha256'', JStr (sha256_hex pf ?b1))]) ?n1"
    "entry_holds pf ?M fs4 (JObj [(''path'', JStr ?n2), (''sha256'', JStr (sha256_hex pf ?b2))]) ?n2"
    unfolding entry_holds_def m(2) join1 join2 using f(7,8,10,11) assms(7) names
    by (auto intro!: exI [of _ ?b1] exI [of _ ?b2])
  obtain t where t: "read_text ?M fs4 = (Inr t, fs4)" "loads (float_parse pf) t = Some (canon (JObj ?m))"
  proof -
    have "\<forall>q \<in> set (floats_of (JObj ?m)). CHR 0x0D \<notin> set (float_repr pf q)" unfolding manifest_line(3) by (rule ballI) simp
    from json_line_reads [OF manifest_line(2) this f(9)] that show ?thesis by blast
  qed
  have side: "\<forall>n \<in> set (entry_names fs4 (path_parent rp)). starts_with n (stem @ ''.'') \<longrightarrow> n \<in> {?n1, ?n2, ?n3}"
    using assms(6) unfolding stem_def [symmetric] f(12) by blast
  have "manifest_holds pf ?M fs4"
    unfolding manifest_holds_def m
  proof (intro conjI)
    show "\<exists>t m e1 e2 n1 n2. read_text ?M fs4 = (Inr t, fs4) \<and> loads (float_parse pf) t = Some (JObj m)
        \<and> dget m ''schema_version'' = Some (JStr MANIFEST_SCHEMA) \<and> ends_with ?n3 ''.manifest.json''
        \<and> dget m ''files'' = Some (JList [e1, e2]) \<and> entry_holds pf ?M fs4 e1 n1 \<and> entry_holds pf ?M fs4 e2 n2
        \<and> {n1, n2} = set [?n1, ?n2]"
      by (intro exI conjI, rule t(1), subst t(2), unfold manifest_line(1), rule refl, simp, simp add: ends_with_def,
          simp, rule holds(1), rule holds(2), simp)
    show "is_dir fs4 (path_parent rp)" by (rule f(4))
    show "\<forall>n \<in> set (entry_names fs4 (path_parent rp)). is_file fs4 (path_join (path_parent rp) n) \<longrightarrow>
        starts_with n (stem @ ''.'') \<longrightarrow> n \<in> {?n3, ?n1, ?n2}"
      using side by blast
  qed
  then have v: "verify_evidence_manifest pf ?M fs4 = (Inr (), fs4)" by (simp add: verify_iff)
  have sha: "file_sha256 pf rp fs3 = (Inr (sha256_hex pf ?b1), fs3)" "file_sha256 pf ?D fs3 = (Inr (sha256_hex pf ?b2), fs3)"
    using f(5,6) by (simp_all add: file_sha256_def read_bytes_def bindM_eq)
  have "path_name ?D = ?n2" by simp
  then have "write_evidence_bundle pf h rp text report cmd config seed fs =
      (Inr \<lparr>eb_report_path = rp, eb_data_path = ?D, eb_manifest_path = ?M\<rparr>, fs4)"
    using assms(1,3,4) f(1-3) sha v stem(1)
    by (simp add: write_evidence_bundle_def Let_def thenM_eq bindM_eq with_suffix_def stem_def [symmetric])
  moreover have "read_bytes rp fs4 = (Inr ?b1, fs4)" using f(7) by (simp add: read_bytes_def)
  moreover have "\<exists>t. read_text ?D fs4 = (Inr t, fs4) \<and> loads (float_parse pf) t = Some (canon (JObj payload))"
    by (rule json_line_reads [OF assms(8,9) f(8)])
  ultimately show ?thesis using v by auto
qed

lemma text_platform_half: "float_reads (float_repr text_platform) (float_parse text_platform) (1 / 2)"
proof -
  have digits: "is_digit CHR ''0''" "is_digit CHR ''5''" by (simp_all add: is_digit_def digit_val_def)
  have "parse_literal (float_parse text_platform) (''0.5'' @ r) = Some (JFloat (1 / 2), r)" if "number_end r" for r
    using number_end_parts [OF that] digits
    by (simp add: parse_literal_def parse_number_def integer_part_def fraction_part_def text_platform_def)
  then show ?thesis using digits(1) by (simp add: float_reads_def text_platform_def)
qed

definition hash_platform :: platform where
  "hash_platform = text_platform\<lparr>sha256_hex := (\<lambda>s. take 64 (s @ replicate 64 CHR ''0''))\<rparr>"

definition half_report :: reliability_report where
  "half_report = \<lparr>rp_submitted_jobs = 2, rp_lifecycle_counts = [(''completed'', 1)], rp_completion_rate = 1 / 2,
     rp_duplicate_finalization_count = 0, rp_retry_count = 0, rp_queue_lag_seconds = 1 / 2, rp_p95_duration_seconds = 1 / 2,
     rp_artifact_completeness = 1 / 2, rp_finalization_conflict_attempt_count = 0, rp_failure_classification = [],
     rp_estimated_cost_usd = dec_zero, rp_run_id = Some ''r'', rp_source = ''s'', rp_idempotency_replay_count = 0,
     rp_injected_failure_count = 0, rp_title = ''t'', rp_backpressure = None, rp_artifact_integrity = None\<rparr>"

definition example_host :: host where
  "example_host = \<lparr>h_cwd = Path ''/'' [''w''], h_now = artifact_time, h_git = (\<lambda>args. Inr (0, ''abc'')), h_python_version = ''3.12.3'',
     h_implementation = ''CPython'', h_system = ''Linux'', h_machine = ''x86_64''\<rparr>"

lemma example_bundle:
  obtains payload where "path_suffix (Path [] [''x.md'']) = ''.md''" "wf_path (Path [] [''x.md''])"
    "mkdir_parents (path_parent (Path [] [''x.md''])) [] = (Inr (), [])"
    "evidence_payload example_host half_report ''smoke'' (CDict [(''artifact_root'', CPath (Path [] [''a'']))]) None [] = (Inr payload, [])"
    "\<forall>b. length (sha256_hex hash_platform b) = 64"
    "printable (float_repr hash_platform) (float_parse hash_platform) (JObj payload)"
    "\<forall>q \<in> set (floats_of (JObj payload)). CHR 0x0D \<notin> set (float_repr hash_platform q)"
proof -
  let ?rp = "Path [] [''x.md'']" and ?cfg = "CDict [(''artifact_root'', CPath (Path [] [''a'']))]"
  have stem: "path_suffix ?rp = ''.md''" by (simp add: path_suffix_def path_name_def last_dot_def Let_def)
  have wf: "wf_path ?rp" by (simp add: wf_path_def)
  have mk: "mkdir_parents (path_parent ?rp) [] = (Inr (), [])" by (simp add: path_parent_def mkdir_parents_def ancestors_def)
  obtain payload where pay: "evidence_payload example_host half_report ''smoke'' ?cfg None [] = (Inr payload, [])"
    and pr: "printable (float_repr hash_platform) (float_parse hash_platform) (JObj payload)"
    "\<forall>q \<in> set (floats_of (JObj payload)). CHR 0x0D \<notin> set (float_repr hash_platform q)"
  proof -
    have half: "float_reads (float_repr hash_platform) (float_parse hash_platform) (1 / 2)"
      using text_platform_half by (auto simp: hash_platform_def min_def)
    have cr: "CHR 0x0D \<notin> set (float_repr hash_platform q)" for q by (simp add: hash_platform_def text_platform_def)
    show ?thesis
    proof (rule that)
      show "evidence_payload example_host half_report ''smoke'' ?cfg None [] = (Inr
         [(''schema_version'', JStr RUN_EVIDENCE_SCHEMA), (''generated_at'', JStr (isoformat artifact_time)),
          (''command'', JStr ''smoke''), (''config'', JObj [(''artifact_root'', JStr (path_str (Path [] [''a''])))]), (''seed'', JNull),
          (''source_revision'', JObj [(''commit'', JStr (if strip ''abc'' \<noteq> [] then strip ''abc'' else ''unavailable'')),
             (''dirty'', JBool (strip ''abc'' \<noteq> []))]),
          (''environment'', JObj [(''python'', JStr ''3.12.3''), (''implementation'', JStr ''CPython''), (''platform'', JStr ''Linux''),
             (''machine'', JStr ''x86_64'')]),
          (''report'', JObj [(''title'', JStr ''t''), (''run_id'', JStr ''r''), (''source'', JStr ''s''), (''submitted_jobs'', JInt 2),
             (''lifecycle_counts'', JObj [(''completed'', JInt 1)]), (''completion_rate'', JFloat (1 / 2)),
             (''duplicate_terminal_event_count'', JInt 0), (''finalization_conflict_attempt_count'', JInt 0), (''retry_count'', JInt 0),
             (''queue_lag_seconds'', JFloat (1 / 2)), (''p95_duration_seconds'', JFloat (1 / 2)), (''artifact_completeness'', JFloat (1 / 2)),
             (''failure_classification'', JObj []), (''estimated_cost_usd'', JStr (dec_str dec_zero)),
             (''idempotency_replay_count'', JInt 0), (''injected_failure_count'', JInt 0), (''backpressure'', JNull),
             (''artifact_integrity'', JObj [(''checked_count'', JInt 0), (''valid_count'', JInt 0), (''artifacts'', JList [])])])], [])"
        by (simp add: evidence_payload_def bindM_eq portable_path_def is_absolute_def source_revision_def git_output_def
            example_host_def report_payload_def half_report_def counts_json_def backpressure_json_def optional_text_def
            dupdate_def nonempty_def)
    qed (simp_all add: half cr)
  qed
  have len: "\<forall>b. length (sha256_hex hash_platform b) = 64" by (auto simp: hash_platform_def min_def)
  from that [OF stem wf mk pay len pr] show ?thesis .
qed

text \<open>
  C39. A run's evidence can always be verified. When the report's directory can be made, the payload can
  be built, and no other entry of the directory starts with the report's stem, then writing the bundle
  succeeds: the report file holds the rendered report, the data file reads back as the payload, and
  the manifest verifies.
\<close>

theorem bundle_verifies:
  assumes "path_suffix rp = ''.md''" "wf_path rp"
    and "mkdir_parents (path_parent rp) fs = (Inr (), fs1)"
    and "evidence_payload h report cmd config seed fs1 = (Inr payload, fs1)"
    and "\<forall>n \<in> {path_stem rp @ ''.md'', path_stem rp @ ''.json'', path_stem rp @ ''.manifest.json''}.
      map_of fs1 (with_name rp n) = None \<or> (\<exists>c. map_of fs1 (with_name rp n) = Some (File c))"
    and "\<forall>n \<in> set (entry_names fs1 (path_parent rp)). starts_with n (path_stem rp @ ''.'') \<longrightarrow>
      n \<in> {path_stem rp @ ''.md'', path_stem rp @ ''.json'', path_stem rp @ ''.manifest.json''}"
    and "\<forall>b. length (sha256_hex pf b) = 64"
    and "printable (float_repr pf) (float_parse pf) (JObj payload)"
    and "\<forall>q \<in> set (floats_of (JObj payload)). CHR 0x0D \<notin> set (float_repr pf q)"
  shows "\<exists>bundle fs' t. write_evidence_bundle pf h rp text report cmd config seed fs = (Inr bundle, fs')
    \<and> read_bytes rp fs' = (Inr (utf8_encode text), fs')
    \<and> read_text (eb_data_path bundle) fs' = (Inr t, fs') \<and> loads (float_parse pf) t = Some (canon (JObj payload))
    \<and> verify_evidence_manifest pf (eb_manifest_path bundle) fs' = (Inr (), fs')"
  using assms by (rule bundle_written)

lemma bundle_verifies_witness:
  "\<exists>bundle fs'. write_evidence_bundle hash_platform example_host (Path [] [''x.md'']) ''report'' half_report ''smoke''
      (CDict [(''artifact_root'', CPath (Path [] [''a'']))]) None [] = (Inr bundle, fs')
    \<and> read_bytes (Path [] [''x.md'']) fs' = (Inr (utf8_encode ''report''), fs')
    \<and> verify_evidence_manifest hash_platform (eb_manifest_path bundle) fs' = (Inr (), fs')"
proof (rule example_bundle, goal_cases)
  case (1 payload)
  from bundle_verifies [OF 1(1-4) _ _ 1(5-7), of "''report''"] show ?case by (auto simp: entry_names_def)
qed

text \<open>
  C40. A manifest binds what it lists: two directories whose manifests have the same text and both
  verify hold, under each of the two names, regular files with the same digest, and neither holds
  any other file whose name starts with the stem.
\<close>

theorem manifest_binds_contents:
  assumes "verify_evidence_manifest pf mp fs = (Inr (), fs)" "verify_evidence_manifest pf mp fs' = (Inr (), fs')"
    and "read_text mp fs = (Inr t, fs)" "read_text mp fs' = (Inr t, fs')"
  shows "(\<forall>n \<in> set (expected_names mp). \<exists>b b'. node_at fs (path_join (path_parent mp) n) = Some (File b)
      \<and> node_at fs' (path_join (path_parent mp) n) = Some (File b') \<and> sha256_hex pf b = sha256_hex pf b')
    \<and> (\<forall>n \<in> set (entry_names fs' (path_parent mp)). is_file fs' (path_join (path_parent mp) n) \<longrightarrow>
        starts_with n (manifest_stem mp @ ''.'') \<longrightarrow> n \<in> insert (path_name mp) (set (expected_names mp)))"
proof -
  have h: "manifest_holds pf mp fs" "manifest_holds pf mp fs'" using assms(1,2) by (simp_all add: verify_iff)
  obtain m e1 e2 n1 n2 where a: "loads (float_parse pf) t = Some (JObj m)" "dget m ''files'' = Some (JList [e1, e2])"
    "entry_holds pf mp fs e1 n1" "entry_holds pf mp fs e2 n2" "{n1, n2} = set (expected_names mp)"
    using h(1) assms(3) unfolding manifest_holds_def by auto
  obtain m' e1' e2' n1' n2' where b: "loads (float_parse pf) t = Some (JObj m')" "dget m' ''files'' = Some (JList [e1', e2'])"
    "entry_holds pf mp fs' e1' n1'" "entry_holds pf mp fs' e2' n2'"
    using h(2) assms(4) unfolding manifest_holds_def by auto
  have same: "e1' = e1" "e2' = e2" using a(1,2) b(1,2) by simp_all
  have bound: "\<exists>b b'. node_at fs (path_join (path_parent mp) n) = Some (File b)
      \<and> node_at fs' (path_join (path_parent mp) n) = Some (File b') \<and> sha256_hex pf b = sha256_hex pf b'"
    if "entry_holds pf mp fs e n" "entry_holds pf mp fs' e n'" for e n n'
    using that by (auto simp: entry_holds_def)
  have "\<forall>n \<in> {n1, n2}. \<exists>b b'. node_at fs (path_join (path_parent mp) n) = Some (File b)
      \<and> node_at fs' (path_join (path_parent mp) n) = Some (File b') \<and> sha256_hex pf b = sha256_hex pf b'"
    using bound [OF a(3) b(3) [unfolded same]] bound [OF a(4) b(4) [unfolded same]] by blast
  moreover have "\<forall>n \<in> set (entry_names fs' (path_parent mp)). is_file fs' (path_join (path_parent mp) n) \<longrightarrow>
      starts_with n (manifest_stem mp @ ''.'') \<longrightarrow> n \<in> insert (path_name mp) (set (expected_names mp))"
    using h(2) unfolding manifest_holds_def by (simp add: expected_names_def)
  ultimately show ?thesis unfolding a(5) ..
qed

lemma manifest_binds_contents_witness:
  "\<exists>(bundle :: evidence_bundle) fs t. verify_evidence_manifest hash_platform (eb_manifest_path bundle) fs = (Inr (), fs)
    \<and> read_text (eb_manifest_path bundle) fs = (Inr t, fs)
    \<and> (\<forall>n \<in> set (expected_names (eb_manifest_path bundle)).
        \<exists>b. node_at fs (path_join (path_parent (eb_manifest_path bundle)) n) = Some (File b))"
proof (rule example_bundle, goal_cases)
  case (1 payload)
  from bundle_written [OF 1(1-4) _ _ 1(5-7), of "''report''"] obtain bd :: evidence_bundle and fs where
    v: "verify_evidence_manifest hash_platform (eb_manifest_path bd) fs = (Inr (), fs)" by (auto simp: entry_names_def)
  then obtain t where t: "read_text (eb_manifest_path bd) fs = (Inr t, fs)" by (auto simp: verify_iff manifest_holds_def)
  from manifest_binds_contents [OF v v t t] v t show ?case by blast
qed

text \<open>What is not caught: a manifest that is JSON but not an object, or not UTF-8\<close>

lemma malformed_manifest_escapes:
  "read_text mp fs = (Inr t, fs) \<Longrightarrow> loads (float_parse pf) t = Some v \<Longrightarrow> (\<forall>d. v \<noteq> JObj d) \<Longrightarrow>
     verify_evidence_manifest pf mp fs = (Inl (AttributeError ''get''), fs)"
  "read_bytes mp fs = (Inr b, fs) \<Longrightarrow> utf8_decode b = None \<Longrightarrow>
     verify_evidence_manifest pf mp fs = (Inl UnicodeDecodeError, fs)"
  by (cases v) (auto simp: verify_evidence_manifest_def reading_json_def try_exceptM_def bindM_eq read_text_def)

end
