(* ===== verification/Reports.thy ===== *)
theory Reports
  imports Evidence
begin

section \<open>Reports\<close>

text \<open>
  The reports of the command line: \<open>cli/benchmark.py\<close> renders a \<open>ReliabilityReport\<close> and checks a
  reliability proof, \<open>cli/smoke.py\<close> builds the report of a run from the registry, the queue and the
  artifacts, and checks a smoke run, \<open>cli/proof.py\<close> checks and renders the full-stack proof. A count
  of a dictionary is looked up with \<open>count_of\<close>, which is \<open>d.get(k, 0)\<close>.
\<close>

subsection \<open>Rendering\<close>

definition count_of :: "(pystr \<times> int) list \<Rightarrow> pystr \<Rightarrow> int" where
  "count_of cs k = (case map_of cs k of None \<Rightarrow> 0 | Some n \<Rightarrow> n)"

definition artifact_line :: "path \<Rightarrow> artifact_metadata \<Rightarrow> (files, pystr) prog" where
  "artifact_line cwd row =
     (let line = ''- artifact job_id='' @ am_job_id row @ '' run_id='' @ am_run_id row
            @ '' attempt_number='' @ py_str_int (am_attempt_number row) @ '' size_bytes='' @ py_str_int (am_size_bytes row)
            @ '' sha256='' @ am_sha256 row @ '' input_digest='' @ am_input_digest row
            @ '' created_at='' @ isoformat (am_created_at row)
            @ '' path=artifact://'' @ am_job_id row @ ''/'' @ path_name (am_path row)
      in case am_eval_result_path row of
           None \<Rightarrow> returnM line
         | Some e \<Rightarrow> bindM (portable_path cwd (path_of e) ''eval-result'') (\<lambda>s.
             returnM (line @ '' eval_result_path='' @ s)))"

definition head_lines :: "reliability_report \<Rightarrow> pystr list" where
  "head_lines r =
     (let ls = [''# '' @ rp_title r, [], ''source: '' @ rp_source r,
            ''submitted jobs: '' @ py_str_int (rp_submitted_jobs r), ''submitted_jobs: '' @ py_str_int (rp_submitted_jobs r),
            [], ''## lifecycle counts'']
      in (case rp_run_id r of None \<Rightarrow> ls | Some i \<Rightarrow> take 3 ls @ [''run id: '' @ i] @ drop 3 ls)
         @ map (\<lambda>(k, n). ''- '' @ k @ '': '' @ py_str_int n) (sort_key fst (rp_lifecycle_counts r)))"

definition field_lines :: "reliability_report \<Rightarrow> pystr list" where
  "field_lines r =
     [[], ''## reliability fields'',
      ''- completion rate: '' @ percent 2 (rp_completion_rate r),
      ''- duplicate-finalization count: '' @ py_str_int (rp_duplicate_finalization_count r),
      ''- finalization conflict attempts: '' @ py_str_int (rp_finalization_conflict_attempt_count r),
      ''- retry count: '' @ py_str_int (rp_retry_count r),
      ''- timeout count: '' @ py_str_int (count_of (rp_lifecycle_counts r) ''timed_out''),
      ''- DLQ count: '' @ py_str_int (count_of (rp_lifecycle_counts r) ''dlq''),
      ''- queue lag: '' @ fixed 3 (rp_queue_lag_seconds r) @ ''s'',
      ''- queue lag p95: '' @ fixed 3 (rp_queue_lag_seconds r) @ ''s'',
      ''- p95 duration: '' @ fixed 3 (rp_p95_duration_seconds r) @ ''s'',
      ''- execution duration p95: '' @ fixed 3 (rp_p95_duration_seconds r) @ ''s'',
      ''- artifact completeness: '' @ percent 2 (rp_artifact_completeness r),
      ''- failure classification: '' @ py_repr (\<lambda>_. []) (counts_json (rp_failure_classification r)),
      ''- injected failure count: '' @ py_str_int (rp_injected_failure_count r),
      ''- idempotency replay count: '' @ py_str_int (rp_idempotency_replay_count r),
      ''- idempotency proof: duplicate_finalization_count == '' @ py_str_int (rp_duplicate_finalization_count r),
      ''- estimated cost: $'' @ dec_str (rp_estimated_cost_usd r), []]"

definition backpressure_lines :: "reliability_report \<Rightarrow> pystr list" where
  "backpressure_lines r =
     (let b = rp_backpressure r;
          n = (\<lambda>f. py_str_int (case b of None \<Rightarrow> 0 | Some s \<Rightarrow> f s));
          q = (\<lambda>f. (case b of None \<Rightarrow> 0 | Some s \<Rightarrow> f s) :: rat);
          queue_wait_p95 = (case b of None \<Rightarrow> rp_queue_lag_seconds r | Some s \<Rightarrow> bs_p95_queue_wait_seconds s);
          execution_p95 = (case b of None \<Rightarrow> rp_p95_duration_seconds r | Some s \<Rightarrow> bs_p95_execution_seconds s)
      in [''## queue/backpressure'', ''- queue depth: '' @ n bs_queue_depth,
          ''- oldest pending age seconds: '' @ fixed 3 (q bs_oldest_pending_age_seconds),
          ''- consumer lag: '' @ n bs_consumer_lag, ''- leased jobs: '' @ n bs_leased_jobs,
          ''- running jobs: '' @ n (int \<circ> bs_running_jobs),
          ''- worker utilization: '' @ percent 2 (q bs_worker_utilization),
          ''- retry rate: '' @ percent 2 (q bs_retry_rate), ''- DLQ count: '' @ n bs_dlq_count,
          ''- p95 queue wait seconds: '' @ fixed 3 queue_wait_p95,
          ''- p95 execution seconds: '' @ fixed 3 execution_p95, []])"

definition render_reliability_report :: "path \<Rightarrow> reliability_report \<Rightarrow> (files, pystr) prog" where
  "render_reliability_report cwd r =
     (let ai = rp_artifact_integrity r;
          integrity = [''## artifact integrity'',
            ''- checked artifacts: '' @ py_str_int (case ai of None \<Rightarrow> 0 | Some s \<Rightarrow> int (ai_checked_count s)),
            ''- valid artifacts: '' @ py_str_int (case ai of None \<Rightarrow> 0 | Some s \<Rightarrow> int (ai_valid_count s))]
      in bindM (mapM (artifact_line cwd) (case ai of None \<Rightarrow> [] | Some s \<Rightarrow> ai_rows s)) (\<lambda>rows.
         returnM (join [CHR 0x0A] (head_lines r @ field_lines r @ integrity @ rows @ [[]] @ backpressure_lines r))))"

subsection \<open>Checks\<close>

definition terminal_count :: "reliability_report \<Rightarrow> int" where
  "terminal_count r = sum_list (map (count_of (rp_lifecycle_counts r)) [''completed'', ''failed'', ''timed_out'', ''cancelled''])"

definition error_if :: "bool \<Rightarrow> pystr \<Rightarrow> pystr list" where
  "error_if b msg = (if b then [msg] else [])"

definition integrity_errors :: "reliability_report \<Rightarrow> pystr list" where
  "integrity_errors r = (let completed = count_of (rp_lifecycle_counts r) ''completed'' in
     case rp_artifact_integrity r of None \<Rightarrow> []
     | Some ai \<Rightarrow>
         error_if (int (ai_checked_count ai) \<noteq> completed)
           (''artifact integrity checked '' @ nat_digits (ai_checked_count ai) @ '' of '' @ py_str_int completed @ '' completed jobs'')
       @ error_if (ai_valid_count ai \<noteq> ai_checked_count ai) ''artifact integrity validation did not cover all checked artifacts'')"

definition validate_smoke_report :: "reliability_report \<Rightarrow> int \<Rightarrow> exc + unit" where
  "validate_smoke_report r expected_jobs =
     (let completed = count_of (rp_lifecycle_counts r) ''completed'';
          errors = error_if (rp_submitted_jobs r \<noteq> expected_jobs)
              (''submitted_jobs expected '' @ py_str_int expected_jobs @ '', got '' @ py_str_int (rp_submitted_jobs r))
            @ error_if (terminal_count r \<noteq> expected_jobs)
              (''terminal jobs expected '' @ py_str_int expected_jobs @ '', got '' @ py_str_int (terminal_count r))
            @ error_if (completed \<noteq> expected_jobs)
              (''completed jobs expected '' @ py_str_int expected_jobs @ '', got '' @ py_str_int completed)
            @ error_if (rp_duplicate_finalization_count r \<noteq> 0)
              (''duplicate finalizations: '' @ py_str_int (rp_duplicate_finalization_count r))
            @ error_if (rp_artifact_completeness r < 1)
              (''artifact completeness below 100%: '' @ percent 2 (rp_artifact_completeness r))
            @ integrity_errors r
            @ error_if (dec_val (rp_estimated_cost_usd r) \<noteq> 0)
              (''stub mode cost expected $0, got $'' @ dec_str (rp_estimated_cost_usd r))
      in if errors = [] then Inr () else Inl (SmokeValidationError errors))"

definition validate_reliability_proof :: "reliability_report \<Rightarrow> int \<Rightarrow> rat \<Rightarrow> bool \<Rightarrow> bool \<Rightarrow> exc + unit" where
  "validate_reliability_proof r expected_jobs failure_rate include_timeouts repeat_idempotency_submissions =
     (let errors = error_if (rp_submitted_jobs r \<noteq> expected_jobs)
              (''submitted_jobs expected '' @ py_str_int expected_jobs @ '', got '' @ py_str_int (rp_submitted_jobs r))
            @ error_if (terminal_count r \<noteq> expected_jobs)
              (''terminal jobs expected '' @ py_str_int expected_jobs @ '', got '' @ py_str_int (terminal_count r))
            @ error_if (rp_duplicate_finalization_count r \<noteq> 0)
              (''duplicate finalizations: '' @ py_str_int (rp_duplicate_finalization_count r))
            @ error_if (0 < failure_rate \<and> rp_retry_count r = 0) ''expected retry evidence for injected transient failures''
            @ error_if (include_timeouts \<and> count_of (rp_lifecycle_counts r) ''timed_out'' = 0) ''expected timeout evidence''
            @ error_if (repeat_idempotency_submissions \<and> rp_idempotency_replay_count r = 0) ''expected idempotency replay evidence''
            @ error_if (rp_artifact_completeness r < 1)
              (''artifact completeness below 100%: '' @ percent 2 (rp_artifact_completeness r))
            @ integrity_errors r
            @ error_if (dec_val (rp_estimated_cost_usd r) \<noteq> 0)
              (''stub proof cost expected $0, got $'' @ dec_str (rp_estimated_cost_usd r))
      in if errors = [] then Inr () else Inl (ReliabilityProofValidationError errors))"

definition validate_full_stack_report :: "reliability_report \<Rightarrow> int \<Rightarrow> exc + unit" where
  "validate_full_stack_report r expected_jobs =
     (let completed = count_of (rp_lifecycle_counts r) ''completed'';
          errors = error_if (rp_submitted_jobs r \<noteq> expected_jobs)
              (''submitted_jobs expected '' @ py_str_int expected_jobs @ '', got '' @ py_str_int (rp_submitted_jobs r))
            @ error_if (completed \<noteq> expected_jobs)
              (''completed_jobs expected '' @ py_str_int expected_jobs @ '', got '' @ py_str_int completed)
            @ error_if (rp_duplicate_finalization_count r \<noteq> 0)
              (''duplicate finalization count is '' @ py_str_int (rp_duplicate_finalization_count r))
            @ (case rp_artifact_integrity r of
                 None \<Rightarrow> [''artifact integrity summary missing'']
               | Some ai \<Rightarrow> error_if (int (ai_valid_count ai) \<noteq> expected_jobs)
                   (''valid artifacts expected '' @ py_str_int expected_jobs @ '', got '' @ nat_digits (ai_valid_count ai)))
      in if errors = [] then Inr () else Inl (FullStackProofError (join ''; '' errors)))"

end
