(* ===== verification/SmokeReport.thy ===== *)
theory SmokeReport
  imports Reports
begin

section \<open>The report of a run\<close>

text \<open>
  \<open>build_smoke_report\<close> of \<open>cli/smoke.py\<close>: the lifecycle counts, the events grouped by job, the tally of
  retries, failures and artifacts, and the backpressure snapshot. Artifacts are read back from the
  metadata in the \<open>completed\<close> events and checked against their files; the first one that fails raises
  \<open>ArtifactIntegrityError\<close>. \<open>fromisoformat\<close> is a parameter.
\<close>

subsection \<open>Lifecycle counts\<close>

definition SMOKE_COUNT_KEYS :: "pystr list" where
  "SMOKE_COUNT_KEYS = [''queued'', ''running'', ''completed'', ''failed'', ''timed_out'', ''cancelled'', ''dlq'']"

text \<open>\<open>SELECT status, count(*) ... GROUP BY status\<close>; the code does not depend on the order of the groups\<close>

definition status_rows :: "uuid \<Rightarrow> database \<Rightarrow> (pystr \<times> int) list" where
  "status_rows run db = (let own = filter (\<lambda>r. job_run_id r = run) (jobs db) in
     map (\<lambda>s. (s, int (length (filter (\<lambda>r. job_status r = s) own)))) (remdups (map job_status own)))"

definition count_key :: "pystr \<Rightarrow> pystr" where
  "count_key status = (if status \<in> {''submitted'', ''queued''} then ''queued'' else status)"

definition add_count :: "pystr \<times> int \<Rightarrow> (pystr \<times> int) list \<Rightarrow> (pystr \<times> int) list" where
  "add_count row counts = (case row of (status, n) \<Rightarrow>
     case map_of counts (count_key status) of None \<Rightarrow> counts | Some m \<Rightarrow> AList.update (count_key status) (m + n) counts)"

definition counts_from :: "pystr list \<Rightarrow> (pystr \<times> int) list \<Rightarrow> (pystr \<times> int) list" where
  "counts_from keys rows = fold add_count rows (map (\<lambda>k. (k, 0)) keys)"

subsection \<open>The tally of the events\<close>

record smoke_tally =
  tl_retry_count :: int
  tl_failures :: "(pystr \<times> int) list"
  tl_rows :: "artifact_metadata list"

text \<open>\<open>d[k] += 1\<close> on a \<open>defaultdict(int)\<close>\<close>

definition increment :: "pystr \<Rightarrow> (pystr \<times> int) list \<Rightarrow> (pystr \<times> int) list" where
  "increment k cs = AList.update k (count_of cs k + 1) cs"

definition failure_class :: "job_event_record \<Rightarrow> pystr option" where
  "failure_class e =
     (if ev_type e = ''failed'' then Some (case dget_none (ev_data e) ''retryable'' of
          JBool True \<Rightarrow> ''transient'' | JBool False \<Rightarrow> ''permanent'' | _ \<Rightarrow> ''failed'')
      else if ev_type e = ''timed_out'' then Some ''timeout''
      else if ev_type e = ''cancelled'' then Some ''cancelled''
      else None)"

definition completed_artifact ::
    "platform \<Rightarrow> (pystr \<Rightarrow> exc + datetime) \<Rightarrow> job_event_record \<Rightarrow> (files, artifact_metadata list) prog" where
  "completed_artifact pf fromisoformat e =
     (if ev_type e \<noteq> ''completed'' then returnM []
      else (case dget_none (ev_data e) ''result'' of
          JObj result \<Rightarrow> (case dget_none result ''artifact'' of
             JObj artifact \<Rightarrow> bindM (liftM (from_dict pf fromisoformat artifact)) (\<lambda>a.
               thenM (validate_artifact_integrity pf a) (returnM [a]))
           | _ \<Rightarrow> raiseM (ArtifactIntegrityError (''missing artifact metadata for completed job '' @ uuid_str (ev_job_id e))))
        | _ \<Rightarrow> returnM []))"

definition tally_event ::
    "platform \<Rightarrow> (pystr \<Rightarrow> exc + datetime) \<Rightarrow> smoke_tally \<Rightarrow> job_event_record \<Rightarrow> (files, smoke_tally) prog" where
  "tally_event pf fromisoformat t e = bindM (completed_artifact pf fromisoformat e) (\<lambda>rows. returnM
     \<lparr>tl_retry_count = tl_retry_count t + (if ev_type e = ''retry_scheduled'' then 1 else 0),
      tl_failures = (case failure_class e of None \<Rightarrow> tl_failures t | Some k \<Rightarrow> increment k (tl_failures t)),
      tl_rows = tl_rows t @ rows\<rparr>)"

fun tally_events ::
    "platform \<Rightarrow> (pystr \<Rightarrow> exc + datetime) \<Rightarrow> smoke_tally \<Rightarrow> job_event_record list \<Rightarrow> (files, smoke_tally) prog" where
  "tally_events pf fromisoformat t [] = returnM t"
| "tally_events pf fromisoformat t (e # es) =
     bindM (tally_event pf fromisoformat t e) (\<lambda>t'. tally_events pf fromisoformat t' es)"

subsection \<open>The report\<close>

record 'r inspector =
  in_client :: "'r redis_client"
  in_inspection :: "'r inspection_client"
  in_config :: queue_config

definition inJobFiles :: "(files, 'a) prog \<Rightarrow> (('r, job_env) world, 'a) prog" where
  "inJobFiles m = inEnv (inFiles m)"

definition build_smoke_report ::
    "platform \<Rightarrow> (pystr \<Rightarrow> exc + datetime) \<Rightarrow> uuid \<Rightarrow> path \<Rightarrow> 'r inspector option \<Rightarrow> int option
      \<Rightarrow> (('r, job_env) world, reliability_report) prog" where
  "build_smoke_report pf fromisoformat run_id artifact_root queue worker_count =
     bindM (getM w_db) (\<lambda>db.
     let submitted_jobs = length (filter (\<lambda>r. job_run_id r = run_id) (jobs db));
         lifecycle_counts = counts_from SMOKE_COUNT_KEYS (status_rows run_id db);
         groups = map snd (events_by_job (filter (\<lambda>e. ev_run_id e = run_id) (job_events db)));
         completed_jobs = count_of lifecycle_counts ''completed''
     in bindM (inDb (duplicate_terminal_event_count (Some run_id))) (\<lambda>duplicate_finalizations.
        bindM (inDb (finalization_conflict_attempt_count (Some run_id))) (\<lambda>conflict_attempts.
        bindM (inJobFiles (tally_events pf fromisoformat \<lparr>tl_retry_count = 0, tl_failures = [], tl_rows = []\<rparr> (concat groups))) (\<lambda>tally.
        bindM (case queue of None \<Rightarrow> returnM None
           | Some q \<Rightarrow> bindM (inspect_queue_backpressure (in_client q) (in_inspection q) (in_config q) (Some run_id) worker_count 1000)
               (\<lambda>b. returnM (Some b))) (\<lambda>backpressure.
        let completed_artifacts = length (tl_rows tally) in
        returnM \<lparr>rp_submitted_jobs = int submitted_jobs, rp_lifecycle_counts = lifecycle_counts,
          rp_completion_rate = (if submitted_jobs = 0 then 0 else of_int completed_jobs / of_nat submitted_jobs),
          rp_duplicate_finalization_count = int duplicate_finalizations, rp_retry_count = tl_retry_count tally,
          rp_queue_lag_seconds = (case backpressure of Some b \<Rightarrow> bs_p95_queue_wait_seconds b
             | None \<Rightarrow> p95 (concat (map queue_wait groups))),
          rp_p95_duration_seconds = (case backpressure of Some b \<Rightarrow> bs_p95_execution_seconds b
             | None \<Rightarrow> p95 (concat (map execution_duration groups))),
          rp_artifact_completeness = (if completed_jobs = 0 then 1 else of_nat completed_artifacts / of_int completed_jobs),
          rp_finalization_conflict_attempt_count = int conflict_attempts,
          rp_failure_classification = tl_failures tally, rp_estimated_cost_usd = dec_zero,
          rp_run_id = Some (uuid_str run_id), rp_source = ''runtime_state:'' @ path_name artifact_root,
          rp_idempotency_replay_count = 0, rp_injected_failure_count = 0, rp_title = ''Load Smoke Report'',
          rp_backpressure = backpressure,
          rp_artifact_integrity = Some \<lparr>ai_checked_count = length (tl_rows tally), ai_valid_count = completed_artifacts,
             ai_rows = tl_rows tally\<rparr>\<rparr>)))))"


subsection \<open>Counting\<close>

lemma sum_status_counts:
  "sum_list (map (count_list L) (filter P (remdups L))) = length (filter P L)"
proof -
  have "sum_list (map (count_list L) (filter P (remdups L))) = (\<Sum>s \<in> {s \<in> set L. P s}. count_list L s)"
    by (simp add: sum_list_distinct_conv_sum_set)
  also have "\<dots> = (\<Sum>s \<in> {s \<in> set L. P s}. count_list (filter P L) s)"
    by (rule sum.cong) (auto simp: count_list_eq_length_filter intro!: arg_cong [where f = length] filter_cong)
  also have "\<dots> = length (filter P L)" by (rule sum_count_set) auto
  finally show ?thesis .
qed

lemma int_sum_list: "int (sum_list ns) = sum_list (map int ns)"
  by (induction ns) simp_all

lemma add_count_get:
  "map_of (add_count row cs) k =
     map_option (\<lambda>m. if count_key (fst row) = k then m + snd row else m) (map_of cs k)"
  by (cases row; cases "map_of cs k"; cases "map_of cs (count_key (fst row))") (auto simp: add_count_def update_conv)

lemma fold_add_count_get:
  "map_of (fold add_count rows cs) k =
     map_option (\<lambda>m. m + sum_list (map snd (filter (\<lambda>row. count_key (fst row) = k) rows))) (map_of cs k)"
proof (induction rows arbitrary: cs)
  case Nil
  then show ?case by (simp add: option.map_ident)
next
  case (Cons row rows)
  then show ?case by (cases "map_of cs k") (simp_all add: add_count_get)
qed

definition run_jobs :: "uuid \<Rightarrow> database \<Rightarrow> job_record list" where
  "run_jobs run db = filter (\<lambda>r. job_run_id r = run) (jobs db)"

lemma counts_from_jobs:
  assumes "k \<in> set keys"
  shows "count_of (counts_from keys (status_rows run db)) k =
    int (length (filter (\<lambda>r. count_key (job_status r) = k) (run_jobs run db)))"
proof -
  let ?L = "map job_status (run_jobs run db)"
  have "map_of (map (\<lambda>k. (k, 0 :: int)) keys) k = Some 0" using assms by (induction keys) auto
  then have "count_of (counts_from keys (status_rows run db)) k =
      sum_list (map snd (filter (\<lambda>row. count_key (fst row) = k) (status_rows run db)))"
    by (simp add: count_of_def counts_from_def fold_add_count_get)
  also have "\<dots> = sum_list (map (\<lambda>s. int (count_list ?L s)) (filter (\<lambda>s. count_key s = k) (remdups ?L)))"
    by (simp add: status_rows_def Let_def filter_map comp_def run_jobs_def count_list_eq_length_filter filter_filter eq_commute)
  also have "\<dots> = int (sum_list (map (count_list ?L) (filter (\<lambda>s. count_key s = k) (remdups ?L))))"
    by (simp only: int_sum_list map_map comp_def)
  also have "\<dots> = int (length (filter (\<lambda>s. count_key s = k) ?L))" by (simp only: sum_status_counts)
  also have "\<dots> = int (length (filter (\<lambda>r. count_key (job_status r) = k) (run_jobs run db)))"
    by (simp add: filter_map comp_def)
  finally show ?thesis .
qed

lemma sum_of_flags:
  "(\<forall>x \<in> set xs. f x \<le> (1 :: nat)) \<Longrightarrow> sum_list (map f xs) = length (filter (\<lambda>x. f x = 1) xs)"
  by (induction xs) (auto simp: le_Suc_eq)

lemma length_filter_all: "length (filter P xs) = length xs \<Longrightarrow> x \<in> set xs \<Longrightarrow> P x"
  using length_filter_less [of x xs P] by auto


subsection \<open>The artifacts of a report\<close>

text \<open>The metadata in a \<open>completed\<close> event\<close>

definition recorded_artifact :: "platform \<Rightarrow> (pystr \<Rightarrow> exc + datetime) \<Rightarrow> job_event_record \<Rightarrow> artifact_metadata \<Rightarrow> bool" where
  "recorded_artifact pf fromisoformat e a \<longleftrightarrow> ev_type e = ''completed'' \<and>
     (\<exists>result artifact. dget_none (ev_data e) ''result'' = JObj result \<and> dget_none result ''artifact'' = JObj artifact
       \<and> from_dict pf fromisoformat artifact = Inr a)"

lemma validate_artifact_state: "validate_artifact_integrity pf a fs = (r, fs') \<Longrightarrow> fs' = fs"
  by (auto simp: validate_artifact_integrity_def bindM_eq read_bytes_def Let_def split: if_splits option.splits node.splits)

lemma completed_artifact_rows:
  assumes "completed_artifact pf fi e fs = (Inr rows, fs')"
  shows "fs' = fs \<and> (rows = [] \<or>
    (\<exists>a. rows = [a] \<and> recorded_artifact pf fi e a \<and> validate_artifact_integrity pf a fs = (Inr (), fs)))"
proof (cases "rows = []")
  case True
  with assms show ?thesis
    by (auto simp: completed_artifact_def bindM_eq thenM_eq dest!: validate_artifact_state
        split: if_splits json.splits prod.splits sum.splits)
next
  case False
  then have "ev_type e = ''completed''" using assms by (cases "ev_type e = ''completed''") (simp_all add: completed_artifact_def)
  with assms False obtain result where r: "dget_none (ev_data e) ''result'' = JObj result"
    by (cases "dget_none (ev_data e) ''result''") (auto simp: completed_artifact_def)
  with assms False \<open>ev_type e = ''completed''\<close> obtain artifact where a: "dget_none result ''artifact'' = JObj artifact"
    by (cases "dget_none result ''artifact''") (auto simp: completed_artifact_def)
  from assms r a \<open>ev_type e = ''completed''\<close> obtain m where m: "from_dict pf fi artifact = Inr m"
    by (cases "from_dict pf fi artifact") (auto simp: completed_artifact_def bindM_eq)
  obtain v fs1 where v: "validate_artifact_integrity pf m fs = (v, fs1)" by (cases "validate_artifact_integrity pf m fs")
  with assms r a m \<open>ev_type e = ''completed''\<close> have "v = Inr ()" "rows = [m]" "fs' = fs1"
    by (auto simp: completed_artifact_def bindM_eq thenM_eq split: sum.splits)
  with v validate_artifact_state [OF v] r a m \<open>ev_type e = ''completed''\<close> show ?thesis
    by (auto simp: recorded_artifact_def)
qed

text \<open>The rows that an event contributes\<close>

definition event_rows :: "platform \<Rightarrow> (pystr \<Rightarrow> exc + datetime) \<Rightarrow> files \<Rightarrow> job_event_record \<Rightarrow> artifact_metadata list" where
  "event_rows pf fi fs e = (case completed_artifact pf fi e fs of (Inr rows, _) \<Rightarrow> rows | _ \<Rightarrow> [])"

lemma event_rows_recorded:
  "a \<in> set (event_rows pf fi fs e) \<Longrightarrow>
     recorded_artifact pf fi e a \<and> validate_artifact_integrity pf a fs = (Inr (), fs)"
  by (cases "completed_artifact pf fi e fs"; cases "fst (completed_artifact pf fi e fs)")
     (auto simp: event_rows_def dest: completed_artifact_rows)

lemma event_rows_length: "length (event_rows pf fi fs e) \<le> (if ev_type e = ''completed'' then 1 else 0)"
proof -
  obtain r fs' where c: "completed_artifact pf fi e fs = (r, fs')" by (cases "completed_artifact pf fi e fs")
  show ?thesis
  proof (cases r)
    case (Inl x)
    with c show ?thesis by (simp add: event_rows_def)
  next
    case (Inr rows)
    with c have "event_rows pf fi fs e = rows" by (simp add: event_rows_def)
    moreover have "rows = [] \<or> (\<exists>a. rows = [a] \<and> ev_type e = ''completed'')"
      using completed_artifact_rows c Inr by (fastforce simp: recorded_artifact_def)
    ultimately show ?thesis by auto
  qed
qed

lemma tally_events_rows:
  "tally_events pf fi t es fs = (Inr t', fs') \<Longrightarrow>
     fs' = fs \<and> tl_rows t' = tl_rows t @ concat (map (event_rows pf fi fs) es)"
proof (induction es arbitrary: t)
  case Nil
  then show ?case by simp
next
  case (Cons e es)
  obtain r fs1 where r: "completed_artifact pf fi e fs = (r, fs1)" by (cases "completed_artifact pf fi e fs")
  with Cons.prems obtain rows where rows: "r = Inr rows"
    by (cases r) (auto simp: tally_event_def bindM_eq)
  with r have fs1: "fs1 = fs" by (auto dest: completed_artifact_rows)
  with r rows have "event_rows pf fi fs e = rows" by (simp add: event_rows_def)
  with Cons.prems r rows fs1 Cons.IH show ?case
    by (force simp: tally_event_def bindM_eq)
qed


lemma inspect_frame:
  assumes "inspect_queue_backpressure rc ic cfg run wc n w = (r, w')"
  shows "w_db w' = w_db w \<and> w_env w' = w_env w"
  using assms
  by (auto simp: inspect_queue_backpressure_def thenM_eq bindM_eq inRedis_eq inDb_eq database_backpressure_metrics_def
      split: prod.splits sum.splits)

text \<open>What a report that was built says of the run\<close>

definition report_rows :: "platform \<Rightarrow> (pystr \<Rightarrow> exc + datetime) \<Rightarrow> uuid \<Rightarrow> ('r, job_env) world \<Rightarrow> artifact_metadata list" where
  "report_rows pf fi run w = concat (map (event_rows pf fi (je_files (w_env w)))
     (concat (map snd (events_by_job (filter (\<lambda>e. ev_run_id e = run) (job_events (w_db w)))))))"

lemma report_built:
  assumes "build_smoke_report pf fi run base q wc w = (Inr r, w')"
  shows "rp_submitted_jobs r = int (length (run_jobs run (w_db w)))"
    "rp_lifecycle_counts r = counts_from SMOKE_COUNT_KEYS (status_rows run (w_db w))"
    "\<exists>d. duplicate_terminal_event_count (Some run) (w_db w) = (Inr d, w_db w) \<and> rp_duplicate_finalization_count r = int d"
    "rp_artifact_integrity r = Some \<lparr>ai_checked_count = length (report_rows pf fi run w),
       ai_valid_count = length (report_rows pf fi run w), ai_rows = report_rows pf fi run w\<rparr>"
    "w_db w' = w_db w" "w_env w' = w_env w"
proof -
  let ?es = "concat (map snd (events_by_job (filter (\<lambda>e. ev_run_id e = run) (job_events (w_db w)))))"
  let ?t0 = "\<lparr>tl_retry_count = 0, tl_failures = [], tl_rows = []\<rparr>"
  obtain d where d: "duplicate_terminal_event_count (Some run) (w_db w) = (Inr d, w_db w)"
    by (simp add: duplicate_terminal_event_count_def)
  obtain c where c: "finalization_conflict_attempt_count (Some run) (w_db w) = (Inr c, w_db w)"
    by (simp add: finalization_conflict_attempt_count_def)
  obtain t fs where t: "tally_events pf fi ?t0 ?es (je_files (w_env w)) = (t, fs)"
    by (cases "tally_events pf fi ?t0 ?es (je_files (w_env w))")
  with assms d c obtain tl where tl: "t = Inr tl"
    by (cases t) (auto simp: build_smoke_report_def Let_def bindM_eq inDb_eq inJobFiles_def inEnv_eq inFiles_def onM_def)
  note rows = tally_events_rows [OF t [unfolded tl]]
  have fs: "fs = je_files (w_env w)" and tr: "tl_rows tl = report_rows pf fi run w"
    using rows by (simp_all add: report_rows_def)
  have same: "w\<lparr>w_env := (w_env w)\<lparr>je_files := fs\<rparr>\<rparr> = w" by (simp add: fs)
  obtain b w1 where b: "(case q of None \<Rightarrow> returnM None
       | Some q \<Rightarrow> bindM (inspect_queue_backpressure (in_client q) (in_inspection q) (in_config q) (Some run) wc 1000)
           (\<lambda>b. returnM (Some b))) w = (b, w1)" by fastforce
  have frame: "w_db w1 = w_db w \<and> w_env w1 = w_env w"
    using b by (auto simp: bindM_eq dest: inspect_frame split: option.splits prod.splits sum.splits)
  from b assms d c t tl same obtain bp where bp: "b = Inr bp"
    by (cases b) (auto simp: build_smoke_report_def Let_def bindM_eq inDb_eq inJobFiles_def inEnv_eq inFiles_def onM_def)
  from assms d c t tl same b bp frame tr
  show "rp_submitted_jobs r = int (length (run_jobs run (w_db w)))"
    "rp_lifecycle_counts r = counts_from SMOKE_COUNT_KEYS (status_rows run (w_db w))"
    "\<exists>d. duplicate_terminal_event_count (Some run) (w_db w) = (Inr d, w_db w) \<and> rp_duplicate_finalization_count r = int d"
    "rp_artifact_integrity r = Some \<lparr>ai_checked_count = length (report_rows pf fi run w),
       ai_valid_count = length (report_rows pf fi run w), ai_rows = report_rows pf fi run w\<rparr>"
    "w_db w' = w_db w" "w_env w' = w_env w"
    by (auto simp: build_smoke_report_def Let_def bindM_eq inDb_eq inJobFiles_def inEnv_eq inFiles_def onM_def run_jobs_def)
qed


subsection \<open>A successful smoke report\<close>

lemma error_if_Nil [simp]: "error_if b msg = [] \<longleftrightarrow> \<not> b"
  by (simp add: error_if_def)

lemma smoke_report_valid:
  assumes "validate_smoke_report r n = Inr ()" "rp_artifact_integrity r = Some ai"
  shows "rp_submitted_jobs r = n" "count_of (rp_lifecycle_counts r) ''completed'' = n"
    "rp_duplicate_finalization_count r = 0" "int (ai_checked_count ai) = n"
  using assms by (simp_all add: validate_smoke_report_def Let_def integrity_errors_def split: if_split_asm)

lemma no_duplicates:
  assumes "duplicate_terminal_event_count (Some run) db = (Inr 0, db)"
  shows "length (filter (\<lambda>e. ev_type e \<in> TERMINAL_STATUSES) (filter (\<lambda>e. ev_job_id e = i) (filter (\<lambda>e. ev_run_id e = run) (job_events db)))) \<le> 1"
proof -
  let ?rows = "filter (\<lambda>e. ev_type e \<in> TERMINAL_STATUSES \<and> run_matches (Some run) (ev_run_id e)) (job_events db)"
  let ?own = "filter (\<lambda>e. ev_job_id e = i) ?rows"
  have "filter (\<lambda>j. length (filter (\<lambda>e. ev_job_id e = j) ?rows) > 1) (remdups (map ev_job_id ?rows)) = []"
    using assms by (simp add: duplicate_terminal_event_count_def Let_def)
  then have all: "\<forall>j \<in> set (map ev_job_id ?rows). \<not> length (filter (\<lambda>e. ev_job_id e = j) ?rows) > 1"
    by (simp only: filter_empty_conv set_remdups)
  have "length ?own \<le> 1"
  proof (cases "i \<in> set (map ev_job_id ?rows)")
    case True
    with all show ?thesis by (auto simp only: not_less)
  next
    case False
    then have "?own = []" by (auto simp only: filter_empty_conv set_map image_iff)
    then show ?thesis by (simp only: list.size)
  qed
  moreover have "filter (\<lambda>e. ev_type e \<in> TERMINAL_STATUSES) (filter (\<lambda>e. ev_job_id e = i) (filter (\<lambda>e. ev_run_id e = run) (job_events db))) = ?own"
    by (simp add: run_matches_def conj_ac eq_commute)
  ultimately show ?thesis by simp
qed

lemma rows_within_terminal:
  "length (concat (map (event_rows pf fi fs) es)) \<le> length (filter (\<lambda>e. ev_type e \<in> TERMINAL_STATUSES) es)"
proof (induction es)
  case (Cons e es)
  have "length (event_rows pf fi fs e) \<le> (if ev_type e \<in> TERMINAL_STATUSES then 1 else 0)"
    using event_rows_length [of pf fi fs e] by (cases "ev_type e = ''completed''") simp_all
  with Cons show ?case by (cases "ev_type e \<in> TERMINAL_STATUSES") simp_all
qed simp


lemma length_concat_groups:
  "length (concat (map h (concat (map snd G)))) = sum_list (map (\<lambda>g. length (concat (map h (snd g)))) G)"
  by (induction G) simp_all

text \<open>
  A job of the run has an intact artifact when one of its \<open>completed\<close> events records an artifact that
  passes the check on the files.
\<close>

definition has_intact_artifact ::
    "platform \<Rightarrow> (pystr \<Rightarrow> exc + datetime) \<Rightarrow> uuid \<Rightarrow> ('r, job_env) world \<Rightarrow> uuid \<Rightarrow> bool" where
  "has_intact_artifact pf fromisoformat run w i \<longleftrightarrow>
     (\<exists>e \<in> set (job_events (w_db w)). ev_job_id e = i \<and> ev_run_id e = run \<and>
       (\<exists>a. recorded_artifact pf fromisoformat e a \<and>
         validate_artifact_integrity pf a (je_files (w_env w)) = (Inr (), je_files (w_env w))))"

text \<open>Without duplicate finalizations, the rows of a report belong to as many jobs\<close>

lemma artifact_jobs:
  assumes "duplicate_terminal_event_count (Some run) (w_db w) = (Inr 0, w_db w)"
  obtains I where "card I = length (report_rows pf fi run w)"
    "\<And>i. i \<in> I \<Longrightarrow> has_intact_artifact pf fi run w i"
proof -
  let ?rows = "\<lambda>es. concat (map (event_rows pf fi (je_files (w_env w))) es)"
    and ?own = "filter (\<lambda>e. ev_run_id e = run) (job_events (w_db w))"
  let ?G = "events_by_job ?own"
  let ?with = "filter (\<lambda>g. length (?rows (snd g)) = 1) ?G"
  have "length (?rows (snd g)) \<le> 1" if "g \<in> set ?G" for g
    using that events_by_job_member [of "fst g" "snd g" ?own] le_trans [OF rows_within_terminal no_duplicates [OF assms]]
    by simp
  then have "sum_list (map (\<lambda>g. length (?rows (snd g))) ?G) = length ?with" by (intro sum_of_flags) blast
  moreover have "distinct (map fst ?with)" by (rule distinct_map_filter) (rule distinct_events_by_job)
  ultimately have card: "card (fst ` set ?with) = length (report_rows pf fi run w)"
    using distinct_card [of "map fst ?with"] by (simp add: report_rows_def length_concat_groups)
  have "has_intact_artifact pf fi run w i" if i: "i \<in> fst ` set ?with" for i
  proof -
    obtain g where g: "(i, g) \<in> set ?G" "length (?rows g) = 1" using i by auto
    from g(2) obtain a where "?rows g = [a]" by (auto simp only: One_nat_def length_Suc_conv length_0_conv)
    then have "a \<in> set (?rows g)" by (simp only: list.set insertI1)
    then obtain e where e: "e \<in> set g" "a \<in> set (event_rows pf fi (je_files (w_env w)) e)" by auto
    from e(1) g(1) events_by_job_member [of i g ?own] have "e \<in> set (job_events (w_db w))" "ev_job_id e = i" "ev_run_id e = run"
      by auto
    with event_rows_recorded [OF e(2)] show ?thesis unfolding has_intact_artifact_def by blast
  qed
  with card that show thesis by blast
qed

lemma report_complete:
  assumes "build_smoke_report pf fromisoformat run base q workers w = (Inr r, w')"
    and "rp_submitted_jobs r = n" "count_of (rp_lifecycle_counts r) ''completed'' = n" "rp_duplicate_finalization_count r = 0"
    and "\<And>ai. rp_artifact_integrity r = Some ai \<Longrightarrow> int (ai_checked_count ai) = n"
    and "schema_ok (w_db w)" "events_own_run (w_db w)"
  shows "int (length (run_jobs run (w_db w))) = n
    \<and> (\<forall>j \<in> set (run_jobs run (w_db w)). job_status j = ''completed''
        \<and> has_intact_artifact pf fromisoformat run w (job_id j))
    \<and> w_db w' = w_db w \<and> w_env w' = w_env w"
proof -
  let ?jobs = "run_jobs run (w_db w)"
  note built = report_built [OF assms(1)]
  note valid = assms(2-4) assms(5) [OF built(4)]
  have n: "int (length ?jobs) = n" using built(1) valid(1) by simp
  have "int (length (filter (\<lambda>j. count_key (job_status j) = ''completed'') ?jobs)) = n"
    using valid(2) built(2) counts_from_jobs [of "''completed''" SMOKE_COUNT_KEYS run "w_db w"]
    by (simp add: SMOKE_COUNT_KEYS_def)
  with n have "length (filter (\<lambda>j. count_key (job_status j) = ''completed'') ?jobs) = length ?jobs" by simp
  then have status: "job_status j = ''completed''" if "j \<in> set ?jobs" for j
    using length_filter_all [OF _ that] by (fastforce simp: count_key_def split: if_splits)
  have "duplicate_terminal_event_count (Some run) (w_db w) = (Inr 0, w_db w)" using built(3) valid(3) by auto
  then obtain I where I: "card I = length (report_rows pf fromisoformat run w)"
    "\<And>i. i \<in> I \<Longrightarrow> has_intact_artifact pf fromisoformat run w i"
    using artifact_jobs [where pf = pf and fi = fromisoformat] by blast
  have card: "card I = length ?jobs" using I(1) valid(4) n by simp
  have "I \<subseteq> job_id ` set ?jobs"
  proof
    fix i assume "i \<in> I"
    from I(2) [OF this] obtain e where e: "e \<in> set (job_events (w_db w))" "ev_job_id e = i" "ev_run_id e = run"
      unfolding has_intact_artifact_def by blast
    with assms(7) obtain j where "j \<in> set (jobs (w_db w))" "job_id j = i" "job_run_id j = run"
      unfolding events_own_run_def by blast
    then show "i \<in> job_id ` set ?jobs" by (auto simp: run_jobs_def)
  qed
  moreover have "card (job_id ` set ?jobs) = length ?jobs"
    using distinct_card [of "map job_id ?jobs"] distinct_map_filter [OF schema_okD(1) [OF assms(6)]] by (simp add: run_jobs_def)
  ultimately have "I = job_id ` set ?jobs" using card by (intro card_subset_eq) simp_all
  with n status I(2) built(5,6) show ?thesis by blast
qed

lemma report_truth:
  assumes "build_smoke_report pf fromisoformat run base q workers w = (Inr r, w')" "validate_smoke_report r n = Inr ()"
    and "schema_ok (w_db w)" "events_own_run (w_db w)"
  shows "int (length (run_jobs run (w_db w))) = n
    \<and> (\<forall>j \<in> set (run_jobs run (w_db w)). job_status j = ''completed''
        \<and> has_intact_artifact pf fromisoformat run w (job_id j))
    \<and> w_db w' = w_db w \<and> w_env w' = w_env w"
proof -
  note valid = smoke_report_valid [OF assms(2) report_built(4) [OF assms(1)]]
  show ?thesis
    by (rule report_complete [OF assms(1) valid(1-3) _ assms(3,4)]) (use valid(4) report_built(4) [OF assms(1)] in simp)
qed

text \<open>
  A smoke report that passes its check tells the truth about the run: the run has exactly the
  expected number of jobs, every one of them is stored as \<open>completed\<close> and has a \<open>completed\<close> event whose
  recorded artifact is on disk with the recorded size, digest and fields, and building the report
  changed neither the registry nor a file. It assumes the keys of the schema, and that events carry the
  run of their job.
\<close>

theorem smoke_success_means_completed:
  assumes "build_smoke_report pf fromisoformat run base q workers w = (Inr r, w')"
    and "validate_smoke_report r n = Inr ()"
    and "schema_ok (w_db w)" "events_own_run (w_db w)"
  shows "int (length (run_jobs run (w_db w))) = n
    \<and> (\<forall>j \<in> set (run_jobs run (w_db w)). job_status j = ''completed''
        \<and> has_intact_artifact pf fromisoformat run w (job_id j))
    \<and> w_db w' = w_db w \<and> w_env w' = w_env w"
  by (rule report_truth [OF assms])


text \<open>A run of one job, completed, with its artifact on disk\<close>

definition small_content :: items where
  "small_content = [(''job_id'', JStr ''7''), (''run_id'', JStr ''8''), (''attempt_number'', JInt 1),
     (''input_digest'', JStr ''d''), (''created_at'', JStr (isoformat artifact_time))]"

definition small_bytes :: bytes where
  "small_bytes = utf8_encode (dump_json indent_style (float_repr text_platform) 0 (JObj small_content))"

definition small_artifact :: artifact_metadata where
  "small_artifact = \<lparr>am_path = Path [] [''a''], am_size_bytes = int (length small_bytes),
     am_sha256 = sha256_hex text_platform small_bytes, am_job_id = ''7'', am_run_id = ''8'', am_attempt_number = 1,
     am_input_digest = ''d'', am_created_at = artifact_time, am_eval_result_path = None\<rparr>"

definition small_run :: "(unit, job_env) world" where
  "small_run = \<lparr>w_db = (empty_database 0)\<lparr>jobs := [artifact_job\<lparr>job_status := ''completed''\<rparr>],
       job_events := [\<lparr>ev_id = 0, ev_job_id = 7, ev_run_id = 8, ev_type = ''completed'',
         ev_data = [(''result'', JObj [(''artifact'', JObj (to_dict small_artifact))])], ev_trace_id = ''t'', ev_created_at = 0\<rparr>]\<rparr>,
     w_redis = (), w_registry = (\<lambda>_. None),
     w_env = \<lparr>je_files = [(Path [] [''a''], File small_bytes)], je_environ = (\<lambda>_. None), je_clock = []\<rparr>\<rparr>"

lemma small_artifact_valid:
  "validate_artifact_integrity text_platform small_artifact (je_files (w_env small_run)) = (Inr (), je_files (w_env small_run))"
proof -
  have "printable (float_repr text_platform) (float_parse text_platform) (JObj small_content)"
    by (simp add: small_content_def)
  then have "loads (float_parse text_platform) (dump_json indent_style (float_repr text_platform) 0 (JObj small_content)) =
      Some (canon (JObj small_content))" by (rule loads_dump [OF styles_ok(3)])
  moreover have "check_content text_platform small_artifact (canon (JObj small_content)) = Inr ()"
    by (simp add: check_content_def expected_fields_def small_artifact_def small_content_def dget_none_def py_eq_str py_eq_int
        number_of_def)
  ultimately show ?thesis
    by (simp add: validate_artifact_integrity_def small_run_def is_file_def node_at_def follow_not_link read_bytes_def
        bindM_eq small_artifact_def small_bytes_def)
qed

lemma smoke_success_means_completed_witness:
  "\<exists>r w'. build_smoke_report text_platform (\<lambda>_. Inr artifact_time) 8 (Path [] [''r'']) None None small_run = (Inr r, w')
     \<and> validate_smoke_report r 1 = Inr () \<and> int (length (run_jobs 8 (w_db small_run))) = 1"
proof -
  let ?build = "build_smoke_report text_platform (\<lambda>_. Inr artifact_time) 8 (Path [] [''r'']) None None small_run"
  have meta: "from_dict text_platform (\<lambda>_. Inr artifact_time) (to_dict small_artifact) = Inr small_artifact"
    by (rule metadata_round_trip) (simp_all add: small_artifact_def wf_path_def)
  have "\<exists>r w'. ?build = (Inr r, w') \<and> validate_smoke_report r 1 = Inr ()"
    using small_artifact_valid meta
    by (simp add: build_smoke_report_def small_run_def Let_def bindM_eq thenM_eq inDb_eq inJobFiles_def inEnv_eq inFiles_def
        onM_def events_by_job_def append_event_def tally_event_def completed_artifact_def dget_none_def failure_class_def
        duplicate_terminal_event_count_def finalization_conflict_attempt_count_def counts_from_def SMOKE_COUNT_KEYS_def
        status_rows_def add_count_def count_key_def empty_database_def artifact_job_def count_of_def dec_zero_def dec_val_def
        validate_smoke_report_def terminal_count_def integrity_errors_def)
  then obtain r w' where r: "?build = (Inr r, w')" "validate_smoke_report r 1 = Inr ()" by blast
  have "schema_ok (w_db small_run)" "events_own_run (w_db small_run)"
    by (simp_all add: small_run_def empty_database_def schema_ok_def artifact_job_def job_columns_ok_def int4_def events_own_run_def)
  from smoke_success_means_completed [OF r this] r show ?thesis by blast
qed

end
