(* ===== verification/Gdev.thy ===== *)
theory Gdev
  imports PyValue Storage
begin

section \<open>Gdev agent jobs\<close>

text \<open>
  \<open>jobs/gdev_agent.py\<close>: an evaluation case is normalized from its request (mode \<open>stub\<close>) or sent to a
  gdev agent on the local machine and its answer normalized (mode \<open>local\<close>). The environment of the job
  is its files, the process's environment variables and the clock; \<open>urlopen\<close> is the network: it
  answers with a response, an HTTP error or a failure. \<open>urlsplit\<close> is the part of
  \<open>urllib.parse\<close> that the check of the base URL reads; \<open>bracket_ok\<close> is the test \<open>ipaddress\<close> makes of
  a bracketed host. The float of an integer is exact (integers up to \<open>2 ^ 53\<close>).
\<close>

subsection \<open>URLs\<close>

definition partition_at :: "char \<Rightarrow> pystr \<Rightarrow> pystr \<times> bool \<times> pystr" where
  "partition_at d s = (takeWhile (\<lambda>c. c \<noteq> d) s, d \<in> set s, drop 1 (dropWhile (\<lambda>c. c \<noteq> d) s))"

definition rpartition_at :: "char \<Rightarrow> pystr \<Rightarrow> pystr \<times> bool \<times> pystr" where
  "rpartition_at d s = (case partition_at d (rev s) of (tail, found, head) \<Rightarrow>
     if found then (rev head, True, rev tail) else ([], False, s))"

definition is_alpha :: "char \<Rightarrow> bool" where
  "is_alpha c = (let n = of_char c :: nat in (65 \<le> n \<and> n \<le> 90) \<or> (97 \<le> n \<and> n \<le> 122))"

definition is_scheme_char :: "char \<Rightarrow> bool" where
  "is_scheme_char c = (is_alpha c \<or> digit_val 10 c \<noteq> None \<or> c \<in> {CHR ''+'', CHR ''-'', CHR ''.''})"

record split_url =
  su_scheme :: pystr
  su_netloc :: pystr
  su_path :: pystr

definition clean_url :: "pystr \<Rightarrow> pystr" where
  "clean_url url = filter (\<lambda>c. c \<noteq> CHR 0x09 \<and> c \<noteq> CHR 0x0D \<and> c \<noteq> CHR 0x0A)
     (dropWhile (\<lambda>c. of_char c \<le> (32 :: nat)) url)"

definition split_scheme :: "pystr \<Rightarrow> pystr \<times> pystr" where
  "split_scheme url = (case partition_at CHR '':'' url of (head, found, rest) \<Rightarrow>
     if found \<and> head \<noteq> [] \<and> is_alpha (hd head) \<and> list_all is_scheme_char head then (lower head, rest) else ([], url))"

definition split_netloc :: "pystr \<Rightarrow> pystr \<times> pystr" where
  "split_netloc url = (if starts_with url ''//''
     then (takeWhile (\<lambda>c. c \<notin> {CHR ''/'', CHR ''?'', CHR ''#''}) (drop 2 url),
           dropWhile (\<lambda>c. c \<notin> {CHR ''/'', CHR ''?'', CHR ''#''}) (drop 2 url))
     else ([], url))"

text \<open>The path without fragment, query and, in its last segment, parameters.\<close>

definition split_path :: "pystr \<Rightarrow> pystr" where
  "split_path rest =
     (let p = fst (partition_at CHR ''?'' (fst (partition_at CHR ''#'' rest)));
          dir = rev (dropWhile (\<lambda>c. c \<noteq> CHR ''/'') (rev p));
          segment = rev (takeWhile (\<lambda>c. c \<noteq> CHR ''/'') (rev p))
      in dir @ fst (partition_at CHR '';'' segment))"

definition urlparse :: "(pystr \<Rightarrow> bool) \<Rightarrow> pystr \<Rightarrow> exc + split_url" where
  "urlparse bracket_ok url =
     (case split_scheme (clean_url url) of (scheme, rest1) \<Rightarrow>
      case split_netloc rest1 of (netloc, rest2) \<Rightarrow>
        if (CHR ''['' \<in> set netloc) \<noteq> (CHR '']'' \<in> set netloc) then Inl (ValueError ''Invalid IPv6 URL'')
        else if CHR ''['' \<in> set netloc
            \<and> \<not> bracket_ok (fst (partition_at CHR '']'' (snd (snd (partition_at CHR ''['' netloc)))))
          then Inl (ValueError ''invalid bracketed host'')
        else Inr \<lparr>su_scheme = scheme, su_netloc = netloc,
          su_path = (if scheme = ''http'' then split_path rest2
            else fst (partition_at CHR ''?'' (fst (partition_at CHR ''#'' rest2))))\<rparr>)"

definition url_hostname :: "split_url \<Rightarrow> pystr option" where
  "url_hostname u =
     (let hostinfo = (case rpartition_at CHR ''@'' (su_netloc u) of (_, _, h) \<Rightarrow> h);
          raw = (case partition_at CHR ''['' hostinfo of (_, have_open_br, bracketed) \<Rightarrow>
                   if have_open_br then fst (partition_at CHR '']'' bracketed) else fst (partition_at CHR '':'' hostinfo));
          name = fst (partition_at CHR ''%'' raw)
      in if raw = [] then None else Some (lower name @ drop (length name) raw))"

text \<open>\<open>parsed.username or parsed.password\<close>\<close>

definition url_credentials :: "split_url \<Rightarrow> bool" where
  "url_credentials u = (case rpartition_at CHR ''@'' (su_netloc u) of (userinfo, have_info, _) \<Rightarrow>
     have_info \<and> (case partition_at CHR '':'' userinfo of (username, have_password, password) \<Rightarrow>
       username \<noteq> [] \<or> (have_password \<and> password \<noteq> [])))"

subsection \<open>The payload of a job\<close>

definition LOCAL_GDEV_HOSTS :: "pystr set" where
  "LOCAL_GDEV_HOSTS = {''localhost'', ''127.0.0.1'', ''::1''}"

definition GDEV_STATUSES :: "pystr set" where
  "GDEV_STATUSES = {''executed'', ''pending'', ''blocked'', ''error''}"

record gdev_payload =
  gp_case_id :: pystr
  gp_candidate_id :: pystr
  gp_request :: items
  gp_mode :: pystr
  gp_eval_result_path :: path
  gp_base_url :: "pystr option"
  gp_tenant_slug :: "pystr option"
  gp_tenant_id :: "pystr option"
  gp_webhook_secret_env :: "pystr option"

definition validate_local_base_url :: "(pystr \<Rightarrow> bool) \<Rightarrow> pystr \<Rightarrow> exc + pystr" where
  "validate_local_base_url bracket_ok value = (case urlparse bracket_ok value of
       Inl e \<Rightarrow> Inl e
     | Inr parsed \<Rightarrow>
         if su_scheme parsed \<noteq> ''http'' then Inl (GdevAgentPayloadError ''gdev_base_url must use http for local proof'')
         else if url_hostname parsed \<notin> Some ` LOCAL_GDEV_HOSTS
           then Inl (GdevAgentPayloadError ''gdev_base_url must point to localhost or loopback'')
         else if url_credentials parsed then Inl (GdevAgentPayloadError ''gdev_base_url must not include credentials'')
         else if su_path parsed \<noteq> [] \<and> su_path parsed \<noteq> ''/''
           then Inl (GdevAgentPayloadError ''gdev_base_url must not include a path'')
         else Inr (rstrip_chars (\<lambda>c. c = CHR ''/'') value))"

definition local_fields :: "platform \<Rightarrow> (pystr \<Rightarrow> bool) \<Rightarrow> items \<Rightarrow> exc + pystr \<times> pystr \<times> pystr \<times> pystr" where
  "local_fields pf bracket_ok payload =
     (case required_str pf GdevAgentPayloadError payload ''gdev_base_url'' of Inl e \<Rightarrow> Inl e | Inr url \<Rightarrow>
      case validate_local_base_url bracket_ok url of Inl e \<Rightarrow> Inl e | Inr base \<Rightarrow>
      case required_str pf GdevAgentPayloadError payload ''gdev_tenant_slug'' of Inl e \<Rightarrow> Inl e | Inr slug \<Rightarrow>
      case required_str pf GdevAgentPayloadError payload ''gdev_tenant_id'' of Inl e \<Rightarrow> Inl e | Inr tenant \<Rightarrow>
        let secret_env = strip (py_str (float_repr pf) (py_or (dget_none payload ''gdev_webhook_secret_env'')
              (JStr ''GDEV_AGENT_WEBHOOK_SECRET'')))
        in if secret_env = [] then Inl (GdevAgentPayloadError ''gdev_webhook_secret_env is required'')
           else Inr (base, slug, tenant, secret_env))"

definition validate_gdev_webhook_eval_payload :: "platform \<Rightarrow> (pystr \<Rightarrow> bool) \<Rightarrow> items \<Rightarrow> exc + gdev_payload" where
  "validate_gdev_webhook_eval_payload pf bracket_ok payload =
     (case required_str pf GdevAgentPayloadError payload ''case_id'' of Inl e \<Rightarrow> Inl e | Inr case_id \<Rightarrow>
      let candidate_id = candidate_text pf payload in
      if candidate_id = [] then Inl (GdevAgentPayloadError ''candidate_id is required'') else
      case dget_none payload ''request'' of
        JObj request \<Rightarrow>
         (case required_str pf GdevAgentPayloadError payload ''mode'' of Inl e \<Rightarrow> Inl e | Inr mode \<Rightarrow>
          if mode \<noteq> ''stub'' \<and> mode \<noteq> ''local'' then Inl (GdevAgentPayloadError ''mode must be one of: stub, local'')
          else let base = \<lparr>gp_case_id = case_id, gp_candidate_id = candidate_id, gp_request = request, gp_mode = mode,
                 gp_eval_result_path = eval_result_path_of pf payload candidate_id case_id, gp_base_url = None,
                 gp_tenant_slug = None, gp_tenant_id = None, gp_webhook_secret_env = None\<rparr>
            in if mode = ''local''
               then (case local_fields pf bracket_ok payload of Inl e \<Rightarrow> Inl e
                 | Inr (url, slug, tenant, secret_env) \<Rightarrow>
                     Inr (base\<lparr>gp_base_url := Some url, gp_tenant_slug := Some slug, gp_tenant_id := Some tenant,
                       gp_webhook_secret_env := Some secret_env\<rparr>))
               else Inr base)
      | _ \<Rightarrow> Inl (GdevAgentPayloadError ''request must be an object''))"

subsection \<open>The signed call\<close>

record live_response =
  lr_status_code :: int
  lr_output :: json

type_synonym headers = "(pystr \<times> pystr) list"

datatype http_outcome = HttpOk int bytes | HttpError int bytes | HttpFailed pystr pystr

type_synonym transport = "pystr \<Rightarrow> bytes \<Rightarrow> headers \<Rightarrow> (job_env, live_response) prog"

definition decode_json_body :: "platform \<Rightarrow> pystr \<Rightarrow> json" where
  "decode_json_body pf raw_body = (if raw_body = [] then JNull
     else case loads (float_parse pf) raw_body of Some v \<Rightarrow> v | None \<Rightarrow> JObj [(''detail'', JStr raw_body)])"

definition post_signed_json ::
    "platform \<Rightarrow> (pystr \<Rightarrow> bytes \<Rightarrow> headers \<Rightarrow> (job_env, http_outcome) prog) \<Rightarrow> transport" where
  "post_signed_json pf urlopen url body headers =
     (let respond = (\<lambda>status raw. case utf8_decode raw of None \<Rightarrow> raiseM UnicodeDecodeError
            | Some text \<Rightarrow> returnM \<lparr>lr_status_code = status, lr_output = decode_json_body pf text\<rparr>)
      in bindM (urlopen url body headers) (\<lambda>outcome. case outcome of
           HttpOk status raw \<Rightarrow> respond status raw
         | HttpError code raw \<Rightarrow> respond code raw
         | HttpFailed cls text \<Rightarrow> returnM \<lparr>lr_status_code = 599, lr_output =
             JObj [(''detail'', JStr (cls @ '': '' @ text)), (''error_type'', JStr cls)]\<rparr>))"

definition required_local_value :: "pystr option \<Rightarrow> pystr \<Rightarrow> exc + pystr" where
  "required_local_value value k = (case value of
     Some v \<Rightarrow> if strip v = [] then Inl (GdevAgentPayloadError (k @ '' is required'')) else Inr v
   | None \<Rightarrow> Inl (GdevAgentPayloadError (k @ '' is required'')))"

definition or_case_id :: "json \<Rightarrow> pystr \<Rightarrow> pystr" where
  "or_case_id v case_id = (if optional_string v = [] then case_id else optional_string v)"

definition build_local_webhook_payload :: "gdev_payload \<Rightarrow> exc + items" where
  "build_local_webhook_payload p =
     (case dget_none (gp_request p) ''text'' of
        JStr text \<Rightarrow>
          if strip text = [] then Inl (GdevAgentPayloadError ''request.text is required for local gdev proof'')
          else
           (let metadata = (case dget_none (gp_request p) ''metadata'' of JObj d \<Rightarrow> d | _ \<Rightarrow> []);
                payload_metadata = AList.update ''eval_case_id'' (JStr (gp_case_id p)) metadata
            in case required_local_value (gp_tenant_id p) ''gdev_tenant_id'' of Inl e \<Rightarrow> Inl e | Inr tenant \<Rightarrow>
              Inr [(''request_id'', JStr (or_case_id (dget_none (gp_request p) ''request_id'') (gp_case_id p))),
                   (''tenant_id'', JStr tenant),
                   (''message_id'', JStr (or_case_id (dget_none (gp_request p) ''message_id'') (gp_case_id p))),
                   (''user_id'', JStr (optional_string (dget_none (gp_request p) ''user_id''))),
                   (''text'', JStr text),
                   (''metadata'', JObj payload_metadata)])
      | _ \<Rightarrow> Inl (GdevAgentPayloadError ''request.text is required for local gdev proof''))"

definition webhook_secret_from_env :: "environ \<Rightarrow> pystr option \<Rightarrow> exc + pystr" where
  "webhook_secret_from_env env env_name =
     (case required_local_value env_name ''gdev_webhook_secret_env'' of Inl e \<Rightarrow> Inl e | Inr name \<Rightarrow>
      if nonempty (env name) then Inr (the (env name))
      else Inl (GdevAgentPayloadError (''configured webhook secret env var is missing: '' @ name)))"

definition signed_headers :: "platform \<Rightarrow> bytes \<Rightarrow> pystr \<Rightarrow> pystr \<Rightarrow> headers" where
  "signed_headers pf body tenant_slug webhook_secret =
     [(''Content-Type'', ''application/json''), (''X-Tenant-Slug'', tenant_slug),
      (''X-Webhook-Signature'', ''sha256='' @ hmac_sha256_hex pf (utf8_encode webhook_secret) body)]"

definition webhook_body :: "platform \<Rightarrow> items \<Rightarrow> bytes" where
  "webhook_body pf payload = utf8_encode (dump_json wire_style (float_repr pf) 0 (JObj payload))"

definition invoke_local_gdev :: "platform \<Rightarrow> transport \<Rightarrow> gdev_payload \<Rightarrow> (job_env, live_response) prog" where
  "invoke_local_gdev pf post p = (case gp_base_url p of
       None \<Rightarrow> raiseM (GdevAgentPayloadError ''gdev_base_url is required'')
     | Some base_url \<Rightarrow>
         bindM (liftM (build_local_webhook_payload p)) (\<lambda>body_payload.
         let body = webhook_body pf body_payload in
         bindM (getM je_environ) (\<lambda>env.
         bindM (liftM (webhook_secret_from_env env (gp_webhook_secret_env p))) (\<lambda>webhook_secret.
         bindM (liftM (required_local_value (gp_tenant_slug p) ''gdev_tenant_slug'')) (\<lambda>slug.
           post (base_url @ ''/webhook'') body (signed_headers pf body slug webhook_secret))))))"

subsection \<open>Normalizing a request\<close>

definition normalize_request :: "platform \<Rightarrow> items \<Rightarrow> items" where
  "normalize_request pf request =
     (let text = lower (py_str (float_repr pf) (py_or (py_or (dget_none request ''text'') (dget_none request ''message'')) (JStr [])));
          result = (\<lambda>category human status. [(''category'', JStr category), (''requires_human'', JBool human),
             (''expected_status'', JStr status)])
      in if contains text ''refund'' \<or> contains text ''billing'' then result ''billing'' False ''executed''
         else if contains text ''bug'' \<or> contains text ''error'' \<or> contains text ''spinner''
           then result ''bug_report'' False ''executed''
         else if contains text ''abuse'' \<or> contains text ''moderation'' \<or> contains text ''harass''
           then result ''moderation'' True ''pending''
         else result ''webhook'' False ''executed'')"

subsection \<open>Normalizing an answer\<close>

text \<open>\<open>_optional_float\<close>: \<open>NaN < 0\<close> is false, so a \<open>NaN\<close> passes.\<close>

definition optional_float :: "json \<Rightarrow> json option" where
  "optional_float v = (case v of
       JInt i \<Rightarrow> if i < 0 then None else Some (JFloat (of_int i))
     | JFloat q \<Rightarrow> if q < 0 then None else Some (JFloat q)
     | JSpecial x \<Rightarrow> if x = SNegInf then None else Some (JSpecial x)
     | _ \<Rightarrow> None)"

definition optional_bool :: "json \<Rightarrow> bool \<Rightarrow> json" where
  "optional_bool v d = (case v of JBool b \<Rightarrow> JBool b | _ \<Rightarrow> JBool d)"

definition derive_requires_human :: "pystr \<Rightarrow> items \<Rightarrow> bool" where
  "derive_requires_human status body =
     (if status \<in> {''blocked'', ''error'', ''pending''} then True
      else if dget_none body ''pending'' \<noteq> JNull then True
      else case dget_none body ''action'' of JObj a \<Rightarrow> dget_none a ''risky'' = JBool True | _ \<Rightarrow> False)"

definition dget_or :: "items \<Rightarrow> pystr \<Rightarrow> json \<Rightarrow> json" where
  "dget_or d k v = (case dget d k of None \<Rightarrow> v | Some u \<Rightarrow> u)"

definition present :: "pystr \<Rightarrow> json \<Rightarrow> items" where
  "present k v = (if v = JNull then [] else [(k, v)])"

definition extract_required_fields :: "items \<Rightarrow> items" where
  "extract_required_fields body =
     (let status = dget_none body ''status'';
          classification = dget_none body ''classification'';
          (category, confidence) = (case classification of
              JObj c \<Rightarrow> (dget_or body ''category'' (dget_none c ''category''), dget_or body ''confidence'' (dget_none c ''confidence''))
            | _ \<Rightarrow> (dget_none body ''category'', dget_none body ''confidence''));
          human = (case dget body ''requires_human'' of
              Some v \<Rightarrow> [(''requires_human'', v)]
            | None \<Rightarrow> (case (classification, status) of
                (JObj _, JStr s) \<Rightarrow> [(''requires_human'', JBool (derive_requires_human s body))] | _ \<Rightarrow> []))
      in present ''status'' status @ present ''category'' category @ present ''confidence'' confidence @ human)"

definition extract_cost :: "items \<Rightarrow> json" where
  "extract_cost body = (case optional_float (dget_none body ''cost_usd'') of
       Some cost \<Rightarrow> cost
     | None \<Rightarrow> (case dget_none body ''usage'' of
         JObj usage \<Rightarrow> (case optional_float (dget_none usage ''estimated_cost_usd'') of None \<Rightarrow> JNull | Some c \<Rightarrow> c)
       | _ \<Rightarrow> JNull))"

definition extract_risk_reason :: "items \<Rightarrow> pystr" where
  "extract_risk_reason body =
     (let reason = optional_string (dget_none body ''risk_reason'');
          from_action = (case dget_none body ''action'' of JObj a \<Rightarrow> optional_string (dget_none a ''risk_reason'') | _ \<Rightarrow> []);
          from_pending = (case dget_none body ''pending'' of JObj p \<Rightarrow> optional_string (dget_none p ''reason'') | _ \<Rightarrow> [])
      in if reason \<noteq> [] then reason else if from_action \<noteq> [] then from_action else from_pending)"

definition extract_error_reason :: "items \<Rightarrow> pystr" where
  "extract_error_reason body =
     (let reason = optional_string (dget_none body ''detail'') in
      if reason \<noteq> [] then reason
      else optional_string (py_or (py_or (dget_none body ''error'') (dget_none body ''message'')) (JStr ''http error'')))"

definition is_guard_block_reason :: "pystr \<Rightarrow> bool" where
  "is_guard_block_reason reason = (let lowered = lower reason in contains lowered ''guard'' \<or> contains lowered ''injection'')"

definition response_fields ::
    "pystr \<Rightarrow> pystr \<Rightarrow> pystr \<Rightarrow> json \<Rightarrow> bool \<Rightarrow> pystr \<Rightarrow> json \<Rightarrow> bool \<Rightarrow> json \<Rightarrow> json \<Rightarrow> int \<Rightarrow> bool \<Rightarrow> items" where
  "response_fields case_id status category confidence requires_human risk_reason guard_blocked invalid
     unsafe_auto_approval cost latency_ms adapter_error =
     [(''case_id'', JStr case_id), (''status'', JStr status), (''category'', JStr category), (''confidence'', confidence),
      (''requires_human'', JBool requires_human), (''risk_reason'', JStr risk_reason), (''guard_blocked'', guard_blocked),
      (''invalid_structured_output'', JBool invalid), (''unsafe_auto_approval'', unsafe_auto_approval),
      (''cost_usd'', cost), (''latency_ms'', JInt latency_ms), (''adapter_error'', JBool adapter_error)]"

definition adapter_error_fields :: "pystr \<Rightarrow> items \<Rightarrow> int \<Rightarrow> items" where
  "adapter_error_fields case_id body latency_ms =
     (let reason = extract_error_reason body in
      if is_guard_block_reason reason
      then response_fields case_id ''blocked'' ''guard_blocked'' (JFloat 0) True reason (JBool True) False (JBool False)
             (extract_cost body) latency_ms False
      else response_fields case_id ''error'' ''adapter_error'' (JFloat 0) True reason (JBool False) False (JBool False)
             (extract_cost body) latency_ms True)"

definition invalid_live_output :: "pystr \<Rightarrow> pystr \<Rightarrow> int \<Rightarrow> items" where
  "invalid_live_output case_id reason latency_ms =
     response_fields case_id ''error'' ''invalid_structured_output'' (JFloat 0) True reason (JBool False) True (JBool False)
       JNull latency_ms False"

text \<open>The test of the four required fields, and their values when they pass it.\<close>

definition valid_required :: "items \<Rightarrow> (pystr \<times> pystr \<times> json \<times> bool) option" where
  "valid_required required = (case (dget required ''status'', dget required ''category'',
       optional_float (dget_none required ''confidence''), dget required ''requires_human'') of
     (Some (JStr status), Some (JStr category), Some confidence, Some (JBool human)) \<Rightarrow>
       if status \<in> GDEV_STATUSES \<and> category \<noteq> [] then Some (status, category, confidence, human) else None
   | _ \<Rightarrow> None)"

definition normalize_live_response :: "pystr \<Rightarrow> live_response \<Rightarrow> int \<Rightarrow> items" where
  "normalize_live_response case_id response measured_latency_ms =
     (case lr_output response of
        JObj body \<Rightarrow>
          if 400 \<le> lr_status_code response then adapter_error_fields case_id body measured_latency_ms
          else
           (let required = extract_required_fields body;
                missing = filter (\<lambda>f. f \<notin> fst ` set required) [''status'', ''category'', ''confidence'', ''requires_human'']
            in if missing \<noteq> [] then invalid_live_output case_id (''missing required fields: '' @ join '', '' missing) measured_latency_ms
               else case valid_required required of
                 None \<Rightarrow> invalid_live_output case_id ''invalid required field types or values'' measured_latency_ms
               | Some (status, category, confidence, human) \<Rightarrow>
                   response_fields case_id status category confidence human (extract_risk_reason body)
                     (optional_bool (dget_none body ''guard_blocked'') (status = ''blocked'')) False
                     (optional_bool (dget_none body ''unsafe_auto_approval'') False) (extract_cost body)
                     measured_latency_ms (status = ''error''))
      | _ \<Rightarrow> invalid_live_output case_id ''response body is not a structured object'' measured_latency_ms)"

definition sanitized_response :: "platform \<Rightarrow> pystr \<Rightarrow> items \<Rightarrow> items" where
  "sanitized_response pf case_id normalized_fields =
     [(''case_id'', JStr case_id), (''status'', dget_none normalized_fields ''expected_status''),
      (''category'', dget_none normalized_fields ''category''),
      (''requires_human'', dget_none normalized_fields ''requires_human''),
      (''response_hash'', JStr (payload_sha256 pf [(''case_id'', JStr case_id), (''normalized_fields'', JObj normalized_fields)]))]"

definition visible_fields :: "pystr \<Rightarrow> int \<Rightarrow> items \<Rightarrow> items" where
  "visible_fields case_id http_status normalized_fields =
     [(''case_id'', JStr case_id), (''http_status'', JInt http_status)]
       @ map (\<lambda>k. (k, dget_none normalized_fields k)) [''status'', ''category'', ''requires_human'', ''guard_blocked'',
           ''adapter_error'', ''invalid_structured_output'']"

definition sanitized_live_response :: "platform \<Rightarrow> pystr \<Rightarrow> int \<Rightarrow> items \<Rightarrow> items" where
  "sanitized_live_response pf case_id http_status normalized_fields =
     (let visible = visible_fields case_id http_status normalized_fields
      in visible @ [(''response_hash'', JStr (payload_sha256 pf visible))])"

definition gdev_quality_status :: "items \<Rightarrow> pystr" where
  "gdev_quality_status normalized_fields =
     (if truthy (dget_none normalized_fields ''adapter_error'') \<or> truthy (dget_none normalized_fields ''invalid_structured_output'')
      then ''fail'' else ''pass'')"

subsection \<open>The job\<close>

definition gdev_write_eval_result :: "platform \<Rightarrow> path \<Rightarrow> items \<Rightarrow> (files, unit) prog" where
  "gdev_write_eval_result pf eval_result_path artifact_payload =
     write_json_file pf eval_result_path (pick artifact_payload
       [''case_id'', ''candidate_id'', ''quality_status'', ''request_hash'', ''normalized_fields'', ''sanitized_response''])"

definition gdev_artifact_payload ::
    "platform \<Rightarrow> gdev_payload \<Rightarrow> items \<Rightarrow> items \<Rightarrow> int \<Rightarrow> int \<Rightarrow> items" where
  "gdev_artifact_payload pf p sanitized normalized attempt_number latency_ms =
     [(''case_id'', JStr (gp_case_id p)), (''gdev_case_id'', JStr (gp_case_id p)),
      (''candidate_id'', JStr (gp_candidate_id p)), (''request_hash'', JStr (payload_sha256 pf (gp_request p))),
      (''sanitized_response'', JObj sanitized), (''normalized_fields'', JObj normalized),
      (''runtime_status'', JStr ''completed''), (''status'', JStr ''completed''),
      (''quality_status'', JStr (gdev_quality_status normalized)), (''runtime_attempts'', JInt attempt_number),
      (''attempt_count'', JInt attempt_number), (''latency_ms'', JInt latency_ms),
      (''eval_result_path'', JStr (path_str (gp_eval_result_path p))), (''mode'', JStr (gp_mode p))]"

text \<open>The fields of the case: from the service in mode \<open>local\<close>, from the request otherwise.\<close>

definition gdev_outcome :: "platform \<Rightarrow> transport \<Rightarrow> rat \<Rightarrow> gdev_payload \<Rightarrow> (job_env, items \<times> items) prog" where
  "gdev_outcome pf post started p =
     (if gp_mode p = ''local'' then
        bindM (invoke_local_gdev pf post p) (\<lambda>live_response.
        bindM (inClock perf_counter) (\<lambda>now.
          let normalized = normalize_live_response (gp_case_id p) live_response (elapsed_ms started now)
          in returnM (normalized, sanitized_live_response pf (gp_case_id p) (lr_status_code live_response) normalized)))
      else
        let normalized = normalize_request pf (gp_request p)
        in returnM (normalized, sanitized_response pf (gp_case_id p) normalized))"

definition run_gdev_webhook_eval ::
    "platform \<Rightarrow> (pystr \<Rightarrow> bool) \<Rightarrow> transport \<Rightarrow> items \<Rightarrow> int \<Rightarrow> (job_env, items) prog" where
  "run_gdev_webhook_eval pf bracket_ok post payload attempt_number =
     bindM (inClock perf_counter) (\<lambda>started.
     bindM (liftM (validate_gdev_webhook_eval_payload pf bracket_ok payload)) (\<lambda>p.
     bindM (gdev_outcome pf post started p) (\<lambda>(normalized, sanitized).
     bindM (inClock perf_counter) (\<lambda>now.
       let artifact_payload = gdev_artifact_payload pf p sanitized normalized attempt_number (elapsed_ms started now)
       in thenM (inFiles (gdev_write_eval_result pf (gp_eval_result_path p) artifact_payload))
         (returnM [(''summary'', JStr ''gdev_webhook_eval completed''), (''case_id'', JStr (gp_case_id p)),
            (''request_hash'', JStr (payload_sha256 pf (gp_request p))),
            (''quality_status'', JStr (gdev_quality_status normalized)),
            (''eval_result_path'', JStr (path_str (gp_eval_result_path p))),
            (''artifact_payload'', JObj artifact_payload)])))))"

subsection \<open>What a passing answer is\<close>

lemma response_fields_get [simp]:
  "dget_none (response_fields c s cat conf h rr g bad u cost l ae) ''adapter_error'' = JBool ae"
  "dget_none (response_fields c s cat conf h rr g bad u cost l ae) ''invalid_structured_output'' = JBool bad"
  "dget_none (response_fields c s cat conf h rr g bad u cost l ae) ''status'' = JStr s"
  "dget_none (response_fields c s cat conf h rr g bad u cost l ae) ''category'' = JStr cat"
  "dget_none (response_fields c s cat conf h rr g bad u cost l ae) ''confidence'' = conf"
  "dget_none (response_fields c s cat conf h rr g bad u cost l ae) ''requires_human'' = JBool h"
  "dget_none (response_fields c s cat conf h rr g bad u cost l ae) ''guard_blocked'' = g"
  "dget_none (response_fields c s cat conf h rr g bad u cost l ae) ''risk_reason'' = JStr rr"
  by (simp_all add: response_fields_def dget_none_def)

lemma quality_pass_iff [simp]:
  "gdev_quality_status (response_fields c s cat conf h rr g bad u cost l ae) = ''pass'' \<longleftrightarrow> \<not> ae \<and> \<not> bad"
  by (simp add: gdev_quality_status_def)

lemma quality_invalid [simp]: "gdev_quality_status (invalid_live_output c r l) \<noteq> ''pass''"
  by (simp add: invalid_live_output_def)

lemma quality_adapter: "gdev_quality_status (adapter_error_fields c body l) = ''pass'' \<longleftrightarrow> is_guard_block_reason (extract_error_reason body)"
  by (simp add: adapter_error_fields_def Let_def)

lemma valid_required_some:
  assumes "valid_required required = Some (status, category, confidence, human)"
  shows "dget required ''status'' = Some (JStr status)" "status \<in> GDEV_STATUSES"
    "dget required ''category'' = Some (JStr category)" "category \<noteq> []"
    "optional_float (dget_none required ''confidence'') = Some confidence"
    "dget required ''requires_human'' = Some (JBool human)"
  using assms by (auto simp: valid_required_def split: option.splits json.splits if_splits)

lemma valid_required_complete:
  assumes "valid_required required = Some x"
  shows "filter (\<lambda>f. f \<notin> fst ` set required) [''status'', ''category'', ''confidence'', ''requires_human''] = []"
proof -
  obtain status category confidence human where x: "x = (status, category, confidence, human)" by (cases x)
  note v = valid_required_some [OF assms [unfolded x]]
  have "dget required ''confidence'' \<noteq> None"
    using v(5) by (auto simp: dget_none_def optional_float_def split: option.splits)
  with v(1,3,6) have "''status'' \<in> fst ` set required" "''category'' \<in> fst ` set required"
    "''confidence'' \<in> fst ` set required" "''requires_human'' \<in> fst ` set required"
    by (auto simp: map_of_eq_None_iff dest!: map_of_SomeD intro: rev_image_eqI)
  then show ?thesis by simp
qed

lemma optional_float_nonneg: "optional_float v = Some u \<Longrightarrow> (\<exists>q \<ge> 0. u = JFloat q) \<or> u = JSpecial SNaN \<or> u = JSpecial SPosInf"
proof -
  have "x = SNaN \<or> x = SPosInf \<or> x = SNegInf" for x by (cases x) auto
  then show "optional_float v = Some u \<Longrightarrow> ?thesis"
    by (auto simp: optional_float_def split: json.splits if_splits)
qed

lemma normalize_rejected:
  assumes "lr_output response = JObj body" "\<not> 400 \<le> lr_status_code response"
    and "valid_required (extract_required_fields body) = None"
  obtains r where "normalize_live_response case_id response ms = invalid_live_output case_id r ms"
proof (cases "filter (\<lambda>f. f \<notin> fst ` set (extract_required_fields body)) [''status'', ''category'', ''confidence'', ''requires_human''] = []")
  case True
  with assms have "normalize_live_response case_id response ms =
      invalid_live_output case_id ''invalid required field types or values'' ms"
    unfolding normalize_live_response_def Let_def by (simp only: json.case if_False simp_thms option.case)
  then show thesis by (rule that)
next
  case False
  with assms show thesis
    using that unfolding normalize_live_response_def Let_def by (simp only: json.case if_False if_True simp_thms not_False_eq_True)
qed


subsection \<open>Where requests go\<close>

lemma partition_at_append:
  "d \<in> set c \<Longrightarrow> partition_at d (c @ y) = (case partition_at d c of (h, f, r) \<Rightarrow> (h, f, r @ y))"
  by (induction c) (auto simp: partition_at_def)

lemma clean_url_append:
  assumes "\<exists>c \<in> set s. \<not> of_char c \<le> (32 :: nat)" "\<forall>c \<in> set y. c \<noteq> CHR 0x09 \<and> c \<noteq> CHR 0x0D \<and> c \<noteq> CHR 0x0A"
  shows "clean_url (s @ y) = clean_url s @ y"
proof -
  have "filter (\<lambda>c. c \<noteq> CHR 0x09 \<and> c \<noteq> CHR 0x0D \<and> c \<noteq> CHR 0x0A) y = y"
    using assms(2) by (simp add: filter_id_conv)
  with assms(1) show ?thesis by (auto simp: clean_url_def dropWhile_append)
qed

definition slashes :: "pystr \<Rightarrow> bool" where
  "slashes y \<longleftrightarrow> list_all (\<lambda>c. c = CHR ''/'') y"

lemma slashes_clean: "slashes y \<Longrightarrow> \<forall>c \<in> set y. c \<noteq> CHR 0x09 \<and> c \<noteq> CHR 0x0D \<and> c \<noteq> CHR 0x0A"
  by (auto simp: slashes_def list_all_iff)

lemma rstrip_split: "\<exists>y. s = rstrip_chars (\<lambda>c. c = CHR ''/'') s @ y \<and> slashes y"
proof (intro exI conjI)
  let ?y = "rev (takeWhile (\<lambda>c. c = CHR ''/'') (rev s))"
  show "s = rstrip_chars (\<lambda>c. c = CHR ''/'') s @ ?y"
    by (simp add: rstrip_chars_def rev_append [symmetric] del: rev_append)
  show "slashes ?y" by (auto simp: slashes_def list_all_iff dest: set_takeWhileD)
qed

abbreviation net_char :: "char \<Rightarrow> bool" where
  "net_char c \<equiv> c \<notin> {CHR ''/'', CHR ''?'', CHR ''#''}"

lemma takeWhile_stop: "takeWhile P w = [] \<Longrightarrow> takeWhile P (r @ w) = takeWhile P r"
  by (induction r) auto

lemma slashes_stop: "slashes y \<Longrightarrow> takeWhile net_char y = []"
  by (cases y) (simp_all add: slashes_def)

lemma slashes_drop: "slashes y \<Longrightarrow> slashes (drop n y)"
  unfolding slashes_def list_all_iff by (blast dest: in_set_dropD)

lemma netloc_append:
  assumes "slashes y" "fst (split_netloc (r @ y)) \<noteq> []"
  shows "fst (split_netloc (r @ CHR ''/'' # z)) = fst (split_netloc (r @ y))"
proof -
  have stop: "takeWhile net_char y = []" using assms(1) by (rule slashes_stop)
  have sw: "starts_with (r @ y) ''//''" and ne: "takeWhile net_char (drop 2 (r @ y)) \<noteq> []"
    using assms(2) by (auto simp: split_netloc_def split: if_splits)
  have "2 \<le> length r"
  proof (rule ccontr)
    assume "\<not> 2 \<le> length r"
    then have "drop 2 (r @ y) = drop (2 - length r) y" by simp
    moreover have "takeWhile net_char (drop n y) = []" for n
      by (rule slashes_stop) (rule slashes_drop [OF assms(1)])
    ultimately show False using ne by simp
  qed
  then obtain a b r' where r: "r = a # b # r'" by (cases r; cases "tl r") auto
  with sw have ab: "a = CHR ''/''" "b = CHR ''/''" by auto
  have "takeWhile net_char (r' @ CHR ''/'' # z) = takeWhile net_char r'" "takeWhile net_char (r' @ y) = takeWhile net_char r'"
    by (rule takeWhile_stop, simp) (rule takeWhile_stop, rule stop)
  then show ?thesis by (simp add: r ab split_netloc_def)
qed

text \<open>The URL that is called has the scheme and the network location of the URL that was checked.\<close>

lemma called_url:
  assumes "urlparse bok value = Inr p" "su_scheme p \<noteq> []" "su_netloc p \<noteq> []"
    and "\<forall>c \<in> set z. c \<noteq> CHR 0x09 \<and> c \<noteq> CHR 0x0D \<and> c \<noteq> CHR 0x0A"
  shows "\<exists>u. urlparse bok (rstrip_chars (\<lambda>c. c = CHR ''/'') value @ CHR ''/'' # z) = Inr u
    \<and> su_scheme u = su_scheme p \<and> su_netloc u = su_netloc p"
proof -
  obtain y where y: "value = rstrip_chars (\<lambda>c. c = CHR ''/'') value @ y" "slashes y" using rstrip_split by blast
  let ?b = "rstrip_chars (\<lambda>c. c = CHR ''/'') value"
  obtain s1 r1 where s1: "split_scheme (clean_url value) = (s1, r1)" by (cases "split_scheme (clean_url value)")
  have parsed: "su_scheme p = s1" "su_netloc p = fst (split_netloc r1)"
    using assms(1) by (auto simp: urlparse_def s1 split: if_splits prod.splits)
  have colon: "CHR '':'' \<in> set (clean_url value)"
    using assms(2) s1 by (auto simp: parsed split_scheme_def partition_at_def split: if_splits)
  have vis: "\<exists>c \<in> set ?b. \<not> of_char c \<le> (32 :: nat)"
  proof -
    have "CHR '':'' \<in> set value" using colon set_dropWhileD by (fastforce simp: clean_url_def)
    moreover have "CHR '':'' \<notin> set y" using y(2) by (auto simp: slashes_def list_all_iff)
    ultimately have "CHR '':'' \<in> set ?b" using y(1) by (metis Un_iff set_append)
    then show ?thesis by (rule bexI [rotated]) simp
  qed
  define c where "c = clean_url ?b"
  have cv: "clean_url value = c @ y"
    using clean_url_append [OF vis slashes_clean [OF y(2)]] y(1) c_def by simp
  have cz: "clean_url (?b @ CHR ''/'' # z) = c @ CHR ''/'' # z"
    using clean_url_append [OF vis, of "CHR ''/'' # z"] assms(4) c_def by simp
  have "CHR '':'' \<in> set c" using colon y(2) by (auto simp: cv slashes_def list_all_iff)
  note part = partition_at_append [OF this]
  obtain h f r where hfr: "partition_at CHR '':'' c = (h, f, r)" by (cases "partition_at CHR '':'' c")
  have scheme: "f \<and> h \<noteq> [] \<and> is_alpha (hd h) \<and> list_all is_scheme_char h"
    using assms(2) s1 by (auto simp: parsed split_scheme_def cv part hfr split: if_splits)
  have sv: "split_scheme (clean_url value) = (lower h, r @ y)"
    and sz: "split_scheme (clean_url (?b @ CHR ''/'' # z)) = (lower h, r @ CHR ''/'' # z)"
    using scheme by (simp_all add: split_scheme_def cv cz part hfr)
  have pn: "su_netloc p = fst (split_netloc (r @ y))" "su_scheme p = lower h"
    using parsed s1 sv by simp_all
  then have same: "fst (split_netloc (r @ CHR ''/'' # z)) = su_netloc p"
    using netloc_append [OF y(2)] assms(3) by simp
  obtain n1 r1 where n1: "split_netloc (r @ y) = (n1, r1)" by (cases "split_netloc (r @ y)")
  obtain n2 r2 where n2: "split_netloc (r @ CHR ''/'' # z) = (n2, r2)" by (cases "split_netloc (r @ CHR ''/'' # z)")
  have "n1 = n2" "n1 = su_netloc p" using same pn n1 n2 by simp_all
  with assms(1) pn show ?thesis by (simp add: urlparse_def sv sz n1 n2 split: if_splits)
qed

definition local_url :: "(pystr \<Rightarrow> bool) \<Rightarrow> pystr \<Rightarrow> bool" where
  "local_url bracket_ok url = (case urlparse bracket_ok url of Inl e \<Rightarrow> False
     | Inr u \<Rightarrow> su_scheme u = ''http'' \<and> url_hostname u \<in> Some ` LOCAL_GDEV_HOSTS \<and> \<not> url_credentials u)"

lemma url_parts_cong:
  "su_netloc u = su_netloc p \<Longrightarrow> url_hostname u = url_hostname p"
  "su_netloc u = su_netloc p \<Longrightarrow> url_credentials u = url_credentials p"
  by (simp_all add: url_hostname_def url_credentials_def)

lemma no_netloc_no_host: "su_netloc p = [] \<Longrightarrow> url_hostname p = None"
  by (simp add: url_hostname_def rpartition_at_def partition_at_def)

lemma called_url_local:
  assumes "validate_local_base_url bok value = Inr base"
  shows "local_url bok (base @ ''/webhook'')"
proof -
  obtain p where p: "urlparse bok value = Inr p" "su_scheme p = ''http''" "url_hostname p \<in> Some ` LOCAL_GDEV_HOSTS"
    "\<not> url_credentials p" "base = rstrip_chars (\<lambda>c. c = CHR ''/'') value"
    using assms by (auto simp: validate_local_base_url_def split: sum.splits if_splits)
  have "su_netloc p \<noteq> []" using p(3) no_netloc_no_host by auto
  then obtain u where "urlparse bok (base @ CHR ''/'' # ''webhook'') = Inr u" "su_scheme u = su_scheme p" "su_netloc u = su_netloc p"
    using called_url [OF p(1), of "''webhook''"] p(2,5) by auto
  with p url_parts_cong [of u p] show ?thesis by (simp add: local_url_def)
qed

lemma validated_base_url:
  assumes "validate_gdev_webhook_eval_payload pf bok payload = Inr p" "gp_base_url p = Some base"
  shows "\<exists>value. validate_local_base_url bok value = Inr base"
  using assms
  by (auto simp: validate_gdev_webhook_eval_payload_def local_fields_def Let_def
      split: sum.splits if_splits json.splits prod.splits)

lemma invoke_cong:
  assumes "\<And>base body slug secret. gp_base_url p = Some base \<Longrightarrow>
     post (base @ ''/webhook'') body (signed_headers pf body slug secret) =
     post' (base @ ''/webhook'') body (signed_headers pf body slug secret)"
  shows "invoke_local_gdev pf post p = invoke_local_gdev pf post' p"
  using assms by (auto simp: invoke_local_gdev_def Let_def split: option.splits)


definition silent_transport :: transport where
  "silent_transport url body headers = raiseM (OSError url)"

definition local_case :: items where
  "local_case = [(''case_id'', JStr ''c''), (''candidate_id'', JStr ''g''), (''mode'', JStr ''local''),
     (''request'', JObj [(''text'', JStr ''hi'')]), (''gdev_base_url'', JStr ''http://localhost:8000''),
     (''gdev_tenant_slug'', JStr ''t''), (''gdev_tenant_id'', JStr ''a'')]"


text \<open>
  The check of the base URL looks at its path only. A query in it takes the appended \<open>/webhook\<close> in, and
  the request goes to the root of the service instead.
\<close>

lemma base_url_query_takes_the_path:
  "validate_local_base_url bok ''http://localhost?a='' = Inr ''http://localhost?a=''
   \<and> (\<exists>u. urlparse bok (''http://localhost?a='' @ ''/webhook'') = Inr u \<and> su_path u = [])"
proof -
  have a: "is_alpha CHR ''h''" "is_scheme_char CHR ''h''" "is_scheme_char CHR ''t''" "is_scheme_char CHR ''p''"
    by (simp_all add: is_alpha_def is_scheme_char_def)
  show ?thesis
    by (simp add: validate_local_base_url_def urlparse_def clean_url_def split_scheme_def partition_at_def a lower_def
        split_netloc_def split_path_def url_hostname_def rpartition_at_def url_credentials_def LOCAL_GDEV_HOSTS_def rstrip_chars_def)
qed

end
