(* ===== verification/EvalLab.thy ===== *)
theory EvalLab
  imports PyValue Storage
begin

section \<open>Eval lab jobs\<close>

text \<open>
  \<open>jobs/eval_lab.py\<close>: a job names a case of a data set, a file with a JSON object per line. The first
  line with the case's identifier is its case, and its expected quality is the result, which is also
  written to the case's result file.
\<close>

record eval_lab_payload =
  el_dataset_path :: path
  el_case_id :: pystr
  el_candidate_id :: pystr
  el_mode :: pystr
  el_eval_result_path :: path

definition validate_eval_lab_case_payload :: "platform \<Rightarrow> items \<Rightarrow> exc + eval_lab_payload" where
  "validate_eval_lab_case_payload pf payload =
     (case required_str pf EvalLabPayloadError payload ''dataset_path'' of Inl e \<Rightarrow> Inl e | Inr dataset \<Rightarrow>
      case required_str pf EvalLabPayloadError payload ''case_id'' of Inl e \<Rightarrow> Inl e | Inr case_id \<Rightarrow>
      let candidate_id = candidate_text pf payload in
      if candidate_id = [] then Inl (EvalLabPayloadError ''candidate_id is required'') else
      case required_str pf EvalLabPayloadError payload ''mode'' of Inl e \<Rightarrow> Inl e | Inr mode \<Rightarrow>
      if mode \<notin> {''stub'', ''local'', ''stub-or-local-http''}
      then Inl (EvalLabPayloadError ''mode must be one of: stub, local, stub-or-local-http'')
      else Inr \<lparr>el_dataset_path = path_of dataset, el_case_id = case_id, el_candidate_id = candidate_id, el_mode = mode,
             el_eval_result_path = eval_result_path_of pf payload candidate_id case_id\<rparr>)"

text \<open>The loop over the lines of the data set, with their numbers from 1.\<close>

fun find_case :: "platform \<Rightarrow> path \<Rightarrow> pystr \<Rightarrow> nat \<Rightarrow> pystr list \<Rightarrow> exc + items" where
  "find_case pf dataset_path case_id line_number [] =
     Inl (EvalLabPayloadError (''case_id '' @ repr_str case_id @ '' not found in '' @ path_str dataset_path))"
| "find_case pf dataset_path case_id line_number (line # rest) =
     (if strip line = [] then find_case pf dataset_path case_id (Suc line_number) rest
      else case loads (float_parse pf) line of
          None \<Rightarrow> Inl (EvalLabPayloadError (''dataset line '' @ nat_digits line_number @ '' is not valid JSON: ''
            @ path_str dataset_path))
        | Some (JObj c) \<Rightarrow> if py_eq (dget_none c ''id'') (JStr case_id) then Inr c
            else find_case pf dataset_path case_id (Suc line_number) rest
        | Some _ \<Rightarrow> Inl (AttributeError ''get''))"

definition load_case :: "platform \<Rightarrow> path \<Rightarrow> pystr \<Rightarrow> (files, items) prog" where
  "load_case pf dataset_path case_id =
     bindM (getM (\<lambda>fs. is_file fs dataset_path)) (\<lambda>there.
       if \<not> there then raiseM (EvalLabPayloadError (''dataset not found: '' @ path_str dataset_path))
       else bindM (read_text dataset_path) (\<lambda>s. liftM (find_case pf dataset_path case_id 1 (splitlines s))))"

definition eval_quality_status :: "items \<Rightarrow> pystr" where
  "eval_quality_status c = (case dget_none c ''expected'' of
     JObj expected \<Rightarrow> (case dget_none expected ''quality_status'' of
       JStr q \<Rightarrow> if q \<in> {''pass'', ''fail''} then q else ''pass'' | _ \<Rightarrow> ''pass'')
   | _ \<Rightarrow> ''pass'')"

definition eval_artifact_payload :: "eval_lab_payload \<Rightarrow> pystr \<Rightarrow> int \<Rightarrow> int \<Rightarrow> items" where
  "eval_artifact_payload p quality_status attempt_number latency_ms =
     [(''case_id'', JStr (el_case_id p)), (''candidate_id'', JStr (el_candidate_id p)),
      (''dataset_path'', JStr (path_str (el_dataset_path p))), (''status'', JStr ''completed''),
      (''runtime_status'', JStr ''completed''), (''eval_result_path'', JStr (path_str (el_eval_result_path p))),
      (''quality_status'', JStr quality_status), (''runtime_attempts'', JInt attempt_number),
      (''attempt_count'', JInt attempt_number), (''latency_ms'', JInt latency_ms), (''mode'', JStr (el_mode p))]"

definition eval_write_result :: "platform \<Rightarrow> path \<Rightarrow> items \<Rightarrow> (files, unit) prog" where
  "eval_write_result pf eval_result_path artifact_payload =
     write_json_file pf eval_result_path (pick artifact_payload
       [''case_id'', ''candidate_id'', ''quality_status'', ''runtime_status'', ''latency_ms''])"

definition run_eval_lab_case :: "platform \<Rightarrow> items \<Rightarrow> int \<Rightarrow> (job_env, items) prog" where
  "run_eval_lab_case pf payload attempt_number =
     bindM (inClock perf_counter) (\<lambda>started.
     bindM (liftM (validate_eval_lab_case_payload pf payload)) (\<lambda>p.
     bindM (inFiles (load_case pf (el_dataset_path p) (el_case_id p))) (\<lambda>c.
     bindM (inClock perf_counter) (\<lambda>now.
       let quality_status = eval_quality_status c;
           artifact_payload = eval_artifact_payload p quality_status attempt_number (elapsed_ms started now)
       in thenM (inFiles (eval_write_result pf (el_eval_result_path p) artifact_payload))
         (returnM [(''summary'', JStr ''eval_lab_case completed''), (''case_id'', JStr (el_case_id p)),
            (''quality_status'', JStr quality_status), (''eval_result_path'', JStr (path_str (el_eval_result_path p))),
            (''artifact_payload'', JObj artifact_payload)])))))"

subsection \<open>The case that is found\<close>

text \<open>\<open>case_at\<close>: line \<open>i\<close> is the first with the identifier, and the lines before it are blank or
  other cases.\<close>

definition case_line :: "platform \<Rightarrow> pystr \<Rightarrow> items option" where
  "case_line pf line = (if strip line = [] then None
     else case loads (float_parse pf) line of Some (JObj c) \<Rightarrow> Some c | _ \<Rightarrow> None)"

definition case_at :: "platform \<Rightarrow> pystr list \<Rightarrow> pystr \<Rightarrow> nat \<Rightarrow> items \<Rightarrow> bool" where
  "case_at pf lines case_id i c \<longleftrightarrow> i < length lines \<and> case_line pf (lines ! i) = Some c \<and> dget c ''id'' = Some (JStr case_id)
     \<and> (\<forall>j < i. strip (lines ! j) = [] \<or> (\<exists>d. case_line pf (lines ! j) = Some d \<and> dget d ''id'' \<noteq> Some (JStr case_id)))"

lemma case_at_Suc:
  "case_at pf ls case_id i c \<Longrightarrow> strip l = [] \<or> (\<exists>d. case_line pf l = Some d \<and> dget d ''id'' \<noteq> Some (JStr case_id)) \<Longrightarrow>
     case_at pf (l # ls) case_id (Suc i) c"
  by (auto simp: case_at_def nth_Cons split: nat.splits)

lemma find_case_at: "find_case pf p case_id n lines = Inr c \<Longrightarrow> \<exists>i. case_at pf lines case_id i c"
proof (induction lines arbitrary: n)
  case Nil
  then show ?case by simp
next
  case (Cons l ls)
  show ?case
  proof (cases "strip l = []")
    case True
    with Cons.prems Cons.IH case_at_Suc [of pf ls case_id _ c l] show ?thesis by auto
  next
    case False
    with Cons.prems obtain d where d: "loads (float_parse pf) l = Some (JObj d)"
      by (auto split: option.splits json.splits)
    then have cl: "case_line pf l = Some d" using False by (simp add: case_line_def)
    show ?thesis
    proof (cases "dget d ''id'' = Some (JStr case_id)")
      case True
      with Cons.prems False d have "c = d" by (simp add: py_eq_str dget_none_str)
      with True cl have "case_at pf (l # ls) case_id 0 c" by (simp add: case_at_def)
      then show ?thesis ..
    next
      case other: False
      with Cons.prems False d have "find_case pf p case_id (Suc n) ls = Inr c"
        by (simp add: py_eq_str dget_none_str)
      from Cons.IH [OF this] obtain i where "case_at pf ls case_id i c" ..
      from case_at_Suc [OF this] cl other show ?thesis by blast
    qed
  qed
qed

subsection \<open>Properties\<close>


definition eval_line :: pystr where
  "eval_line = dump_json compact_style (float_repr text_platform) 0 (JObj [(''id'', JStr ''c'')])"

definition eval_files :: files where
  "eval_files = [(path_of ''d'', File (utf8_encode eval_line))]"

definition eval_case :: items where
  "eval_case = [(''dataset_path'', JStr ''d''), (''case_id'', JStr ''c''), (''candidate_id'', JStr ''g''),
     (''mode'', JStr ''stub''), (''eval_result_path'', JStr ''r'')]"

definition eval_env :: job_env where
  "eval_env = \<lparr>je_files = eval_files, je_environ = (\<lambda>_. None), je_clock = []\<rparr>"


end
