(* ===== verification/Runs.thy ===== *)
theory Runs
  imports Ledger SmokeReport Gdev EvalLab FailurePlan Boundary
begin

section \<open>Whole runs\<close>

text \<open>
  The runs of the command line, from the submission to the evidence: \<open>run_smoke\<close> of \<open>cli/smoke.py\<close> and
  \<open>run_reliability_proof\<close> of \<open>cli/benchmark.py\<close>, with the workers they build, the \<open>..._from_urls\<close> wrappers
  that may reset the local database, and \<open>run_smoke_benchmark\<close>. What surrounds the program is a record of
  parameters: the platform, the host, the parsers of the standard library, the timer and the transport.
\<close>

record surroundings =
  sr_platform :: platform
  sr_host :: host
  sr_fromisoformat :: "pystr \<Rightarrow> exc + datetime"
  sr_float_of_text :: "pystr \<Rightarrow> float_value option"
  sr_float_round :: "rat \<Rightarrow> rat"
  sr_late :: "rat \<Rightarrow> rat"
  sr_bracket_ok :: "pystr \<Rightarrow> bool"
  sr_post_within :: "int \<Rightarrow> transport"
  sr_utc_now :: "job_env \<Rightarrow> datetime"
  sr_heartbeats :: "job_env \<Rightarrow> job_env \<Rightarrow> nat"
  sr_shuffled :: "int \<Rightarrow> nat list \<Rightarrow> nat list"
  sr_make_url :: "pystr \<Rightarrow> exc + pystr option \<times> pystr option"

subsection \<open>The workers\<close>

text \<open>
  The job functions of a worker. The times of a stub job count from its start, and its event can only be set
  before it starts, since the registry of events belongs to the worker. An evaluation job never waits, so it is
  never cut off; a gdev job waits for its request, and \<open>sr_post_within\<close> raises \<open>TimeoutError\<close> when the timeout
  of the job comes first.
\<close>

definition grid_jobs :: "surroundings \<Rightarrow> job_env job_functions" where
  "grid_jobs sr = \<lparr>
     jf_eval_lab_case = (\<lambda>payload attempt cancelled limit env.
       case run_eval_lab_case (sr_platform sr) payload attempt env of (r, env') \<Rightarrow> (Answered 0 r, env')),
     jf_gdev_webhook_eval = (\<lambda>payload attempt cancelled limit env.
       case run_gdev_webhook_eval (sr_platform sr) (sr_bracket_ok sr) (sr_post_within sr limit) payload attempt env of
         (r, env') \<Rightarrow> (Answered 0 r, env')),
     jf_stub = (\<lambda>payload attempt cancelled limit env.
       (stub_run (sr_float_of_text sr) (sr_late sr) (if cancelled then Some 0 else None) payload (of_int limit) 0, env)),
     jf_heartbeats = sr_heartbeats sr\<rparr>"

definition grid_artifact_store :: "surroundings \<Rightarrow> path \<Rightarrow> job_env artifact_writer" where
  "grid_artifact_store sr base job worker_id attempt_number result =
     bindM (getM (sr_utc_now sr)) (\<lambda>now.
     bindM (inFiles (write_stub_job_artifact (sr_platform sr) base now job worker_id attempt_number result)) (\<lambda>a.
     returnM (path_str (am_path a), to_dict a)))"

definition grid_worker :: "surroundings \<Rightarrow> 'r queue_api \<Rightarrow> path \<Rightarrow> pystr \<Rightarrow> ('r, job_env) worker" where
  "grid_worker sr q artifact_root name = \<lparr>wk_id = name, wk_queue = q, wk_jobs = grid_jobs sr,
     wk_artifact_store = Some (grid_artifact_store sr artifact_root), wk_budget_policy = stub_policy 2,
     wk_lease_renewal_interval = Some 5\<rparr>"

definition worker_pool :: "surroundings \<Rightarrow> 'r queue_api \<Rightarrow> path \<Rightarrow> pystr \<Rightarrow> int \<Rightarrow> ('r, job_env) worker list" where
  "worker_pool sr q artifact_root name workers =
     map (\<lambda>i. grid_worker sr q artifact_root (name @ nat_digits (i + 1))) [0..<nat workers]"

subsection \<open>Programs with a loop\<close>

text \<open>A run contains the unbounded drain loop: its value is \<open>None\<close> when the loop does not end.\<close>

type_synonym ('s, 'a) run = "'s \<Rightarrow> ((exc + 'a) \<times> 's) option"

definition runL :: "('s, 'a) prog \<Rightarrow> ('s, 'a) run" where
  "runL m = (\<lambda>s. Some (m s))"

definition bindL :: "('s, 'a) run \<Rightarrow> ('a \<Rightarrow> ('s, 'b) run) \<Rightarrow> ('s, 'b) run" where
  "bindL m f = (\<lambda>s. case m s of None \<Rightarrow> None | Some (Inl e, s') \<Rightarrow> Some (Inl e, s') | Some (Inr a, s') \<Rightarrow> f a s')"

lemma runL_eq [simp]: "runL m s = Some (m s)"
  by (simp add: runL_def)

lemma bindL_eq: "bindL m f s = (case m s of None \<Rightarrow> None | Some (Inl e, s') \<Rightarrow> Some (Inl e, s') | Some (Inr a, s') \<Rightarrow> f a s')"
  by (simp add: bindL_def)

definition queue_of :: "'r inspector \<Rightarrow> 'r queue_api" where
  "queue_of q = redis_queue (in_client q) (in_config q)"

subsection \<open>The smoke run\<close>

record smoke_run_result =
  sm_run_id :: uuid
  sm_report_path :: path
  sm_report :: reliability_report

definition smoke_config :: "int \<Rightarrow> int \<Rightarrow> rat \<Rightarrow> pystr \<Rightarrow> path \<Rightarrow> config_value" where
  "smoke_config jobs_n workers failure_rate mode artifact_root = CDict [(''jobs'', CValue (JInt jobs_n)),
     (''workers'', CValue (JInt workers)), (''failure_rate'', CValue (JFloat failure_rate)),
     (''mode'', CValue (JStr mode)), (''artifact_root'', CPath artifact_root)]"

definition write_evidence ::
    "surroundings \<Rightarrow> path \<Rightarrow> (files, pystr) prog \<Rightarrow> reliability_report \<Rightarrow> pystr \<Rightarrow> config_value \<Rightarrow> int option
      \<Rightarrow> (('r, job_env) world, evidence_bundle) prog" where
  "write_evidence sr report_path rendered report cmd config seed =
     bindM (inJobFiles rendered) (\<lambda>rendered_report.
       inJobFiles (write_evidence_bundle (sr_platform sr) (sr_host sr) report_path rendered_report report cmd config seed))"

text \<open>What follows the loop: the report, its check, the evidence\<close>

definition finish_smoke ::
    "surroundings \<Rightarrow> 'r inspector \<Rightarrow> int \<Rightarrow> int \<Rightarrow> rat \<Rightarrow> pystr \<Rightarrow> path \<Rightarrow> path \<Rightarrow> uuid
      \<Rightarrow> (('r, job_env) world, smoke_run_result) prog" where
  "finish_smoke sr q jobs_n workers failure_rate mode artifact_root report_path run_id =
     bindM (build_smoke_report (sr_platform sr) (sr_fromisoformat sr) run_id artifact_root (Some q) (Some workers)) (\<lambda>report.
       thenM (liftM (validate_smoke_report report jobs_n))
      (thenM (write_evidence sr report_path (render_reliability_report (h_cwd (sr_host sr)) report) report ''smoke''
          (smoke_config jobs_n workers failure_rate mode artifact_root) None)
        (returnM \<lparr>sm_run_id = run_id, sm_report_path = report_path, sm_report = report\<rparr>)))"

definition run_smoke ::
    "surroundings \<Rightarrow> 'r inspector \<Rightarrow> uuid \<Rightarrow> (nat \<Rightarrow> uuid) \<Rightarrow> int \<Rightarrow> int \<Rightarrow> rat \<Rightarrow> pystr \<Rightarrow> path \<Rightarrow> path
      \<Rightarrow> (('r, job_env) world, smoke_run_result) run" where
  "run_smoke sr q run ids jobs_n workers failure_rate mode artifact_root report_path =
     (if jobs_n \<le> 0 then runL (raiseM (ValueError ''jobs must be positive''))
      else if workers \<le> 0 then runL (raiseM (ValueError ''workers must be positive''))
      else if mode \<noteq> ''stub'' then runL (raiseM (ValueError ''smoke command only supports stub mode''))
      else if failure_rate \<noteq> 0 then runL (raiseM (ValueError ''smoke command requires failure_rate=0; use benchmark proof tasks''))
      else bindL (runL (submit_smoke_batch (sr_platform sr) (queue_of q) run ids jobs_n)) (\<lambda>run_id.
           bindL (drain (worker_pool sr (queue_of q) artifact_root ''smoke-worker-'' workers)) (\<lambda>_.
           runL (finish_smoke sr q jobs_n workers failure_rate mode artifact_root report_path run_id))))"

subsection \<open>The reliability proof\<close>

record reliability_proof_result =
  rr_run_id :: uuid
  rr_report_path :: path
  rr_report :: reliability_report
  rr_failure_plan :: failure_plan

definition add_counts :: "(pystr \<times> int) list \<Rightarrow> (pystr \<times> int) list \<Rightarrow> (pystr \<times> int) list" where
  "add_counts cs extra = fold (\<lambda>(k, n) acc. AList.update k n acc) extra cs"

definition injected_counts :: "failure_plan \<Rightarrow> (pystr \<times> int) list" where
  "injected_counts plan = map (\<lambda>(m, n). (''injected_'' @ mode_value m, int n)) (filter (\<lambda>(m, n). n \<noteq> 0) (plan_counts plan))"

definition proof_report :: "uuid \<Rightarrow> path \<Rightarrow> failure_plan \<Rightarrow> int \<Rightarrow> int \<Rightarrow> reliability_report \<Rightarrow> reliability_report" where
  "proof_report run_id artifact_root plan replays failure_count report = report\<lparr>
     rp_failure_classification := add_counts (rp_failure_classification report) (injected_counts plan),
     rp_estimated_cost_usd := dec_zero, rp_run_id := Some (uuid_str run_id), rp_source := ''runtime_state:'' @ path_str artifact_root,
     rp_idempotency_replay_count := replays, rp_injected_failure_count := failure_count,
     rp_title := ''V1 Reliability Proof Report''\<rparr>"

definition proof_config :: "int \<Rightarrow> int \<Rightarrow> rat \<Rightarrow> bool \<Rightarrow> bool \<Rightarrow> path \<Rightarrow> config_value" where
  "proof_config jobs_n workers failure_rate include_timeouts repeat_submissions artifact_root = CDict [(''jobs'', CValue (JInt jobs_n)),
     (''workers'', CValue (JInt workers)), (''failure_rate'', CValue (JFloat failure_rate)),
     (''include_timeouts'', CValue (JBool include_timeouts)), (''repeat_idempotency_submissions'', CValue (JBool repeat_submissions)),
     (''artifact_root'', CPath artifact_root)]"

text \<open>\<open>int(jobs * failure_rate)\<close>, with the rounding of the floating-point product as a parameter\<close>

definition failure_count_of :: "surroundings \<Rightarrow> int \<Rightarrow> rat \<Rightarrow> int" where
  "failure_count_of sr jobs_n failure_rate = floor (sr_float_round sr (of_int jobs_n * failure_rate))"

definition finish_reliability_proof ::
    "surroundings \<Rightarrow> 'r inspector \<Rightarrow> int \<Rightarrow> int \<Rightarrow> rat \<Rightarrow> bool \<Rightarrow> bool \<Rightarrow> path \<Rightarrow> path \<Rightarrow> int \<Rightarrow> failure_plan \<Rightarrow> int \<Rightarrow> uuid \<times> int
      \<Rightarrow> (('r, job_env) world, reliability_proof_result) prog" where
  "finish_reliability_proof sr q jobs_n workers failure_rate include_timeouts repeat_submissions artifact_root report_path seed
       plan failure_count submitted =
     (case submitted of (run_id, replays) \<Rightarrow>
       bindM (build_smoke_report (sr_platform sr) (sr_fromisoformat sr) run_id artifact_root (Some q) (Some workers)) (\<lambda>built.
         let report = proof_report run_id artifact_root plan replays failure_count built
         in thenM (liftM (validate_reliability_proof report jobs_n failure_rate include_timeouts repeat_submissions))
           (thenM (write_evidence sr report_path (render_reliability_report (h_cwd (sr_host sr)) report) report
               ''benchmark v1-proof'' (proof_config jobs_n workers failure_rate include_timeouts repeat_submissions artifact_root) (Some seed))
             (returnM \<lparr>rr_run_id = run_id, rr_report_path = report_path, rr_report = report, rr_failure_plan = plan\<rparr>))))"

definition run_reliability_proof ::
    "surroundings \<Rightarrow> 'r inspector \<Rightarrow> uuid \<Rightarrow> (nat \<Rightarrow> uuid) \<Rightarrow> int \<Rightarrow> int \<Rightarrow> rat \<Rightarrow> bool \<Rightarrow> bool \<Rightarrow> path \<Rightarrow> path \<Rightarrow> int
      \<Rightarrow> (('r, job_env) world, reliability_proof_result) run" where
  "run_reliability_proof sr q run ids jobs_n workers failure_rate include_timeouts repeat_submissions artifact_root report_path seed =
     (if jobs_n \<le> 0 then runL (raiseM (ValueError ''jobs must be positive''))
      else if workers \<le> 0 then runL (raiseM (ValueError ''workers must be positive''))
      else if \<not> (0 \<le> failure_rate \<and> failure_rate \<le> 1) then runL (raiseM (ValueError ''failure_rate must be between 0 and 1''))
      else let failure_count = failure_count_of sr jobs_n failure_rate;
               plan = reliability_proof (sr_shuffled sr) seed (nat failure_count) include_timeouts
           in bindL (runL (submit_reliability_batch (sr_platform sr) (queue_of q) run ids jobs_n plan repeat_submissions)) (\<lambda>submitted.
              bindL (drain (worker_pool sr (queue_of q) artifact_root ''proof-worker-'' workers)) (\<lambda>_.
              runL (finish_reliability_proof sr q jobs_n workers failure_rate include_timeouts repeat_submissions artifact_root report_path
                seed plan failure_count submitted))))"

subsection \<open>Runs from addresses\<close>

text \<open>
  The \<open>..._from_urls\<close> wrappers name fresh streams after a suffix and, when asked to, drop and create the
  tables of the database, after the guard against resetting anything but the local project database. The
  advisory lock that excludes a second reset, and connecting and closing, leave no state of the model.
\<close>

definition clean_state_of :: "surroundings \<Rightarrow> pystr \<Rightarrow> bool \<Rightarrow> (('r, 'e) world, unit) prog" where
  "clean_state_of sr database_url clean_state = whenM clean_state
     (thenM (liftM (require_safe_local_reset (sr_make_url sr) database_url))
       (modifyM (\<lambda>w. w\<lparr>w_db := empty_database (db_now (w_db w))\<rparr>)))"

definition named_queue :: "pystr \<Rightarrow> pystr \<Rightarrow> pystr \<Rightarrow> 'r inspector \<Rightarrow> 'r inspector" where
  "named_queue name members ident q = q\<lparr>in_config := \<lparr>stream_name = name @ '':'' @ ident, consumer_group = members,
     dlq_stream_name = name @ '':'' @ ident @ '':dlq''\<rparr>\<rparr>"

definition run_smoke_from_urls ::
    "surroundings \<Rightarrow> 'r inspector \<Rightarrow> pystr \<Rightarrow> pystr \<Rightarrow> uuid \<Rightarrow> (nat \<Rightarrow> uuid) \<Rightarrow> int \<Rightarrow> int \<Rightarrow> rat \<Rightarrow> pystr \<Rightarrow> path \<Rightarrow> path \<Rightarrow> bool
      \<Rightarrow> (('r, job_env) world, smoke_run_result) run" where
  "run_smoke_from_urls sr redis ident database_url run ids jobs_n workers failure_rate mode artifact_root report_path clean_state =
     bindL (runL (clean_state_of sr database_url clean_state)) (\<lambda>_.
       run_smoke sr (named_queue ''smoke-jobs'' ''smoke-workers'' ident redis) run ids jobs_n workers failure_rate mode artifact_root report_path)"

definition run_reliability_proof_from_urls ::
    "surroundings \<Rightarrow> 'r inspector \<Rightarrow> pystr \<Rightarrow> pystr \<Rightarrow> uuid \<Rightarrow> (nat \<Rightarrow> uuid) \<Rightarrow> int \<Rightarrow> int \<Rightarrow> rat \<Rightarrow> bool \<Rightarrow> bool \<Rightarrow> path \<Rightarrow> path \<Rightarrow> bool
      \<Rightarrow> (('r, job_env) world, reliability_proof_result) run" where
  "run_reliability_proof_from_urls sr redis ident database_url run ids jobs_n workers failure_rate include_timeouts repeat_submissions
       artifact_root report_path clean_state =
     bindL (runL (clean_state_of sr database_url clean_state)) (\<lambda>_.
       run_reliability_proof sr (named_queue ''proof-jobs'' ''proof-workers'' ident redis) run ids jobs_n workers failure_rate
         include_timeouts repeat_submissions artifact_root report_path 42)"

subsection \<open>The commands\<close>

text \<open>
  What a command prints on the two output streams and how it ends: \<open>reported\<close> is
  \<open>try: ... except caught as exc: echo(..., err=True); raise Exit(1)\<close> around the call, then the lines of its result;
  \<open>run_command\<close> and \<open>loop_command\<close> run what is called. The parsing of the options is the library's.
  \<open>exc_text\<close> is \<open>str(exc)\<close>; the text of the exceptions of libraries is a parameter.
\<close>

record command_outcome =
  co_stdout :: "pystr list"
  co_stderr :: "pystr list"
  co_raised :: "exc option"

fun exc_text :: "(exc \<Rightarrow> pystr) \<Rightarrow> exc \<Rightarrow> pystr" where
  "exc_text other (ValueError m) = m"
| "exc_text other (EvalLabPayloadError m) = m"
| "exc_text other (GdevAgentPayloadError m) = m"
| "exc_text other (IdempotencyConflictError k) =
     ''idempotency key '' @ repr_str k @ '' already exists for a different payload''"
| "exc_text other (ArtifactIntegrityError m) = m"
| "exc_text other (UnsafeDatabaseResetError m) = m"
| "exc_text other (EvidenceVerificationError m) = m"
| "exc_text other (SmokeValidationError errors) = join ''; '' errors"
| "exc_text other (ReliabilityProofValidationError errors) = join ''; '' errors"
| "exc_text other (FailureReportValidationError errors) = join ''; '' errors"
| "exc_text other (FullStackProofError m) = m"
| "exc_text other (CostRollupViolation m) = m"
| "exc_text other e = other e"

definition reported ::
    "(exc \<Rightarrow> pystr) \<Rightarrow> (exc \<Rightarrow> bool) \<Rightarrow> pystr \<Rightarrow> ('a \<Rightarrow> pystr list) \<Rightarrow> exc + 'a \<Rightarrow> command_outcome" where
  "reported other caught what lines r = (case r of
      Inr a \<Rightarrow> \<lparr>co_stdout = lines a, co_stderr = [], co_raised = None\<rparr>
    | Inl e \<Rightarrow> if caught e
        then \<lparr>co_stdout = [], co_stderr = [what @ '': '' @ exc_text other e], co_raised = Some (Exit 1)\<rparr>
        else \<lparr>co_stdout = [], co_stderr = [], co_raised = Some e\<rparr>)"

definition smoke_caught :: "exc \<Rightarrow> bool" where
  "smoke_caught e \<longleftrightarrow> is_value_error e \<or> (case e of ArtifactIntegrityError _ \<Rightarrow> True | SmokeValidationError _ \<Rightarrow> True
     | UnsafeDatabaseResetError _ \<Rightarrow> True | _ \<Rightarrow> False)"

definition run_command :: "(exc + 'a \<Rightarrow> command_outcome) \<Rightarrow> ('s, 'a) prog \<Rightarrow> 's \<Rightarrow> command_outcome \<times> 's" where
  "run_command show_result m s = (case m s of (r, s') \<Rightarrow> (show_result r, s'))"

definition loop_command :: "(exc + 'a \<Rightarrow> command_outcome) \<Rightarrow> ('s, 'a) run \<Rightarrow> 's \<Rightarrow> (command_outcome \<times> 's) option" where
  "loop_command show_result m s = (case m s of None \<Rightarrow> None | Some (r, s') \<Rightarrow> Some (show_result r, s'))"

definition smoke_command ::
    "(exc \<Rightarrow> pystr) \<Rightarrow> surroundings \<Rightarrow> 'r inspector \<Rightarrow> pystr \<Rightarrow> pystr \<Rightarrow> uuid \<Rightarrow> (nat \<Rightarrow> uuid) \<Rightarrow> int \<Rightarrow> int \<Rightarrow> rat \<Rightarrow> pystr \<Rightarrow> path
      \<Rightarrow> path \<Rightarrow> bool \<Rightarrow> ('r, job_env) world \<Rightarrow> (command_outcome \<times> ('r, job_env) world) option" where
  "smoke_command other sr redis ident database_url run ids jobs_n workers failure_rate mode report_path artifact_root reset_local_database =
     loop_command (reported other smoke_caught ''smoke failed''
         (\<lambda>r. [''run_id: '' @ uuid_str (sm_run_id r), ''report: '' @ path_str (sm_report_path r)]))
       (run_smoke_from_urls sr redis ident database_url run ids jobs_n workers failure_rate mode artifact_root report_path
         reset_local_database)"

definition v1_proof_caught :: "exc \<Rightarrow> bool" where
  "v1_proof_caught e \<longleftrightarrow> is_value_error e \<or> (case e of ArtifactIntegrityError _ \<Rightarrow> True | ReliabilityProofValidationError _ \<Rightarrow> True
     | UnsafeDatabaseResetError _ \<Rightarrow> True | _ \<Rightarrow> False)"

definition v1_proof_command ::
    "(exc \<Rightarrow> pystr) \<Rightarrow> surroundings \<Rightarrow> 'r inspector \<Rightarrow> pystr \<Rightarrow> pystr \<Rightarrow> uuid \<Rightarrow> (nat \<Rightarrow> uuid) \<Rightarrow> int \<Rightarrow> int \<Rightarrow> rat \<Rightarrow> bool \<Rightarrow> bool
      \<Rightarrow> path \<Rightarrow> path \<Rightarrow> bool \<Rightarrow> ('r, job_env) world \<Rightarrow> (command_outcome \<times> ('r, job_env) world) option" where
  "v1_proof_command other sr redis ident database_url run ids jobs_n workers failure_rate include_timeouts repeat_submissions report_path
       artifact_root reset_local_database =
     loop_command (reported other v1_proof_caught ''v1 proof failed''
         (\<lambda>r. [''run_id: '' @ uuid_str (rr_run_id r), ''report: '' @ path_str (rr_report_path r)]))
       (run_reliability_proof_from_urls sr redis ident database_url run ids jobs_n workers failure_rate include_timeouts
         repeat_submissions artifact_root report_path reset_local_database)"

subsection \<open>The configured benchmark\<close>

record benchmark_config =
  bc_job_count :: int
  bc_worker_count :: int
  bc_failure_rate :: rat
  bc_include_timeouts :: bool
  bc_repeat_idempotency_submissions :: bool
  bc_seed :: int

definition smoke_benchmark_config :: benchmark_config where
  "smoke_benchmark_config = \<lparr>bc_job_count = 100, bc_worker_count = 4, bc_failure_rate = 0, bc_include_timeouts = False,
     bc_repeat_idempotency_submissions = False, bc_seed = 42\<rparr>"

definition v1_proof_config :: benchmark_config where
  "v1_proof_config = \<lparr>bc_job_count = 500, bc_worker_count = 20, bc_failure_rate = 1 / 10, bc_include_timeouts = True,
     bc_repeat_idempotency_submissions = True, bc_seed = 42\<rparr>"

definition smoke_benchmark_report :: reliability_report where
  "smoke_benchmark_report = \<lparr>rp_submitted_jobs = bc_job_count smoke_benchmark_config,
     rp_lifecycle_counts = [(''queued'', 0), (''running'', 0), (''completed'', bc_job_count smoke_benchmark_config), (''failed'', 0),
       (''timed_out'', 0), (''cancelled'', 0)],
     rp_completion_rate = 1, rp_duplicate_finalization_count = 0, rp_retry_count = 0, rp_queue_lag_seconds = 0,
     rp_p95_duration_seconds = 0, rp_artifact_completeness = 1, rp_finalization_conflict_attempt_count = 0,
     rp_failure_classification = [], rp_estimated_cost_usd = dec_zero, rp_run_id = None, rp_source = ''configured_harness'',
     rp_idempotency_replay_count = 0, rp_injected_failure_count = 0, rp_title = ''Load Smoke Report'',
     rp_backpressure = None, rp_artifact_integrity = None\<rparr>"

definition run_smoke_benchmark :: "path \<Rightarrow> path \<Rightarrow> (files, path) prog" where
  "run_smoke_benchmark cwd reports_dir =
     (let report_path = path_join reports_dir ''load_smoke.md''
      in thenM (mkdir_parents reports_dir)
        (bindM (render_reliability_report cwd smoke_benchmark_report) (\<lambda>s.
         thenM (write_text report_path s) (returnM report_path))))"

subsection \<open>Events keep the run of their job\<close>

text \<open>
  The records of a stored job carry its run, so processing a message that \<open>open_message\<close> accepted keeps every event
  under the run of its job.
\<close>

lemma own_runs_load:
  assumes "events_own_run db" "load_job_for_update i db = (Inr (Some job), db')"
  shows "own_runs job db'"
  using load_job_Some [OF assms(2)] assms(1) by (auto simp: own_runs_def stored_as_def)

lemma open_message_own_runs:
  assumes "events_own_run (w_db w)" "open_message wk m w = (r, w')"
  shows "events_own_run (w_db w') \<and> (\<forall>job. r = Inr (Some job) \<longrightarrow> own_runs job (w_db w'))"
proof (cases "uuid_of_text (qm_job_id m)")
  case (Inl e)
  with assms show ?thesis by (auto simp: open_message_def transactionW_def bindM_eq)
next
  case (Inr i)
  obtain found where load: "load_job_for_update i (w_db w) = (found, w_db w)"
    using load_job_state [of i "w_db w"] by (cases "load_job_for_update i (w_db w)") simp
  have ack: "w_db w1 = w_db w" if "ack_message wk m w = (r1, w1)" for r1 w1
    using keepsD [OF keeps_ack_message [where I = "\<lambda>db. db = w_db w"] _ that] by simp
  show ?thesis
  proof (cases "\<exists>job. found = Inr (Some job)")
    case False
    then consider (failed) e where "found = Inl e" | (missing) "found = Inr None" by (cases found) auto
    then show ?thesis
    proof cases
      case failed
      then have "open_message wk m w = (Inl e, w)"
        using Inr load by (simp add: open_message_def transactionW_def bindM_eq inDb_eq)
      with assms show ?thesis by auto
    next
      case missing
      obtain r1 w1 where a: "ack_message wk m w = (r1, w1)" by (cases "ack_message wk m w")
      have "open_message wk m w = (case r1 of Inl e \<Rightarrow> (Inl e, w1\<lparr>w_db := w_db w\<rparr>) | Inr _ \<Rightarrow> (Inr None, w1))"
        using Inr load missing a by (simp add: open_message_def transactionW_def bindM_eq thenM_eq inDb_eq split: sum.split)
      with assms ack [OF a] show ?thesis by (auto split: sum.splits)
    qed
  next
    case True
    then obtain job where job: "found = Inr (Some job)" by blast
    have own: "own_runs job (w_db w)" by (rule own_runs_load [OF assms(1) load [unfolded job]])
    let ?body = "if job_status job \<in> TERMINAL_STATUSES then thenM (ack_message wk m) (returnM None)
      else (case validate_job_dispatch (wk_budget_policy wk) job of
          Inl e \<Rightarrow> thenM (inDb (record_budget_error wk m job e)) (thenM (ack_message wk m) (returnM None))
        | Inr _ \<Rightarrow> thenM (inDb (record_running job (wk_id wk) (qm_attempt_number m))) (returnM (Some job)))"
    have keep: "keeps (\<lambda>w. own_runs job (w_db w)) ?body"
      by (auto intro!: keep_intros own_runs.keeps_budget_error own_runs.running split: sum.splits)
    obtain r1 w1 where body: "?body w = (r1, w1)" by (cases "?body w")
    have own1: "own_runs job (w_db w1)" by (rule keepsD [OF keep own body])
    have answer: "job' = job" if "r1 = Inr (Some job')" for job'
      using body that by (auto simp: thenM_eq split: if_splits sum.splits prod.splits)
    have "open_message wk m w = (case r1 of Inl e \<Rightarrow> (Inl e, w1\<lparr>w_db := w_db w\<rparr>) | Inr a \<Rightarrow> (Inr a, w1))"
      using Inr load job body
      by (simp add: open_message_def transactionW_def bindM_eq inDb_eq split: sum.split)
    with assms own1 answer show ?thesis by (auto simp: own_runs_def split: sum.splits)
  qed
qed

lemma process_message_own_runs: "keeps (\<lambda>w. events_own_run (w_db w)) (process_message wk m)"
proof (rule keepsI)
  fix w :: "('a, 'b) world" assume I: "events_own_run (w_db w)"
  obtain r w1 where op: "open_message wk m w = (r, w1)" by (cases "open_message wk m w")
  note own = open_message_own_runs [OF I op]
  show "events_own_run (w_db (snd (process_message wk m w)))"
  proof (cases "\<exists>job. r = Inr (Some job)")
    case False
    with op own show ?thesis by (auto simp: process_message_def bindM_eq split: sum.splits option.splits)
  next
    case True
    then obtain job where job: "r = Inr (Some job)" by blast
    have "keeps (\<lambda>w. own_runs job (w_db w)) (bindM (run_phase wk m job) (\<lambda>(outcome, ended).
        finallyM (settle wk m job outcome) (stop_lease_heartbeat ended)))"
      by (auto intro!: keep_intros own_runs.keeps_settle)
    from keeps_snd [OF this, of w1] own job have "own_runs job (w_db (snd (process_message wk m w)))"
      by (simp add: process_message_def bindM_eq op job)
    then show ?thesis by (simp add: own_runs_def)
  qed
qed

lemma process_one_own_runs: "keeps (\<lambda>w. events_own_run (w_db w)) (process_one wk)"
  unfolding process_one_def by (auto intro!: keep_intros process_message_own_runs split: list.splits)


text \<open>A property of the state that every turn of a worker keeps is kept by the loop.\<close>

lemma drain_keeps:
  assumes "\<forall>wk \<in> set pool. keeps J (process_one wk)" "J w" "drain pool w = Some (r, w')"
  shows "J w'"
proof -
  have round: "keeps J (drain_round pool)"
    unfolding drain_round_def using assms(1) by (intro keeps_map) blast
  have "\<forall>r w'. res = (r, w') \<longrightarrow> (\<forall>wk \<in> set pool. keeps J (process_one wk)) \<longrightarrow> keeps J (drain_round pool) \<longrightarrow> J w \<longrightarrow> J w'"
    if "drain pool w = Some res" for res
    using that
  proof (induction rule: drain.raw_induct [rotated, consumes 1, case_names step])
    case (step f pool w res)
    obtain bs w1 where bs: "drain_round pool w = (bs, w1)" by (cases "drain_round pool w")
    show ?case
    proof (intro allI impI)
      fix r w' assume res: "res = (r, w')" and pool: "\<forall>wk \<in> set pool. keeps J (process_one wk)"
        and round: "keeps J (drain_round pool)" and J: "J w"
      have J1: "J w1" by (rule keepsD [OF round J bs])
      show "J w'"
      proof (cases "\<exists>ps. bs = Inr ps \<and> list_ex (\<lambda>b. b) ps")
        case True
        with step(2) bs have "f pool w1 = Some res" by auto
        from step(1) [OF this] res pool round J1 show ?thesis by blast
      next
        case False
        with step(2) bs res J1 show ?thesis by (auto split: sum.splits if_splits)
      qed
    qed
  qed
  with assms round show ?thesis by blast
qed

subsection \<open>A run ends\<close>

text \<open>A submitter that returned has left every new job with its message.\<close>

definition submitted :: "database \<times> queue_view \<Rightarrow> database \<times> queue_view \<Rightarrow> bool \<Rightarrow> bool" where
  "submitted x y returned \<longleftrightarrow> moved_on x y
     \<and> (returned \<longrightarrow> (\<forall>j \<in> set (jobs (fst y)). j \<in> set (jobs (fst x)) \<or> accounted (fst y) (snd y) (job_id j)))"

lemma submitted_rows_submitted: "submitted_rows pf subs x y b \<Longrightarrow> submitted x y b"
  unfolding submitted_rows_def submitted_def by auto

lemma submitted_refl: "grid_ok (fst x) (snd x) \<Longrightarrow> submitted x x b"
  by (cases x) (simp add: submitted_def moved_on_refl)

lemma submitted_trans:
  assumes "submitted x y True" "submitted y z b"
  shows "submitted x z b"
proof -
  have moved: "moved_on x y" "moved_on y z" using assms by (simp_all add: submitted_def)
  have keep: "accounted (fst z) (snd z) i" if "accounted (fst y) (snd y) i" for i
    using moved(2) that by (cases y; cases z) (simp add: moved_on_def)
  have "moved_on x z" by (rule moved_on_trans [OF moved])
  with assms keep show ?thesis unfolding submitted_def by blast
qed

context job_queue
begin

lemma accounted_drained:
  "accounted db v j \<Longrightarrow> qv_waiting v = [] \<Longrightarrow> lease_ids v = [] \<Longrightarrow> j \<in> finalized_ids db"
  by (simp add: accounted_def live_except_def)

lemma run_ends:
  assumes ok: "grid_ok (w_db w) (view (w_redis w))" "lease_ids (view (w_redis w)) = []"
    and pool: "pool_ok budget pool" "pool \<noteq> []"
    and submits: "\<And>r w1. m w = (r, w1) \<Longrightarrow> submitted (state_of w) (state_of w1) (\<not> isl r)"
  shows "\<exists>r w'. bindL (runL m) (\<lambda>a. bindL (drain pool) (\<lambda>_. runL (k a))) w = Some (r, w')
    \<and> (\<forall>res. r = Inr res \<longrightarrow> (\<exists>a w1 w2. m w = (Inr a, w1) \<and> k a w2 = (Inr res, w')
        \<and> db_inv (w_db w2) \<and> events_own_run (w_db w2)
        \<and> (\<forall>j \<in> set (jobs (w_db w1)). j \<in> set (jobs (w_db w)) \<or> job_id j \<in> finalized_ids (w_db w2))))"
proof -
  obtain r1 w1 where m: "m w = (r1, w1)" by (cases "m w")
  show ?thesis
  proof (cases r1)
    case (Inl e)
    with m show ?thesis by (simp add: bindL_eq)
  next
    case (Inr a)
    with submits [OF m] have moved: "moved_on (state_of w) (state_of w1)"
      and new: "\<And>j. j \<in> set (jobs (w_db w1)) \<Longrightarrow> j \<in> set (jobs (w_db w)) \<or> accounted (w_db w1) (view (w_redis w1)) (job_id j)"
      unfolding submitted_def fst_conv snd_conv by auto
    then have ok1: "db_inv (w_db w1)" "events_own_run (w_db w1)" "stream_ok (view (w_redis w1))" "lease_ids (view (w_redis w1)) = []"
      using ok(2) by (simp_all add: moved_on_def grid_ok_def)
    from drain_ends [OF pool(1) ok1(1,3)] obtain r2 w2 where d: "drain pool w1 = Some (r2, w2)"
      and fin: "r2 = Inr () \<Longrightarrow> db_inv (w_db w2) \<and> qv_waiting (view (w_redis w2)) = [] \<and> lease_ids (view (w_redis w2)) = []
        \<and> (\<forall>j \<in> job_id ` set (jobs (w_db w1)). accounted (w_db w1) (view (w_redis w1)) j \<longrightarrow> accounted (w_db w2) (view (w_redis w2)) j)"
      using pool(2) ok1(4) by blast
    have own: "events_own_run (w_db w2)"
      by (rule drain_keeps [OF _ _ d]) (simp_all add: process_one_own_runs ok1(2))
    have ids: "job_id j \<in> finalized_ids (w_db w2)" if "r2 = Inr ()" "j \<in> set (jobs (w_db w1))" "j \<notin> set (jobs (w_db w))" for j
    proof (rule accounted_drained)
      show "accounted (w_db w2) (view (w_redis w2)) (job_id j)" using fin [OF that(1)] that(2,3) new by blast
    qed (use fin [OF that(1)] in simp_all)
    show ?thesis
    proof (cases r2)
      case (Inl e)
      with m Inr d show ?thesis by (simp add: bindL_eq)
    next
      case (Inr u)
      then have r2: "r2 = Inr ()" by simp
      obtain r3 w3 where k: "k a w2 = (r3, w3)" by (cases "k a w2")
      have "bindL (runL m) (\<lambda>a. bindL (drain pool) (\<lambda>_. runL (k a))) w = Some (r3, w3)"
        using m \<open>r1 = Inr a\<close> d r2 k by (simp add: bindL_eq)
      moreover have "\<forall>j \<in> set (jobs (w_db w1)). j \<in> set (jobs (w_db w)) \<or> job_id j \<in> finalized_ids (w_db w2)"
        using ids [OF r2] by blast
      ultimately show ?thesis using m \<open>r1 = Inr a\<close> k fin [OF r2] own by blast
    qed
  qed
qed

end

lemma pool_of_workers:
  assumes "job_queue (queue_of q) view"
  shows "job_queue.pool_ok (queue_of q) 2 (worker_pool sr (queue_of q) base name n)" "0 < n \<Longrightarrow> worker_pool sr (queue_of q) base name n \<noteq> []"
  by (auto simp: job_queue.pool_ok_def [OF assms] worker_pool_def grid_worker_def stub_policy_def)


subsection \<open>What a run leaves\<close>

lemma write_bundle_verified:
  assumes "write_evidence_bundle pf h rp text report cmd config seed fs = (Inr b, fs')"
  shows "verify_evidence_manifest pf (with_name rp (path_stem rp @ ''.manifest.json'')) fs' = (Inr (), fs')"
  using assms verify_iff
  by (auto simp: write_evidence_bundle_def Let_def thenM_eq bindM_eq split: if_splits prod.splits sum.splits)

lemma write_evidence_frame:
  assumes "write_evidence sr rp rendered report cmd config seed w = (r, w')"
  shows "w_db w' = w_db w"
    and "r = Inr b \<Longrightarrow> verify_evidence_manifest (sr_platform sr) (with_name rp (path_stem rp @ ''.manifest.json'')) (je_files (w_env w')) =
      (Inr (), je_files (w_env w'))"
proof -
  show "w_db w' = w_db w"
    using assms by (auto simp: write_evidence_def inJobFiles_def bindM_eq inEnv_eq split: prod.splits sum.splits)
  assume "r = Inr b"
  with assms show "verify_evidence_manifest (sr_platform sr) (with_name rp (path_stem rp @ ''.manifest.json'')) (je_files (w_env w')) =
      (Inr (), je_files (w_env w'))"
    by (auto simp: write_evidence_def inJobFiles_def bindM_eq inEnv_eq inFiles_def onM_def dest: write_bundle_verified
        split: prod.splits sum.splits)
qed

text \<open>\<open>evidence_at sr rp w\<close>: the evidence next to the report \<open>rp\<close> verifies.\<close>

definition evidence_at :: "surroundings \<Rightarrow> path \<Rightarrow> ('r, job_env) world \<Rightarrow> bool" where
  "evidence_at sr rp w \<longleftrightarrow> verify_evidence_manifest (sr_platform sr) (with_name rp (path_stem rp @ ''.manifest.json'')) (je_files (w_env w)) =
      (Inr (), je_files (w_env w))"

lemma finish_smoke_truth:
  assumes "finish_smoke sr q jobs_n workers failure_rate mode artifact_root report_path run w2 = (Inr res, w')"
    and "db_inv (w_db w2)" "events_own_run (w_db w2)"
  shows "sm_run_id res = run" "w_db w' = w_db w2" "evidence_at sr report_path w'"
    and "int (length (run_jobs run (w_db w2))) = jobs_n"
    and "j \<in> set (run_jobs run (w_db w2)) \<Longrightarrow> job_status j = ''completed'' \<and> job_id j \<in> finalized_ids (w_db w2)
      \<and> has_intact_artifact (sr_platform sr) (sr_fromisoformat sr) run w2 (job_id j)"
proof -
  obtain report w3 b where build: "build_smoke_report (sr_platform sr) (sr_fromisoformat sr) run artifact_root (Some q) (Some workers) w2
        = (Inr report, w3)" "validate_smoke_report report jobs_n = Inr ()"
    and evidence: "write_evidence sr report_path (render_reliability_report (h_cwd (sr_host sr)) report) report ''smoke''
        (smoke_config jobs_n workers failure_rate mode artifact_root) None w3 = (Inr b, w')"
    and result: "res = \<lparr>sm_run_id = run, sm_report_path = report_path, sm_report = report\<rparr>"
    using assms(1) by (auto simp: finish_smoke_def bindM_eq thenM_eq split: prod.splits sum.splits)
  have schema: "schema_ok (w_db w2)" and life: "lifecycle_ok (w_db w2)" using assms(2) by (simp_all add: db_inv_def)
  note truth = report_truth [OF build schema assms(3)] and frame = write_evidence_frame [OF evidence]
  show "sm_run_id res = run" using result by simp
  show "w_db w' = w_db w2" using frame(1) truth by simp
  show "evidence_at sr report_path w'" unfolding evidence_at_def by (rule frame(2) [OF refl])
  show "int (length (run_jobs run (w_db w2))) = jobs_n" using truth by blast
  assume j: "j \<in> set (run_jobs run (w_db w2))"
  with truth have "job_status j = ''completed''" by blast
  moreover from this have "job_id j \<in> finalized_ids (w_db w2)"
    by (intro terminal_finalized [OF life]) (use j in \<open>auto simp: run_jobs_def TERMINAL_STATUSES_def\<close>)
  ultimately show "job_status j = ''completed'' \<and> job_id j \<in> finalized_ids (w_db w2)
      \<and> has_intact_artifact (sr_platform sr) (sr_fromisoformat sr) run w2 (job_id j)" using truth j by blast
qed

lemma submit_smoke_rows:
  assumes "job_queue q view" "grid_ok (w_db w) (view (w_redis w))" "fresh_run run (w_db w)"
    and "submit_smoke_batch pf q run ids n w = (r, w1)"
  shows "submitted (w_db w, view (w_redis w)) (w_db w1, view (w_redis w1)) (\<not> isl r)"
    and "r = Inr a \<Longrightarrow> a = run"
proof -
  let ?subs = "map (\<lambda>i. run_submission run (ids i) i ''stub'' (success_payload i) 30 1) [0..<nat n]"
  obtain r1 where "submit_all pf q ?subs w = (r1, w1)" "isl r = isl r1"
    using assms(4) by (auto simp: submit_smoke_batch_def thenM_eq split: prod.splits sum.splits)
  then show "submitted (w_db w, view (w_redis w)) (w_db w1, view (w_redis w1)) (\<not> isl r)"
    using submitted_rows_submitted [OF job_queue.submit_run_rows [OF assms(1-3)]] by simp
  show "r = Inr a \<Longrightarrow> a = run"
    using assms(4) by (auto simp: submit_smoke_batch_def thenM_eq split: prod.splits sum.splits)
qed

lemma length_filter_disjoint:
  "(\<And>x. P x \<Longrightarrow> \<not> Q x) \<Longrightarrow> length (filter (\<lambda>x. P x \<or> Q x) xs) = length (filter P xs) + length (filter Q xs)"
  by (induction xs) auto

lemma length_filter_keys:
  "distinct ss \<Longrightarrow> length (filter (\<lambda>x. f x \<in> set ss) xs) = sum_list (map (\<lambda>s. length (filter (\<lambda>x. f x = s) xs)) ss)"
proof (induction ss)
  case (Cons s ss)
  then show ?case using length_filter_disjoint [of "\<lambda>x. f x = s" "\<lambda>x. f x \<in> set ss" xs] by auto
qed simp

lemma all_jobs_terminal:
  assumes "terminal_count r = int (length (run_jobs run db))" "rp_lifecycle_counts r = counts_from SMOKE_COUNT_KEYS (status_rows run db)"
    and "j \<in> set (run_jobs run db)"
  shows "job_status j \<in> TERMINAL_STATUSES"
proof -
  let ?jobs = "run_jobs run db" and ?ss = "[''completed'', ''failed'', ''timed_out'', ''cancelled'']"
  have count: "count_of (rp_lifecycle_counts r) s = int (length (filter (\<lambda>j. count_key (job_status j) = s) ?jobs))"
    if "s \<in> set ?ss" for s
  proof -
    have "set ?ss \<subseteq> set SMOKE_COUNT_KEYS" by (simp add: SMOKE_COUNT_KEYS_def)
    with that have "s \<in> set SMOKE_COUNT_KEYS" by blast
    from counts_from_jobs [OF this, of run db] show ?thesis by (simp only: assms(2))
  qed
  have "terminal_count r = sum_list (map (\<lambda>s. int (length (filter (\<lambda>j. count_key (job_status j) = s) ?jobs))) ?ss)"
    unfolding terminal_count_def by (intro arg_cong [where f = sum_list] map_cong refl count)
  also have "\<dots> = int (length (filter (\<lambda>j. count_key (job_status j) \<in> set ?ss) ?jobs))"
    by (subst length_filter_keys) (simp_all only: int_sum_list map_map o_def, simp)
  finally have "length (filter (\<lambda>j. count_key (job_status j) \<in> set ?ss) ?jobs) = length ?jobs" using assms(1) by linarith
  from length_filter_all [OF this assms(3)] have "count_key (job_status j) \<in> set ?ss" .
  moreover have "''queued'' \<notin> set ?ss" by simp
  moreover have "set ?ss \<subseteq> TERMINAL_STATUSES" by (simp add: TERMINAL_STATUSES_def)
  ultimately show ?thesis by (auto simp only: count_key_def split: if_splits)
qed

lemma proof_valid:
  assumes "validate_reliability_proof (proof_report run_id base plan replays failures built) n rate b c = Inr ()"
  shows "rp_submitted_jobs built = n" "terminal_count built = n" "rp_duplicate_finalization_count built = 0"
  using assms
  by (simp_all add: validate_reliability_proof_def Let_def proof_report_def terminal_count_def error_if_def split: if_split_asm)

lemma finish_proof_truth:
  assumes "finish_reliability_proof sr q jobs_n workers rate tm rs artifact_root report_path seed plan fc (run, replays) w2 = (Inr res, w')"
    and "db_inv (w_db w2)"
  shows "rr_run_id res = run" "w_db w' = w_db w2" "evidence_at sr report_path w'"
    and "int (length (run_jobs run (w_db w2))) = jobs_n"
    and "j \<in> set (run_jobs run (w_db w2)) \<Longrightarrow> job_status j \<in> TERMINAL_STATUSES \<and> job_id j \<in> finalized_ids (w_db w2)"
proof -
  obtain built w3 b where build: "build_smoke_report (sr_platform sr) (sr_fromisoformat sr) run artifact_root (Some q) (Some workers) w2
        = (Inr built, w3)"
    and valid: "validate_reliability_proof (proof_report run artifact_root plan replays fc built) jobs_n rate tm rs = Inr ()"
    and evidence: "write_evidence sr report_path (render_reliability_report (h_cwd (sr_host sr)) (proof_report run artifact_root plan replays fc built))
        (proof_report run artifact_root plan replays fc built) ''benchmark v1-proof'' (proof_config jobs_n workers rate tm rs artifact_root) (Some seed) w3
          = (Inr b, w')"
    and result: "rr_run_id res = run"
    using assms(1) by (auto simp: finish_reliability_proof_def bindM_eq thenM_eq Let_def split: prod.splits sum.splits)
  note built = report_built [OF build] and checked = proof_valid [OF valid] and frame = write_evidence_frame [OF evidence]
  show "rr_run_id res = run" by (rule result)
  show "w_db w' = w_db w2" using frame(1) built(5) by simp
  show "evidence_at sr report_path w'" unfolding evidence_at_def by (rule frame(2) [OF refl])
  show n: "int (length (run_jobs run (w_db w2))) = jobs_n" using built(1) checked(1) by simp
  assume j: "j \<in> set (run_jobs run (w_db w2))"
  have "job_status j \<in> TERMINAL_STATUSES"
    by (rule all_jobs_terminal [OF _ built(2) j]) (use checked(2) n in simp)
  with j assms(2) terminal_finalized [of "w_db w2" j] show "job_status j \<in> TERMINAL_STATUSES \<and> job_id j \<in> finalized_ids (w_db w2)"
    by (simp add: db_inv_def run_jobs_def)
qed



definition example_surroundings :: surroundings where
  "example_surroundings = \<lparr>sr_platform = hash_platform, sr_host = example_host, sr_fromisoformat = (\<lambda>_. Inr artifact_time),
     sr_float_of_text = (\<lambda>_. None), sr_float_round = (\<lambda>x. x), sr_late = (\<lambda>_. 0), sr_bracket_ok = (\<lambda>_. False),
     sr_post_within = (\<lambda>_ _ _ _. raiseM BuiltinTimeoutError), sr_utc_now = (\<lambda>_. artifact_time), sr_heartbeats = (\<lambda>_ _. 1),
     sr_shuffled = (\<lambda>_ xs. xs), sr_make_url = (\<lambda>_. Inr (Some ''localhost'', Some ''agent_runtime_grid''))\<rparr>"

definition example_inspector :: "redis_view inspector" where
  "example_inspector = \<lparr>in_client = mem_redis, in_inspection = mem_inspection, in_config = default_queue_config\<rparr>"

definition blank_run :: "(redis_view, job_env) world" where
  "blank_run = \<lparr>w_db = empty_database 7, w_redis = empty_redis, w_registry = (\<lambda>_. None),
     w_env = \<lparr>je_files = [], je_environ = (\<lambda>_. None), je_clock = []\<rparr>\<rparr>"

lemma blank_run_ok:
  "grid_ok (w_db blank_run) (queue_view_of default_queue_config (w_redis blank_run))" "fresh_run run (w_db blank_run)"
  "lease_ids (queue_view_of default_queue_config (w_redis blank_run)) = []"
  using blank_world_ok
  by (simp_all add: blank_run_def blank_world_def queue_view_of_def empty_redis_def default_queue_config_def lease_ids_def)


text \<open>
  A reliability proof ends, and its success can be believed: under the same assumptions as for a smoke run,
  whatever failures the plan injects (transient and permanent errors, timeouts, duplicate submissions), the run
  comes to an end. When it returns a result, the run has exactly the jobs that were asked for, each of them in a
  terminal status and finalized, and the evidence bundle next to the report verifies.
\<close>

theorem reliability_run_ends:
  assumes "redis_streams_queue (in_client q) rview (in_config q)"
    and "grid_ok (w_db w) (queue_view_of (in_config q) (rview (w_redis w)))"
    and "lease_ids (queue_view_of (in_config q) (rview (w_redis w))) = []" "fresh_run run (w_db w)"
  shows "\<exists>r w'. run_reliability_proof sr q run ids jobs_n workers failure_rate include_timeouts repeat_submissions
        artifact_root report_path seed w = Some (r, w')
    \<and> (\<forall>res. r = Inr res \<longrightarrow> rr_run_id res = run \<and> int (length (run_jobs run (w_db w'))) = jobs_n
        \<and> (\<forall>j \<in> set (run_jobs run (w_db w')). job_status j \<in> TERMINAL_STATUSES \<and> job_id j \<in> finalized_ids (w_db w'))
        \<and> evidence_at sr report_path w')"
    (is "\<exists>r w'. ?run = _ \<and> _")
proof (cases "0 < jobs_n \<and> 0 < workers \<and> 0 \<le> failure_rate \<and> failure_rate \<le> 1")
  case False
  then have "\<exists>e. ?run = Some (Inl e, w)" by (auto simp: run_reliability_proof_def)
  then show ?thesis by blast
next
  case True
  let ?view = "\<lambda>s. queue_view_of (in_config q) (rview s)"
  let ?fc = "failure_count_of sr jobs_n failure_rate"
  let ?plan = "reliability_proof (sr_shuffled sr) seed (nat ?fc) include_timeouts"
  let ?submit = "submit_reliability_batch (sr_platform sr) (queue_of q) run ids jobs_n ?plan repeat_submissions"
  let ?k = "finish_reliability_proof sr q jobs_n workers failure_rate include_timeouts repeat_submissions artifact_root report_path seed ?plan ?fc"
  have queue: "job_queue (queue_of q) ?view" unfolding queue_of_def by (rule redis_job_queue [OF assms(1)])
  have submits: "submitted (w_db w, ?view (w_redis w)) (w_db w1, ?view (w_redis w1)) (\<not> isl r)" if "?submit w = (r, w1)" for r w1
    by (rule submitted_rows_submitted [OF job_queue.submit_reliability_rows [OF queue assms(2,4) that]])
  have a: "fst a = run" if "?submit w = (Inr a, w1)" for a w1
    using that by (auto simp: submit_reliability_batch_def bindM_eq split: prod.splits sum.splits)
  have run: "?run = bindL (runL ?submit) (\<lambda>a. bindL (drain (worker_pool sr (queue_of q) artifact_root ''proof-worker-'' workers)) (\<lambda>_. runL (?k a))) w"
    using True by (simp add: run_reliability_proof_def Let_def)
  from True have "0 < workers" by simp
  from job_queue.run_ends [where m = ?submit and k = ?k, OF queue assms(2,3) pool_of_workers(1) [OF queue] pool_of_workers(2) [OF queue this] submits]
  obtain r w' where ends: "?run = Some (r, w')"
    and res: "\<And>res. r = Inr res \<Longrightarrow> \<exists>a w1 w2. ?submit w = (Inr a, w1) \<and> ?k a w2 = (Inr res, w') \<and> db_inv (w_db w2)"
    unfolding run by blast
  have "rr_run_id res = run \<and> int (length (run_jobs run (w_db w'))) = jobs_n
      \<and> (\<forall>j \<in> set (run_jobs run (w_db w')). job_status j \<in> TERMINAL_STATUSES \<and> job_id j \<in> finalized_ids (w_db w'))
      \<and> evidence_at sr report_path w'" if "r = Inr res" for res
  proof -
    from res [OF that] a obtain replays w2 where k: "?k (run, replays) w2 = (Inr res, w')" "db_inv (w_db w2)"
      by (metis prod.collapse)
    note truth = finish_proof_truth [OF k]
    show ?thesis by (intro conjI ballI) (simp_all add: truth)
  qed
  with ends show ?thesis by blast
qed

lemma reliability_run_ends_witness:
  "\<exists>r w'. run_reliability_proof example_surroundings example_inspector 5 (\<lambda>_. 7) 1 1 (1 / 2) True True (Path [] [''a''])
      (Path [] [''r'', ''x.md'']) 42 blank_run = Some (r, w')"
  using reliability_run_ends [where q = example_inspector and rview = "\<lambda>s. s" and w = blank_run and run = 5 and sr = example_surroundings
      and ids = "\<lambda>_. 7" and jobs_n = 1 and workers = 1 and failure_rate = "1 / 2" and include_timeouts = True
      and repeat_submissions = True and artifact_root = "Path [] [''a'']" and report_path = "Path [] [''r'', ''x.md'']" and seed = 42]
    mem_redis_streams_queue blank_run_ok
  by (simp add: example_inspector_def) blast

end
