(* ===== verification/Grid.thy ===== *)
theory Grid
  imports Runs
begin

section \<open>Everything at once\<close>

text \<open>
  The processes of the program interleave: submitters, workers and recovery scans share the registry and the
  queue, and any of them can stop between two of its calls. A grid is the shared world with the multiset of the
  tasks in flight, and \<open>grid_step\<close> lets one task make its next transaction or queue command. What a worker does
  after a run, and a recovery after its plan, is a transaction that decides on \<open>queue_work\<close>, followed by that
  work; \<open>settle_split\<close> and \<open>recover_lease_split\<close> say that \<open>settle\<close> and \<open>recover_lease\<close> are that sequence.
\<close>

datatype queue_work = Acknowledge | PublishNext queue_job_message | MoveToDeadLetter pystr int

datatype ('r, 'e) task =
    Unsent queue_job_message
  | Delivered "('r, 'e) worker" queue_job_message
  | Running "('r, 'e) worker" queue_job_message job_record
  | Ran "('r, 'e) worker" queue_job_message job_record "exc + items"
  | Stale pystr stale_lease
  | Closing queue_job_message queue_work

type_synonym ('r, 'e) grid = "('r, 'e) world \<times> ('r, 'e) task multiset"

definition acknowledge_entry :: "'r queue_api \<Rightarrow> queue_job_message \<Rightarrow> ('r, unit) prog" where
  "acknowledge_entry q m = (case qm_entry_id m of None \<Rightarrow> returnM ()
     | Some i \<Rightarrow> thenM (q_acknowledge q i) (returnM ()))"

definition do_work :: "'r queue_api \<Rightarrow> queue_job_message \<Rightarrow> queue_work \<Rightarrow> (('r, 'e) world, unit) prog" where
  "do_work q m work = (case work of
      Acknowledge \<Rightarrow> inRedis (acknowledge_entry q m)
    | PublishNext rm \<Rightarrow> thenM (inRedis (q_publish_job q rm)) (inRedis (acknowledge_entry q m))
    | MoveToDeadLetter cls n \<Rightarrow> thenM (inRedis (q_move_to_dead_letter q m cls n)) (returnM ()))"

definition answer :: "('r, 'e) worker \<Rightarrow> queue_job_message \<Rightarrow> job_record \<Rightarrow> (('r, 'e) world, exc + items) prog" where
  "answer wk m job = bindM (inRegistry (event_for (uuid_str (job_id job)))) (\<lambda>cancelled.
     inEnv (\<lambda>e. case run_job (wk_jobs wk) job (qm_attempt_number m) cancelled e of
       (a, e') \<Rightarrow> (Inr (run_with_timeout a), e')))"

definition transient_record ::
    "('r, 'e) worker \<Rightarrow> queue_job_message \<Rightarrow> job_record \<Rightarrow> pystr \<Rightarrow> (database, queue_work) prog" where
  "transient_record wk m job error_class =
     (let attempt = qm_attempt_number m in
      if attempt \<le> job_max_retries job then
        (case validate_retry (wk_budget_policy wk) (attempt + 1) of
           Inl e \<Rightarrow> thenM (record_budget_error wk m job e) (returnM Acknowledge)
         | Inr _ \<Rightarrow> thenM (record_retry_scheduled job (wk_id wk) attempt (attempt + 1) error_class)
             (returnM (PublishNext (retry_message job (attempt + 1)))))
      else thenM (record_failed job (wk_id wk) attempt error_class True) (returnM Acknowledge))"

definition settle_record ::
    "('r, 'e) worker \<Rightarrow> queue_job_message \<Rightarrow> job_record \<Rightarrow> exc + items \<Rightarrow> (('r, 'e) world, queue_work) prog" where
  "settle_record wk m job outcome = (let attempt = qm_attempt_number m in case outcome of
      Inr result \<Rightarrow>
        bindM (case wk_artifact_store wk of
            None \<Rightarrow> returnM result
          | Some write \<Rightarrow> bindM (inEnv (write job (wk_id wk) attempt result)) (\<lambda>(path, metadata).
              returnM (dupdate result [(''artifact_path'', JStr path), (''artifact'', JObj metadata)])))
        (\<lambda>result'. inDb (transaction (thenM (record_completed job (wk_id wk) attempt result') (returnM Acknowledge))))
    | Inl e \<Rightarrow> (case e of
        TransientRunnerError \<Rightarrow> inDb (transaction (transient_record wk m job (class_name e)))
      | EvalLabPayloadError _ \<Rightarrow> inDb (transaction (thenM (record_failed job (wk_id wk) attempt (class_name e) False) (returnM Acknowledge)))
      | GdevAgentPayloadError _ \<Rightarrow> inDb (transaction (thenM (record_failed job (wk_id wk) attempt (class_name e) False) (returnM Acknowledge)))
      | PolicyValidationError \<Rightarrow> inDb (transaction (thenM (record_failed job (wk_id wk) attempt (class_name e) False) (returnM Acknowledge)))
      | JobTimedOutError \<Rightarrow> inDb (transaction (thenM (record_timed_out job (wk_id wk) attempt) (returnM Acknowledge)))
      | JobCancelledError \<Rightarrow> inDb (transaction (thenM (record_cancelled job (wk_id wk) attempt ''running'') (returnM Acknowledge)))
      | _ \<Rightarrow> raiseM e))"

definition work_of :: "stale_lease \<Rightarrow> recovery_action \<Rightarrow> queue_work" where
  "work_of lease a = (case a of AckMissing \<Rightarrow> Acknowledge | AckTerminal \<Rightarrow> Acknowledge | Requeue rm \<Rightarrow> PublishNext rm
     | Dlq \<Rightarrow> MoveToDeadLetter STALE_LEASE_EXHAUSTED_ERROR_CLASS (qm_attempt_number (sl_message lease)))"

definition counts_of :: "recovery_action \<Rightarrow> stale_lease_recovery_result \<Rightarrow> stale_lease_recovery_result" where
  "counts_of a c = (case a of
      AckMissing \<Rightarrow> c\<lparr>rr_acknowledged_missing_count := rr_acknowledged_missing_count c + 1\<rparr>
    | AckTerminal \<Rightarrow> c\<lparr>rr_acknowledged_terminal_count := rr_acknowledged_terminal_count c + 1\<rparr>
    | Requeue _ \<Rightarrow> c\<lparr>rr_requeued_count := rr_requeued_count c + 1\<rparr>
    | Dlq \<Rightarrow> c\<lparr>rr_dlq_count := rr_dlq_count c + 1\<rparr>)"

subsection \<open>The decomposition is that of the code\<close>

lemma ack_message_entry: "ack_message wk m = inRedis (acknowledge_entry (wk_queue wk) m)"
  by (rule ext)
     (auto simp: ack_message_def acknowledge_entry_def thenM_eq world_eqs split: option.split prod.splits sum.splits)

lemma acknowledge_lease_entry: "acknowledge_lease q lease = acknowledge_entry q (sl_message lease)"
  by (simp add: acknowledge_lease_def acknowledge_entry_def)

lemma transaction_then:
  "bindM (inDb (transaction (thenM P (returnM work)))) f = thenM (inDb (transaction P)) (f work)"
  by (rule ext) (auto simp: bindM_eq thenM_eq world_eqs transaction_def split: prod.splits sum.splits)

theorem settle_split:
  "settle wk m job outcome = bindM (settle_record wk m job outcome) (do_work (wk_queue wk) m)"
proof (cases outcome)
  case (Inr result)
  then show ?thesis
    by (simp add: settle_def settle_record_def handle_success_def bindM_assoc transaction_then do_work_def ack_message_entry Let_def)
next
  case (Inl e)
  have transient: "handle_transient_error wk m job c
      = bindM (inDb (transaction (transient_record wk m job c))) (do_work (wk_queue wk) m)" for c
    by (simp add: handle_transient_error_def transient_record_def Let_def transaction_then do_work_def ack_message_entry
          split: sum.split)
  show ?thesis
    by (cases e) (simp_all add: Inl settle_def settle_record_def Let_def transient handle_policy_error_def
        handle_timeout_def handle_cancellation_def transaction_then do_work_def ack_message_entry)
qed

theorem recover_lease_split:
  "recover_lease q rid lease c = bindM (inDb (plan_recovery_action rid lease)) (\<lambda>a.
     thenM (do_work q (sl_message lease) (work_of lease a)) (returnM (counts_of a c)))"
  unfolding recover_lease_def
proof (intro arg_cong [where f = "bindM (inDb (plan_recovery_action rid lease))"] ext)
  fix a and w :: "('a, 'b) world"
  show "(case a of
        Requeue rm \<Rightarrow> thenM (inRedis (q_publish_job q rm)) (thenM (inRedis (acknowledge_lease q lease))
          (returnM (c\<lparr>rr_requeued_count := rr_requeued_count c + 1\<rparr>)))
      | Dlq \<Rightarrow> thenM (inRedis (q_move_to_dead_letter q (sl_message lease) STALE_LEASE_EXHAUSTED_ERROR_CLASS
            (qm_attempt_number (sl_message lease)))) (returnM (c\<lparr>rr_dlq_count := rr_dlq_count c + 1\<rparr>))
      | AckTerminal \<Rightarrow> thenM (inRedis (acknowledge_lease q lease))
          (returnM (c\<lparr>rr_acknowledged_terminal_count := rr_acknowledged_terminal_count c + 1\<rparr>))
      | AckMissing \<Rightarrow> thenM (inRedis (acknowledge_lease q lease))
          (returnM (c\<lparr>rr_acknowledged_missing_count := rr_acknowledged_missing_count c + 1\<rparr>))) w
    = thenM (do_work q (sl_message lease) (work_of lease a)) (returnM (counts_of a c)) w"
    by (cases a) (simp_all add: work_of_def counts_of_def do_work_def acknowledge_lease_entry thenM_eq split: prod.split sum.split)
qed

subsection \<open>Steps\<close>

definition from_result :: "('a \<Rightarrow> 't multiset) \<Rightarrow> exc + 'a \<Rightarrow> 't multiset" where
  "from_result f r = (case r of Inl _ \<Rightarrow> {#} | Inr a \<Rightarrow> f a)"

lemma from_result_simps [simp]: "from_result f (Inl e) = {#}" "from_result f (Inr a) = f a"
  by (simp_all add: from_result_def)

fun task_message :: "('r, 'e) task \<Rightarrow> queue_job_message" where
  "task_message (Unsent m) = m"
| "task_message (Delivered wk m) = m"
| "task_message (Running wk m job) = m"
| "task_message (Ran wk m job outcome) = m"
| "task_message (Stale rid lease) = sl_message lease"
| "task_message (Closing m work) = m"

definition opened_task :: "('r, 'e) worker \<Rightarrow> queue_job_message \<Rightarrow> job_record option \<Rightarrow> ('r, 'e) task multiset" where
  "opened_task wk m found = (case found of None \<Rightarrow> {#} | Some job \<Rightarrow> {#Running wk m job#})"

text \<open>
  A task that raises is gone, and what it did before stays. \<open>crashes\<close> is the end of a task at any moment,
  \<open>surroundings\<close> a change of what the job functions see and of the cancellation events, and \<open>renews\<close> a heartbeat
  for the message of any task in flight.
\<close>

inductive grid_step :: "'r queue_api \<Rightarrow> ('r, 'e) grid \<Rightarrow> ('r, 'e) grid \<Rightarrow> bool" for q where
  stores: "inDb (create_job pf sub) w = (r, w') \<Longrightarrow>
    grid_step q (w, T) (w', from_result (\<lambda>job. {#Unsent (submission_message job)#}) r + T)"
| sends: "inRedis (q_publish_job q m) w = (r, w') \<Longrightarrow> grid_step q (w, add_mset (Unsent m) T) (w', T)"
| leases: "wk_queue wk = q \<Longrightarrow> inRedis (q_lease_jobs q (wk_id wk) 1 100) w = (r, w') \<Longrightarrow>
    grid_step q (w, T) (w', from_result (\<lambda>ms. mset (map (Delivered wk) (take 1 ms))) r + T)"
| opens: "open_message wk m w = (r, w') \<Longrightarrow>
    grid_step q (w, add_mset (Delivered wk m) T) (w', from_result (opened_task wk m) r + T)"
| renews: "t \<in># T \<Longrightarrow> qm_entry_id (task_message t) = Some i \<Longrightarrow> inRedis (q_renew_pending_lease q i c) w = (r, w') \<Longrightarrow>
    grid_step q (w, T) (w', T)"
| answers: "answer wk m job w = (r, w') \<Longrightarrow>
    grid_step q (w, add_mset (Running wk m job) T) (w', from_result (\<lambda>outcome. {#Ran wk m job outcome#}) r + T)"
| settles: "settle_record wk m job outcome w = (r, w') \<Longrightarrow>
    grid_step q (w, add_mset (Ran wk m job outcome) T) (w', from_result (\<lambda>work. {#Closing m work#}) r + T)"
| scans: "inRedis (q_find_stale_leases q idle n) w = (r, w') \<Longrightarrow>
    grid_step q (w, T) (w', from_result (\<lambda>leases. mset (map (Stale rid) leases)) r + T)"
| plans: "inDb (plan_recovery_action rid lease) w = (r, w') \<Longrightarrow>
    grid_step q (w, add_mset (Stale rid lease) T) (w', from_result (\<lambda>a. {#Closing (sl_message lease) (work_of lease a)#}) r + T)"
| publishes: "inRedis (q_publish_job q rm) w = (r, w') \<Longrightarrow>
    grid_step q (w, add_mset (Closing m (PublishNext rm)) T) (w', from_result (\<lambda>_. {#Closing m Acknowledge#}) r + T)"
| acknowledges: "inRedis (acknowledge_entry q m) w = (r, w') \<Longrightarrow>
    grid_step q (w, add_mset (Closing m Acknowledge) T) (w', T)"
| buries: "inRedis (q_move_to_dead_letter q m cls n) w = (r, w') \<Longrightarrow>
    grid_step q (w, add_mset (Closing m (MoveToDeadLetter cls n)) T) (w', T)"
| cancels: "inDb (transaction (cancel_queued_job job by_whom)) w = (r, w') \<Longrightarrow> grid_step q (w, T) (w', T)"
| surroundings: "grid_step q (w, T) (w\<lparr>w_registry := reg, w_env := e\<rparr>, T)"
| crashes: "grid_step q (w, add_mset t T) (w, T)"

inductive_cases grid_stepE: "grid_step q g g'"

subsection \<open>The registry in every state\<close>

lemma registry_only:
  assumes "inRedis m w = (r, w')"
  shows "w_db w' = w_db w"
  using assms by (auto simp: world_eqs split: prod.splits)

context job_invariant
begin

lemma keeps_transient_record: "keeps I (transient_record wk m job c)"
  unfolding transient_record_def Let_def
  by (auto intro!: keep_intros operations keeps_budget_error split: sum.split)

lemma keeps_settle_record: "keeps (\<lambda>w. I (w_db w)) (settle_record wk m job outcome)"
  unfolding settle_record_def Let_def
  by (auto split: sum.split option.split exc.split intro!: keep_intros operations keeps_transient_record)

end

context lifecycle_invariant
begin

lemma grid_step_keeps: "grid_step q (w, T) (w', T') \<Longrightarrow> I (w_db w) \<Longrightarrow> I (w_db w')"
proof (induction "(w, T)" "(w', T')" rule: grid_step.induct)
  case (stores pf sub r)
  then show ?case by (auto dest: keepsD [OF keeps_inDb [OF create]])
next
  case (opens wk m r)
  then show ?case by (auto dest: keepsD [OF keeps_open_message])
next
  case (answers wk m job r)
  then show ?case by (auto simp: answer_def bindM_eq world_eqs split: prod.splits sum.splits)
next
  case (settles wk m job outcome r)
  then show ?case by (auto dest: keepsD [OF keeps_settle_record])
next
  case (plans rid lease r)
  then show ?case by (auto dest: keepsD [OF keeps_inDb [OF keeps_plan]])
next
  case (cancels job by_whom r)
  then show ?case by (auto dest: keepsD [OF keeps_inDb [OF keeps_transaction [OF cancel_queued]]])
qed (auto dest: registry_only)

end

subsection \<open>What one step does to the queue\<close>

text \<open>
  \<open>queue_frame E v v'\<close>: the entries stay, a message outside of \<open>E\<close> that waits or is leased still does, and what
  waits or is leased are entries of the stream.
\<close>

definition entries_known :: "queue_view \<Rightarrow> bool" where
  "entries_known v \<longleftrightarrow> (\<forall>i \<in> set (qv_waiting v) \<union> set (lease_ids v). qv_fields v i \<noteq> None)"

definition queue_frame :: "pystr set \<Rightarrow> queue_view \<Rightarrow> queue_view \<Rightarrow> bool" where
  "queue_frame E v v' \<longleftrightarrow> (\<forall>m. carried v m \<longrightarrow> carried v' m) \<and> (\<forall>X j. live_except (E \<union> X) v j \<longrightarrow> live_except X v' j)
     \<and> (entries_known v \<longrightarrow> entries_known v')"

lemma frame_carried: "queue_frame E v v' \<Longrightarrow> carried v m \<Longrightarrow> carried v' m"
  by (simp add: queue_frame_def)

lemma frame_live: "queue_frame E v v' \<Longrightarrow> live_except (E \<union> X) v j \<Longrightarrow> live_except X v' j"
  unfolding queue_frame_def by blast

lemma frame_known: "queue_frame E v v' \<Longrightarrow> entries_known v \<Longrightarrow> entries_known v'"
  by (simp add: queue_frame_def)

lemma frame_same: "queue_frame E v v"
  unfolding queue_frame_def using live_except_mono [of _ "E \<union> _"] by blast

lemma frame_trans: "queue_frame D v v1 \<Longrightarrow> queue_frame E v1 v2 \<Longrightarrow> queue_frame (D \<union> E) v v2"
  unfolding queue_frame_def by (metis sup_assoc)

lemma frame_published: "published m k v v' \<Longrightarrow> queue_frame {} v v'"
  by (simp add: queue_frame_def carried_published live_published)
     (auto simp: published_def entries_known_def lease_ids_def)

lemma frame_leased_out: "leased_out c k v v' \<Longrightarrow> queue_frame {} v v'"
  by (simp add: queue_frame_def live_leased_out)
     (auto simp: leased_out_def carried_def message_at_def entries_known_def lease_ids_def age_def fresh_lease_def
        dest!: in_set_takeD in_set_dropD)

lemma frame_renewed: "renewed i c v v' \<Longrightarrow> queue_frame {} v v'"
  by (simp add: queue_frame_def live_renewed carried_def message_at_change(3) entries_known_def lease_ids_renewed)
     (simp add: renewed_def)

lemma frame_buried: "buried m cls n v v' \<Longrightarrow> queue_frame {} v v'"
  by (simp add: queue_frame_def live_buried carried_buried)
     (auto simp: buried_def entries_known_def lease_ids_def)

lemma frame_acknowledged: "acknowledged i v v' \<Longrightarrow> queue_frame {i} v v'"
  by (auto simp: queue_frame_def acknowledged_def carried_def message_at_def live_except_def lease_ids_def entries_known_def)

lemma carried_at: "message_at v i m \<Longrightarrow> carried v m"
  by (auto simp: carried_def message_at_def, frule message_entry, simp)

abbreviation entries_of :: "queue_job_message \<Rightarrow> pystr set" where
  "entries_of m \<equiv> set_option (qm_entry_id m)"

lemma live_other:
  assumes "carried v m" "uuid_parse (qm_job_id m) = Some j0" "live_except X v j" "j \<noteq> j0"
  shows "live_except (entries_of m \<union> X) v j"
proof -
  from assms(3) obtain k m' where k: "k \<in> set (qv_waiting v) \<union> set (lease_ids v)" "k \<notin> X" "message_at v k m'"
    "uuid_parse (qm_job_id m') = Some j"
    unfolding live_except_def by blast
  with assms(1,2,4) have "k \<notin> entries_of m" by (auto simp: message_at_def carried_def)
  with k show ?thesis unfolding live_except_def by blast
qed

context job_queue
begin

lemma publish_frame:
  assumes "inRedis (q_publish_job q m) w = (r, w')"
  shows "queue_frame {} (view (w_redis w)) (view (w_redis w'))"
    and "r = Inr k \<Longrightarrow> uuid_parse (qm_job_id m) = Some j \<Longrightarrow> X \<subseteq> dom (qv_fields (view (w_redis w))) \<Longrightarrow>
      live_except X (view (w_redis w')) j"
proof -
  from assms obtain s where s: "q_publish_job q m (w_redis w) = (r, s)" "w' = w\<lparr>w_redis := s\<rparr>"
    by (auto simp: world_eqs split: prod.splits)
  show "queue_frame {} (view (w_redis w)) (view (w_redis w'))"
    using publish s(1) by (cases rule: command_cases) (auto simp: s(2) frame_same dest: frame_published)
  assume "r = Inr k" "uuid_parse (qm_job_id m) = Some j" "X \<subseteq> dom (qv_fields (view (w_redis w)))"
  with s command_Inr [OF publish, of m "w_redis w"] show "live_except X (view (w_redis w')) j"
    by (intro live_published_new [of m k]) (auto simp: published_def)
qed

lemma acknowledge_frame:
  assumes "inRedis (acknowledge_entry q m) w = (r, w')"
  shows "queue_frame (entries_of m) (view (w_redis w)) (view (w_redis w'))"
proof (cases "qm_entry_id m")
  case None
  with assms show ?thesis by (simp add: acknowledge_entry_def world_eqs frame_same)
next
  case (Some i)
  obtain r0 s where a: "q_acknowledge q i (w_redis w) = (r0, s)" by (cases "q_acknowledge q i (w_redis w)")
  with assms Some have w': "w' = w\<lparr>w_redis := s\<rparr>"
    by (auto simp: acknowledge_entry_def thenM_eq world_eqs split: sum.splits)
  show ?thesis
    using acknowledge a by (cases rule: command_cases) (auto simp: w' Some frame_same dest: frame_acknowledged)
qed

lemma bury_frame:
  assumes "inRedis (q_move_to_dead_letter q m cls n) w = (r, w')"
  shows "queue_frame (entries_of m) (view (w_redis w)) (view (w_redis w'))"
proof -
  from assms obtain s where s: "q_move_to_dead_letter q m cls n (w_redis w) = (r, s)" "w' = w\<lparr>w_redis := s\<rparr>"
    by (auto simp: world_eqs split: prod.splits)
  have acked: "queue_frame (entries_of m) v (view s)"
    if "view s = v \<or> (\<exists>i. qm_entry_id m = Some i \<and> acknowledged i v (view s))" for v
    using that frame_acknowledged frame_same by auto
  from dead [OF s(1)] show ?thesis
    using frame_trans [OF frame_buried acked] frame_same s(2) by fastforce
qed

lemma lease_frame:
  assumes "inRedis (q_lease_jobs q c n block) w = (r, w')"
  shows "queue_frame {} (view (w_redis w)) (view (w_redis w'))"
    and "r = Inr ms \<Longrightarrow> m \<in> set ms \<Longrightarrow> carried (view (w_redis w')) m"
proof -
  from assms obtain s where s: "q_lease_jobs q c n block (w_redis w) = (r, s)" "w' = w\<lparr>w_redis := s\<rparr>"
    by (auto simp: world_eqs split: prod.splits)
  show frame: "queue_frame {} (view (w_redis w)) (view (w_redis w'))"
    using lease s(1) by (cases rule: command_cases) (auto simp: s(2) frame_same dest: frame_leased_out)
  assume "r = Inr ms" "m \<in> set ms"
  with lease_messages s(1) obtain i where "message_at (view (w_redis w)) i m"
    by (fastforce dest: list_all2_right_member)
  then show "carried (view (w_redis w')) m" by (intro frame_carried [OF frame] carried_at)
qed

lemma renew_frame:
  assumes "inRedis (q_renew_pending_lease q i c) w = (r, w')" "carried (view (w_redis w)) m" "qm_entry_id m = Some i"
  shows "queue_frame {} (view (w_redis w)) (view (w_redis w'))"
proof -
  from assms(1) obtain s where s: "q_renew_pending_lease q i c (w_redis w) = (r, s)" "w' = w\<lparr>w_redis := s\<rparr>"
    by (auto simp: world_eqs split: prod.splits)
  have "qv_fields (view (w_redis w)) i \<noteq> None" using assms(2,3) by (auto simp: carried_def message_at_def)
  from renew [OF this s(1)] s(2) show ?thesis by (auto simp: frame_same dest: frame_renewed)
qed

lemma scan_frame:
  assumes "inRedis (q_find_stale_leases q idle n) w = (r, w')"
  shows "view (w_redis w') = view (w_redis w)"
    and "r = Inr leases \<Longrightarrow> l \<in> set leases \<Longrightarrow> carried (view (w_redis w')) (sl_message l)"
proof -
  from assms obtain s where s: "q_find_stale_leases q idle n (w_redis w) = (r, s)" "w' = w\<lparr>w_redis := s\<rparr>"
    by (auto simp: world_eqs split: prod.splits)
  then show same: "view (w_redis w') = view (w_redis w)" using find_stale by simp
  assume "r = Inr leases" "l \<in> set leases"
  with s find_stale_leases [of idle n "w_redis w" leases s] show "carried (view (w_redis w')) (sl_message l)"
    using same stale_carried by (fastforce dest: list_all2_right_member)
qed

end

subsection \<open>The invariant\<close>

text \<open>
  A task works with a message that is on the stream, for the job that the message names; \<open>gives_up\<close> are the
  entries that a task is about to take off the stream, for a job that is settled.
\<close>

fun task_ok :: "'r queue_api \<Rightarrow> queue_view \<Rightarrow> ('r, 'e) task \<Rightarrow> bool" where
  "task_ok q v (Unsent m) = (qm_entry_id m = None)"
| "task_ok q v (Delivered wk m) = (wk_queue wk = q \<and> carried v m)"
| "task_ok q v (Running wk m job) = (wk_queue wk = q \<and> carried v m \<and> uuid_parse (qm_job_id m) = Some (job_id job))"
| "task_ok q v (Ran wk m job outcome) = (wk_queue wk = q \<and> carried v m \<and> uuid_parse (qm_job_id m) = Some (job_id job))"
| "task_ok q v (Stale rid lease) = carried v (sl_message lease)"
| "task_ok q v (Closing m (PublishNext rm)) =
     (carried v m \<and> uuid_parse (qm_job_id m) \<noteq> None \<and> uuid_parse (qm_job_id rm) = uuid_parse (qm_job_id m))"
| "task_ok q v (Closing m work) = carried v m"

fun releases :: "queue_job_message \<Rightarrow> queue_work \<Rightarrow> pystr set" where
  "releases m (PublishNext rm) = {}"
| "releases m work = entries_of m"

fun gives_up :: "('r, 'e) task \<Rightarrow> pystr set" where
  "gives_up (Closing m work) = releases m work"
| "gives_up t = {}"

definition given_up :: "('r, 'e) task multiset \<Rightarrow> pystr set" where
  "given_up T = \<Union> (gives_up ` set_mset T)"

lemma given_up_simps [simp]: "given_up {#} = {}" "given_up (add_mset t T) = gives_up t \<union> given_up T"
  "given_up (A + B) = given_up A \<union> given_up B"
  by (auto simp: given_up_def)

lemma given_up_image: "(\<And>x. gives_up (f x) = {}) \<Longrightarrow> given_up (image_mset f M) = {}"
  by (simp add: given_up_def)

definition grid_inv :: "'r queue_api \<Rightarrow> ('r \<Rightarrow> queue_view) \<Rightarrow> ('r, 'e) grid \<Rightarrow> bool" where
  "grid_inv q view = (\<lambda>(w, T). db_inv (w_db w) \<and> entries_known (view (w_redis w)) \<and> (\<forall>t \<in># T. task_ok q (view (w_redis w)) t))"

definition covered :: "('r \<Rightarrow> queue_view) \<Rightarrow> ('r, 'e) grid \<Rightarrow> uuid \<Rightarrow> bool" where
  "covered view = (\<lambda>(w, T) j. j \<in> finalized_ids (w_db w) \<or> live_except (given_up T) (view (w_redis w)) j)"

text \<open>The one opening that can lose a job: the policy refuses its dispatch, and a call raises.\<close>

definition refused_opening :: "('r, 'e) grid \<Rightarrow> ('r, 'e) grid \<Rightarrow> bool" where
  "refused_opening = (\<lambda>(w, T) (w', T'). \<exists>wk m e. T = add_mset (Delivered wk m) T' \<and> open_message wk m w = (Inl e, w')
     \<and> \<not> dispatch_ok wk m (w_db w))"

lemma task_ok_frame: "queue_frame E v v' \<Longrightarrow> task_ok q v t \<Longrightarrow> task_ok q v' t"
  by (cases "(q, v, t)" rule: task_ok.cases) (auto dest: frame_carried)

lemma gives_up_known: "task_ok q v t \<Longrightarrow> gives_up t \<subseteq> dom (qv_fields v)"
  by (cases "(q, v, t)" rule: task_ok.cases) (auto simp: carried_def message_at_def)

lemma given_up_known: "(\<And>t. t \<in># T \<Longrightarrow> task_ok q v t) \<Longrightarrow> given_up T \<subseteq> dom (qv_fields v)"
  unfolding given_up_def by (blast dest: gives_up_known)

lemma covered_accounted: "covered view (w, T) j \<Longrightarrow> accounted (w_db w) (view (w_redis w)) j"
  using live_except_mono [of "{}" "given_up T" "view (w_redis w)" j] by (auto simp: covered_def accounted_def)

context job_queue
begin

lemma opening_step:
  assumes "wk_queue wk = q" "db_inv (w_db w)" "carried (view (w_redis w)) m" "open_message wk m w = (r, w')"
  shows "queue_frame (entries_of m) (view (w_redis w)) (view (w_redis w'))"
    and "r = Inr (Some job) \<Longrightarrow> uuid_parse (qm_job_id m) = Some (job_id job)"
    and "j \<in> job_id ` set (jobs (w_db w)) \<Longrightarrow> live_except X (view (w_redis w)) j \<Longrightarrow>
      j \<in> finalized_ids (w_db w') \<or> live_except X (view (w_redis w')) j \<or> ((\<exists>e. r = Inl e) \<and> \<not> dispatch_ok wk m (w_db w))"
proof -
  let ?v = "view (w_redis w)" and ?v' = "view (w_redis w')"
  have schema: "schema_ok (w_db w)" and life: "lifecycle_ok (w_db w)" using assms(2) by (simp_all add: db_inv_def)
  have acked: "queue_frame (entries_of m) ?v ?v'"
    if "?v' = ?v \<or> (\<exists>i. qm_entry_id m = Some i \<and> acknowledged i ?v ?v')"
    using that frame_acknowledged frame_same by auto
  have other: "live_except X ?v' j"
    if "queue_frame (entries_of m) ?v ?v'" "uuid_parse (qm_job_id m) = Some j0" "j \<noteq> j0" "live_except X ?v j" for j0
    by (rule frame_live [OF that(1) live_other [OF assms(3) that(2,4,3)]])
  have "queue_frame (entries_of m) ?v ?v' \<and> (r = Inr (Some job) \<longrightarrow> uuid_parse (qm_job_id m) = Some (job_id job))
    \<and> (j \<in> job_id ` set (jobs (w_db w)) \<and> live_except X ?v j \<longrightarrow>
        j \<in> finalized_ids (w_db w') \<or> live_except X ?v' j \<or> ((\<exists>e. r = Inl e) \<and> \<not> dispatch_ok wk m (w_db w)))"
    using assms(1) schema assms(4)
  proof (cases rule: open_message_cases)
    case bad_id
    then show ?thesis by (simp add: frame_same)
  next
    case (missing j0)
    with acked [OF missing(5)] other [OF acked [OF missing(5)] missing(1)] show ?thesis
      by (cases "j = j0") simp_all
  next
    case (terminal job0)
    have "job_id job0 \<in> finalized_ids (w_db w')" using terminal_finalized [OF life terminal(2,3)] terminal(4) by simp
    with terminal(5) acked [OF terminal(6)] other [OF acked [OF terminal(6)] terminal(1)] show ?thesis
      by (cases "j = job_id job0") simp_all
  next
    case (blocked job0 e)
    have "\<not> dispatch_ok wk m (w_db w)" using blocked by (auto simp: dispatch_ok_def list_all_iff)
    moreover have "r = Inr None \<or> (\<exists>e. r = Inl e)" using blocked(5) by (cases r) auto
    ultimately show ?thesis
      using blocked(5,6) acked [OF blocked(8)] other [OF acked [OF blocked(8)] blocked(1)]
      by (cases "j = job_id job0") auto
  next
    case (opened job0)
    have "w_redis w' = w_redis w" by (subst opened(7)) simp
    with opened(1,5) show ?thesis by (simp add: frame_same)
  qed
  then show "queue_frame (entries_of m) ?v ?v'" "r = Inr (Some job) \<Longrightarrow> uuid_parse (qm_job_id m) = Some (job_id job)"
    "j \<in> job_id ` set (jobs (w_db w)) \<Longrightarrow> live_except X ?v j \<Longrightarrow>
      j \<in> finalized_ids (w_db w') \<or> live_except X ?v' j \<or> ((\<exists>e. r = Inl e) \<and> \<not> dispatch_ok wk m (w_db w))"
    by blast+
qed

end

text \<open>The two transactions that decide on the work: it gives a message up only for a job that is settled.\<close>

definition justified :: "queue_job_message \<Rightarrow> queue_work \<Rightarrow> uuid \<Rightarrow> database \<Rightarrow> bool" where
  "justified m work j db \<longleftrightarrow> (case work of PublishNext rm \<Rightarrow> uuid_parse (qm_job_id rm) = Some j
     | _ \<Rightarrow> j \<in> finalized_ids db \<or> j \<notin> job_id ` set (jobs db))"

lemma finalizes_then_acknowledge:
  assumes "finalizes job P" "thenM P (returnM Acknowledge) db = (Inr work, db')"
  shows "justified m work (job_id job) db'"
  using assms by (auto simp: finalizes_def justified_def thenM_eq split: prod.splits sum.splits)

lemma transient_record_justified:
  assumes "transient_record wk m job c db = (Inr work, db')"
  shows "justified m work (job_id job) db'"
proof -
  note end_rules = finalizes_then_acknowledge [OF finalizes_budget_error] finalizes_then_acknowledge [OF finalizes_records(2)]
  show ?thesis
  proof (cases "qm_attempt_number m \<le> job_max_retries job")
    case False
    with assms end_rules show ?thesis by (auto simp: transient_record_def Let_def)
  next
    case True
    show ?thesis
    proof (cases "validate_retry (wk_budget_policy wk) (qm_attempt_number m + 1)")
      case (Inl e)
      with True assms end_rules show ?thesis by (auto simp: transient_record_def Let_def)
    next
      case (Inr u)
      with True assms show ?thesis
        by (auto simp: transient_record_def Let_def thenM_eq justified_def split: prod.splits sum.splits)
    qed
  qed
qed

lemma transaction_returned: "transaction P db = (Inr a, db') \<longleftrightarrow> P db = (Inr a, db')"
  by (auto simp: transaction_def split: prod.splits sum.splits)

lemma settle_record_step:
  assumes "settle_record wk m job outcome w = (r, w')"
  shows "w_redis w' = w_redis w" and "r = Inr work \<Longrightarrow> justified m work (job_id job) (w_db w')"
proof -
  have db: "w_redis w1 = w_redis w0 \<and> (r0 = Inr work \<longrightarrow> justified m work (job_id job) (w_db w1))"
    if "inDb (transaction P) w0 = (r0, w1)" "\<And>db db'. P db = (Inr work, db') \<Longrightarrow> justified m work (job_id job) db'" for P w0 r0 w1
    using that by (auto simp: world_eqs transaction_returned split: prod.splits)
  have "w_redis w' = w_redis w \<and> (r = Inr work \<longrightarrow> justified m work (job_id job) (w_db w'))"
  proof (cases outcome)
    case (Inl e)
    with assms show ?thesis
      by (cases e) (auto simp: settle_record_def Let_def dest!: db
          intro: transient_record_justified finalizes_then_acknowledge [OF finalizes_records(2)]
            finalizes_then_acknowledge [OF finalizes_records(3)] finalizes_then_acknowledge [OF finalizes_records(4)])
  next
    case (Inr result)
    define start :: "(('a, 'b) world, items) prog" where "start = (case wk_artifact_store wk of
            None \<Rightarrow> returnM result
          | Some write \<Rightarrow> bindM (inEnv (write job (wk_id wk) (qm_attempt_number m) result)) (\<lambda>(path, metadata).
              returnM (dupdate result [(''artifact_path'', JStr path), (''artifact'', JObj metadata)])))"
    have redis: "w_redis w1 = w_redis w" if "start w = (r1, w1)" for r1 w1
      using that by (auto simp: start_def bindM_eq world_eqs split: option.splits prod.splits sum.splits)
    have run: "bindM start (\<lambda>result'. inDb (transaction (thenM
        (record_completed job (wk_id wk) (qm_attempt_number m) result') (returnM Acknowledge)))) w = (r, w')"
      using assms Inr by (simp add: settle_record_def Let_def start_def)
    obtain r1 w1 where one: "start w = (r1, w1)" by (cases "start w")
    show ?thesis
    proof (cases r1)
      case (Inl e)
      with run one redis [OF one] show ?thesis by (auto simp: bindM_eq)
    next
      case (Inr result')
      with run one have "inDb (transaction (thenM (record_completed job (wk_id wk) (qm_attempt_number m) result')
          (returnM Acknowledge))) w1 = (r, w')" by (simp add: bindM_eq)
      from db [OF this finalizes_then_acknowledge [OF finalizes_records(1)]] redis [OF one] show ?thesis by simp
    qed
  qed
  then show "w_redis w' = w_redis w" "r = Inr work \<Longrightarrow> justified m work (job_id job) (w_db w')" by blast+
qed

lemma plan_step:
  assumes "db_inv db" "plan_recovery_action rid lease db = (Inr a, db')"
  shows "\<exists>j. uuid_parse (qm_job_id (sl_message lease)) = Some j \<and> justified (sl_message lease) (work_of lease a) j db'"
proof -
  have schema: "schema_ok db" and life: "lifecycle_ok db" using assms(1) by (simp_all add: db_inv_def)
  show ?thesis
    using schema assms(2)
  proof (cases rule: plan_cases)
    case (terminal job)
    with terminal_finalized [OF life terminal(2,3)] show ?thesis by (auto simp: justified_def work_of_def)
  next
    case (exhausted job)
    then show ?thesis by (auto simp: justified_def work_of_def finalized_ids_effect)
  qed (auto simp: justified_def work_of_def)
qed

subsection \<open>Every step keeps it\<close>

lemma from_result_all: "(\<forall>t \<in># from_result f r. P t) \<longleftrightarrow> (\<forall>a. r = Inr a \<longrightarrow> (\<forall>t \<in># f a. P t))"
  by (cases r) auto

lemmas tasks_all = set_mset_union ball_Un from_result_all

lemma work_task_ok:
  assumes "carried v m" "uuid_parse (qm_job_id m) = Some j" "justified m work j db"
  shows "task_ok q v (Closing m work)"
  using assms by (cases work) (simp_all add: justified_def)

lemma extends_step: "grid_step q (w, T) (w', T') \<Longrightarrow> extends (w_db w) (w_db w')"
  by (erule history.grid_step_keeps) simp

lemma given_up_result_none: "(\<And>a. given_up (f a) = {}) \<Longrightarrow> given_up (from_result f r) = {}"
  by (cases r) auto

context job_queue
begin

lemma renewing_frame:
  assumes "task_ok q (view (w_redis w)) t" "qm_entry_id (task_message t) = Some i"
    and "inRedis (q_renew_pending_lease q i c) w = (r, w')"
  shows "queue_frame {} (view (w_redis w)) (view (w_redis w'))"
proof -
  from assms(1,2) have "\<exists>m. carried (view (w_redis w)) m \<and> qm_entry_id m = Some i"
    by (cases "(q, view (w_redis w), t)" rule: task_ok.cases) auto
  with renew_frame [OF assms(3)] show ?thesis by blast
qed

text \<open>The steps that open a message, decide on its work or publish the next one; the others give nothing up.\<close>

lemma grid_step_cases:
  assumes "grid_step q (w, T) (w', T')" "db_inv (w_db w)" "\<forall>t \<in># T. task_ok q (view (w_redis w)) t"
  obtains (quiet) E where "queue_frame E (view (w_redis w)) (view (w_redis w'))" "E \<union> given_up T' \<subseteq> given_up T"
    | (unsealed) wk m r T0 where "T = add_mset (Delivered wk m) T0" "T' = from_result (opened_task wk m) r + T0"
        "open_message wk m w = (r, w')" "wk_queue wk = q" "carried (view (w_redis w)) m" "given_up T' = given_up T"
    | (decided) m j0 work where "carried (view (w_redis w)) m" "uuid_parse (qm_job_id m) = Some j0"
        "justified m work j0 (w_db w')" "view (w_redis w') = view (w_redis w)" "given_up T' = releases m work \<union> given_up T"
    | (published) m rm j0 k where "carried (view (w_redis w)) m" "uuid_parse (qm_job_id m) = Some j0"
        "uuid_parse (qm_job_id rm) = Some j0" "inRedis (q_publish_job q rm) w = (Inr k, w')"
        "given_up T' = entries_of m \<union> given_up T"
proof -
  have same: thesis if "w_redis w' = w_redis w" "given_up T' \<subseteq> given_up T"
    by (rule quiet [of "{}"]) (simp_all add: that frame_same)
  from assms(1) show thesis
  proof (cases rule: grid_step.cases)
    case (stores pf sub r)
    then show thesis by (intro same) (auto simp: world_eqs given_up_result_none split: prod.splits)
  next
    case (sends m r)
    with publish_frame(1) [OF sends(2)] show thesis by (intro quiet [of "{}"]) auto
  next
    case (leases wk r)
    with lease_frame(1) [OF leases(3)] show thesis
      by (intro quiet [of "{}"]) (simp_all add: given_up_result_none given_up_image)
  next
    case (opens wk m r)
    then show thesis
      using assms(3) by (intro unsealed [of wk m _ r]) (auto simp: given_up_result_none opened_task_def split: option.split)
  next
    case (renews t i c r)
    with renewing_frame [OF _ renews(3,4)] assms(3) show thesis by (intro quiet [of "{}"]) auto
  next
    case (answers wk m job r)
    then show thesis
      by (intro same) (auto simp: answer_def bindM_eq world_eqs given_up_result_none split: prod.splits sum.splits)
  next
    case (settles wk m job outcome r)
    note step = settle_record_step [OF settles(3)]
    show thesis
    proof (cases r)
      case (Inl e)
      with settles(1,2) step(1) show thesis by (intro same) simp_all
    next
      case (Inr work)
      with settles(1,2) step assms(3) show thesis by (intro decided [of m "job_id job" work]) simp_all
    qed
  next
    case (scans idle n r rid)
    with scan_frame(1) [OF scans(2)] show thesis
      by (intro quiet [of "{}"]) (simp_all add: frame_same given_up_result_none given_up_image)
  next
    case (plans rid lease r)
    obtain db where p: "plan_recovery_action rid lease (w_db w) = (r, db)" "w' = w\<lparr>w_db := db\<rparr>"
      using plans(3) by (auto simp: world_eqs split: prod.splits)
    show thesis
    proof (cases r)
      case (Inl e)
      with plans(1,2) p(2) show thesis by (intro same) simp_all
    next
      case (Inr a)
      from plan_step [OF assms(2) p(1) [unfolded Inr]] obtain j0 where "uuid_parse (qm_job_id (sl_message lease)) = Some j0"
        "justified (sl_message lease) (work_of lease a) j0 db" by blast
      with plans(1,2) Inr p(2) assms(3) show thesis by (intro decided [of "sl_message lease" j0 "work_of lease a"]) simp_all
    qed
  next
    case (publishes rm r m)
    show thesis
    proof (cases r)
      case (Inl e)
      with publishes publish_frame(1) [OF publishes(3)] show thesis by (intro quiet [of "{}"]) auto
    next
      case (Inr k)
      with publishes assms(3) show thesis by (intro published [of m "the (uuid_parse (qm_job_id m))" rm k]) auto
    qed
  next
    case (acknowledges m r)
    with acknowledge_frame [OF acknowledges(2)] show thesis by (intro quiet [of "entries_of m"]) auto
  next
    case (buries m cls n r)
    with bury_frame [OF buries(2)] show thesis by (intro quiet [of "entries_of m"]) auto
  next
    case (cancels job by_whom r)
    then show thesis by (intro same) (auto simp: world_eqs split: prod.splits)
  next
    case surroundings
    then show thesis by (intro same) simp_all
  next
    case (crashes t)
    then show thesis by (intro same) simp_all
  qed
qed

lemma grid_step_frame:
  assumes "grid_step q (w, T) (w', T')" "db_inv (w_db w)" "\<forall>t \<in># T. task_ok q (view (w_redis w)) t"
  shows "\<exists>E. queue_frame E (view (w_redis w)) (view (w_redis w'))"
  using assms
proof (cases rule: grid_step_cases)
  case unsealed
  from opening_step(1) [OF unsealed(4) assms(2) unsealed(5,3)] show ?thesis by blast
next
  case decided
  then show ?thesis using frame_same by auto
next
  case published
  from publish_frame(1) [OF published(4)] show ?thesis by blast
qed blast

lemma grid_step_inv:
  assumes "grid_step q (w, T) (w', T')" "grid_inv q view (w, T)"
  shows "grid_inv q view (w', T')"
proof -
  let ?v = "view (w_redis w)" and ?v' = "view (w_redis w')"
  have inv: "db_inv (w_db w)" and inv': "db_inv (w_db w')"
    using assms registry.grid_step_keeps [OF assms(1)] by (simp_all add: grid_inv_def)
  have ok: "\<forall>t \<in># T. task_ok q ?v t" using assms(2) by (simp add: grid_inv_def)
  have frame_ok: "\<forall>t \<in># U. task_ok q ?v' t" if "queue_frame E ?v ?v'" "\<forall>t \<in># U. task_ok q ?v t" for E and U :: "('s, 'b) task multiset"
    using that task_ok_frame by blast
  from assms(1) have "\<forall>t \<in># T'. task_ok q ?v' t"
  proof (cases rule: grid_step.cases)
    case (stores pf sub r)
    then have "w_redis w' = w_redis w" by (auto simp: world_eqs split: prod.splits)
    with stores ok show ?thesis by (simp add: ball_Un from_result_all submission_message_def)
  next
    case (sends m r)
    with frame_ok [OF publish_frame(1) [OF sends(2)] ok] show ?thesis by simp
  next
    case (leases wk r)
    show ?thesis
      unfolding leases(1) tasks_all
      using leases(2) lease_frame(2) [OF leases(3)] frame_ok [OF lease_frame(1) [OF leases(3)] ok]
      by (auto dest: in_set_takeD)
  next
    case (opens wk m r)
    note step = opening_step [OF _ inv _ opens(3)]
    have t: "wk_queue wk = q" "carried ?v m" using ok opens(1) by simp_all
    have rest: "\<forall>t \<in># T. task_ok q ?v' t" by (rule frame_ok [OF step(1) [OF t] ok])
    moreover have "carried ?v' m" by (rule frame_carried [OF step(1) [OF t] t(2)])
    ultimately show ?thesis
      unfolding opens(2) tasks_all using opens(1) t(1) step(2) [OF t]
      by (auto simp: opened_task_def split: option.splits)
  next
    case (renews t i c r)
    have "task_ok q ?v t" using ok renews(2) by blast
    from frame_ok [OF renewing_frame [OF this renews(3,4)] ok] renews(1) show ?thesis by blast
  next
    case (answers wk m job r)
    then have "w_redis w' = w_redis w" by (auto simp: answer_def bindM_eq world_eqs split: prod.splits sum.splits)
    with answers ok show ?thesis by (simp add: ball_Un from_result_all)
  next
    case (settles wk m job outcome r)
    note step = settle_record_step [OF settles(3)]
    from ok settles(1) have t: "carried ?v m" "uuid_parse (qm_job_id m) = Some (job_id job)" by simp_all
    show ?thesis
      unfolding settles(2) tasks_all using settles(1) ok step(1) work_task_ok [OF t step(2)] by auto
  next
    case (scans idle n r rid)
    show ?thesis
      unfolding scans(1) tasks_all using scan_frame [OF scans(2)] ok by auto
  next
    case (plans rid lease r)
    obtain db where p: "plan_recovery_action rid lease (w_db w) = (r, db)" "w' = w\<lparr>w_db := db\<rparr>"
      using plans(3) by (auto simp: world_eqs split: prod.splits)
    from ok plans(1) have c: "carried ?v (sl_message lease)" by simp
    have "task_ok q ?v (Closing (sl_message lease) (work_of lease a))" if "r = Inr a" for a
      using plan_step [OF inv p(1) [unfolded that]] work_task_ok [OF c] by blast
    with plans(1,2) ok p(2) show ?thesis by (auto simp: ball_Un from_result_all)
  next
    case (publishes rm r m)
    note f = frame_ok [OF publish_frame(1) [OF publishes(3)] ok]
    then show ?thesis unfolding publishes(2) tasks_all using publishes(1) by auto
  next
    case (acknowledges m r)
    with frame_ok [OF acknowledge_frame [OF acknowledges(2)] ok] show ?thesis by auto
  next
    case (buries m cls n r)
    with frame_ok [OF bury_frame [OF buries(2)] ok] show ?thesis by auto
  next
    case (cancels job by_whom r)
    then have "w_redis w' = w_redis w" by (auto simp: world_eqs split: prod.splits)
    with cancels ok show ?thesis by simp
  qed (use ok in auto)
  moreover have "entries_known ?v'"
    using grid_step_frame [OF assms(1) inv ok] frame_known assms(2) by (auto simp: grid_inv_def)
  ultimately show ?thesis using inv' by (simp add: grid_inv_def)
qed

end

lemma live_settled:
  assumes "carried v m" "uuid_parse (qm_job_id m) = Some j0" "justified m work j0 db"
    and "j \<in> job_id ` set (jobs db)" "live_except X v j"
  shows "j \<in> finalized_ids db \<or> live_except (releases m work \<union> X) v j"
proof (cases "j = j0")
  case True
  with assms(3-5) show ?thesis by (cases work) (auto simp: justified_def)
next
  case False
  from live_other [OF assms(1,2,5) this] assms(5) show ?thesis by (cases work) simp_all
qed

context job_queue
begin

lemma grid_step_covers:
  assumes "grid_step q (w, T) (w', T')" "grid_inv q view (w, T)"
    and "j \<in> job_id ` set (jobs (w_db w))" "covered view (w, T) j"
  shows "covered view (w', T') j \<or> refused_opening (w, T) (w', T')"
proof (cases "j \<in> finalized_ids (w_db w')")
  case True
  then show ?thesis by (simp add: covered_def)
next
  case False
  let ?v = "view (w_redis w)" and ?v' = "view (w_redis w')"
  have ext: "extends (w_db w) (w_db w')" by (rule extends_step [OF assms(1)])
  have live: "live_except (given_up T) ?v j"
    using assms(4) False extends_finalized [OF ext] by (auto simp: covered_def)
  have stored: "j \<in> job_id ` set (jobs (w_db w'))" using assms(3) extends_job_ids [OF ext] by blast
  have inv: "db_inv (w_db w)" and ok: "\<forall>t \<in># T. task_ok q ?v t" using assms(2) by (simp_all add: grid_inv_def)
  from assms(1) inv ok have "live_except (given_up T') ?v' j \<or> refused_opening (w, T) (w', T')"
  proof (cases rule: grid_step_cases)
    case (quiet E)
    from frame_live [OF quiet(1) live_except_mono [OF quiet(2) live]] show ?thesis by blast
  next
    case (unsealed wk m r T0)
    have "refused_opening (w, T) (w', T')" if "r = Inl e" "\<not> dispatch_ok wk m (w_db w)" for e
      unfolding refused_opening_def prod.case using that unsealed(1-3) by auto
    then show ?thesis
      using opening_step(3) [OF unsealed(4) inv unsealed(5,3) assms(3) live] False unsealed(6) by auto
  next
    case (decided m j0 work)
    from live_settled [OF decided(1-3) stored live] False decided(4,5) show ?thesis by simp
  next
    case (published m rm j0 k)
    show ?thesis
    proof (cases "j = j0")
      case True
      have "entries_of m \<union> given_up T \<subseteq> dom (qv_fields ?v)"
        using published(1) given_up_known [of T q ?v] ok by (auto simp: carried_def message_at_def)
      with publish_frame(2) [OF published(4) refl published(3)] True published(5) show ?thesis by simp
    next
      case other: False
      have "live_except (given_up T') ?v' j"
        by (rule frame_live [OF publish_frame(1) [OF published(4)]])
          (simp add: published(5) live_other [OF published(1,2) live other])
      then show ?thesis ..
    qed
  qed
  then show ?thesis by (simp add: covered_def)
qed

end

end
