(* ===== verification/GridRuns.thy ===== *)
theory GridRuns
  imports Grid
begin

section \<open>Runs of the grid\<close>

text \<open>
  Sequences of grid steps: the sequential models of the worker, the recovery, the submitters and the run loop are
  such sequences; what holds in every state that an interleaving reaches; and how a grid whose processes have
  crashed is brought to its end.
\<close>

subsection \<open>The processes of the program are runs of the grid\<close>

text \<open>
  \<open>grid_run\<close> is any number of steps, and \<open>safe_run\<close> is one without a refused opening. Each process, run on its
  own from its start to its end or to the exception that ends it, is a \<open>grid_run\<close> that leaves the other tasks alone.
\<close>

abbreviation grid_run :: "'r queue_api \<Rightarrow> ('r, 'e) grid \<Rightarrow> ('r, 'e) grid \<Rightarrow> bool" where
  "grid_run q \<equiv> (grid_step q)\<^sup>*\<^sup>*"

abbreviation safe_run :: "'r queue_api \<Rightarrow> ('r, 'e) grid \<Rightarrow> ('r, 'e) grid \<Rightarrow> bool" where
  "safe_run q \<equiv> (\<lambda>g g'. grid_step q g g' \<and> \<not> refused_opening g g')\<^sup>*\<^sup>*"

lemma safe_run_grid: "safe_run q g g' \<Longrightarrow> grid_run q g g'"
  by (rule rtranclp_mono [THEN predicate2D]) auto

lemma safe_then:
  "grid_step q g g1 \<Longrightarrow> \<not> refused_opening g g1 \<Longrightarrow> safe_run q g1 g' \<Longrightarrow> safe_run q g g'"
  by (rule converse_rtranclp_into_rtranclp) (rule conjI)

lemma step_then: "grid_step q g g1 \<Longrightarrow> grid_run q g1 g' \<Longrightarrow> grid_run q g g'"
  by (rule converse_rtranclp_into_rtranclp)

lemma one_step: "grid_step q g g' \<Longrightarrow> grid_run q g g'"
  by (rule r_into_rtranclp)

lemma drop_tasks: "grid_run q (w, A + T) (w, T)"
proof (induction A)
  case (add t A)
  have "grid_step q (w, add_mset t A + T) (w, A + T)" by (simp add: crashes)
  with add show ?case by (rule step_then [rotated])
qed simp

lemma acknowledge_run: "inRedis (acknowledge_entry q m) w = (r, w') \<Longrightarrow> grid_run q (w, add_mset (Closing m Acknowledge) T) (w', T)"
  by (rule r_into_rtranclp) (rule acknowledges)

lemma do_work_run:
  assumes "do_work q m work w = (r, w')"
  shows "grid_run q (w, add_mset (Closing m work) T) (w', T)"
proof (cases work)
  case Acknowledge
  with assms show ?thesis by (simp add: do_work_def acknowledge_run)
next
  case (PublishNext rm)
  obtain r1 w1 where p: "inRedis (q_publish_job q rm) w = (r1, w1)" by (cases "inRedis (q_publish_job q rm) w")
  note step = publishes [OF p, of m T]
  show ?thesis
  proof (cases r1)
    case (Inl e)
    with assms PublishNext p step show ?thesis by (auto simp: do_work_def thenM_eq)
  next
    case (Inr k)
    with assms PublishNext p have "inRedis (acknowledge_entry q m) w1 = (r, w')" by (simp add: do_work_def thenM_eq)
    from step_then [OF step] acknowledge_run [OF this] Inr PublishNext show ?thesis by simp
  qed
next
  case (MoveToDeadLetter cls n)
  obtain r1 w1 where b: "inRedis (q_move_to_dead_letter q m cls n) w = (r1, w1)" by (cases "inRedis (q_move_to_dead_letter q m cls n) w")
  with assms MoveToDeadLetter have "w' = w1" by (auto simp: do_work_def thenM_eq split: sum.splits)
  with buries [OF b, of T] MoveToDeadLetter show ?thesis by auto
qed

lemma settle_run:
  assumes "settle wk m job outcome w = (r, w')" "wk_queue wk = q"
  shows "grid_run q (w, add_mset (Ran wk m job outcome) T) (w', T)"
proof -
  obtain r1 w1 where s: "settle_record wk m job outcome w = (r1, w1)" by (cases "settle_record wk m job outcome w")
  note step = settles [OF s, of q T]
  show ?thesis
  proof (cases r1)
    case (Inl e)
    with assms(1) s step show ?thesis by (auto simp: settle_split bindM_eq)
  next
    case (Inr work)
    with assms s have "do_work q m work w1 = (r, w')" by (simp add: settle_split bindM_eq)
    from step_then [OF step] do_work_run [OF this] Inr show ?thesis by simp
  qed
qed

lemma renewals_run:
  assumes "wk_queue wk = q" "t \<in># T" "qm_entry_id (task_message t) = Some i"
  shows "renewals wk i n w = (r, w') \<Longrightarrow> \<not> isl r \<and> grid_run q (w, T) (w', T)"
proof (induction n arbitrary: w)
  case (Suc n)
  obtain r1 w1 where h: "inRedis (q_renew_pending_lease q i (wk_id wk)) w = (r1, w1)"
    by (cases "inRedis (q_renew_pending_lease q i (wk_id wk)) w")
  note step = renews [OF assms(2,3) h]
  consider "renewals wk i n w1 = (r, w')" | "w' = w1" "\<not> isl r"
    using Suc.prems h assms(1) by (auto split: sum.splits if_splits)
  then show ?case
  proof cases
    case 1
    with Suc.IH step_then [OF step] show ?thesis by blast
  next
    case 2
    with step show ?thesis by auto
  qed
qed auto

lemma run_phase_run:
  assumes "run_phase wk m job w = (r, w')" "wk_queue wk = q"
  shows "\<exists>outcome ended. r = Inr (outcome, ended) \<and> grid_run q (w, add_mset (Running wk m job) T) (w', add_mset (Ran wk m job outcome) T)"
proof -
  obtain b reg where ev: "event_for (uuid_str (job_id job)) (w_registry w) = (Inr b, reg)"
    by (cases "w_registry w (uuid_str (job_id job))") (auto simp: event_for_def)
  obtain a e where run: "run_job (wk_jobs wk) job (qm_attempt_number m) b (w_env w) = (a, e)"
    by (cases "run_job (wk_jobs wk) job (qm_attempt_number m) b (w_env w)")
  let ?w = "w\<lparr>w_registry := reg, w_env := e\<rparr>" and ?T = "add_mset (Ran wk m job (run_with_timeout a)) T"
  have "answer wk m job w = (Inr (run_with_timeout a), ?w)" using ev run by (simp add: answer_def bindM_eq world_eqs)
  from answers [OF this, of q T] have step: "grid_step q (w, add_mset (Running wk m job) T) (?w, ?T)" by simp
  obtain h w2 where hb: "heartbeat wk m (jf_heartbeats (wk_jobs wk) (w_env w) e) ?w = (h, w2)"
    by (cases "heartbeat wk m (jf_heartbeats (wk_jobs wk) (w_env w) e) ?w")
  have beats: "\<not> isl h \<and> grid_run q (?w, ?T) (w2, ?T)"
  proof (cases "heartbeat_runs wk m")
    case True
    then obtain i where "qm_entry_id m = Some i" by (auto simp: heartbeat_runs_def)
    with hb True renewals_run [OF assms(2), of "Ran wk m job (run_with_timeout a)" ?T] show ?thesis by (simp add: heartbeat_def)
  qed (use hb in \<open>auto simp: heartbeat_def\<close>)
  then obtain ended where ended: "h = Inr ended" by (cases h) auto
  with assms(1) ev run hb have "w' = w2" "r = Inr (run_with_timeout a, ended)"
    by (auto simp: run_phase_def bindM_eq world_eqs)
  with step_then [OF step conjunct2 [OF beats]] show ?thesis by blast
qed

lemma process_message_run:
  assumes "process_message wk m w = (r, w')" "wk_queue wk = q"
  shows "grid_run q (w, add_mset (Delivered wk m) T) (w', T)"
proof -
  obtain r1 w1 where op: "open_message wk m w = (r1, w1)" by (cases "open_message wk m w")
  note step = opens [OF op, of q T]
  consider (over) "w' = w1" "from_result (opened_task wk m) r1 = {#}" | (job) job where "r1 = Inr (Some job)"
    using assms(1) op by (cases r1) (auto simp: process_message_def bindM_eq opened_task_def split: option.splits)
  then show ?thesis
  proof cases
    case over
    with step show ?thesis by auto
  next
    case job
    with step have opened: "grid_step q (w, add_mset (Delivered wk m) T) (w1, add_mset (Running wk m job) T)"
      by (simp add: opened_task_def)
    obtain r2 w2 where run: "run_phase wk m job w1 = (r2, w2)" by (cases "run_phase wk m job w1")
    from run_phase_run [OF run assms(2)] obtain outcome ended where r2: "r2 = Inr (outcome, ended)"
      and ran: "grid_run q (w1, add_mset (Running wk m job) T) (w2, add_mset (Ran wk m job outcome) T)" by blast
    obtain r3 w3 where s: "settle wk m job outcome w2 = (r3, w3)" by (cases "settle wk m job outcome w2")
    have "w' = w3"
      using assms(1) op job run r2 s
      by (auto simp: process_message_def bindM_eq finallyM_def stop_lease_heartbeat_def split: option.splits)
    with step_then [OF opened rtranclp_trans [OF ran settle_run [OF s assms(2)]]] show ?thesis by simp
  qed
qed

lemma process_one_run:
  assumes "process_one wk w = (r, w')" "wk_queue wk = q"
  shows "grid_run q (w, T) (w', T)"
proof -
  obtain r1 w1 where l: "inRedis (q_lease_jobs q (wk_id wk) 1 100) w = (r1, w1)" by (cases "inRedis (q_lease_jobs q (wk_id wk) 1 100) w")
  note step = leases [OF assms(2) l, of T]
  consider (nothing) "w' = w1" "r1 = Inr [] \<or> isl r1" | (one) m ms where "r1 = Inr (m # ms)"
    using assms l by (cases r1) (auto simp: process_one_def bindM_eq split: list.splits)
  then show ?thesis
  proof cases
    case nothing
    with step show ?thesis by (cases r1) auto
  next
    case one
    obtain r2 w2 where p: "process_message wk m w1 = (r2, w2)" by (cases "process_message wk m w1")
    with assms l one have "w' = w2" by (auto simp: process_one_def bindM_eq thenM_eq split: sum.splits)
    with step_then [OF step] process_message_run [OF p assms(2)] one show ?thesis by simp
  qed
qed

lemma recover_lease_run:
  assumes "recover_lease q rid lease c w = (r, w')"
  shows "grid_run q (w, add_mset (Stale rid lease) T) (w', T)"
proof -
  obtain r1 w1 where p: "inDb (plan_recovery_action rid lease) w = (r1, w1)" by (cases "inDb (plan_recovery_action rid lease) w")
  note step = plans [OF p, of q T]
  show ?thesis
  proof (cases r1)
    case (Inl e)
    with assms p step show ?thesis by (auto simp: recover_lease_split bindM_eq)
  next
    case (Inr a)
    obtain r2 w2 where d: "do_work q (sl_message lease) (work_of lease a) w1 = (r2, w2)"
      by (cases "do_work q (sl_message lease) (work_of lease a) w1")
    with assms p Inr have "w' = w2" by (auto simp: recover_lease_split bindM_eq thenM_eq split: sum.splits)
    with step_then [OF step] do_work_run [OF d] Inr show ?thesis by simp
  qed
qed

lemma recover_leases_run:
  "recover_leases q rid leases c w = (r, w') \<Longrightarrow> grid_run q (w, mset (map (Stale rid) leases) + T) (w', T)"
proof (induction leases arbitrary: c w)
  case (Cons lease leases)
  obtain r1 w1 where one: "recover_lease q rid lease c w = (r1, w1)" by (cases "recover_lease q rid lease c w")
  let ?U = "mset (map (Stale rid) leases) + T"
  have first: "grid_run q (w, mset (map (Stale rid) (lease # leases)) + T) (w1, ?U)"
    using recover_lease_run [OF one, of ?U] by simp
  have "grid_run q (w1, ?U) (w', T)"
  proof (cases r1)
    case (Inl e)
    with Cons.prems one show ?thesis by (simp add: bindM_eq drop_tasks)
  next
    case (Inr c1)
    with Cons.prems one show ?thesis by (intro Cons.IH [of c1]) (simp add: bindM_eq)
  qed
  with first show ?case by (rule rtranclp_trans)
qed simp

lemma recover_stale_leases_run:
  assumes "recover_stale_leases q rid idle n w = (r, w')"
  shows "grid_run q (w, T) (w', T)"
proof -
  obtain r1 w1 where f: "inRedis (q_find_stale_leases q idle n) w = (r1, w1)" by (cases "inRedis (q_find_stale_leases q idle n) w")
  note step = scans [OF f, of T rid]
  show ?thesis
  proof (cases r1)
    case (Inl e)
    with assms f step show ?thesis by (auto simp: recover_stale_leases_def bindM_eq)
  next
    case (Inr leases)
    with assms f have "\<exists>c. recover_leases q rid leases c w1 = (r, w')" by (auto simp: recover_stale_leases_def bindM_eq)
    with step_then [OF step] recover_leases_run Inr show ?thesis by fastforce
  qed
qed

lemma submit_job_run:
  assumes "submit_job pf q sub w = (r, w')"
  shows "grid_run q (w, T) (w', T)"
proof -
  obtain r1 w1 where c: "inDb (create_job pf sub) w = (r1, w1)" by (cases "inDb (create_job pf sub) w")
  note step = stores [OF c, of q T]
  show ?thesis
  proof (cases r1)
    case (Inl e)
    with assms c step show ?thesis by (auto simp: submit_job_def bindM_eq)
  next
    case (Inr job)
    obtain r2 w2 where p: "inRedis (q_publish_job q (submission_message job)) w1 = (r2, w2)"
      by (cases "inRedis (q_publish_job q (submission_message job)) w1")
    with assms c Inr have "w' = w2" by (auto simp: submit_job_def bindM_eq thenM_eq split: sum.splits)
    with step_then [OF step] one_step [OF sends [OF p, of T]] Inr show ?thesis by simp
  qed
qed

text \<open>Longer processes follow by the rules of \<open>keeps\<close>: what they keep is to be reachable.\<close>

lemma keeps_reached:
  "(\<And>w r w'. m w = (r, w') \<Longrightarrow> grid_run q (w, T) (w', T)) \<Longrightarrow> keeps (\<lambda>w. grid_run q g (w, T)) m"
  by (rule keepsI) (metis prod.collapse rtranclp_trans)

lemma process_one_reached: "wk_queue wk = q \<Longrightarrow> keeps (\<lambda>w. grid_run q g (w, T)) (process_one wk)"
  by (rule keeps_reached) (rule process_one_run)

lemma submit_all_reached: "keeps (\<lambda>w. grid_run q g (w, T)) (submit_all pf q subs)"
  unfolding submit_all_def by (intro keeps_for keeps_then keeps_return keeps_reached submit_job_run)

lemma submit_batch_reached: "keeps (\<lambda>w. grid_run q g (w, T)) (submit_batch pf q run ids n jtype timeout_seconds max_retries)"
  unfolding submit_batch_def by (intro keeps_then keeps_return submit_all_reached)

lemma grid_run_keeps:
  assumes "lifecycle_invariant I" "grid_run q (w, T) (w', T')" "I (w_db w)"
  shows "I (w_db w')"
proof -
  have "I (w_db (fst g))" if "grid_run q (w, T) g" for g
    using that
  proof (induction rule: rtranclp_induct)
    case (step g g')
    then show ?case using lifecycle_invariant.grid_step_keeps [OF assms(1), of q] by (cases g, cases g') auto
  qed (use assms(3) in simp)
  from this [OF assms(2)] show ?thesis by simp
qed

context job_queue
begin

lemma grid_run_inv: "grid_run q g g' \<Longrightarrow> grid_inv q view g \<Longrightarrow> grid_inv q view g'"
  by (induction rule: rtranclp_induct) (auto dest: grid_step_inv)

lemma safe_run_covers:
  assumes "safe_run q (w, T) g'" "grid_inv q view (w, T)" "j \<in> job_id ` set (jobs (w_db w))" "covered view (w, T) j"
  shows "covered view g' j"
  using assms(1)
proof (induction rule: rtranclp_induct)
  case (step g1 g2)
  obtain w1 T1 w2 T2 where g: "g1 = (w1, T1)" "g2 = (w2, T2)" by (cases g1, cases g2)
  have run: "grid_run q (w, T) (w1, T1)" using safe_run_grid [OF step(1)] by (simp add: g)
  have "extends (w_db w) (w_db w1)"
    by (rule grid_run_keeps [OF history.lifecycle_invariant_axioms run]) simp
  then have stored: "j \<in> job_id ` set (jobs (w_db w1))" using assms(3) extends_job_ids by blast
  have "grid_step q (w1, T1) (w2, T2)" "\<not> refused_opening (w1, T1) (w2, T2)" using step(2) by (simp_all add: g)
  from grid_step_covers [OF this(1) grid_run_inv [OF run assms(2)] stored] this(2) step(3) show ?case by (simp add: g)
qed (simp add: assms(4))

end

subsection \<open>After a crash\<close>

text \<open>A scan that returns and that found every lease stale leaves none of them.\<close>

lemma lease_ids_published: "published m k v v' \<Longrightarrow> lease_ids v' = lease_ids v"
  by (simp add: published_def lease_ids_def)

lemma lease_ids_buried: "buried m cls n v v' \<Longrightarrow> lease_ids v' = lease_ids v"
  by (simp add: buried_def lease_ids_def)

lemma lease_ids_acknowledged:
  "ack_effect m v v' \<Longrightarrow> lease_ids v' = filter (\<lambda>i. qm_entry_id m \<noteq> Some i) (lease_ids v)"
  by (cases "qm_entry_id m") (auto simp: ack_effect_def acknowledged_def lease_ids_def filter_map comp_def
      intro!: arg_cong [where f = "map pi_message_id"] filter_cong)

context job_queue
begin

lemma recover_lease_clears:
  assumes "db_inv (w_db w)" "recover_lease q rid lease c w = (Inr c', w')"
  shows "lease_ids (view (w_redis w')) = filter (\<lambda>i. qm_entry_id (sl_message lease) \<noteq> Some i) (lease_ids (view (w_redis w)))"
proof -
  have schema: "schema_ok (w_db w)" using assms(1) by (simp add: db_inv_def)
  show ?thesis
    using schema assms(2)
  proof (cases rule: recover_lease_cases)
    case (requeue job)
    from requeue(7) show ?thesis by (auto dest!: lease_ids_published lease_ids_acknowledged)
  next
    case (exhausted job)
    from exhausted(7) show ?thesis by (auto dest!: lease_ids_buried lease_ids_acknowledged)
  qed (auto dest: lease_ids_acknowledged)
qed

lemma recover_leases_clear:
  "recover_leases q rid leases c w = (Inr c', w') \<Longrightarrow> db_inv (w_db w) \<Longrightarrow>
    lease_ids (view (w_redis w')) = filter (\<lambda>i. Some i \<notin> (qm_entry_id \<circ> sl_message) ` set leases) (lease_ids (view (w_redis w)))"
proof (induction leases arbitrary: c w)
  case (Cons lease leases)
  obtain c1 w1 where one: "recover_lease q rid lease c w = (Inr c1, w1)" and rest: "recover_leases q rid leases c1 w1 = (Inr c', w')"
    using Cons.prems(1) by (auto simp: bindM_eq split: prod.splits sum.splits)
  have inv1: "db_inv (w_db w1)" by (rule keepsD [OF registry.keeps_recover_lease Cons.prems(2) one])
  show ?case
    unfolding Cons.IH [OF rest inv1] recover_lease_clears [OF Cons.prems(2) one] filter_filter
    by (rule filter_cong) auto
qed simp

lemma recover_stale_leases_clear:
  assumes "recover_stale_leases q rid stale n w = (Inr c, w')" "db_inv (w_db w)" "entries_known (view (w_redis w))"
    and "\<forall>p \<in> set (qv_leased (view (w_redis w))). stale \<le> pi_time_since_delivered p"
    and "int (length (qv_leased (view (w_redis w)))) \<le> n"
  shows "lease_ids (view (w_redis w')) = []"
proof -
  let ?v = "view (w_redis w)"
  obtain leases s where f: "q_find_stale_leases q stale n (w_redis w) = (Inr leases, s)"
    and run: "\<exists>c0. recover_leases q rid leases c0 (w\<lparr>w_redis := s\<rparr>) = (Inr c, w')"
    using assms(1) by (auto simp: recover_stale_leases_def bindM_eq world_eqs split: prod.splits sum.splits)
  have v: "view s = ?v" by (rule find_stale [OF f])
  have "filter (\<lambda>p. qv_fields ?v (pi_message_id p) \<noteq> None)
      (take (nat n) (filter (\<lambda>p. stale \<le> pi_time_since_delivered p) (qv_leased ?v))) = qv_leased ?v"
    using assms(3-5) by (simp add: entries_known_def lease_ids_def filter_id_conv)
  with find_stale_leases [OF f] have found: "list_all2 (stale_of ?v) (qv_leased ?v) leases" by simp
  have "Some i \<in> (qm_entry_id \<circ> sl_message) ` set leases" if "i \<in> set (lease_ids ?v)" for i
  proof -
    from that obtain p where p: "p \<in> set (qv_leased ?v)" "i = pi_message_id p" by (auto simp: lease_ids_def)
    then obtain k where k: "k < length (qv_leased ?v)" "p = qv_leased ?v ! k" by (auto simp: in_set_conv_nth)
    obtain l where "l \<in> set leases" "stale_of ?v p l"
      by (rule that [of "leases ! k"]) (use found k in \<open>auto simp: list_all2_conv_all_nth\<close>)
    then show ?thesis using p(2) by (auto simp: stale_of_def message_at_def dest!: message_entry intro!: rev_image_eqI)
  qed
  with run recover_leases_clear [of rid leases _ "w\<lparr>w_redis := s\<rparr>" c w'] assms(2) v show ?thesis
    by (auto simp: filter_empty_conv)
qed

end

subsection \<open>Properties\<close>


lemma example_world_known: "entries_known (queue_view_of default_queue_config (w_redis (example_world a)))"
  by (simp add: entries_known_def queue_view_of_def default_queue_config_def example_world_def job_redis_def lease_ids_def
      entry_def fresh_lease_def)



lemma example_scan:
  "\<exists>c w1. recover_stale_leases (redis_queue mem_redis default_queue_config) ''rec'' 0 100 (example_world 2) = (Inr c, w1)
    \<and> qv_waiting (queue_view_of default_queue_config (w_redis w1)) = []"
  by (simp add: recover_stale_leases_def find_stale_leases_def recover_lease_def plan_recovery_action_def job_message_def example_world_def worker_simps
        example_load example_job_sel record_failed_def finalize_job_eq [OF _ _ example_known] redis_queue_def mem_simps
        job_redis_def fresh_lease_def nat_digits.simps Let_def)


text \<open>
  C3. The processes are what interleaves. A worker's turn, a recovery scan, the submission of a batch and the
  run loop of a pool, each run on its own to its end or to the exception that ends it, are sequences of the
  steps that the grid allows, with whatever other tasks are in flight.
\<close>

theorem processes_are_grid_runs:
  "grid_run (wk_queue wk) (w, T) (snd (process_one wk w), T)
   \<and> grid_run q (w, T) (snd (recover_stale_leases q rid stale_after_ms n w), T)
   \<and> grid_run q (w, T) (snd (submit_batch pf q run ids k jtype timeout_seconds max_retries w), T)
   \<and> (case drain (map (\<lambda>i. wk\<lparr>wk_id := i\<rparr>) names) w of None \<Rightarrow> True
      | Some (r, w') \<Rightarrow> grid_run (wk_queue wk) (w, T) (w', T))"
proof -
  have "grid_run (wk_queue wk) (w, T) (w', T)" if "drain (map (\<lambda>i. wk\<lparr>wk_id := i\<rparr>) names) w = Some (r, w')" for r w'
    by (rule drain_keeps [OF _ _ that]) (auto intro: process_one_reached)
  moreover have "grid_run q (w, T) (snd (submit_batch pf q run ids k jtype timeout_seconds max_retries w), T)"
    by (rule keeps_snd [OF submit_batch_reached]) simp
  ultimately show ?thesis
    by (auto split: option.split intro: process_one_run recover_stale_leases_run prod.collapse [symmetric])
qed

text \<open>
  C5. However the processes interleave, the registry stays sound. For every queue object, honest or not, and
  every order of the steps, crashes and exceptions included: the invariant of the registry and the types of its
  columns are kept, its history is only extended, and the ledger of outcomes makes only its own steps, so that
  an outcome, once written, is never changed.
\<close>

theorem interleavings_keep_registry:
  assumes "grid_run q (w, T) (w', T')"
  shows "(db_inv (w_db w) \<longrightarrow> db_inv (w_db w')) \<and> (registry_typed (w_db w) \<longrightarrow> registry_typed (w_db w'))
    \<and> extends (w_db w) (w_db w') \<and> ledger_step\<^sup>*\<^sup>* (ledger_of (w_db w)) (ledger_of (w_db w'))
    \<and> lg_outcome (ledger_of (w_db w)) \<subseteq>\<^sub>m lg_outcome (ledger_of (w_db w'))"
proof -
  have steps: "ledger_step\<^sup>*\<^sup>* (ledger_of (w_db w)) (ledger_of (w_db w'))"
    using grid_run_keeps [OF outcomes.lifecycle_invariant_axioms assms, of "ledger_of (w_db w)"] by (simp add: in_ledger_def)
  with ledger_keeps_outcomes grid_run_keeps [OF registry.lifecycle_invariant_axioms assms]
    grid_run_keeps [OF typed.lifecycle_invariant_axioms assms]
    grid_run_keeps [OF history.lifecycle_invariant_axioms assms, of "w_db w"] show ?thesis by simp
qed

lemma interleavings_keep_registry_witness:
  "\<exists>r w'. process_one example_worker (example_world 1) = (r, w') \<and> db_inv (w_db w') \<and> extends example_db (w_db w')"
proof -
  obtain r w' where run: "process_one example_worker (example_world 1) = (r, w')" by fastforce
  from interleavings_keep_registry [OF process_one_run [OF run refl, of "{#}"]] example_world_ok(1) [of 1] run
  show ?thesis by (auto simp: example_world_def)
qed

end
