(* ===== verification/Declared.thy ===== *)
theory Declared
  imports Constraints GridRuns
begin

section \<open>The constraints along the runs of the grid\<close>

text \<open>
  Every operation of the lifecycle is made of statements of the schema, so every interleaving of the processes keeps
  the declared constraints of all tables. The sequences that number events and conflict attempts are \<open>bigserial\<close>: the
  statement is about registries that have not used them up.
\<close>

definition sequences_last :: "database \<Rightarrow> bool" where
  "sequences_last db \<longleftrightarrow> event_seq db \<le> 2 ^ 63 \<and> conflict_seq db \<le> 2 ^ 63"

definition declared_ok :: "database \<Rightarrow> bool" where
  "declared_ok db \<longleftrightarrow> (sequences_last db \<longrightarrow> satisfies metadata (relations_of db))"

lemma in_metadata: "jobs_table \<in> set metadata" "job_events_table \<in> set metadata" "job_finalizations_table \<in> set metadata"
  "finalization_conflict_attempts_table \<in> set metadata"
  by (simp_all add: metadata_def)

lemma numbers_given:
  assumes "satisfies metadata (relations_of db)"
  shows "\<forall>e \<in> set (job_events db). ev_id e < event_seq db" "\<forall>c \<in> set (conflict_attempts db). con_id c < conflict_seq db"
proof -
  have num: "numbered (relations_of db) t r c"
    if "t \<in> set metadata" "r \<in> set (rel_rows (relations_of db) (tab_name t))" "c \<in> set (tab_columns t)" for t r c
    using assms that by (auto simp: satisfies_def table_ok_def row_ok_def)
  have ids: "autoincrement (primary_key (Column ''id'' SaBigInteger)) \<in> set (tab_columns job_events_table)"
      "autoincrement (primary_key (Column ''id'' SaBigInteger)) \<in> set (tab_columns finalization_conflict_attempts_table)"
    by (simp_all add: table_defs)
  show "\<forall>e \<in> set (job_events db). ev_id e < event_seq db"
  proof
    fix e assume "e \<in> set (job_events db)"
    with num [OF in_metadata(2) _ ids(1), of "event_row e"] show "ev_id e < event_seq db" by (auto simp: numbered_def)
  qed
  show "\<forall>c \<in> set (conflict_attempts db). con_id c < conflict_seq db"
  proof
    fix c assume "c \<in> set (conflict_attempts db)"
    with num [OF in_metadata(4) _ ids(2), of "attempt_row c"] show "con_id c < conflict_seq db" by (auto simp: numbered_def)
  qed
qed

text \<open>A statement of \<open>Storage\<close> that is a statement of the schema, at least as long as the sequences last.\<close>

lemma declared_statement:
  assumes "keeps (satisfies metadata) m"
    and "\<And>db. satisfies metadata (relations_of db) \<Longrightarrow> sequences_last (snd (n db)) \<Longrightarrow> snd (n db) = db \<or>
      snd (m (relations_of db)) = relations_of (snd (n db))"
    and "\<And>db. sequences_last (snd (n db)) \<Longrightarrow> sequences_last db"
  shows "keeps declared_ok n"
proof (rule keepsI)
  fix db assume ok: "declared_ok db"
  show "declared_ok (snd (n db))"
    unfolding declared_ok_def
  proof
    assume last: "sequences_last (snd (n db))"
    with ok assms(3) have sat: "satisfies metadata (relations_of db)" by (simp add: declared_ok_def)
    from assms(2) [OF this last] keeps_snd [OF assms(1) sat] sat
    show "satisfies metadata (relations_of (snd (n db)))" by auto
  qed
qed

lemma declared_job: "keeps declared_ok (insert_job r)"
proof (rule declared_statement)
  show "keeps (satisfies metadata) (insert_into jobs_table (job_values r))"
    by (rule declared_schema.insert_into_keeps [OF in_metadata(1)]) (simp add: table_defs)
qed (auto simp: insert_job_declared insert_job_def sequences_last_def Let_def split: if_splits)

lemma declared_update: "keeps declared_ok (update_job_status i s)"
proof (rule declared_statement)
  show "keeps (satisfies metadata) (update_where jobs_table ''status'' (VText s) ''id'' (VUuid i))"
    by (rule declared_schema.update_where_keeps [OF in_metadata(1)]) (simp add: plain_in_jobs)
qed (auto simp: update_status_declared update_job_status_def sequences_last_def split: if_splits)

lemma declared_finalization: "keeps declared_ok (insert_finalization i run s t tr)"
proof (rule declared_statement)
  show "keeps (satisfies metadata) (insert_or_nothing job_finalizations_table [''job_id''] (finalization_values i run s t tr))"
    by (rule declared_schema.insert_or_nothing_keeps [OF in_metadata(3)]) (simp add: table_defs)
qed (auto simp: insert_finalization_declared insert_finalization_def sequences_last_def split: if_splits)

lemma declared_event: "keeps declared_ok (insert_event i run t d tr)"
proof (rule declared_statement)
  show "keeps (satisfies metadata) (insert_into job_events_table (event_values i run t d tr))"
    by (rule declared_schema.insert_into_keeps [OF in_metadata(2)]) (simp add: table_defs event_values_def)
qed (auto simp: insert_event_declared numbers_given insert_event_def sequences_last_def split: if_splits)

lemma declared_conflict: "keeps declared_ok (insert_conflict_attempt i run s t tr)"
proof (rule declared_statement)
  show "keeps (satisfies metadata) (insert_into finalization_conflict_attempts_table (attempt_values i run s t tr))"
    by (rule declared_schema.insert_into_keeps [OF in_metadata(4)]) (simp add: table_defs attempt_values_def)
qed (auto simp: insert_conflict_declared numbers_given insert_conflict_attempt_def sequences_last_def split: if_splits)

lemmas declared_statements = declared_job declared_update declared_finalization declared_event declared_conflict

lemma declared_records:
  "keeps declared_ok (finalize_job job s t d)" "keeps declared_ok (record_state_event job s t d)"
  unfolding finalize_job_def record_state_event_def
  by (auto intro!: keep_intros declared_statements split: option.splits)

lemma declared_create: "keeps declared_ok (create_job pf sub)"
proof -
  have "keeps declared_ok (get_by_idempotency_key k)" for k
    by (rule keepsI) (simp add: get_by_idempotency_key_def select_jobs_def bindM_eq one_or_none_state)
  then show ?thesis
    unfolding create_job_def
    by (intro keeps_transaction keeps_bind keeps_option keeps_if keeps_then keeps_raise keeps_return declared_statements) auto
qed

interpretation declared: lifecycle_invariant declared_ok
  by unfold_locales (rule declared_create, simp_all add: record_defs declared_records keeps_then keeps_return)

subsection \<open>Racing submissions\<close>

text \<open>\<open>create_job\<close> in two parts: the lookup of the key, and what the transaction does with its answer.\<close>

definition create_after :: "platform \<Rightarrow> job_submission \<Rightarrow> job_record option \<Rightarrow> (database, job_record) prog" where
  "create_after pf sub existing = (case existing of
     Some r \<Rightarrow> if job_payload_hash r \<noteq> submission_payload_hash pf sub
               then raiseM (IdempotencyConflictError (sub_idempotency_key sub))
               else returnM r
   | None \<Rightarrow> bindM (insert_job (submission_row pf sub)) (\<lambda>job.
       thenM (insert_event (job_id job) (job_run_id job) ''submitted'' (submitted_event_data job) (job_trace_id job))
             (returnM job)))"

lemma create_job_parts:
  "create_job pf sub = transaction (bindM (get_by_idempotency_key (sub_idempotency_key sub)) (create_after pf sub))"
  unfolding create_job_def create_after_def by (rule refl)

lemma create_job_won:
  assumes "schema_ok db" "sub_idempotency_key sub \<notin> job_idempotency_key ` set (jobs db)" "create_job pf sub db = (Inr r, db')"
  shows "r = stored_row pf sub db" "db' = create_effect pf sub db" "schema_ok db'"
proof -
  have ins: "insertable pf sub db" using assms create_job_rejected [OF assms(1,2), of pf] by fastforce
  from create_job_fresh [OF assms(1,2) ins] assms(3) show "r = stored_row pf sub db" and eff: "db' = create_effect pf sub db" by auto
  show "schema_ok db'" unfolding eff by (rule schema_ok_create_effect [OF assms(1,2) ins])
qed

subsection \<open>Properties\<close>

text \<open>
  C25. Two submissions under one key can miss each other. Both look the key up before either is stored; the first
  commits; the other still holds the answer that there is no such job, inserts its own, and the unique constraint of
  the key raises \<open>IntegrityError\<close>, which \<open>create_job\<close> does not handle: the registry stays sound, but the caller
  gets neither the stored job nor \<open>IdempotencyConflictError\<close>, one of which it gets when it submits a moment later.
\<close>

theorem racing_submission_raises:
  assumes "schema_ok db" "sub_idempotency_key sub \<notin> job_idempotency_key ` set (jobs db)"
    and "create_job pf first db = (Inr r, db')" "sub_idempotency_key first = sub_idempotency_key sub"
    and "insertable pf sub db'"
  shows "get_by_idempotency_key (sub_idempotency_key sub) db = (Inr None, db)
    \<and> create_after pf sub None db' = (Inl (IntegrityError ''jobs_idempotency_key_key''), db')
    \<and> create_job pf sub db' = (if job_payload_hash r = submission_payload_hash pf sub then Inr r
        else Inl (IdempotencyConflictError (sub_idempotency_key sub)), db')"
proof -
  note won = create_job_won [OF assms(1) assms(2) [folded assms(4)] assms(3)]
  have stored: "r \<in> set (jobs db')" "job_idempotency_key r = sub_idempotency_key sub"
    using won assms(4) by (simp_all add: create_effect_def Let_def)
  then have "sub_idempotency_key sub \<in> job_idempotency_key ` set (jobs db')" by (metis imageI)
  then have "insert_job (submission_row pf sub) db' = (Inl (IntegrityError ''jobs_idempotency_key_key''), db')"
    using assms(5) by (simp add: insertable_def insert_job_def) (simp add: submission_row_def)
  then have "create_after pf sub None db' = (Inl (IntegrityError ''jobs_idempotency_key_key''), db')"
    by (simp add: create_after_def bindM_eq)
  with get_by_key_missing [OF assms(2)] create_job_existing [OF won(3) stored] show ?thesis by simp
qed

lemma racing_submission_raises_witness:
  "create_after example_platform (example_submission\<lparr>sub_job_id := 77\<rparr>) None (create_effect example_platform example_submission example_db) =
    (Inl (IntegrityError ''jobs_idempotency_key_key''), create_effect example_platform example_submission example_db)"
proof -
  let ?sub = "example_submission\<lparr>sub_job_id := 77\<rparr>" and ?db = "create_effect example_platform example_submission example_db"
  have schema: "schema_ok example_db" using example_db_ok(1) by (simp add: db_inv_def)
  have new: "sub_idempotency_key example_submission \<notin> job_idempotency_key ` set (jobs example_db)"
    by (simp add: example_db_def example_submission_def)
  have keys: "sub_idempotency_key ?sub \<notin> job_idempotency_key ` set (jobs example_db)"
      "sub_idempotency_key example_submission = sub_idempotency_key ?sub"
    using new by simp_all
  have "insertable example_platform ?sub ?db"
    using example_insertable
    by (simp add: insertable_def create_effect_def Let_def submission_row_def submission_payload_hash_def job_columns_ok_def)
       (simp add: example_submission_def example_db_def)
  from racing_submission_raises [OF schema keys(1) create_job_fresh [OF schema new example_insertable] keys(2) this]
  show ?thesis by blast
qed



end
