(* ===== verification/Isolation.thy ===== *)
theory Isolation
  imports Transactions Declared
begin

section \<open>The transactions of the program are isolated\<close>

text \<open>
  Every transaction that a worker, a recovery or an operator runs on the registry is made of the statements of
  \<open>Transactions\<close>, so however these transactions interleave, the registry is one that whole transactions produce one
  after the other. What \<open>Grid\<close> shows of them as single steps holds for the interleaved statements too.
\<close>

subsection \<open>The calls\<close>

text \<open>The blocks \<open>async with session.begin()\<close> of \<open>worker/loop.py\<close>, \<open>worker/recovery.py\<close> and \<open>worker/cancellation.py\<close>.\<close>

datatype call =
    Open budget_policy pystr queue_job_message
  | Complete job_record pystr int items
  | ScheduleRetry job_record pystr int int pystr
  | Fail job_record pystr int pystr bool
  | TimeOut job_record pystr int
  | Cancel job_record pystr int pystr
  | BlockBudget job_record pystr int pystr decimal decimal
  | Plan pystr stale_lease

definition open_block :: "budget_policy \<Rightarrow> pystr \<Rightarrow> queue_job_message \<Rightarrow> (database, unit) prog" where
  "open_block policy worker_id m =
     bindM (liftM (uuid_of_text (qm_job_id m))) (\<lambda>i.
     bindM (load_job_for_update i) (\<lambda>found. case found of
       None \<Rightarrow> returnM ()
     | Some job \<Rightarrow>
         if job_status job \<in> TERMINAL_STATUSES then returnM ()
         else (case validate_job_dispatch policy job of
             Inl e \<Rightarrow> (case budget_error e of None \<Rightarrow> raiseM e
               | Some (reason, cost, limit) \<Rightarrow>
                   thenM (record_budget_blocked job worker_id (qm_attempt_number m) reason cost limit) (returnM ()))
           | Inr _ \<Rightarrow> record_running job worker_id (qm_attempt_number m))))"

fun block :: "call \<Rightarrow> (database, unit) prog" where
  "block (Open policy w m) = open_block policy w m"
| "block (Complete job w a r) = thenM (record_completed job w a r) (returnM ())"
| "block (ScheduleRetry job w a n c) = record_retry_scheduled job w a n c"
| "block (Fail job w a c rt) = thenM (record_failed job w a c rt) (returnM ())"
| "block (TimeOut job w a) = thenM (record_timed_out job w a) (returnM ())"
| "block (Cancel job w a cw) = thenM (record_cancelled job w a cw) (returnM ())"
| "block (BlockBudget job w a reason cost limit) = thenM (record_budget_blocked job w a reason cost limit) (returnM ())"
| "block (Plan rid lease) = thenM (plan_recovery_action rid lease) (returnM ())"

subsection \<open>Each is made of statements\<close>

definition stepwise :: "(database, 'a) prog \<Rightarrow> bool" where
  "stepwise m \<longleftrightarrow> (\<exists>t. run_tx t = m)"

lemma stepwise_intros:
  "stepwise (returnM a)" "stepwise (raiseM e)" "stepwise (liftM r)"
  "stepwise (finalize_job job s t d)" "stepwise (record_state_event job s t d)" "stepwise (load_job_for_update i)"
proof -
  have "run_tx (Finish (Inr a)) = returnM a" "run_tx (Finish (Inl e)) = raiseM e" by (rule ext, simp)+
  then show "stepwise (returnM a)" "stepwise (raiseM e)" unfolding stepwise_def by blast+
  show "stepwise (liftM r)" unfolding stepwise_def by (rule exI [of _ "Finish r"]) simp
  show "stepwise (finalize_job job s t d)" "stepwise (record_state_event job s t d)"
    unfolding stepwise_def by (rule exI, rule finalize_tx state_event_tx)+
  have "run_tx (Execute (LoadForUpdate i) (\<lambda>a. Finish (Inr (case a of Row r \<Rightarrow> r | _ \<Rightarrow> None)))) = load_job_for_update i"
    by (rule ext) (simp add: bindM_eq split: prod.splits sum.splits)
  then show "stepwise (load_job_for_update i)" unfolding stepwise_def by blast
qed

lemma stepwise_bind:
  assumes "stepwise m" "\<And>a. stepwise (f a)"
  shows "stepwise (bindM m f)"
proof -
  obtain t where "run_tx t = m" using assms(1) by (auto simp: stepwise_def)
  moreover obtain g where "\<And>a. run_tx (g a) = f a" using assms(2) unfolding stepwise_def by metis
  ultimately have "run_tx (bind_tx t g) = bindM m f" by (simp add: run_bind_tx)
  then show ?thesis by (auto simp: stepwise_def)
qed

lemma stepwise_then: "stepwise m \<Longrightarrow> stepwise n \<Longrightarrow> stepwise (thenM m n)"
  unfolding thenM_def by (rule stepwise_bind)

lemma stepwise_transaction: "stepwise m \<Longrightarrow> \<exists>t. transaction (run_tx t) = transaction m"
  unfolding stepwise_def by metis

lemma stepwise_block: "\<exists>t. transaction (run_tx t) = transaction (block c)"
proof (cases c)
  case (Plan rid lease)
  have "transaction (run_tx (give_up_tx rid lease)) = transaction (thenM (plan_recovery_action rid lease) (returnM ()))"
    unfolding plan_tx [symmetric]
    by (rule ext) (auto simp: give_up_tx_def run_bind_tx transaction_def bindM_eq thenM_eq split: prod.splits sum.splits)
  with Plan show ?thesis by auto
next
  case (Open policy w m)
  have "stepwise (open_block policy w m)"
    unfolding open_block_def
    by (intro stepwise_bind stepwise_intros)
      (auto intro!: stepwise_intros stepwise_then simp: record_defs split: option.split sum.split)
  with Open show ?thesis by (intro stepwise_transaction) simp
qed (rule stepwise_transaction, simp add: record_defs stepwise_then stepwise_intros)+

subsection \<open>What the calls keep, the interleaved statements keep\<close>

context lifecycle_invariant
begin

lemma keeps_open_block: "keeps I (open_block policy w m)"
  unfolding open_block_def
  by (intro keeps_bind keeps_lift keeps_load_job)
    (auto intro!: keep_intros running budget_blocked split: option.split sum.split)

lemma keeps_block: "keeps I (transaction (block c))"
  by (cases c) (auto intro!: keep_intros keeps_open_block keeps_plan operations)

end

definition blocks :: "unit tx set" where
  "blocks = {t. \<exists>c. transaction (run_tx t) = transaction (block c)}"

text \<open>The calls of a serial history, one after the other.\<close>

inductive serial_calls :: "database \<Rightarrow> database \<Rightarrow> bool" where
  none: "serial_calls db db"
| next_call: "serial_calls db0 db \<Longrightarrow> transaction (block c) db = (Inr (), db') \<Longrightarrow> serial_calls db0 db'"

lemma serial_calls_trans: "serial_calls db1 db2 \<Longrightarrow> serial_calls db0 db1 \<Longrightarrow> serial_calls db0 db2"
  by (induction rule: serial_calls.induct) (auto intro: serial_calls.intros)

lemma serially_calls: "serially D db0 = Some db \<Longrightarrow> fst ` set D \<subseteq> blocks \<Longrightarrow> serial_calls db0 db"
proof (induction D arbitrary: db0)
  case (Cons x D)
  obtain t u where x: "x = (t, u)" by (cases x)
  with Cons.prems(1) obtain db1 where run: "run_tx t db0 = (Inr (), db1)" "serially D db1 = Some db"
    by (auto split: prod.splits sum.splits)
  from Cons.prems(2) x obtain c where "transaction (run_tx t) = transaction (block c)" by (auto simp: blocks_def)
  with transaction_Inr [of "run_tx t", OF run(1)] have "transaction (block c) db0 = (Inr (), db1)" by simp
  from next_call [OF none this] have "serial_calls db0 db1" .
  moreover from Cons.IH [OF run(2)] Cons.prems(2) have "serial_calls db1 db" by simp
  ultimately show ?case by (rule serial_calls_trans [rotated])
qed (simp add: none)

lemma serial_calls_keep:
  assumes "lifecycle_invariant I"
  shows "serial_calls db0 db \<Longrightarrow> I db0 \<Longrightarrow> I db"
  by (induction rule: serial_calls.induct) (auto dest: keepsD [OF lifecycle_invariant.keeps_block [OF assms]])

subsection \<open>The steps of the grid are calls\<close>

lemma world_db: "inDb m w = (r, w') \<Longrightarrow> m (w_db w) = (r, w_db w')"
  by (auto simp: inDb_eq split: prod.splits)

definition called :: "database \<Rightarrow> database \<Rightarrow> bool" where
  "called db db' \<longleftrightarrow> db' = db \<or> (\<exists>c. transaction (block c) db = (Inr (), db'))"

lemma called_transaction:
  assumes "transaction m db = (r, db')" "\<And>a. m db = (Inr a, db') \<Longrightarrow> block c db = (Inr (), db')"
  shows "called db db'"
proof (cases r)
  case (Inl e)
  with assms(1) show ?thesis by (auto simp: transaction_def called_def split: prod.splits sum.splits)
next
  case (Inr a)
  with assms(1) have "m db = (Inr a, db')" by (auto simp: transaction_def split: prod.splits sum.splits)
  then have "transaction (block c) db = (Inr (), db')" using assms(2) by (simp add: transaction_def)
  then show ?thesis by (auto simp: called_def)
qed

lemma called_world:
  assumes "inDb (transaction m) w = (r, w')" "\<And>a. m (w_db w) = (Inr a, w_db w') \<Longrightarrow> block c (w_db w) = (Inr (), w_db w')"
  shows "called (w_db w) (w_db w')"
  by (rule called_transaction [OF world_db [OF assms(1)] assms(2)])

lemma then_result: "thenM m (returnM b) db = (Inr a, db') \<Longrightarrow> thenM m (returnM ()) db = (Inr (), db')"
  by (auto simp: thenM_eq split: prod.splits sum.splits)

lemma then_unit: "thenM m (returnM b) db = (Inr a, db') \<Longrightarrow> m db = (Inr (), db')"
  by (auto simp: thenM_eq split: prod.splits sum.splits)

lemma transient_called:
  assumes "transaction (transient_record wk m job cls) db = (r, db')"
  shows "called db db'"
proof -
  let ?a = "qm_attempt_number m"
  consider (failed) "\<not> ?a \<le> job_max_retries job"
    | (blocked) e where "?a \<le> job_max_retries job" "validate_retry (wk_budget_policy wk) (?a + 1) = Inl e"
    | (retry) u where "?a \<le> job_max_retries job" "validate_retry (wk_budget_policy wk) (?a + 1) = Inr u"
    by (cases "validate_retry (wk_budget_policy wk) (?a + 1)") auto
  then show ?thesis
  proof cases
    case failed
    with assms show ?thesis
      by (intro called_transaction [OF assms, of "Fail job (wk_id wk) ?a cls True"]) (auto simp: transient_record_def Let_def intro: then_result)
  next
    case (blocked e)
    show ?thesis
    proof (cases "budget_error e")
      case None
      with assms blocked show ?thesis
        by (auto simp: transient_record_def Let_def record_budget_error_def transaction_def thenM_eq called_def)
    next
      case (Some x)
      obtain reason cost limit where x: "x = (reason, cost, limit)" by (cases x)
      show ?thesis
        by (rule called_transaction [OF assms, of "BlockBudget job (wk_id wk) ?a reason cost limit"])
          (use blocked Some x in \<open>auto simp: transient_record_def Let_def record_budget_error_def dest: then_unit\<close>)
    qed
  next
    case (retry u)
    show ?thesis
      by (rule called_transaction [OF assms, of "ScheduleRetry job (wk_id wk) ?a (?a + 1) cls"])
        (use retry in \<open>auto simp: transient_record_def Let_def dest: then_unit\<close>)
  qed
qed

lemma settle_called:
  assumes "settle_record wk m job outcome w = (r, w')"
  shows "called (w_db w) (w_db w')"
proof (cases outcome)
  case (Inr result)
  define g where "g = (\<lambda>result'. inDb (transaction (thenM (record_completed job (wk_id wk) (qm_attempt_number m) result') (returnM Acknowledge)))
      :: (('a, 'b) world, queue_work) prog)"
  have g: "called (w_db v) (w_db w')" if "g x v = (r, w')" for x v
    by (rule called_world [OF that [unfolded g_def], of "Complete job (wk_id wk) (qm_attempt_number m) x"]) (simp add: then_result)
  show ?thesis
  proof (cases "wk_artifact_store wk")
    case None
    with assms Inr g show ?thesis by (simp add: settle_record_def Let_def bindM_eq g_def)
  next
    case (Some writer)
    obtain x v where x: "inEnv (writer job (wk_id wk) (qm_attempt_number m) result) w = (x, v)"
      by (cases "inEnv (writer job (wk_id wk) (qm_attempt_number m) result) w")
    then have "w_db v = w_db w" by (auto simp: inEnv_eq split: prod.splits)
    show ?thesis
    proof (cases x)
      case (Inl e)
      with assms Inr Some x have "w' = v" by (simp add: settle_record_def Let_def bindM_eq)
      with \<open>w_db v = w_db w\<close> show ?thesis by (simp add: called_def)
    next
      case (Inr y)
      obtain path metadata where y: "y = (path, metadata)" by (cases y)
      from assms \<open>outcome = Inr result\<close> Some x Inr y
      have "g (dupdate result [(''artifact_path'', JStr path), (''artifact'', JObj metadata)]) v = (r, w')"
        by (simp add: settle_record_def Let_def bindM_eq g_def)
      from g [OF this] \<open>w_db v = w_db w\<close> show ?thesis by simp
    qed
  qed
next
  case (Inl e)
  consider "e = TransientRunnerError" | "e = JobTimedOutError" | "e = JobCancelledError"
    | "e = PolicyValidationError \<or> (\<exists>t. e = EvalLabPayloadError t \<or> e = GdevAgentPayloadError t)"
    | "settle_record wk m job outcome w = raiseM e w"
    by (cases e) (auto simp: Inl settle_record_def)
  then show ?thesis
  proof cases
    case 1
    with assms Inl show ?thesis by (auto simp: settle_record_def dest!: world_db transient_called)
  next
    case 2
    then have "settle_record wk m job outcome = inDb (transaction (thenM (record_timed_out job (wk_id wk) (qm_attempt_number m)) (returnM Acknowledge)))"
      by (auto simp: Inl settle_record_def Let_def)
    with assms have "inDb (transaction (thenM (record_timed_out job (wk_id wk) (qm_attempt_number m)) (returnM Acknowledge))) w = (r, w')" by simp
    then show ?thesis by (rule called_world [where c = "TimeOut job (wk_id wk) (qm_attempt_number m)"]) (simp add: then_result)
  next
    case 3
    then have "settle_record wk m job outcome = inDb (transaction (thenM (record_cancelled job (wk_id wk) (qm_attempt_number m) ''running'') (returnM Acknowledge)))"
      by (auto simp: Inl settle_record_def Let_def)
    with assms have "inDb (transaction (thenM (record_cancelled job (wk_id wk) (qm_attempt_number m) ''running'') (returnM Acknowledge))) w = (r, w')" by simp
    then show ?thesis by (rule called_world [where c = "Cancel job (wk_id wk) (qm_attempt_number m) ''running''"]) (simp add: then_result)
  next
    case 4
    then have "settle_record wk m job outcome = inDb (transaction (thenM (record_failed job (wk_id wk) (qm_attempt_number m) (class_name e) False) (returnM Acknowledge)))"
      by (auto simp: Inl settle_record_def Let_def)
    with assms have "inDb (transaction (thenM (record_failed job (wk_id wk) (qm_attempt_number m) (class_name e) False) (returnM Acknowledge))) w = (r, w')" by simp
    then show ?thesis by (rule called_world [where c = "Fail job (wk_id wk) (qm_attempt_number m) (class_name e) False"]) (simp add: then_result)
  next
    case 5
    with assms show ?thesis by (simp add: called_def)
  qed
qed

lemma ack_db: "w_db (snd (ack_message wk m w)) = w_db w"
  by (auto simp: ack_message_def thenM_eq inRedis_eq split: option.splits prod.splits sum.splits)

lemma acked: "ack_message wk m w = (x, w') \<Longrightarrow> w_db w' = w_db w"
  using ack_db [of wk m w] by simp

lemma open_called:
  assumes "open_message wk m w = (r, w')"
  shows "called (w_db w) (w_db w')"
proof (cases r)
  case (Inl e)
  with assms show ?thesis by (auto simp: open_message_def transactionW_def called_def split: prod.splits sum.splits)
next
  case (Inr opened)
  have "block (Open (wk_budget_policy wk) (wk_id wk) m) (w_db w) = (Inr (), w_db w')"
  proof (cases "uuid_of_text (qm_job_id m)")
    case (Inr i)
    note id = this
    obtain found where load: "load_job_for_update i (w_db w) = (Inr found, w_db w)"
      using assms \<open>r = Inr opened\<close> id load_job_result [of i "w_db w"]
      by (cases "load_job_for_update i (w_db w)") (auto simp: open_message_def transactionW_def bindM_eq inDb_eq split: sum.splits prod.splits)
    show ?thesis
    proof (cases found)
      case None
      with assms \<open>r = Inr opened\<close> id load show ?thesis
        by (auto simp: open_message_def transactionW_def open_block_def bindM_eq thenM_eq inDb_eq dest: acked split: prod.splits sum.splits)
    next
      case (Some job)
      show ?thesis
      proof (cases "job_status job \<in> TERMINAL_STATUSES")
        case True
        with assms \<open>r = Inr opened\<close> id load Some show ?thesis
          by (auto simp: open_message_def transactionW_def open_block_def bindM_eq thenM_eq inDb_eq dest: acked split: prod.splits sum.splits)
      next
        case False
        with assms \<open>r = Inr opened\<close> id load Some show ?thesis
          by (auto simp: open_message_def transactionW_def open_block_def bindM_eq thenM_eq inDb_eq record_budget_error_def
              dest!: acked split: prod.splits sum.splits option.splits)
      qed
    qed
  qed (use assms Inr in \<open>simp add: open_message_def transactionW_def bindM_eq\<close>)
  then show ?thesis unfolding called_def by (metis transaction_Inr)
qed

text \<open>Every change that a step of the grid makes to the registry is a call, or the creation of a job.\<close>

lemma grid_step_called:
  assumes "grid_step q (w, T) (w', T')"
  shows "called (w_db w) (w_db w') \<or> (\<exists>pf sub job. create_job pf sub (w_db w) = (Inr job, w_db w'))"
  using assms
proof (cases rule: grid_step.cases)
  case (stores pf sub r)
  then have c: "create_job pf sub (w_db w) = (r, w_db w')" by (blast dest: world_db)
  show ?thesis
  proof (cases r)
    case (Inl e)
    with c have "w_db w' = w_db w" by (auto simp: create_job_def transaction_def split: prod.splits sum.splits)
    then show ?thesis by (simp add: called_def)
  qed (use c in blast)
next
  case (opens wk m r T1)
  then show ?thesis by (blast dest: open_called)
next
  case (answers wk m job r T1)
  then have "w_db w' = w_db w" by (auto simp: answer_def bindM_eq world_eqs split: prod.splits sum.splits)
  then show ?thesis by (simp add: called_def)
next
  case (settles wk m job outcome r T1)
  then show ?thesis by (blast dest: settle_called)
next
  case (plans rid lease r T1)
  then have p: "plan_recovery_action rid lease (w_db w) = (r, w_db w')" by (blast dest: world_db)
  have "transaction (thenM (plan_recovery_action rid lease) (returnM ())) (w_db w) = (Inr (), w_db w')" if "r = Inr a" for a
    using p that by (simp add: transaction_def thenM_eq)
  moreover have "w_db w' = w_db w" if "r = Inl e" for e
    using p that by (auto simp: plan_recovery_action_def transaction_def split: prod.splits sum.splits)
  ultimately show ?thesis unfolding called_def by (cases r) (metis block.simps(8))+
next
  case (cancels job by_whom r)
  then have "inDb (transaction (cancel_queued_job job by_whom)) w = (r, w')" by blast
  from called_world [OF this, of "Cancel job by_whom 0 ''queued''"] show ?thesis by (simp add: cancel_queued_job_def)
qed (auto simp: called_def dest: registry_only)

subsection \<open>Property\<close>

lemma transaction_Inr_iff: "transaction m db = (Inr a, db') \<longleftrightarrow> m db = (Inr a, db')"
  by (auto simp: transaction_def split: prod.splits sum.splits)

lemma called_reached:
  assumes "(tx_step blocks)\<^sup>*\<^sup>* g (db, {#}, D)" "transaction (block c) db = (Inr (), db')"
  shows "\<exists>D'. (tx_step blocks)\<^sup>*\<^sup>* g (db', {#}, D')"
proof -
  obtain t where t: "transaction (run_tx t) = transaction (block c)" using stepwise_block by blast
  with assms(2) have "run_tx t db = (Inr (), db')" by (metis transaction_Inr_iff)
  moreover from t have "t \<in> blocks" by (auto simp: blocks_def)
  ultimately show ?thesis using tx_commits [OF assms(1)] by blast
qed

lemma serial_reached: "serial_calls db0 db \<Longrightarrow> \<exists>D. (tx_step blocks)\<^sup>*\<^sup>* (db0, {#}, []) (db, {#}, D)"
  by (induction rule: serial_calls.induct) (blast dest: called_reached)+

text \<open>
  C4. The transactions of workers, recoveries and operators are isolated. However their statements interleave, under
  the locks that PostgreSQL takes, with rollbacks, deadlock victims and crashes at any moment, the registry is what the
  committed transactions produce when they run whole, one after the other, in the order of their commits, each with
  the answers it got. It could have been reached without any two of them overlapping. So the registry stays sound, its
  history is only extended, and the ledger of outcomes makes only its own steps.
\<close>

theorem statements_are_isolated:
  assumes "(tx_step blocks)\<^sup>*\<^sup>* (db0, {#}, []) (db, A, D)"
  shows "serially D db0 = Some db \<and> serial_calls db0 db \<and> (\<exists>D'. (tx_step blocks)\<^sup>*\<^sup>* (db0, {#}, []) (db, {#}, D')) \<and> (db_inv db0 \<longrightarrow> db_inv db) \<and> extends db0 db
    \<and> ledger_step\<^sup>*\<^sup>* (ledger_of db0) (ledger_of db)
    \<and> (satisfies metadata (relations_of db0) \<longrightarrow> sequences_last db \<longrightarrow> satisfies metadata (relations_of db))"
proof -
  from tx_run_sound [OF assms] have D: "serially D db0 = Some db" "fst ` set D \<subseteq> blocks" by (simp_all add: sound_def)
  note calls = serially_calls [OF this]
  have ledger: "ledger_step\<^sup>*\<^sup>* (ledger_of db0) (ledger_of db)"
    using serial_calls_keep [OF outcomes.lifecycle_invariant_axioms calls, of "ledger_of db0"] by (simp add: in_ledger_def)
  show ?thesis
    using D(1) calls ledger serial_reached [OF calls] serial_calls_keep [OF registry.lifecycle_invariant_axioms calls]
      serial_calls_keep [OF history.lifecycle_invariant_axioms calls, of db0]
      serial_calls_keep [OF declared.lifecycle_invariant_axioms calls]
    by (simp add: declared_ok_def)
qed

lemma statements_are_isolated_witness:
  "\<exists>D db. (tx_step blocks)\<^sup>*\<^sup>* (example_db, {#}, []) (db, {#}, D) \<and> length D = 1 \<and> job_finalizations db \<noteq> [] \<and> db_inv db
    \<and> serially D example_db = Some db"
proof -
  let ?t = "complete_tx example_job ''w1'' 1 []"
  have "\<exists>db. run_tx ?t example_db = (Inr (), db) \<and> job_finalizations db \<noteq> []"
    unfolding complete_tx record_completed_def finalize_job_def
    by (simp add: thenM_eq bindM_eq insert_finalization_def update_job_status_def insert_event_def)
      (simp add: example_job_def example_db_def empty_database_def)
  then obtain db where db: "run_tx ?t example_db = (Inr (), db)" "job_finalizations db \<noteq> []" by blast
  have "transaction (run_tx ?t) = transaction (block (Complete example_job ''w1'' 1 []))" by (simp add: complete_tx)
  then have "?t \<in> blocks" unfolding blocks_def by blast
  from tx_commits [OF rtranclp.rtrancl_refl this db(1), of "[]"]
  have run: "(tx_step blocks)\<^sup>*\<^sup>* (example_db, {#}, []) (db, {#}, [(?t, ())])" by simp
  with statements_are_isolated [OF run] example_db_ok(1) db(2) show ?thesis by (intro exI [of _ "[(?t, ())]"] exI [of _ db]) simp
qed

end
