(* ===== verification/FullStack.thy ===== *)
theory FullStack
  imports Runs
begin

section \<open>The full-stack proof\<close>

text \<open>
  \<open>cli/proof.py\<close>: \<open>run_full_stack_proof\<close> submits one \<open>gdev_webhook_eval\<close> job for each case of an Eval Lab data
  set, drains the queue, and writes the evidence with the digests of the three input files.
\<close>

record live_local_gdev_config =
  ll_base_url :: pystr
  ll_tenant_slug :: pystr
  ll_tenant_id :: pystr
  ll_webhook_secret_env :: pystr

record cross_project_inputs =
  xi_eval_lab_dataset_path :: path
  xi_eval_lab_report_path :: path
  xi_gdev_artifact_path :: path
  xi_candidate_id :: pystr
  xi_proof_mode :: pystr
  xi_gdev_base_url :: "pystr option"

record full_stack_proof_result =
  fs_run_id :: uuid
  fs_report_path :: path
  fs_report :: reliability_report
  fs_inputs :: cross_project_inputs
  fs_selected_case_ids :: "pystr list"

subsection \<open>The inputs\<close>

definition validate_cross_project_inputs ::
    "path \<Rightarrow> path \<Rightarrow> path \<Rightarrow> pystr \<Rightarrow> pystr \<Rightarrow> pystr option \<Rightarrow> (files, cross_project_inputs) prog" where
  "validate_cross_project_inputs dataset lab_report gdev_artifact candidate_id proof_mode gdev_base_url =
     bindM (getM (\<lambda>fs. (is_file fs dataset, is_file fs lab_report, is_file fs gdev_artifact))) (\<lambda>(d, r, g).
       if \<not> d then raiseM (FullStackProofError (''Eval Lab dataset not found: '' @ path_str dataset))
       else if \<not> r then raiseM (FullStackProofError (''Eval Lab report not found: '' @ path_str lab_report))
       else if \<not> g then raiseM (FullStackProofError (''gdev-agent artifact path not found: '' @ path_str gdev_artifact))
       else if strip candidate_id = [] then raiseM (FullStackProofError ''candidate_id is required'')
       else returnM \<lparr>xi_eval_lab_dataset_path = dataset, xi_eval_lab_report_path = lab_report,
         xi_gdev_artifact_path = gdev_artifact, xi_candidate_id = strip candidate_id, xi_proof_mode = proof_mode,
         xi_gdev_base_url = gdev_base_url\<rparr>)"

text \<open>The loop over the lines, with their numbers from 1; it stops when it has \<open>limit\<close> cases.\<close>

fun collect_cases :: "platform \<Rightarrow> path \<Rightarrow> nat \<Rightarrow> nat \<Rightarrow> items list \<Rightarrow> pystr list \<Rightarrow> exc + items list" where
  "collect_cases pf dataset_path limit line_number cases [] = Inr cases"
| "collect_cases pf dataset_path limit line_number cases (line # rest) =
     (if strip line = [] then collect_cases pf dataset_path limit (Suc line_number) cases rest
      else case loads (float_parse pf) line of
          None \<Rightarrow> Inl (FullStackProofError (''dataset line '' @ nat_digits line_number @ '' is not valid JSON: '' @ path_str dataset_path))
        | Some (JObj c) \<Rightarrow>
            if limit \<le> length (cases @ [c]) then Inr (cases @ [c])
            else collect_cases pf dataset_path limit (Suc line_number) (cases @ [c]) rest
        | Some _ \<Rightarrow> Inl (FullStackProofError (''dataset line '' @ nat_digits line_number @ '' is not a JSON object'')))"

definition load_eval_lab_cases :: "platform \<Rightarrow> path \<Rightarrow> int \<Rightarrow> (files, items list) prog" where
  "load_eval_lab_cases pf dataset_path limit =
     (if limit \<le> 0 then raiseM (FullStackProofError ''jobs must be positive'')
      else bindM (read_text dataset_path) (\<lambda>s. liftM (collect_cases pf dataset_path (nat limit) 1 [] (splitlines s))))"

definition case_id_of :: "platform \<Rightarrow> items \<Rightarrow> exc + pystr" where
  "case_id_of pf c = (let case_id = stripped_text pf (dget_none c ''id'')
     in if case_id = [] then Inl (FullStackProofError ''dataset case is missing id'') else Inr case_id)"

definition case_request :: "platform \<Rightarrow> items \<Rightarrow> exc + items" where
  "case_request pf c = (case dget_none c ''input'' of
      JObj d \<Rightarrow> Inr d
    | _ \<Rightarrow> (case (if truthy (dget_none c ''message_id'') then Inr (dget_none c ''message_id'') else map_sum id JStr (case_id_of pf c)) of
          Inl e \<Rightarrow> Inl e
        | Inr message_id \<Rightarrow> Inr (filter (\<lambda>(k, v). v \<noteq> JNull) [(''message_id'', message_id),
            (''tenant_slug'', py_or (dget_none c ''tenant_slug'') (JStr ''synthetic-eval'')),
            (''text'', py_or (dget_none c ''text'') (JStr []))])))"

definition gdev_job_payload :: "pystr \<Rightarrow> pystr \<Rightarrow> items \<Rightarrow> path \<Rightarrow> live_local_gdev_config option \<Rightarrow> items" where
  "gdev_job_payload case_id candidate_id request eval_result_path live =
     [(''case_id'', JStr case_id), (''candidate_id'', JStr candidate_id),
      (''mode'', JStr (case live of None \<Rightarrow> ''stub'' | Some _ \<Rightarrow> ''local'')), (''request'', JObj request),
      (''eval_result_path'', JStr (path_str eval_result_path))]
     @ (case live of None \<Rightarrow> [] | Some l \<Rightarrow> [(''gdev_base_url'', JStr (ll_base_url l)), (''gdev_tenant_slug'', JStr (ll_tenant_slug l)),
          (''gdev_tenant_id'', JStr (ll_tenant_id l)), (''gdev_webhook_secret_env'', JStr (ll_webhook_secret_env l))])"

subsection \<open>Submitting the cases\<close>

definition case_submission :: "uuid \<Rightarrow> uuid \<Rightarrow> pystr \<Rightarrow> items \<Rightarrow> job_submission" where
  "case_submission run i case_id payload = \<lparr>sub_job_type = ''gdev_webhook_eval'', sub_payload = payload,
     sub_idempotency_key = uuid_str run @ '':'' @ case_id, sub_timeout_seconds = 30, sub_max_retries = 1,
     sub_trace_id = ''trace-'' @ uuid_str run, sub_budget_cents = None, sub_job_id = i, sub_run_id = run\<rparr>"

definition submit_case ::
    "platform \<Rightarrow> 'r queue_api \<Rightarrow> uuid \<Rightarrow> (nat \<Rightarrow> uuid) \<Rightarrow> pystr \<Rightarrow> path \<Rightarrow> live_local_gdev_config option \<Rightarrow> nat \<times> items
      \<Rightarrow> (('r, 'e) world, unit) prog" where
  "submit_case pf q run ids candidate_id eval_result_dir live = (\<lambda>(i, c).
     bindM (liftM (case_id_of pf c)) (\<lambda>case_id.
     bindM (liftM (case_request pf c)) (\<lambda>request.
     thenM (submit_job pf q (case_submission run (ids i) case_id
         (gdev_job_payload case_id candidate_id request (path_join eval_result_dir (case_id @ ''.json'')) live)))
       (returnM ()))))"

definition submit_cases ::
    "platform \<Rightarrow> 'r queue_api \<Rightarrow> uuid \<Rightarrow> (nat \<Rightarrow> uuid) \<Rightarrow> pystr \<Rightarrow> path \<Rightarrow> live_local_gdev_config option \<Rightarrow> items list
      \<Rightarrow> (('r, 'e) world, unit) prog" where
  "submit_cases pf q run ids candidate_id eval_result_dir live cases =
     forM (enumerate 0 cases) (submit_case pf q run ids candidate_id eval_result_dir live)"

subsection \<open>The report\<close>

definition known_limit_lines :: "cross_project_inputs \<Rightarrow> pystr list" where
  "known_limit_lines inputs = (if xi_proof_mode inputs = ''full-stack-live-local''
     then [''- This proof uses local Grid execution and configured localhost gdev-agent HTTP calls.'',
       ''- Eval cases cannot define network destinations, tenant secrets, or commands; the operator supplies the local gdev-agent config.'',
       ''- Runtime Grid does not make live model calls. For reproducible local evidence, run gdev-agent in deterministic demo mode.'']
     else [''- This proof uses local deterministic Grid execution.'',
       ''- gdev-agent is represented through ready artifact paths and deterministic `gdev_webhook_eval` jobs.'',
       ''- No live model calls or non-local worker egress are enabled by default.''])"

definition render_full_stack_report :: "path \<Rightarrow> full_stack_proof_result \<Rightarrow> (files, pystr) prog" where
  "render_full_stack_report cwd result =
     bindM (portable_path cwd (xi_eval_lab_dataset_path (fs_inputs result)) ''eval-dataset'') (\<lambda>dataset.
     bindM (portable_path cwd (xi_eval_lab_report_path (fs_inputs result)) ''eval-report'') (\<lambda>lab_report.
     bindM (portable_path cwd (xi_gdev_artifact_path (fs_inputs result)) ''gdev-artifact'') (\<lambda>gdev_artifact.
     bindM (portable_path cwd (fs_report_path result) ''runtime-report'') (\<lambda>runtime_report.
     bindM (render_reliability_report cwd (fs_report result)) (\<lambda>reliability.
     returnM (join [CHR 0x0A]
       ([''# Full Stack Runtime Proof'', [], ''grid_run_id: '' @ uuid_str (fs_run_id result),
         ''candidate_id: '' @ xi_candidate_id (fs_inputs result), ''proof_mode: '' @ xi_proof_mode (fs_inputs result),
         ''eval_lab_dataset_path: '' @ dataset, ''eval_lab_report_path: '' @ lab_report, ''gdev_artifact_path: '' @ gdev_artifact,
         ''selected_cases: '' @ nat_digits (length (fs_selected_case_ids result)), [], ''## Cross-Project Links'', [],
         ''- Eval Lab quality report: `'' @ lab_report @ ''`'', ''- gdev-agent artifact path: `'' @ gdev_artifact @ ''`'',
         ''- Grid runtime report: `'' @ runtime_report @ ''`'', ''- Grid run ID: `'' @ uuid_str (fs_run_id result) @ ''`'', [],
         ''## Selected Cases'', []]
        @ map (\<lambda>i. ''- `'' @ i @ ''`'') (fs_selected_case_ids result)
        @ [[], ''## Runtime Reliability'', [], reliability, [], ''## Known Limits'', []]
        @ known_limit_lines (fs_inputs result))))))))"

definition input_config :: "surroundings \<Rightarrow> path \<Rightarrow> pystr \<Rightarrow> (files, config_value) prog" where
  "input_config sr p namespace =
     bindM (portable_path (h_cwd (sr_host sr)) p namespace) (\<lambda>s.
     bindM (file_sha256 (sr_platform sr) p) (\<lambda>digest.
     returnM (CDict [(''path'', CValue (JStr s)), (''sha256'', CValue (JStr digest))])))"

definition full_stack_config :: "surroundings \<Rightarrow> cross_project_inputs \<Rightarrow> nat \<Rightarrow> int \<Rightarrow> path \<Rightarrow> (files, config_value) prog" where
  "full_stack_config sr inputs cases workers artifact_root =
     bindM (input_config sr (xi_eval_lab_dataset_path inputs) ''eval-dataset'') (\<lambda>dataset.
     bindM (input_config sr (xi_eval_lab_report_path inputs) ''eval-report'') (\<lambda>lab_report.
     bindM (input_config sr (xi_gdev_artifact_path inputs) ''gdev-artifact'') (\<lambda>gdev_artifact.
     returnM (CDict [(''candidate_id'', CValue (JStr (xi_candidate_id inputs))), (''jobs'', CValue (JInt (int cases))),
       (''workers'', CValue (JInt workers)), (''artifact_root'', CPath artifact_root),
       (''inputs'', CDict [(''eval_lab_dataset'', dataset), (''eval_lab_report'', lab_report), (''gdev_artifact'', gdev_artifact)])]))))"

subsection \<open>The run\<close>

definition finish_full_stack ::
    "surroundings \<Rightarrow> 'r inspector \<Rightarrow> uuid \<Rightarrow> items list \<Rightarrow> cross_project_inputs \<Rightarrow> int \<Rightarrow> path \<Rightarrow> path
      \<Rightarrow> (('r, job_env) world, full_stack_proof_result) prog" where
  "finish_full_stack sr q run_id cases inputs workers artifact_root report_path =
     bindM (build_smoke_report (sr_platform sr) (sr_fromisoformat sr) run_id artifact_root (Some q) (Some workers)) (\<lambda>built.
     let report = built\<lparr>rp_title := ''Full Stack Runtime Reliability''\<rparr>
     in thenM (liftM (validate_full_stack_report report (int (length cases))))
       (bindM (mapM (\<lambda>c. liftM (case_id_of (sr_platform sr) c)) cases) (\<lambda>case_ids.
        let result = \<lparr>fs_run_id = run_id, fs_report_path = report_path, fs_report = report, fs_inputs = inputs,
              fs_selected_case_ids = case_ids\<rparr>
        in bindM (inJobFiles (render_full_stack_report (h_cwd (sr_host sr)) result)) (\<lambda>rendered_report.
           bindM (inJobFiles (full_stack_config sr inputs (length cases) workers artifact_root)) (\<lambda>config.
           thenM (inJobFiles (write_evidence_bundle (sr_platform sr) (sr_host sr) report_path rendered_report report
               (xi_proof_mode inputs) config None))
             (returnM result))))))"

definition run_full_stack_proof ::
    "surroundings \<Rightarrow> 'r inspector \<Rightarrow> uuid \<Rightarrow> (nat \<Rightarrow> uuid) \<Rightarrow> path \<Rightarrow> path \<Rightarrow> path \<Rightarrow> int \<Rightarrow> int \<Rightarrow> path \<Rightarrow> path \<Rightarrow> pystr
      \<Rightarrow> live_local_gdev_config option \<Rightarrow> (('r, job_env) world, full_stack_proof_result) run" where
  "run_full_stack_proof sr q run ids dataset lab_report gdev_artifact jobs_n workers artifact_root report_path candidate_id live =
     bindL (runL (inJobFiles (validate_cross_project_inputs dataset lab_report gdev_artifact candidate_id
         (case live of None \<Rightarrow> ''full-stack-artifact-proof'' | Some _ \<Rightarrow> ''full-stack-live-local'') (map_option ll_base_url live)))) (\<lambda>inputs.
     bindL (runL (inJobFiles (load_eval_lab_cases (sr_platform sr) (xi_eval_lab_dataset_path inputs) jobs_n))) (\<lambda>cases.
       if cases = [] then runL (raiseM (FullStackProofError ''dataset contains no runnable cases''))
       else if workers \<le> 0 then runL (raiseM (FullStackProofError ''workers must be positive''))
       else bindL (runL (submit_cases (sr_platform sr) (queue_of q) run ids (xi_candidate_id inputs)
              (path_join (path_join (path_parent report_path) ''eval-results'') (xi_candidate_id inputs)) live cases)) (\<lambda>_.
            bindL (drain (worker_pool sr (queue_of q) artifact_root ''full-stack-worker-'' workers)) (\<lambda>_.
            runL (finish_full_stack sr q run cases inputs workers artifact_root report_path)))))"

definition run_full_stack_from_urls ::
    "surroundings \<Rightarrow> 'r inspector \<Rightarrow> pystr \<Rightarrow> pystr \<Rightarrow> uuid \<Rightarrow> (nat \<Rightarrow> uuid) \<Rightarrow> path \<Rightarrow> path \<Rightarrow> path \<Rightarrow> int \<Rightarrow> int \<Rightarrow> path \<Rightarrow> path \<Rightarrow> pystr
      \<Rightarrow> bool \<Rightarrow> live_local_gdev_config option \<Rightarrow> (('r, job_env) world, full_stack_proof_result) run" where
  "run_full_stack_from_urls sr redis ident database_url run ids dataset lab_report gdev_artifact jobs_n workers artifact_root report_path
       candidate_id clean_state live =
     bindL (runL (clean_state_of sr database_url clean_state)) (\<lambda>_.
       run_full_stack_proof sr (named_queue ''full-stack-jobs'' ''full-stack-workers'' ident redis) run ids dataset lab_report gdev_artifact
         jobs_n workers artifact_root report_path candidate_id live)"

definition run_full_stack_live_local_from_urls ::
    "surroundings \<Rightarrow> 'r inspector \<Rightarrow> pystr \<Rightarrow> pystr \<Rightarrow> uuid \<Rightarrow> (nat \<Rightarrow> uuid) \<Rightarrow> path \<Rightarrow> path \<Rightarrow> path \<Rightarrow> int \<Rightarrow> int \<Rightarrow> path \<Rightarrow> path \<Rightarrow> pystr
      \<Rightarrow> pystr \<Rightarrow> pystr \<Rightarrow> pystr \<Rightarrow> pystr \<Rightarrow> bool \<Rightarrow> (('r, job_env) world, full_stack_proof_result) run" where
  "run_full_stack_live_local_from_urls sr redis ident database_url run ids dataset lab_report gdev_artifact jobs_n workers artifact_root
       report_path candidate_id gdev_base_url gdev_tenant_slug gdev_tenant_id gdev_webhook_secret_env clean_state =
     run_full_stack_from_urls sr redis ident database_url run ids dataset lab_report gdev_artifact jobs_n workers artifact_root report_path
       candidate_id clean_state (Some \<lparr>ll_base_url = gdev_base_url, ll_tenant_slug = gdev_tenant_slug, ll_tenant_id = gdev_tenant_id,
         ll_webhook_secret_env = gdev_webhook_secret_env\<rparr>)"

text \<open>The two commands catch two classes of exceptions only.\<close>

definition full_stack_caught :: "exc \<Rightarrow> bool" where
  "full_stack_caught e \<longleftrightarrow> (case e of FullStackProofError _ \<Rightarrow> True | UnsafeDatabaseResetError _ \<Rightarrow> True | _ \<Rightarrow> False)"

definition full_stack_lines :: "full_stack_proof_result \<Rightarrow> pystr list" where
  "full_stack_lines r = [''run_id: '' @ uuid_str (fs_run_id r), ''jobs: '' @ py_str_int (rp_submitted_jobs (fs_report r)),
     ''completed: '' @ py_str_int (count_of (rp_lifecycle_counts (fs_report r)) ''completed''),
     ''report: '' @ path_str (fs_report_path r)]"

definition full_stack_command ::
    "(exc \<Rightarrow> pystr) \<Rightarrow> surroundings \<Rightarrow> 'r inspector \<Rightarrow> pystr \<Rightarrow> pystr \<Rightarrow> uuid \<Rightarrow> (nat \<Rightarrow> uuid) \<Rightarrow> path \<Rightarrow> path \<Rightarrow> path \<Rightarrow> int \<Rightarrow> int
      \<Rightarrow> pystr \<Rightarrow> path \<Rightarrow> path \<Rightarrow> bool \<Rightarrow> ('r, job_env) world \<Rightarrow> (command_outcome \<times> ('r, job_env) world) option" where
  "full_stack_command other sr redis ident database_url run ids dataset lab_report gdev_artifact jobs_n workers candidate_id artifact_root
       report_path reset_local_database =
     loop_command (reported other full_stack_caught ''full-stack proof failed'' full_stack_lines)
       (run_full_stack_from_urls sr redis ident database_url run ids dataset lab_report gdev_artifact jobs_n workers artifact_root
         report_path candidate_id reset_local_database None)"

definition full_stack_live_local_command ::
    "(exc \<Rightarrow> pystr) \<Rightarrow> surroundings \<Rightarrow> 'r inspector \<Rightarrow> pystr \<Rightarrow> pystr \<Rightarrow> uuid \<Rightarrow> (nat \<Rightarrow> uuid) \<Rightarrow> path \<Rightarrow> path \<Rightarrow> path \<Rightarrow> pystr \<Rightarrow> pystr
      \<Rightarrow> pystr \<Rightarrow> pystr \<Rightarrow> int \<Rightarrow> int \<Rightarrow> pystr \<Rightarrow> path \<Rightarrow> path \<Rightarrow> bool \<Rightarrow> ('r, job_env) world
      \<Rightarrow> (command_outcome \<times> ('r, job_env) world) option" where
  "full_stack_live_local_command other sr redis ident database_url run ids dataset lab_report gdev_artifact gdev_base_url gdev_tenant_slug
       gdev_tenant_id gdev_webhook_secret_env jobs_n workers candidate_id artifact_root report_path reset_local_database =
     loop_command (reported other full_stack_caught ''full-stack live-local proof failed'' full_stack_lines)
       (run_full_stack_live_local_from_urls sr redis ident database_url run ids dataset lab_report gdev_artifact jobs_n workers
         artifact_root report_path candidate_id gdev_base_url gdev_tenant_slug gdev_tenant_id gdev_webhook_secret_env
         reset_local_database)"

subsection \<open>The submission of the cases\<close>

context job_queue
begin

text \<open>A submission stores a job or finds the stored one; when it returns, the job has a message.\<close>

lemma submit_job_submitted:
  assumes "grid_ok (w_db w) (view (w_redis w))" "thenM (submit_job pf q sub) (returnM ()) w = (r, w')"
  shows "submitted (state_of w) (state_of w') (\<not> isl r)"
proof (cases "sub_idempotency_key sub \<in> job_idempotency_key ` set (jobs (w_db w))")
  case False
  from submit_job_enters [OF assms(1) False assms(2)] show ?thesis
    unfolding enters_def submitted_def by auto
next
  case True
  have schema: "schema_ok (w_db w)" using assms(1) by (simp add: grid_ok_def db_inv_def)
  obtain j where j: "j \<in> set (jobs (w_db w))" "job_idempotency_key j = sub_idempotency_key sub" using True by auto
  note found = create_job_existing [OF schema this, of pf]
  show ?thesis
  proof (cases "job_payload_hash j = submission_payload_hash pf sub")
    case False
    with found assms(2) have "w' = w" by (auto simp: submit_job_def thenM_eq bindM_eq inDb_eq)
    with assms(1) show ?thesis by (simp add: submitted_refl)
  next
    case True
    with found assms(2) obtain r1 where p: "inRedis (q_publish_job q (submission_message j)) w = (r1, w')"
      by (auto simp: submit_job_def thenM_eq bindM_eq inDb_eq split: prod.splits sum.splits)
    note moves = publish_moves [OF assms(1) p]
    show ?thesis unfolding submitted_def fst_conv snd_conv using moves(1,2) by simp
  qed
qed

lemma submit_case_submitted:
  assumes "grid_ok (w_db w) (view (w_redis w))" "submit_case pf q run ids cand dir live ic w = (r, w')"
  shows "submitted (state_of w) (state_of w') (\<not> isl r)"
proof -
  obtain i c where ic: "ic = (i, c)" by (cases ic)
  have "w' = w \<and> isl r \<or> (\<exists>sub. thenM (submit_job pf q sub) (returnM ()) w = (r, w'))"
    using assms(2) unfolding ic submit_case_def by (auto simp: bindM_eq split: sum.splits)
  with submit_job_submitted [OF assms(1)] submitted_refl assms(1) show ?thesis by auto
qed

lemma submit_cases_submitted:
  assumes "grid_ok (w_db w) (view (w_redis w))" "forM cs (submit_case pf q run ids cand dir live) w = (r, w')"
  shows "submitted (state_of w) (state_of w') (\<not> isl r)"
  using assms
proof (induction cs arbitrary: w)
  case Nil
  then show ?case by (auto intro: submitted_refl)
next
  case (Cons c cs)
  obtain r1 w1 where one: "submit_case pf q run ids cand dir live c w = (r1, w1)"
    by (cases "submit_case pf q run ids cand dir live c w")
  note first = submit_case_submitted [OF Cons.prems(1) one]
  show ?case
  proof (cases r1)
    case (Inl e)
    with one Cons.prems(2) have "w' = w1" "isl r" by (auto simp: thenM_eq)
    with first Inl show ?thesis by simp
  next
    case (Inr u)
    with one Cons.prems(2) have rest: "forM cs (submit_case pf q run ids cand dir live) w1 = (r, w')" by (simp add: thenM_eq)
    have ok: "grid_ok (w_db w1) (view (w_redis w1))" using first by (simp add: submitted_def moved_on_def)
    show ?thesis using submitted_trans [OF _ Cons.IH [OF ok rest]] first Inr by simp
  qed
qed

end

subsection \<open>A full-stack run ends\<close>

lemma inJobFiles_frame: "inJobFiles m w = (r, w') \<Longrightarrow> w_db w' = w_db w \<and> w_redis w' = w_redis w"
  by (auto simp: inJobFiles_def inEnv_eq split: prod.splits)

lemma full_stack_valid:
  assumes "validate_full_stack_report r n = Inr ()" "rp_artifact_integrity r = Some ai"
  shows "rp_submitted_jobs r = n" "count_of (rp_lifecycle_counts r) ''completed'' = n" "rp_duplicate_finalization_count r = 0"
    "int (ai_valid_count ai) = n"
  using assms by (simp_all add: validate_full_stack_report_def Let_def error_if_def split: if_split_asm)

lemma finish_full_stack_truth:
  assumes "finish_full_stack sr q run cases inputs workers artifact_root report_path w2 = (Inr res, w')"
    and "db_inv (w_db w2)" "events_own_run (w_db w2)"
  shows "fs_run_id res = run" "w_db w' = w_db w2" "evidence_at sr report_path w'" "length (fs_selected_case_ids res) = length cases"
    and "length (run_jobs run (w_db w2)) = length cases"
    and "j \<in> set (run_jobs run (w_db w2)) \<Longrightarrow> job_status j = ''completed'' \<and> job_id j \<in> finalized_ids (w_db w2)
      \<and> has_intact_artifact (sr_platform sr) (sr_fromisoformat sr) run w2 (job_id j)"
proof -
  let ?title = "rp_title_update (\<lambda>_. ''Full Stack Runtime Reliability'')"
  obtain built w3 ids w4 rendered w5 config w6 b where
    build: "build_smoke_report (sr_platform sr) (sr_fromisoformat sr) run artifact_root (Some q) (Some workers) w2 = (Inr built, w3)"
    and valid: "validate_full_stack_report (?title built) (int (length cases)) = Inr ()"
    and ids: "mapM (\<lambda>c. liftM (case_id_of (sr_platform sr) c)) cases w3 = (Inr ids, w4)"
    and rendered: "inJobFiles (render_full_stack_report (h_cwd (sr_host sr)) res) w4 = (Inr rendered, w5)"
    and config: "inJobFiles (full_stack_config sr inputs (length cases) workers artifact_root) w5 = (Inr config, w6)"
    and evidence: "inJobFiles (write_evidence_bundle (sr_platform sr) (sr_host sr) report_path rendered (?title built) (xi_proof_mode inputs)
        config None) w6 = (Inr b, w')"
    and result: "fs_run_id res = run" "fs_selected_case_ids res = ids"
    using assms(1) by (auto simp: finish_full_stack_def bindM_eq thenM_eq Let_def split: prod.splits sum.splits)
  have w4: "w4 = w3 \<and> length ids = length cases"
    using ids by (induction cases arbitrary: ids) (auto simp: bindM_eq split: prod.splits sum.splits)
  note built = report_built [OF build]
  have ai: "rp_artifact_integrity (?title built) = rp_artifact_integrity built" by simp
  note checked = full_stack_valid [OF valid ai [THEN trans, OF built(4)]]
  have schema: "schema_ok (w_db w2)" and life: "lifecycle_ok (w_db w2)" using assms(2) by (simp_all add: db_inv_def)
  note truth = report_complete [OF build _ _ _ _ schema assms(3), of "int (length cases)"]
  have whole: "int (length (run_jobs run (w_db w2))) = int (length cases)
      \<and> (\<forall>j \<in> set (run_jobs run (w_db w2)). job_status j = ''completed''
          \<and> has_intact_artifact (sr_platform sr) (sr_fromisoformat sr) run w2 (job_id j))"
    using truth checked built(4) by simp
  show "fs_run_id res = run" by (rule result)
  show "w_db w' = w_db w2"
    using built(5) w4 inJobFiles_frame [OF rendered] inJobFiles_frame [OF config] inJobFiles_frame [OF evidence] by simp
  show "evidence_at sr report_path w'"
    using evidence by (auto simp: evidence_at_def inJobFiles_def inEnv_eq inFiles_def onM_def dest: write_bundle_verified split: prod.splits)
  show "length (fs_selected_case_ids res) = length cases" using result(2) w4 by simp
  show "length (run_jobs run (w_db w2)) = length cases" using whole by (simp only: of_nat_eq_iff)
  assume j: "j \<in> set (run_jobs run (w_db w2))"
  with whole have "job_status j = ''completed''" by blast
  moreover from this have "job_id j \<in> finalized_ids (w_db w2)"
    by (intro terminal_finalized [OF life]) (use j in \<open>auto simp: run_jobs_def TERMINAL_STATUSES_def\<close>)
  ultimately show "job_status j = ''completed'' \<and> job_id j \<in> finalized_ids (w_db w2)
      \<and> has_intact_artifact (sr_platform sr) (sr_fromisoformat sr) run w2 (job_id j)" using whole j by blast
qed




text \<open>
  An identifier of the data set that is an absolute path is where the result of the case is written: the
  directory of the report does not bound it.
\<close>

lemma absolute_case_id_escapes:
  "is_absolute (path_of (c @ ''.json'')) \<Longrightarrow> path_join dir (c @ ''.json'') = path_of (c @ ''.json'')"
  by (simp add: path_join_def is_absolute_def Let_def)

end
