(* ===== verification/Rollup.thy ===== *)
theory Rollup
  imports Budget
begin

section \<open>Cost rollup\<close>

text \<open>
  \<open>cost/rollup.py\<close>: the totals per run and per job of the cost telemetry, the report and the check
  against limits. The \<open>defaultdict\<close> of totals is an association list, and \<open>sorted(totals.items())\<close>
  orders it by its keys, which are distinct.
\<close>

type_synonym totals = "(pystr \<times> decimal) list"

definition add_total :: "pystr \<Rightarrow> decimal \<Rightarrow> totals \<Rightarrow> totals" where
  "add_total k d ts = AList.update k (dec_add (case map_of ts k of None \<Rightarrow> dec_zero | Some t \<Rightarrow> t) d) ts"

definition totals_by :: "(cost_telemetry_record \<Rightarrow> pystr) \<Rightarrow> cost_telemetry_record list \<Rightarrow> totals" where
  "totals_by key records = fold (\<lambda>r. add_total (key r) (ct_estimated_cost_usd r)) records []"

definition sorted_items :: "totals \<Rightarrow> totals" where
  "sorted_items ts = sort_key fst ts"

definition total_line :: "pystr \<times> decimal \<Rightarrow> pystr" where
  "total_line p = ''- `'' @ fst p @ ''`: $'' @ dec_str (snd p)"

definition render_cost_rollup :: "cost_telemetry_record list \<Rightarrow> pystr list \<Rightarrow> pystr" where
  "render_cost_rollup records errors = join [CHR 0x0A]
     ([''# AI Cost Rollup'', [], ''## Per-Run Totals'', []]
      @ map total_line (sorted_items (totals_by ct_run_id records))
      @ [[], ''## Per-Job Totals'', []]
      @ map total_line (sorted_items (totals_by ct_job_id records))
      @ (if errors = [] then [] else [[], ''## Strict Check'', []] @ map (\<lambda>e. ''- violation: '' @ e) errors)
      @ [[]])"

definition total_error :: "decimal \<Rightarrow> decimal \<Rightarrow> pystr" where
  "total_error amount limit = ''total cost $'' @ dec_str amount @ '' exceeds limit $'' @ dec_str limit"

definition run_error :: "pystr \<Rightarrow> decimal \<Rightarrow> decimal \<Rightarrow> pystr" where
  "run_error run amount limit = ''run '' @ run @ '' cost $'' @ dec_str amount @ '' exceeds limit $'' @ dec_str limit"

definition validate_cost_rollup ::
    "cost_telemetry_record list \<Rightarrow> decimal option \<Rightarrow> decimal option \<Rightarrow> pystr list" where
  "validate_cost_rollup records max_total_cost max_run_cost =
     (let total_cost = dec_sum dec_zero (map ct_estimated_cost_usd records)
      in (case max_total_cost of None \<Rightarrow> []
          | Some limit \<Rightarrow> if dec_less limit total_cost then [total_error total_cost limit] else [])
       @ (case max_run_cost of None \<Rightarrow> []
          | Some limit \<Rightarrow> map (\<lambda>(run, amount). run_error run amount limit)
              (filter (\<lambda>(run, amount). dec_less limit amount) (sorted_items (totals_by ct_run_id records)))))"

subsection \<open>What the totals are\<close>

definition cost_of :: "(cost_telemetry_record \<Rightarrow> pystr) \<Rightarrow> pystr \<Rightarrow> cost_telemetry_record list \<Rightarrow> rat" where
  "cost_of key k records = sum_list (map (\<lambda>r. dec_val (ct_estimated_cost_usd r)) (filter (\<lambda>r. key r = k) records))"

definition total_at :: "totals \<Rightarrow> pystr \<Rightarrow> rat" where
  "total_at ts k = (case map_of ts k of None \<Rightarrow> 0 | Some t \<Rightarrow> dec_val t)"

lemma total_at_add: "total_at (add_total k d ts) k' = total_at ts k' + (if k' = k then dec_val d else 0)"
  by (simp add: total_at_def add_total_def update_conv split: option.splits)

lemma total_at_fold:
  "total_at (fold (\<lambda>r. add_total (key r) (ct_estimated_cost_usd r)) records ts) k = total_at ts k + cost_of key k records"
  by (induction records arbitrary: ts) (auto simp: total_at_add cost_of_def)

lemma total_at_totals: "total_at (totals_by key records) k = cost_of key k records"
  by (simp add: totals_by_def total_at_fold) (simp add: total_at_def)

lemma dom_totals_fold:
  "fst ` set (fold (\<lambda>r. add_total (key r) (ct_estimated_cost_usd r)) records ts) = fst ` set ts \<union> key ` set records"
  by (induction records arbitrary: ts) (auto simp: add_total_def dom_update)

lemma distinct_totals_fold:
  "distinct (map fst ts) \<Longrightarrow> distinct (map fst (fold (\<lambda>r. add_total (key r) (ct_estimated_cost_usd r)) records ts))"
  by (induction records arbitrary: ts) (auto simp: add_total_def distinct_update)

lemma totals_by_keys: "fst ` set (totals_by key records) = key ` set records"
  and distinct_totals: "distinct (map fst (totals_by key records))"
  by (simp_all add: totals_by_def dom_totals_fold distinct_totals_fold)

lemma totals_by_val: "(k, t) \<in> set (totals_by key records) \<Longrightarrow> dec_val t = cost_of key k records"
  using total_at_totals [of key records k] map_of_is_SomeI [OF distinct_totals]
  by (fastforce simp: total_at_def)

subsection \<open>Properties\<close>


lemma sorted_items_sorted: "sorted (map fst (sorted_items ts))" "set (sorted_items ts) = set ts"
  by (simp_all add: sorted_items_def)

end
