(* ===== verification/Telemetry.thy ===== *)
theory Telemetry
  imports Rollup Formats
begin

section \<open>The file of the cost telemetry\<close>

text \<open>
  \<open>append_jsonl\<close> and \<open>load_jsonl\<close> of \<open>cost/telemetry.py\<close> and \<open>write_cost_rollup_report\<close> of
  \<open>cost/rollup.py\<close>: one line of JSON for each record, and the report over the records read back. The amounts
  travel as the text of a \<open>Decimal\<close>.
\<close>

subsection \<open>Reading an amount\<close>

text \<open>
  \<open>Decimal(text)\<close> for a finite numeral: spaces around it and underscores in it are dropped. \<open>None\<close> is any other
  text. The exponents that the C library refuses and the sign of a zero are not modelled.
\<close>

definition digits_value :: "pystr \<Rightarrow> nat" where
  "digits_value ds = (case parse_digits 10 0 False ds of Some n \<Rightarrow> n | None \<Rightarrow> 0)"

definition unsigned_tail :: "pystr \<Rightarrow> bool \<times> pystr" where
  "unsigned_tail t = (starts_with t ''-'', if starts_with t ''-'' \<or> starts_with t ''+'' then drop 1 t else t)"

definition point_digits :: "pystr \<Rightarrow> pystr \<times> pystr" where
  "point_digits r = (case r of [] \<Rightarrow> ([], [])
     | c # cs \<Rightarrow> if c = CHR ''.'' then (takeWhile is_digit cs, dropWhile is_digit cs) else ([], r))"

definition exponent_value :: "pystr \<Rightarrow> int option" where
  "exponent_value r = (case r of [] \<Rightarrow> Some 0
     | c # cs \<Rightarrow> if c \<noteq> CHR ''e'' \<and> c \<noteq> CHR ''E'' then None
         else (case unsigned_tail cs of (neg, ds) \<Rightarrow>
           if ds = [] \<or> \<not> list_all is_digit ds then None
           else Some (if neg then - int (digits_value ds) else int (digits_value ds))))"

definition decimal_of_text :: "pystr \<Rightarrow> decimal option" where
  "decimal_of_text s = (case unsigned_tail (filter (\<lambda>c. c \<noteq> CHR ''_'') (strip s)) of (neg, u) \<Rightarrow>
     let ip = takeWhile is_digit u in
     case point_digits (dropWhile is_digit u) of (fd, r) \<Rightarrow>
       if ip = [] \<and> fd = [] then None
       else map_option (\<lambda>e. let n = int (digits_value (ip @ fd)) in Dec (if neg then - n else n) (e - int (length fd)))
         (exponent_value r))"

lemma digits_value_zeros: "digits_value (replicate k CHR ''0'' @ nat_digits n) = n"
proof -
  obtain ds where ds: "nat_digits n = map digit_char ds" "\<forall>d \<in> set ds. d < 10" "ds \<noteq> []" "horner 10 0 ds = n"
    using nat_digits_ex by blast
  have zeros: "replicate k CHR ''0'' = map digit_char (replicate k 0)" by (simp add: digit_chars)
  have "horner 10 0 (replicate k 0) = 0" by (induction k) simp_all
  then have horner: "horner 10 0 (replicate k 0 @ ds) = horner 10 0 ds" by simp
  show ?thesis
    unfolding digits_value_def zeros ds(1) map_append [symmetric]
    using ds(2-4) horner by (subst parse_digits_digits) auto
qed

lemma digits_value_nat [simp]: "digits_value (nat_digits n) = n"
  using digits_value_zeros [of 0 n] by simp

lemma is_digit_nat: "list_all is_digit (nat_digits n)" "nat_digits n \<noteq> []"
  using nat_digits_head [of n] by (auto simp: list_all_iff)

lemma is_digit_safe: "is_digit c \<Longrightarrow> \<not> is_space c \<and> c \<noteq> CHR ''_'' \<and> c \<noteq> CHR ''-'' \<and> c \<noteq> CHR ''+'' \<and> c \<noteq> CHR ''.''
    \<and> c \<noteq> CHR ''E'' \<and> c \<noteq> CHR ''e''"
  by (auto simp: is_digit_def digit_val_def is_space_def Let_def split: if_splits)

lemma digits_plain: "list_all is_digit ds \<Longrightarrow> c \<in> set ds \<Longrightarrow> \<not> is_space c \<and> c \<noteq> CHR ''_''"
  using is_digit_safe by (simp add: list_all_iff)

lemma unsigned_digits: "ds = [] \<or> is_digit (hd ds) \<Longrightarrow> unsigned_tail ds = (False, ds)"
  by (cases ds) (auto simp: unsigned_tail_def dest: is_digit_safe)

lemma unsigned_minus: "unsigned_tail (CHR ''-'' # ds) = (True, ds)"
  by (simp add: unsigned_tail_def)

lemma unsigned_plus: "unsigned_tail (CHR ''+'' # ds) = (False, ds)"
  by (simp add: unsigned_tail_def)

lemma exponent_value_int: "exponent_value (CHR ''E'' # (if 0 \<le> k then ''+'' else []) @ py_str_int k) = Some k"
proof (cases "0 \<le> k")
  case True
  then show ?thesis using is_digit_nat [of "nat k"]
    by (simp add: exponent_value_def unsigned_plus py_str_int_def)
next
  case False
  then show ?thesis using is_digit_nat [of "nat (- k)"]
    by (simp add: exponent_value_def unsigned_minus py_str_int_def)
qed

text \<open>A sign, digits, an optional point with digits, and an exponent\<close>

lemma decimal_of_parts:
  assumes "ip \<noteq> []" "list_all is_digit ip" "list_all is_digit fd"
    and "r = [] \<or> hd r = CHR ''E''" "exponent_value r = Some e"
    and "\<forall>c \<in> set r. \<not> is_space c \<and> c \<noteq> CHR ''_''"
  shows "decimal_of_text ((if neg then ''-'' else []) @ ip @ (if fd = [] then [] else CHR ''.'' # fd) @ r)
     = Some (Dec (if neg then - int (digits_value (ip @ fd)) else int (digits_value (ip @ fd))) (e - int (length fd)))"
proof -
  let ?u = "ip @ (if fd = [] then [] else CHR ''.'' # fd) @ r"
  let ?t = "(if neg then ''-'' else []) @ ?u"
  have "set ?t \<subseteq> {CHR ''-'', CHR ''.''} \<union> set ip \<union> set fd \<union> set r"
    by (cases neg; cases "fd = []"; simp) blast+
  moreover have "\<not> is_space CHR ''-''" "\<not> is_space CHR ''.''" by (simp_all add: is_space_def)
  ultimately have safe: "\<forall>c \<in> set ?t. \<not> is_space c \<and> c \<noteq> CHR ''_''"
    using digits_plain [OF assms(2)] digits_plain [OF assms(3)] assms(6) by blast
  then have "strip ?t = ?t" by (simp add: strip_as_strip_chars strip_no_space)
  moreover have "filter (\<lambda>c. c \<noteq> CHR ''_'') ?t = ?t" using safe by (intro filter_True) blast
  moreover have "unsigned_tail ?t = (neg, ?u)"
  proof (cases neg)
    case True
    then show ?thesis by (simp add: unsigned_minus)
  next
    case False
    have "is_digit (hd ?u)" using assms(1,2) by (cases ip) auto
    with False show ?thesis using unsigned_digits [of ?u] by simp
  qed
  moreover have stop: "\<not> is_digit c" if "r = c # cs" for c cs
    using assms(4) that by (auto simp: is_digit_def digit_val_def)
  have r: "takeWhile is_digit r = []" "dropWhile is_digit r = r" using stop by (cases r; simp)+
  have "takeWhile is_digit ?u = ip" "dropWhile is_digit ?u = (if fd = [] then [] else CHR ''.'' # fd) @ r"
    using assms(2) r by (auto simp: takeWhile_append2 dropWhile_append2 list_all_iff is_digit_def digit_val_def)
  moreover have "point_digits ((if fd = [] then [] else CHR ''.'' # fd) @ r) = (fd, r)"
    using assms(3,4) r by (cases r) (auto simp: point_digits_def takeWhile_append2 dropWhile_append2 list_all_iff)
  ultimately show ?thesis using assms(1,5) by (simp add: decimal_of_text_def Let_def)
qed

lemma dec_eqI: "n = nat \<bar>dec_coeff d\<bar> \<Longrightarrow> k = dec_exp d \<Longrightarrow> Dec (if dec_coeff d < 0 then - int n else int n) k = d"
  by (cases d) auto

lemma decimal_of_str: "decimal_of_text (dec_str d) = Some d"
proof -
  let ?ds = "nat_digits (nat \<bar>dec_coeff d\<bar>)" and ?e = "dec_exp d" and ?neg = "dec_coeff d < 0"
  let ?n = "int (length ?ds)"
  let ?adj = "?n + ?e - 1"
  obtain c cs where ds: "?ds = c # cs" using is_digit_nat(2) by (cases ?ds) auto
  note dig = is_digit_nat [of "nat \<bar>dec_coeff d\<bar>"]
  have num: "digits_value (replicate k CHR ''0'' @ ?ds) = nat \<bar>dec_coeff d\<bar>" for k by (rule digits_value_zeros)
  consider (int) "?e = 0" "- 6 \<le> ?adj" | (point) "?e < 0" "- 6 \<le> ?adj" "0 < ?n + ?e"
    | (small) "?e < 0" "- 6 \<le> ?adj" "?n + ?e \<le> 0" | (sci) "\<not> (?e \<le> 0 \<and> - 6 \<le> ?adj)" by linarith
  then show ?thesis
  proof cases
    case int
    then have "dec_str d = (if ?neg then ''-'' else []) @ ?ds @ (if [] = [] then [] else CHR ''.'' # []) @ []"
      by (simp add: dec_str_def Let_def)
    with decimal_of_parts [of ?ds "[]" "[]" 0 ?neg] dig int show ?thesis
      by (simp add: exponent_value_def dec_eqI)
  next
    case point
    let ?k = "nat (?n + ?e)"
    have k: "0 < ?k" "?k < length ?ds" using point by linarith+
    then have fd: "drop ?k ?ds \<noteq> []" "take ?k ?ds \<noteq> []" using ds by auto
    have len: "- int (length (drop ?k ?ds)) = ?e" using point k by simp
    have all: "list_all is_digit (take ?k ?ds)" "list_all is_digit (drop ?k ?ds)"
      using dig(1) by (metis append_take_drop_id list_all_append)+
    have shown: "dec_str d = (if ?neg then ''-'' else []) @ take ?k ?ds
        @ (if drop ?k ?ds = [] then [] else CHR ''.'' # drop ?k ?ds) @ []"
      using point fd unfolding dec_str_def Let_def by simp
    have "decimal_of_text (dec_str d) = Some (Dec (if ?neg then - int (digits_value (take ?k ?ds @ drop ?k ?ds))
        else int (digits_value (take ?k ?ds @ drop ?k ?ds))) (0 - int (length (drop ?k ?ds))))"
      unfolding shown by (rule decimal_of_parts) (use fd all in \<open>simp_all add: exponent_value_def\<close>)
    also have "\<dots> = Some d" using len by (intro arg_cong [where f = Some] dec_eqI) simp_all
    finally show ?thesis .
  next
    case small
    let ?z = "replicate (nat (- (?n + ?e))) CHR ''0''"
    have zero: "list_all is_digit ''0''" "list_all is_digit ?z" by (simp_all add: is_digit_def digit_val_def list_all_iff)
    have shown: "dec_str d = (if ?neg then ''-'' else []) @ ''0'' @ (if ?z @ ?ds = [] then [] else CHR ''.'' # ?z @ ?ds) @ []"
      using small ds unfolding dec_str_def Let_def by simp
    have "decimal_of_text (dec_str d) = Some (Dec (if ?neg then - int (digits_value (''0'' @ ?z @ ?ds))
        else int (digits_value (''0'' @ ?z @ ?ds))) (0 - int (length (?z @ ?ds))))"
      unfolding shown by (rule decimal_of_parts) (use zero dig in \<open>simp_all add: exponent_value_def\<close>)
    also have "\<dots> = Some d"
      using num [of "Suc (nat (- (?n + ?e)))"] small by (intro arg_cong [where f = Some] dec_eqI) simp_all
    finally show ?thesis .
  next
    case sci
    let ?r = "CHR ''E'' # (if 0 \<le> ?adj then ''+'' else []) @ py_str_int ?adj"
    have head: "(case ?ds of [] \<Rightarrow> [] | c # cs \<Rightarrow> c # (if cs = [] then [] else CHR ''.'' # cs)) =
        [c] @ (if cs = [] then [] else CHR ''.'' # cs)" by (simp add: ds)
    from sci have "(?e \<le> 0 \<and> - 6 \<le> ?adj) = False" by simp
    then have shown: "dec_str d = (if ?neg then ''-'' else []) @ [c] @ (if cs = [] then [] else CHR ''.'' # cs) @ ?r"
      unfolding dec_str_def Let_def by (simp only: if_False head append_assoc append_Cons append_Nil)
    have "set ?r \<subseteq> {CHR ''E'', CHR ''+'', CHR ''-''} \<union> set (nat_digits (nat \<bar>?adj\<bar>))"
      by (cases "0 \<le> ?adj") (simp_all add: py_str_int_def subset_insertI2)
    moreover have "\<not> is_space CHR ''E''" "\<not> is_space CHR ''+''" "\<not> is_space CHR ''-''" by (simp_all add: is_space_def)
    ultimately have r: "\<forall>x \<in> set ?r. \<not> is_space x \<and> x \<noteq> CHR ''_''"
      using digits_plain [OF is_digit_nat(1)] by blast
    have "decimal_of_text (dec_str d) = Some (Dec (if ?neg then - int (digits_value ([c] @ cs)) else int (digits_value ([c] @ cs)))
        (?adj - int (length cs)))"
      unfolding shown by (rule decimal_of_parts) (use dig ds r exponent_value_int [of ?adj] in simp_all)
    also have "\<dots> = Some d" using num [of 0] ds by (intro arg_cong [where f = Some] dec_eqI) simp_all
    finally show ?thesis .
  qed
qed


subsection \<open>One line for each record\<close>

text \<open>\<open>path.open("a")\<close> and \<open>write\<close>: the text is put at the end of the file, which is made when it is missing.\<close>

definition append_text :: "path \<Rightarrow> pystr \<Rightarrow> (files, unit) prog" where
  "append_text p s = (\<lambda>fs. write_bytes p ((case node_at fs p of Some (File b) \<Rightarrow> b | _ \<Rightarrow> []) @ utf8_encode s) fs)"

definition telemetry_line :: "platform \<Rightarrow> cost_telemetry_record \<Rightarrow> pystr" where
  "telemetry_line pf r = dump_json default_style (float_repr pf) 0 (JObj (cost_to_json_dict r))"

definition append_jsonl :: "platform \<Rightarrow> path \<Rightarrow> cost_telemetry_record \<Rightarrow> (files, unit) prog" where
  "append_jsonl pf p r = thenM (mkdir_parents (path_parent p)) (append_text p (telemetry_line pf r @ [CHR 0x0A]))"

text \<open>
  \<open>Decimal(v)\<close> of a JSON value. A float is converted exactly. What a list and the texts of infinities and of
  no number give is a parameter.
\<close>

fun log2_floor :: "nat \<Rightarrow> nat" where
  "log2_floor n = (if n \<le> 1 then 0 else Suc (log2_floor (n div 2)))"

declare log2_floor.simps [simp del]

definition decimal_of_float :: "rat \<Rightarrow> decimal" where
  "decimal_of_float q = (case quotient_of q of (n, d) \<Rightarrow> let k = log2_floor (nat d) in Dec (n * 5 ^ k) (- int k))"

definition decimal_of_json :: "(json \<Rightarrow> exc + decimal) \<Rightarrow> json \<Rightarrow> exc + decimal" where
  "decimal_of_json other v = (case v of
     JStr s \<Rightarrow> (case decimal_of_text s of Some d \<Rightarrow> Inr d | None \<Rightarrow> other v)
   | JInt i \<Rightarrow> Inr (Dec i 0)
   | JBool b \<Rightarrow> Inr (Dec (if b then 1 else 0) 0)
   | JFloat q \<Rightarrow> Inr (decimal_of_float q)
   | JNull \<Rightarrow> Inl (TypeError ''conversion from NoneType to Decimal is not supported'')
   | JObj _ \<Rightarrow> Inl (TypeError ''conversion from dict to Decimal is not supported'')
   | _ \<Rightarrow> other v)"

text \<open>
  \<open>data[k]\<close> kept as it is, \<open>int(data[k])\<close> and \<open>Decimal(data[k])\<close>. The fields that are kept are texts in every
  file the program writes; another value is kept as its \<open>str\<close>.
\<close>

definition telemetry_text :: "platform \<Rightarrow> items \<Rightarrow> pystr \<Rightarrow> ('s, pystr) prog" where
  "telemetry_text pf d k = (case dget d k of None \<Rightarrow> raiseM (KeyError k) | Some v \<Rightarrow> returnM (py_str (float_repr pf) v))"

definition telemetry_int :: "items \<Rightarrow> pystr \<Rightarrow> ('s, int) prog" where
  "telemetry_int d k = (case dget d k of None \<Rightarrow> raiseM (KeyError k) | Some v \<Rightarrow> liftM (int_of_json v))"

definition telemetry_amount :: "(json \<Rightarrow> exc + decimal) \<Rightarrow> items \<Rightarrow> pystr \<Rightarrow> ('s, decimal) prog" where
  "telemetry_amount other d k = (case dget d k of None \<Rightarrow> raiseM (KeyError k) | Some v \<Rightarrow> liftM (decimal_of_json other v))"

definition telemetry_record :: "platform \<Rightarrow> (json \<Rightarrow> exc + decimal) \<Rightarrow> json \<Rightarrow> ('s, cost_telemetry_record) prog" where
  "telemetry_record pf other v = (case v of
     JObj d \<Rightarrow>
       bindM (telemetry_text pf d ''project'') (\<lambda>project.
       bindM (telemetry_text pf d ''run_id'') (\<lambda>run_id.
       bindM (telemetry_text pf d ''job_id'') (\<lambda>job_id.
       bindM (telemetry_text pf d ''job_type'') (\<lambda>jtype.
       bindM (telemetry_text pf d ''worker_id'') (\<lambda>worker_id.
       bindM (telemetry_text pf d ''model'') (\<lambda>model.
       bindM (telemetry_text pf d ''provider'') (\<lambda>provider.
       bindM (telemetry_int d ''input_tokens'') (\<lambda>input_tokens.
       bindM (telemetry_int d ''output_tokens'') (\<lambda>output_tokens.
       bindM (telemetry_amount other d ''estimated_cost_usd'') (\<lambda>cost.
       bindM (telemetry_int d ''retry_count'') (\<lambda>retry_count.
       bindM (telemetry_text pf d ''environment'') (\<lambda>environment.
       returnM \<lparr>ct_project = project, ct_run_id = run_id, ct_job_id = job_id, ct_job_type = jtype,
         ct_worker_id = worker_id, ct_model = model, ct_provider = provider, ct_input_tokens = input_tokens,
         ct_output_tokens = output_tokens, ct_estimated_cost_usd = cost, ct_retry_count = retry_count,
         ct_environment = environment\<rparr>))))))))))))
   | _ \<Rightarrow> raiseM (TypeError ''indices must be integers or slices, not str''))"

definition telemetry_line_record :: "platform \<Rightarrow> (json \<Rightarrow> exc + decimal) \<Rightarrow> pystr \<Rightarrow> ('s, cost_telemetry_record) prog" where
  "telemetry_line_record pf other line = (case loads (float_parse pf) line of
     None \<Rightarrow> raiseM JSONDecodeError | Some v \<Rightarrow> telemetry_record pf other v)"

definition load_jsonl ::
    "platform \<Rightarrow> (json \<Rightarrow> exc + decimal) \<Rightarrow> path \<Rightarrow> (files, cost_telemetry_record list) prog" where
  "load_jsonl pf other p = bindM (read_text p) (\<lambda>s.
     mapM (telemetry_line_record pf other) (filter (\<lambda>line. strip line \<noteq> []) (splitlines s)))"

text \<open>The errors of a \<open>CostRollupViolation\<close> are kept as its text.\<close>

definition write_cost_rollup_report ::
    "platform \<Rightarrow> (json \<Rightarrow> exc + decimal) \<Rightarrow> path \<Rightarrow> path \<Rightarrow> bool \<Rightarrow> bool \<Rightarrow> decimal option \<Rightarrow> decimal option
      \<Rightarrow> (files, path) prog" where
  "write_cost_rollup_report pf other input_path output_path strict require_file max_total_cost max_run_cost =
     bindM (getM (\<lambda>fs. (is_file fs input_path, path_exists fs input_path))) (\<lambda>(file, exists).
       if require_file \<and> \<not> file then raiseM (CostRollupViolation (''missing telemetry file: '' @ path_str input_path))
       else bindM (if exists then load_jsonl pf other input_path else returnM []) (\<lambda>records.
         let errors = validate_cost_rollup records max_total_cost max_run_cost
         in thenM (mkdir_parents (path_parent output_path))
           (thenM (write_text output_path (render_cost_rollup records errors))
             (if strict \<and> errors \<noteq> [] then raiseM (CostRollupViolation (join ''; '' errors)) else returnM output_path))))"


subsection \<open>Reading back what was appended\<close>

lemma utf8_decode_append: "utf8_decode b = Some t \<Longrightarrow> utf8_decode (b @ utf8_encode s) = Some (t @ s)"
  by (induction b arbitrary: t rule: utf8_decode.induct) (auto simp: Let_def split: if_splits option.splits list.splits)

lemma universal_newlines_append: "c \<noteq> CHR 0x0A \<Longrightarrow> universal_newlines (a @ c # s) = universal_newlines a @ universal_newlines (c # s)"
  by (induction a rule: universal_newlines.induct) auto

definition line_done :: "pystr \<Rightarrow> bool" where
  "line_done t \<longleftrightarrow> t = [] \<or> last t = CHR 0x0A"

lemma splitlines_append: "line_done t \<Longrightarrow> splitlines (t @ s) = splitlines t @ splitlines s"
proof (induction t rule: splitlines.induct)
  case (1 t)
  let ?stop = "\<lambda>c. \<not> is_line_end c"
  show ?case
  proof (cases "t = []")
    case True
    then show ?thesis by (simp add: splitlines.simps [of "[]"])
  next
    case False
    with 1 have t: "last t = CHR 0x0A" by (simp add: line_done_def)
    have "is_line_end (last t)" by (simp add: t is_line_end_def)
    with False obtain x where x: "x \<in> set t" "\<not> ?stop x" using last_in_set by blast
    then obtain c cs where c: "dropWhile ?stop t = c # cs" by (cases "dropWhile ?stop t") auto
    have "t = takeWhile ?stop t @ c # cs" using takeWhile_dropWhile_id [of ?stop t] c by simp
    then have "last t = last (takeWhile ?stop t @ c # cs)" by (rule arg_cong)
    then have "last t = last (c # cs)" by simp
    with t have last: "cs = [] \<and> c = CHR 0x0A \<or> cs \<noteq> [] \<and> last cs = CHR 0x0A" by (cases "cs = []") auto
    let ?next = "\<lambda>cs. if c = CHR 0x0D \<and> starts_with cs [CHR 0x0A] then tl cs else cs"
    have "cs \<noteq> []" if "c = CHR 0x0D" using last that by auto
    then have more1: "?next (cs @ s) = ?next cs @ s" by (cases "c = CHR 0x0D"; cases cs) simp_all
    have "line_done cs" using last by (cases "cs = []") (simp_all add: line_done_def)
    moreover from this have "line_done (tl cs)" by (cases cs) (auto simp: line_done_def split: if_split_asm)
    ultimately have more2: "line_done (?next cs)" by simp
    have app: "takeWhile ?stop (t @ s) = takeWhile ?stop t" "dropWhile ?stop (t @ s) = c # cs @ s"
      using takeWhile_append1 [of x t ?stop] dropWhile_append1 [of x t ?stop] x c by simp_all
    have "splitlines (t @ s) = takeWhile ?stop t # splitlines (?next cs @ s)"
      unfolding splitlines.simps [of "t @ s"] using False app more1 by simp
    also have "splitlines (?next cs @ s) = splitlines (?next cs) @ splitlines s"
      using 1(1) [OF False refl refl c] more2 by simp
    also have "takeWhile ?stop t # splitlines (?next cs) @ splitlines s = splitlines t @ splitlines s"
      unfolding splitlines.simps [of t] using False c by simp
    finally show ?thesis .
  qed
qed

lemma splitlines_line:
  assumes "\<forall>c \<in> set l. \<not> is_line_end c"
  shows "splitlines (l @ [CHR 0x0A]) = [l]"
proof -
  have "takeWhile (\<lambda>c. \<not> is_line_end c) (l @ [CHR 0x0A]) = l" "dropWhile (\<lambda>c. \<not> is_line_end c) (l @ [CHR 0x0A]) = [CHR 0x0A]"
    using assms by (simp_all add: takeWhile_append2 dropWhile_append2 is_line_end_def)
  then show ?thesis by (simp add: splitlines.simps [of "l @ [CHR 0x0A]"] splitlines.simps [of "[]"])
qed

definition plain_char :: "char \<Rightarrow> bool" where
  "plain_char c \<longleftrightarrow> 32 \<le> (of_char c :: nat) \<and> (of_char c :: nat) < 127"

lemma plain_no_line_end: "plain_char c \<Longrightarrow> \<not> is_line_end c \<and> c \<noteq> CHR 0x0A \<and> c \<noteq> CHR 0x0D"
  by (auto simp: plain_char_def is_line_end_def Let_def)

lemma plain_digits: "is_digit c \<Longrightarrow> plain_char c"
  by (auto simp: is_digit_def digit_val_def plain_char_def Let_def split: if_splits)

lemma plain_hex: "d < 16 \<Longrightarrow> plain_char (digit_char d)"
  by (simp add: plain_char_def of_char_digit)

lemma plain_hex2: "c \<in> set (hex2 n) \<Longrightarrow> plain_char c"
  by (auto simp: hex2_def plain_hex)

lemma plain_escape: "c \<in> set (escape_char True d) \<Longrightarrow> plain_char c"
  unfolding escape_char_def
  by (auto dest: plain_hex2 split: if_split_asm) (simp_all add: plain_char_def)

lemma plain_quote: "c \<in> set (quote True s) \<Longrightarrow> plain_char c"
  by (auto simp: quote_def dest: plain_escape) (simp_all add: plain_char_def)

lemma set_join: "set (join s xs) \<subseteq> set s \<union> \<Union> (set ` set xs)"
  by (induction s xs rule: join.induct) auto

lemma telemetry_line_plain: "c \<in> set (telemetry_line pf r) \<Longrightarrow> plain_char c"
proof -
  let ?text = "\<lambda>(k, v). (k, quote True k @ '': '' @ dump_json default_style (float_repr pf) 1 v)"
  let ?items = "cost_to_json_dict r"
  have number: "plain_char c" if "c \<in> set (py_str_int i)" for c i
    using that is_digit_nat(1) by (auto simp: py_str_int_def list_all_iff intro: plain_digits split: if_split_asm) (simp add: plain_char_def)
  have shown: "plain_char c" if "c \<in> set (dump_json default_style (float_repr pf) 1 v)" "(\<exists>s. v = JStr s) \<or> (\<exists>i. v = JInt i)" for c v
    using that number plain_quote by (auto simp: default_style_def)
  have values_ok: "(\<exists>s. v = JStr s) \<or> (\<exists>i. v = JInt i)" if "(k, v) \<in> set ?items" for k v
    using that by (auto simp: cost_to_json_dict_def)
  have member: "plain_char c" if "p \<in> set ?items" "c \<in> set (snd (?text p))" for p c
  proof -
    obtain k v where p: "p = (k, v)" by (cases p)
    have "plain_char CHR '':''" "plain_char CHR '' ''" by (simp_all add: plain_char_def)
    with that p values_ok [of k v] shown [of c v] plain_quote [of c k] show ?thesis by auto
  qed
  let ?parts = "map snd (sort_key fst (map ?text ?items))"
  have parts: "plain_char c" if "x \<in> set ?parts" "c \<in> set x" for x c
    using that member by auto
  assume c: "c \<in> set (telemetry_line pf r)"
  have "?parts \<noteq> []" by (simp add: cost_to_json_dict_def)
  then have "telemetry_line pf r = ''{'' @ join '', '' ?parts @ ''}''"
    unfolding telemetry_line_def dump_json.simps enclosed_def by (simp add: default_style_def newline_def)
  with c set_join [of "'', ''" ?parts] have "c \<in> {CHR ''{'', CHR ''}'', CHR '','', CHR '' ''} \<union> \<Union> (set ` set ?parts)" by auto
  moreover have "plain_char CHR ''{''" "plain_char CHR ''}''" "plain_char CHR '',''" "plain_char CHR '' ''"
    by (simp_all add: plain_char_def)
  ultimately show "plain_char c" using parts by blast
qed


lemma telemetry_line_start: "\<exists>s. telemetry_line pf r = CHR ''{'' # s"
proof -
  have "map snd (sort_key fst (map (\<lambda>(k, v). (k, quote (js_ascii default_style) k @ js_key_separator default_style
      @ dump_json default_style (float_repr pf) (Suc 0) v)) (cost_to_json_dict r))) \<noteq> []"
    by (simp add: cost_to_json_dict_def)
  then show ?thesis unfolding telemetry_line_def dump_json.simps enclosed_def by simp
qed

lemma telemetry_line_not_blank: "strip (telemetry_line pf r) \<noteq> []"
proof -
  obtain s where s: "telemetry_line pf r = CHR ''{'' # s" using telemetry_line_start by blast
  have "\<not> is_space CHR ''{''" by (simp add: is_space_def)
  then show ?thesis by (simp add: s strip_def lstrip_def rstrip_chars_def dropWhile_append)
qed

lemma telemetry_line_loads: "telemetry_line_record pf other (telemetry_line pf r) s = (Inr r, s)"
proof -
  let ?d = "cost_to_json_dict r"
  have "printable (float_repr pf) (float_parse pf) (JObj ?d)" by (simp add: cost_to_json_dict_def)
  then have loads: "loads (float_parse pf) (telemetry_line pf r) = Some (canon (JObj ?d))"
    unfolding telemetry_line_def by (rule loads_dump [OF styles_ok(4)])
  have "distinct (map fst ?d)" by (simp add: cost_to_json_dict_def)
  then obtain e where e: "canon (JObj ?d) = JObj e" "\<And>k. dget e k = map_option canon (dget ?d k)"
    by (rule canon_object) blast
  have "telemetry_record pf other (JObj e) s = (Inr r, s)"
    by (simp add: telemetry_record_def telemetry_text_def telemetry_int_def telemetry_amount_def e(2) bindM_eq
        cost_to_json_dict_def py_str_def int_of_json_def decimal_of_json_def decimal_of_str)
  with loads e(1) show ?thesis by (simp add: telemetry_line_record_def)
qed

definition telemetry_log :: "platform \<Rightarrow> cost_telemetry_record list \<Rightarrow> pystr" where
  "telemetry_log pf rs = concat (map (\<lambda>r. telemetry_line pf r @ [CHR 0x0A]) rs)"

lemma telemetry_log_simps [simp]:
  "telemetry_log pf [] = []" "telemetry_log pf (r # rs) = telemetry_line pf r @ CHR 0x0A # telemetry_log pf rs"
  by (simp_all add: telemetry_log_def)

lemma splitlines_log: "splitlines (telemetry_log pf rs) = map (telemetry_line pf) rs"
proof (induction rs)
  case (Cons r rs)
  have "splitlines ((telemetry_line pf r @ [CHR 0x0A]) @ telemetry_log pf rs) = splitlines (telemetry_line pf r @ [CHR 0x0A]) @ map (telemetry_line pf) rs"
    using Cons by (subst splitlines_append) (simp_all add: line_done_def)
  moreover have "splitlines (telemetry_line pf r @ [CHR 0x0A]) = [telemetry_line pf r]"
    by (rule splitlines_line) (auto dest: telemetry_line_plain plain_no_line_end)
  ultimately show ?case by simp
qed (simp add: splitlines.simps [of "[]"])

lemma log_no_return: "CHR 0x0D \<notin> set (telemetry_log pf rs)"
  by (induction rs) (auto dest: telemetry_line_plain plain_no_line_end)

lemma universal_newlines_log: "universal_newlines (u @ telemetry_log pf rs) = universal_newlines u @ telemetry_log pf rs"
proof (cases rs)
  case (Cons r rs')
  obtain s where s: "telemetry_log pf rs = CHR ''{'' # s" using telemetry_line_start [of pf r] by (auto simp: Cons)
  show ?thesis using universal_newlines_append [of "CHR ''{''" u s] universal_newlines_id [OF log_no_return [of pf rs]] by (simp add: s)
qed simp

lemma mapM_append: "mapM f (xs @ ys) s = (case mapM f xs s of (Inl e, s') \<Rightarrow> (Inl e, s')
    | (Inr as, s') \<Rightarrow> (case mapM f ys s' of (Inl e, s'') \<Rightarrow> (Inl e, s'') | (Inr bs, s'') \<Rightarrow> (Inr (as @ bs), s'')))"
proof (induction xs arbitrary: s)
  case Nil
  then show ?case by (auto simp: returnM_def split: prod.splits sum.splits)
next
  case (Cons x xs)
  show ?case by (simp add: bindM_eq Cons returnM_def split: prod.split sum.split)
qed

lemma mapM_lines: "mapM (telemetry_line_record pf other) (map (telemetry_line pf) rs) s = (Inr rs, s)"
  by (induction rs) (simp_all add: bindM_eq telemetry_line_loads)

subsection \<open>What the file system keeps\<close>

lemma follow_new_dir: "map_of fs q = None \<Longrightarrow> follow n (AList.update q Dir fs) p = follow n fs p"
  by (induction n arbitrary: p) (auto simp: follow.simps update_conv split: option.splits node.splits)

lemma node_at_new_dir:
  "map_of fs q = None \<Longrightarrow> node_at (AList.update q Dir fs) p = node_at fs p \<or> node_at fs p = None \<and> node_at (AList.update q Dir fs) p = Some Dir"
  by (auto simp: node_at_def follow_new_dir update_conv split: option.splits)

lemma mkdir_node:
  assumes "mkdir_parents d fs = (r, fs')"
  shows "node_at fs' p = node_at fs p \<or> node_at fs p = None \<and> node_at fs' p = Some Dir"
proof -
  have "forM qs (\<lambda>q fs. if is_dir fs q then (Inr (), fs)
     else if map_of fs q = None then (Inr (), AList.update q Dir fs)
     else (Inl (OSError ''FileExistsError''), fs)) fs = (r, fs') \<Longrightarrow>
     node_at fs' p = node_at fs p \<or> node_at fs p = None \<and> node_at fs' p = Some Dir" for qs
  proof (induction qs arbitrary: fs)
    case (Cons q qs)
    show ?case
    proof (cases "is_dir fs q \<or> map_of fs q \<noteq> None")
      case True
      with Cons show ?thesis by (auto simp: thenM_eq split: if_splits)
    next
      case False
      with Cons.prems have "forM qs (\<lambda>q fs. if is_dir fs q then (Inr (), fs)
         else if map_of fs q = None then (Inr (), AList.update q Dir fs)
         else (Inl (OSError ''FileExistsError''), fs)) (AList.update q Dir fs) = (r, fs')" by (simp add: thenM_eq)
      from Cons.IH [OF this] node_at_new_dir [of fs q p] False show ?thesis by auto
    qed
  qed simp
  from this [of "ancestors d"] assms show ?thesis by (simp add: mkdir_parents_def)
qed

text \<open>The text a path holds: nothing when there is no file yet.\<close>

definition holds_text :: "files \<Rightarrow> path \<Rightarrow> pystr \<Rightarrow> bool" where
  "holds_text fs p u \<longleftrightarrow> (case node_at fs p of None \<Rightarrow> u = [] | Some (File b) \<Rightarrow> utf8_decode b = Some u | _ \<Rightarrow> False)"

lemma append_jsonl_text:
  assumes "append_jsonl pf p r fs = (Inr (), fs')" "holds_text fs p u"
  shows "\<exists>b. node_at fs' p = Some (File b) \<and> utf8_decode b = Some (u @ telemetry_line pf r @ [CHR 0x0A])"
proof -
  obtain fs1 where mk: "mkdir_parents (path_parent p) fs = (Inr (), fs1)"
    and app: "append_text p (telemetry_line pf r @ [CHR 0x0A]) fs1 = (Inr (), fs')"
    using assms(1) by (auto simp: append_jsonl_def thenM_eq split: prod.splits sum.splits)
  let ?b = "case node_at fs1 p of Some (File b) \<Rightarrow> b | _ \<Rightarrow> []"
  have w: "write_bytes p (?b @ utf8_encode (telemetry_line pf r @ [CHR 0x0A])) fs1 = (Inr (), fs')"
    using app by (simp add: append_text_def)
  then have "node_at fs1 p \<noteq> Some Dir" by (auto simp: write_bytes_def is_dir_def split: if_splits)
  with mkdir_node [OF mk, of p] have "node_at fs1 p = node_at fs p" by auto
  with assms(2) have "utf8_decode ?b = Some u" by (auto simp: holds_text_def split: option.splits node.splits)
  with read_after_write(3) [OF w] utf8_decode_append [of ?b u "telemetry_line pf r @ [CHR 0x0A]"] show ?thesis by auto
qed

lemma append_all_text:
  assumes "forM rs (append_jsonl pf p) fs = (Inr (), fs')" "holds_text fs p u"
  shows "holds_text fs' p (u @ telemetry_log pf rs) \<and> (rs \<noteq> [] \<longrightarrow> node_at fs' p \<noteq> None)"
  using assms
proof (induction rs arbitrary: fs u)
  case (Cons r rs)
  then obtain fs1 where one: "append_jsonl pf p r fs = (Inr (), fs1)" and rest: "forM rs (append_jsonl pf p) fs1 = (Inr (), fs')"
    by (auto simp: thenM_eq split: prod.splits sum.splits)
  from append_jsonl_text [OF one Cons.prems(2)] have held: "holds_text fs1 p (u @ telemetry_line pf r @ [CHR 0x0A])" "node_at fs1 p \<noteq> None"
    by (auto simp: holds_text_def)
  from Cons.IH [OF rest held(1)] have "holds_text fs' p (u @ telemetry_log pf (r # rs))" by simp
  moreover have "node_at fs' p \<noteq> None" using Cons.IH [OF rest held(1)] held(2) rest by (cases rs) auto
  ultimately show ?case by blast
qed simp


text \<open>A program that neither reads nor changes the state\<close>

definition stateless :: "('s, 'a) prog \<Rightarrow> bool" where
  "stateless m \<longleftrightarrow> (\<exists>x. \<forall>s. m s = (x, s))"

lemma stateless_basic: "stateless (returnM a)" "stateless (raiseM e)" "stateless (liftM r)"
  by (auto simp: stateless_def returnM_def raiseM_def liftM_def)

lemma stateless_bind: "stateless m \<Longrightarrow> (\<And>a. stateless (f a)) \<Longrightarrow> stateless (bindM m f)"
  unfolding stateless_def
proof -
  assume "\<exists>x. \<forall>s. m s = (x, s)" and f: "\<And>a. \<exists>x. \<forall>s. f a s = (x, s)"
  then obtain x where x: "\<And>s. m s = (x, s)" by blast
  show "\<exists>x. \<forall>s. bindM m f s = (x, s)"
  proof (cases x)
    case (Inl e)
    then show ?thesis by (intro exI [of _ "Inl e"]) (simp add: bindM_eq x)
  next
    case (Inr a)
    from f [of a] obtain y where "\<And>s. f a s = (y, s)" by blast
    with Inr show ?thesis by (intro exI [of _ y]) (simp add: bindM_eq x)
  qed
qed

lemma stateless_fields: "stateless (telemetry_text pf d k)" "stateless (telemetry_int d k)" "stateless (telemetry_amount other d k)"
  by (cases "dget d k"; simp add: telemetry_text_def telemetry_int_def telemetry_amount_def stateless_basic)+

lemma stateless_record: "stateless (telemetry_record pf other v)"
proof (cases v)
  case (JObj d)
  show ?thesis unfolding telemetry_record_def JObj json.case
    by (intro stateless_bind stateless_fields stateless_basic)
qed (simp_all add: telemetry_record_def stateless_basic)

lemma stateless_line: "stateless (telemetry_line_record pf other line)"
  by (cases "loads (float_parse pf) line") (simp_all add: telemetry_line_record_def stateless_basic stateless_record)

lemma stateless_map: "(\<And>x. stateless (f x)) \<Longrightarrow> stateless (mapM f xs)"
  by (induction xs) (auto intro!: stateless_bind stateless_basic)

lemma stateless_at: "stateless m \<Longrightarrow> m s = (r, s) \<Longrightarrow> m s' = (r, s')"
  by (auto simp: stateless_def)

text \<open>
  C29. The telemetry file loses nothing. When records are appended to a file that does not exist yet, or to a
  file that loads and whose last line is complete, loading the file afterwards gives what it gave before
  followed by exactly the appended records, in order: texts with any characters, line breaks included, and
  amounts with their exponent (\<open>0.5\<close> and \<open>0.50\<close> stay different).
\<close>

theorem telemetry_round_trip:
  assumes "forM rs (append_jsonl pf p) fs = (Inr (), fs')"
    and "node_at fs p = None \<and> old = [] \<and> rs \<noteq> []
      \<or> (\<exists>b u. node_at fs p = Some (File b) \<and> utf8_decode b = Some u \<and> line_done (universal_newlines u))
        \<and> load_jsonl pf other p fs = (Inr old, fs)"
  shows "load_jsonl pf other p fs' = (Inr (old @ rs), fs')"
proof -
  let ?lines = "\<lambda>s. filter (\<lambda>line. strip line \<noteq> []) (splitlines s)"
  let ?read = "telemetry_line_record pf other"
  obtain u where u: "holds_text fs p u" "line_done (universal_newlines u)"
    and old: "\<And>s. mapM ?read (?lines (universal_newlines u)) (s :: files) = (Inr old, s)" and some: "node_at fs p \<noteq> None \<or> rs \<noteq> []"
  proof (cases "node_at fs p = None")
    case True
    with assms(2) have "old = []" "rs \<noteq> []" by auto
    with True show thesis by (intro that [of "[]"]) (auto simp: holds_text_def line_done_def splitlines.simps [of "[]"] returnM_def)
  next
    case False
    with assms(2) obtain b u where b: "node_at fs p = Some (File b)" "utf8_decode b = Some u" "line_done (universal_newlines u)"
      and load: "load_jsonl pf other p fs = (Inr old, fs)" by auto
    from load b have "mapM ?read (?lines (universal_newlines u)) fs = (Inr old, fs)"
      by (simp add: load_jsonl_def read_text_def read_bytes_def bindM_eq returnM_def)
    from stateless_at [OF stateless_map [OF stateless_line] this] b that [of u] show thesis by (simp add: holds_text_def)
  qed
  let ?log = "telemetry_log pf rs"
  from append_all_text [OF assms(1) u(1)] have held: "holds_text fs' p (u @ ?log)" and "rs \<noteq> [] \<longrightarrow> node_at fs' p \<noteq> None" by auto
  moreover have "node_at fs' p \<noteq> None" if "rs = []" using some assms(1) that by (simp add: returnM_def)
  ultimately have "node_at fs' p \<noteq> None" by blast
  with held obtain b where b: "node_at fs' p = Some (File b)" "utf8_decode b = Some (u @ ?log)"
    by (auto simp: holds_text_def split: option.splits node.splits)
  have "splitlines (universal_newlines (u @ ?log)) = splitlines (universal_newlines u) @ map (telemetry_line pf) rs"
    by (simp add: universal_newlines_log splitlines_append [OF u(2)] splitlines_log)
  moreover have "filter (\<lambda>line. strip line \<noteq> []) (map (telemetry_line pf) rs) = map (telemetry_line pf) rs"
    using telemetry_line_not_blank by (intro filter_True) auto
  ultimately have lines: "?lines (universal_newlines (u @ ?log)) = ?lines (universal_newlines u) @ map (telemetry_line pf) rs" by simp
  have "load_jsonl pf other p fs' = mapM ?read (?lines (universal_newlines (u @ ?log))) fs'"
    using b by (simp add: load_jsonl_def read_text_def read_bytes_def bindM_eq returnM_def)
  then show ?thesis by (simp add: lines mapM_append old mapM_lines)
qed

definition telemetry_platform :: platform where
  "telemetry_platform = \<lparr>float_repr = (\<lambda>q. []), float_parse = (\<lambda>s. 0), sha256_hex = (\<lambda>b. []), hmac_sha256_hex = (\<lambda>k b. [])\<rparr>"

definition example_cost :: cost_telemetry_record where
  "example_cost = \<lparr>ct_project = ''p'', ct_run_id = ''r'', ct_job_id = ''j'', ct_job_type = ''t'', ct_worker_id = ''w'',
     ct_model = ''m'', ct_provider = ''v'', ct_input_tokens = 3, ct_output_tokens = 0, ct_estimated_cost_usd = Dec 50 (- 2),
     ct_retry_count = 0, ct_environment = [CHR 0x0A]\<rparr>"

lemma telemetry_round_trip_witness:
  "\<exists>fs'. forM [example_cost] (append_jsonl telemetry_platform (Path [] [''t''])) [] = (Inr (), fs')
     \<and> load_jsonl telemetry_platform (\<lambda>_. Inr dec_zero) (Path [] [''t'']) fs' = (Inr [example_cost], fs')"
proof -
  let ?p = "Path [] [''t'']"
  have none: "node_at [] ?p = None" by (simp add: node_at_def follow.simps)
  have "\<exists>fs'. forM [example_cost] (append_jsonl telemetry_platform ?p) [] = (Inr (), fs')"
    by (simp add: append_jsonl_def append_text_def thenM_eq mkdir_parents_def ancestors_def path_parent_def returnM_def write_bytes_def
        is_dir_def node_at_def follow.simps)
  then obtain fs' where "forM [example_cost] (append_jsonl telemetry_platform ?p) [] = (Inr (), fs')" by blast
  with telemetry_round_trip [OF this, of "[]" "\<lambda>_. Inr dec_zero"] none show ?thesis by auto
qed

end
