(* ===== verification/Commands.thy ===== *)
theory Commands
  imports FullStack Recovery Telemetry
begin

section \<open>The operator's commands\<close>

text \<open>
  \<open>cli/operator.py\<close>, the commands of \<open>cli/main.py\<close>, \<open>cli/cleanup.py\<close> and \<open>cli/cost.py\<close>: inspecting the queue,
  recovering stale leases, submitting a batch, the status of a run, removing outputs, verifying evidence and
  the cost rollup. Opening and closing connections leaves no state of the model.
\<close>

subsection \<open>Inspection and recovery\<close>

record operator_queue_inspection =
  oq_backpressure :: backpressure_snapshot
  oq_stale_lease_count :: nat

definition inspect_operator_queue ::
    "'r inspector \<Rightarrow> int \<Rightarrow> uuid option \<Rightarrow> int option \<Rightarrow> (('r, 'e) world, operator_queue_inspection) prog" where
  "inspect_operator_queue q stale_after_ms run_id worker_count =
     bindM (inspect_queue_backpressure (in_client q) (in_inspection q) (in_config q) run_id worker_count 1000) (\<lambda>backpressure.
     bindM (inRedis (q_find_stale_leases (queue_of q) stale_after_ms 100)) (\<lambda>stale_leases.
     returnM \<lparr>oq_backpressure = backpressure, oq_stale_lease_count = length stale_leases\<rparr>))"

definition render_operator_inspection :: "operator_queue_inspection \<Rightarrow> pystr" where
  "render_operator_inspection inspection = (let b = oq_backpressure inspection in join [CHR 0x0A]
     [''queue_depth: '' @ py_str_int (bs_queue_depth b),
      ''pending_leases: '' @ py_str_int (bs_leased_jobs b),
      ''stale_leases: '' @ nat_digits (oq_stale_lease_count inspection),
      ''oldest_pending_age_seconds: '' @ fixed 3 (bs_oldest_pending_age_seconds b),
      ''consumer_lag: '' @ py_str_int (bs_consumer_lag b),
      ''running_jobs: '' @ nat_digits (bs_running_jobs b),
      ''worker_utilization: '' @ percent 2 (bs_worker_utilization b),
      ''retry_rate: '' @ percent 2 (bs_retry_rate b),
      ''dlq_count: '' @ py_str_int (bs_dlq_count b),
      ''p95_queue_wait_seconds: '' @ fixed 3 (bs_p95_queue_wait_seconds b),
      ''p95_execution_seconds: '' @ fixed 3 (bs_p95_execution_seconds b)])"

definition render_recovery_result :: "stale_lease_recovery_result \<Rightarrow> pystr" where
  "render_recovery_result r = join [CHR 0x0A]
     [''detected: '' @ nat_digits (rr_detected_count r),
      ''requeued: '' @ nat_digits (rr_requeued_count r),
      ''dlq: '' @ nat_digits (rr_dlq_count r),
      ''acknowledged_terminal: '' @ nat_digits (rr_acknowledged_terminal_count r),
      ''acknowledged_missing: '' @ nat_digits (rr_acknowledged_missing_count r)]"

text \<open>The \<open>..._from_urls\<close> functions build a queue with the names they are given.\<close>

definition operator_queue :: "'r inspector \<Rightarrow> pystr \<Rightarrow> pystr \<Rightarrow> pystr \<Rightarrow> 'r inspector" where
  "operator_queue redis name members dead = redis\<lparr>in_config := \<lparr>stream_name = name, consumer_group = members,
     dlq_stream_name = dead\<rparr>\<rparr>"

definition inspect_from_urls ::
    "'r inspector \<Rightarrow> pystr \<Rightarrow> pystr \<Rightarrow> pystr \<Rightarrow> int \<Rightarrow> uuid option \<Rightarrow> int option
      \<Rightarrow> (('r, 'e) world, operator_queue_inspection) prog" where
  "inspect_from_urls redis name members dead stale_after_ms run_id worker_count =
     inspect_operator_queue (operator_queue redis name members dead) stale_after_ms run_id worker_count"

definition recover_from_urls ::
    "'r inspector \<Rightarrow> pystr \<Rightarrow> pystr \<Rightarrow> pystr \<Rightarrow> int \<Rightarrow> pystr \<Rightarrow> int \<Rightarrow> (('r, 'e) world, stale_lease_recovery_result) prog" where
  "recover_from_urls redis name members dead stale_after_ms recovery_worker_id n =
     recover_stale_leases (queue_of (operator_queue redis name members dead)) recovery_worker_id stale_after_ms n"

definition inspect_command ::
    "(exc \<Rightarrow> pystr) \<Rightarrow> 'r inspector \<Rightarrow> pystr \<Rightarrow> pystr \<Rightarrow> pystr \<Rightarrow> int \<Rightarrow> uuid option \<Rightarrow> int option
      \<Rightarrow> ('r, 'e) world \<Rightarrow> command_outcome \<times> ('r, 'e) world" where
  "inspect_command other redis name members dead stale_after_ms run_id worker_count =
     run_command (reported other (\<lambda>_. False) [] (\<lambda>i. [render_operator_inspection i]))
       (inspect_from_urls redis name members dead stale_after_ms run_id worker_count)"

definition recover_stale_command ::
    "(exc \<Rightarrow> pystr) \<Rightarrow> 'r inspector \<Rightarrow> pystr \<Rightarrow> pystr \<Rightarrow> pystr \<Rightarrow> int \<Rightarrow> pystr \<Rightarrow> int
      \<Rightarrow> ('r, 'e) world \<Rightarrow> command_outcome \<times> ('r, 'e) world" where
  "recover_stale_command other redis name members dead stale_after_ms recovery_worker_id n =
     run_command (reported other (\<lambda>_. False) [] (\<lambda>r. [render_recovery_result r]))
       (recover_from_urls redis name members dead stale_after_ms recovery_worker_id n)"

subsection \<open>The status of a run\<close>

definition LIFECYCLE_COUNT_KEYS :: "pystr list" where
  "LIFECYCLE_COUNT_KEYS = [''queued'', ''running'', ''completed'', ''failed'', ''timed_out'', ''cancelled'', ''retry'', ''dlq'']"

definition lifecycle_counts :: "uuid \<Rightarrow> (database, (pystr \<times> int) list) prog" where
  "lifecycle_counts run_id = getM (\<lambda>db.
     let counts = counts_from LIFECYCLE_COUNT_KEYS (status_rows run_id db);
         retry_count = length (filter (\<lambda>e. ev_run_id e = run_id \<and> ev_type e = ''retry_scheduled'') (job_events db))
     in AList.update ''retry'' (int retry_count) counts)"

definition status_label :: "pystr \<Rightarrow> pystr" where
  "status_label key = (if key = ''timed_out'' then ''timed out'' else if key = ''dlq'' then ''DLQ'' else key)"

definition format_status :: "(pystr \<times> int) list \<Rightarrow> pystr" where
  "format_status counts = join [CHR 0x0A]
     (map (\<lambda>key. status_label key @ '': '' @ py_str_int (count_of counts key)) LIFECYCLE_COUNT_KEYS)"

definition status_command :: "(exc \<Rightarrow> pystr) \<Rightarrow> uuid \<Rightarrow> database \<Rightarrow> command_outcome \<times> database" where
  "status_command other run_id =
     run_command (reported other (\<lambda>_. False) [] (\<lambda>counts. [format_status counts])) (lifecycle_counts run_id)"

definition submit_batch_command ::
    "(exc \<Rightarrow> pystr) \<Rightarrow> platform \<Rightarrow> 'r redis_client \<Rightarrow> uuid \<Rightarrow> (nat \<Rightarrow> uuid) \<Rightarrow> int \<Rightarrow> pystr
      \<Rightarrow> ('r, 'e) world \<Rightarrow> command_outcome \<times> ('r, 'e) world" where
  "submit_batch_command other pf rc run ids n jtype =
     run_command (reported other (\<lambda>_. False) []
         (\<lambda>r. [''run_id: '' @ uuid_str (bs_run_id r), ''jobs: '' @ py_str_int (bs_job_count r)]))
       (submit_batch pf (redis_queue rc default_queue_config) run ids n jtype 30 1)"

subsection \<open>Removing outputs\<close>

definition remove_output :: "path \<Rightarrow> (files, path list) prog" where
  "remove_output p = bindM (getM (\<lambda>fs. (is_dir fs p, path_exists fs p))) (\<lambda>(directory, exists).
     if directory then thenM (rmtree p) (returnM [p])
     else if exists then thenM (unlink p) (returnM [p])
     else returnM [])"

definition cleanup_run_outputs :: "uuid \<Rightarrow> path \<Rightarrow> path \<Rightarrow> (files, path list) prog" where
  "cleanup_run_outputs run_id artifact_root reports_root =
     bindM (remove_output (path_join artifact_root (uuid_str run_id))) (\<lambda>first.
     bindM (remove_output (path_join reports_root (uuid_str run_id @ ''.md''))) (\<lambda>second.
     returnM (first @ second)))"

definition cleanup_command :: "(exc \<Rightarrow> pystr) \<Rightarrow> uuid \<Rightarrow> path \<Rightarrow> path \<Rightarrow> files \<Rightarrow> command_outcome \<times> files" where
  "cleanup_command other run_id artifact_root reports_root =
     run_command (reported other (\<lambda>_. False) [] (map (\<lambda>p. ''removed: '' @ path_str p)))
       (cleanup_run_outputs run_id artifact_root reports_root)"

definition remove_tree :: "path \<Rightarrow> (files, path list) prog" where
  "remove_tree p = bindM (getM (\<lambda>fs. path_exists fs p)) (\<lambda>exists.
     if exists then thenM (rmtree p) (returnM [p]) else returnM [])"

definition cleanup_runtime_outputs :: "path \<Rightarrow> path \<Rightarrow> (files, path list) prog" where
  "cleanup_runtime_outputs artifact_root reports_root =
     bindM (remove_tree artifact_root) (\<lambda>first. bindM (remove_tree reports_root) (\<lambda>second. returnM (first @ second)))"

definition local_command :: "(exc \<Rightarrow> pystr) \<Rightarrow> path \<Rightarrow> path \<Rightarrow> files \<Rightarrow> command_outcome \<times> files" where
  "local_command other artifact_root reports_root =
     run_command (reported other (\<lambda>_. False) [] (\<lambda>_. [])) (cleanup_runtime_outputs artifact_root reports_root)"

subsection \<open>Evidence and cost\<close>

definition evidence_caught :: "exc \<Rightarrow> bool" where
  "evidence_caught e = (case e of EvidenceVerificationError _ \<Rightarrow> True | _ \<Rightarrow> False)"

definition verify_evidence_command :: "(exc \<Rightarrow> pystr) \<Rightarrow> platform \<Rightarrow> path \<Rightarrow> files \<Rightarrow> command_outcome \<times> files" where
  "verify_evidence_command other pf manifest =
     run_command (reported other evidence_caught ''evidence verification failed'' (\<lambda>_. [''verified: '' @ path_str manifest]))
       (verify_evidence_manifest pf manifest)"

definition verify_committed_evidence_command ::
    "(exc \<Rightarrow> pystr) \<Rightarrow> platform \<Rightarrow> path \<Rightarrow> path \<Rightarrow> files \<Rightarrow> command_outcome \<times> files" where
  "verify_committed_evidence_command other pf cwd repository_root =
     run_command (reported other evidence_caught ''committed evidence verification failed''
         (\<lambda>r. [dump_json default_style (float_repr pf) 0 (JObj [(''content_address'', JStr (cv_content_address r)),
           (''manifest_path'', JStr (cv_manifest_path r)), (''source_revision'', JStr (cv_source_revision r)),
           (''submitted_jobs'', cv_submitted_jobs r), (''valid_artifacts'', cv_valid_artifacts r), (''verified'', JBool True)])]))
       (verify_committed_release_evidence pf cwd repository_root)"

text \<open>\<open>Decimal(text) if text is not None else None\<close>\<close>

definition limit_of :: "(json \<Rightarrow> exc + decimal) \<Rightarrow> pystr option \<Rightarrow> exc + decimal option" where
  "limit_of dec_other t = (case t of None \<Rightarrow> Inr None
     | Some s \<Rightarrow> (case decimal_of_json dec_other (JStr s) of Inl e \<Rightarrow> Inl e | Inr d \<Rightarrow> Inr (Some d)))"

definition cost_caught :: "exc \<Rightarrow> bool" where
  "cost_caught e = (case e of CostRollupViolation _ \<Rightarrow> True | _ \<Rightarrow> False)"

definition rollup_command ::
    "(exc \<Rightarrow> pystr) \<Rightarrow> platform \<Rightarrow> (json \<Rightarrow> exc + decimal) \<Rightarrow> path \<Rightarrow> path \<Rightarrow> bool \<Rightarrow> bool \<Rightarrow> pystr option \<Rightarrow> pystr option
      \<Rightarrow> files \<Rightarrow> command_outcome \<times> files" where
  "rollup_command other pf dec_other input_path output_path strict require_file max_total_cost max_run_cost =
     run_command (reported other cost_caught ''cost rollup failed'' (\<lambda>_. []))
       (bindM (liftM (limit_of dec_other max_total_cost)) (\<lambda>total_limit.
        bindM (liftM (limit_of dec_other max_run_cost)) (\<lambda>run_limit.
        write_cost_rollup_report pf dec_other input_path output_path strict require_file total_limit run_limit)))"

subsection \<open>What a status shows\<close>

lemma counts_from_keys: "map fst (counts_from keys rows) = keys"
proof -
  have "map fst (fold add_count rows cs) = map fst cs" for cs
  proof (induction rows arbitrary: cs)
    case (Cons row rows)
    have "map fst (add_count row cs) = map fst cs"
    proof (cases "map_of cs (count_key (fst row))")
      case (Some m)
      then have "count_key (fst row) \<in> set (map fst cs)" by (auto dest: map_of_SomeD intro: rev_image_eqI)
      with Some show ?thesis by (cases row) (simp add: add_count_def update_keys)
    qed (cases row, simp add: add_count_def)
    with Cons show ?case by simp
  qed simp
  then show ?thesis by (simp add: counts_from_def comp_def)
qed

lemma sum_over_keys:
  assumes "distinct ks" "\<forall>x \<in> set xs. f x \<in> set ks"
  shows "sum_list (map (\<lambda>k. int (length (filter (\<lambda>x. f x = k) xs))) ks) = int (length xs)"
  using assms(2)
proof (induction xs)
  case (Cons x xs)
  have one: "sum_list (map (\<lambda>k. if f x = k then 1 else 0 :: int) ks) = 1"
    using assms(1) Cons.prems by (simp add: sum_list_distinct_conv_sum_set)
  have "sum_list (map (\<lambda>k. int (length (filter (\<lambda>x. f x = k) (x # xs)))) ks)
      = sum_list (map (\<lambda>k. (if f x = k then 1 else 0) + int (length (filter (\<lambda>x. f x = k) xs))) ks)"
    by (intro arg_cong [where f = sum_list] map_cong) auto
  also have "\<dots> = 1 + int (length xs)" using Cons one by (simp only: sum_list_addf) simp
  finally show ?case by simp
qed simp


lemma update_count_of: "count_of (AList.update k n cs) k' = (if k' = k then n else count_of cs k')"
  by (simp add: count_of_def update_conv)

text \<open>
  C36. The status of a run accounts for every job of it once. In a registry whose columns hold the program's
  values, the counts of queued, running, completed, failed, timed out and cancelled jobs add up to the number
  of the run's jobs, a submitted job being shown as queued; the count of retries is the number of
  \<open>retry_scheduled\<close> events of the run; and the count of dead-lettered jobs is always zero, since a job that
  goes to the dead-letter stream has the status \<open>failed\<close>.
\<close>

theorem status_accounts_for_jobs:
  assumes "registry_typed db"
  shows "\<exists>counts. lifecycle_counts run db = (Inr counts, db) \<and> map fst counts = LIFECYCLE_COUNT_KEYS
    \<and> sum_list (map (count_of counts) [''queued'', ''running'', ''completed'', ''failed'', ''timed_out'', ''cancelled''])
        = int (length (run_jobs run db))
    \<and> count_of counts ''dlq'' = 0
    \<and> count_of counts ''retry'' = int (length (filter (\<lambda>e. ev_run_id e = run \<and> ev_type e = ''retry_scheduled'') (job_events db)))"
proof -
  let ?counts = "counts_from LIFECYCLE_COUNT_KEYS (status_rows run db)"
  let ?n = "int (length (filter (\<lambda>e. ev_run_id e = run \<and> ev_type e = ''retry_scheduled'') (job_events db)))"
  let ?shown = "[''queued'', ''running'', ''completed'', ''failed'', ''timed_out'', ''cancelled'']"
  let ?of = "\<lambda>k. int (length (filter (\<lambda>r. count_key (job_status r) = k) (run_jobs run db)))"
  have status: "count_key (job_status r) \<in> set ?shown" if "r \<in> set (run_jobs run db)" for r
    using assms that by (auto simp: registry_typed_def run_jobs_def JOB_STATUSES_def TERMINAL_STATUSES_def count_key_def)
  have keys: "map fst (AList.update ''retry'' ?n ?counts) = LIFECYCLE_COUNT_KEYS"
    using counts_from_keys [of LIFECYCLE_COUNT_KEYS "status_rows run db"]
    by (simp add: update_keys LIFECYCLE_COUNT_KEYS_def)
  have count: "count_of (AList.update ''retry'' ?n ?counts) k = ?of k" if "k \<in> set LIFECYCLE_COUNT_KEYS" "k \<noteq> ''retry''" for k
    using counts_from_jobs [OF that(1), of run db] that(2) by (simp add: update_count_of)
  have "map (count_of (AList.update ''retry'' ?n ?counts)) ?shown = map ?of ?shown"
    by (intro map_cong refl count) (auto simp: LIFECYCLE_COUNT_KEYS_def)
  then have total: "sum_list (map (count_of (AList.update ''retry'' ?n ?counts)) ?shown) = int (length (run_jobs run db))"
    using sum_over_keys [of ?shown "run_jobs run db" "\<lambda>r. count_key (job_status r)"] status by simp
  have "count_key (job_status r) \<noteq> ''dlq''" if "r \<in> set (run_jobs run db)" for r
    using status [OF that] by auto
  then have "filter (\<lambda>r. count_key (job_status r) = ''dlq'') (run_jobs run db) = []"
    by (simp add: filter_empty_conv)
  then have dlq: "count_of (AList.update ''retry'' ?n ?counts) ''dlq'' = 0"
    using count [of "''dlq''"] by (simp add: LIFECYCLE_COUNT_KEYS_def)
  have retry: "count_of (AList.update ''retry'' ?n ?counts) ''retry'' = ?n" by (simp add: update_count_of)
  have "lifecycle_counts run db = (Inr (AList.update ''retry'' ?n ?counts), db)"
    by (simp add: lifecycle_counts_def getM_def Let_def)
  with keys total dlq retry show ?thesis by blast
qed

lemma status_accounts_for_jobs_witness:
  "\<exists>counts. lifecycle_counts 1 (empty_database 0) = (Inr counts, empty_database 0) \<and> count_of counts ''dlq'' = 0"
  using status_accounts_for_jobs [of "empty_database 0" 1] by (auto simp: registry_typed_def empty_database_def)

subsection \<open>What a clean-up removes\<close>

lemma join_uuid: "path_join p (uuid_str u) = Path (p_root p) (p_parts p @ [uuid_str u])"
proof -
  have "32 \<le> length (uuid_str u)"
    using length_filter_le [of "\<lambda>c. c \<noteq> CHR ''-''" "uuid_str u"] by (simp add: uuid_str_dashes uuid_hex_props(1))
  then have "uuid_str u \<noteq> []" "uuid_str u \<noteq> ''.''" by auto
  moreover have "CHR ''/'' \<notin> set (uuid_str u)"
    using uuid_str_chars [of "CHR ''/''" u] by (auto dest!: arg_cong [where f = "of_char :: char \<Rightarrow> nat"] simp: of_char_digit split: if_split_asm)
  ultimately have "wf_path (Path [] [uuid_str u])" by (simp add: wf_path_def)
  from path_of_str [OF this] show ?thesis by (simp add: path_str_def path_join_def)
qed


lemma map_of_filter_outside: "P q \<Longrightarrow> map_of (filter (\<lambda>(k, _). P k) fs) q = map_of fs q"
  by (induction fs) auto

lemma remove_output_frame:
  assumes "remove_output p fs = (r, fs')" "\<not> inside p q"
  shows "map_of fs' q = map_of fs q"
proof -
  have "q \<noteq> p" using assms(2) by (auto simp: inside_def)
  then show ?thesis using assms map_of_filter_outside [of "\<lambda>k. k \<noteq> p" q fs] map_of_filter_outside [of "\<lambda>k. \<not> inside p k" q fs]
    by (auto simp: remove_output_def rmtree_def unlink_def bindM_eq thenM_eq getM_def returnM_def split: if_split_asm option.splits node.splits)
qed

lemma inside_other_uuid: "u \<noteq> v \<Longrightarrow> inside (path_join p (uuid_str u)) q \<Longrightarrow> \<not> inside (path_join p (uuid_str v)) q"
  by (auto simp: join_uuid inside_def)

text \<open>
  Cleaning up a run leaves its artifacts. \<open>cleanup_run_outputs\<close> removes the directory of the artifact root
  that is named after the run and the report of the run. The artifacts of a job are in the directory named
  after the job, so, whatever the outcome, every file and directory there stays as it was, unless the report
  path itself contains it or the job's identifier is the run's.
\<close>

theorem cleanup_leaves_artifacts:
  assumes "cleanup_run_outputs run artifact_root reports_root fs = (r, fs')"
    and "job \<noteq> run" "inside (path_join artifact_root (uuid_str job)) q"
    and "\<not> inside (path_join reports_root (uuid_str run @ ''.md'')) q"
  shows "map_of fs' q = map_of fs q"
proof -
  obtain r1 fs1 where first: "remove_output (path_join artifact_root (uuid_str run)) fs = (r1, fs1)"
    by (cases "remove_output (path_join artifact_root (uuid_str run)) fs")
  have one: "map_of fs1 q = map_of fs q"
    by (rule remove_output_frame [OF first inside_other_uuid [OF assms(2,3)]])
  show ?thesis
  proof (cases r1)
    case (Inl e)
    with first assms(1) one show ?thesis by (simp add: cleanup_run_outputs_def bindM_eq)
  next
    case (Inr removed)
    obtain r2 fs2 where second: "remove_output (path_join reports_root (uuid_str run @ ''.md'')) fs1 = (r2, fs2)"
      by (cases "remove_output (path_join reports_root (uuid_str run @ ''.md'')) fs1")
    have "fs' = fs2" using first Inr second assms(1) by (auto simp: cleanup_run_outputs_def bindM_eq returnM_def split: sum.splits)
    with one remove_output_frame [OF second assms(4)] show ?thesis by simp
  qed
qed

lemma cleanup_leaves_artifacts_witness:
  "map_of (snd (cleanup_run_outputs 1 (Path [] [''a'']) (Path ''/'' [''r'']) [(path_join (Path [] [''a'']) (uuid_str 2), Dir)]))
     (path_join (Path [] [''a'']) (uuid_str 2)) = Some Dir"
proof -
  let ?q = "path_join (Path [] [''a'']) (uuid_str 2)"
  obtain r fs' where run: "cleanup_run_outputs 1 (Path [] [''a'']) (Path ''/'' [''r'']) [(?q, Dir)] = (r, fs')"
    by (cases "cleanup_run_outputs 1 (Path [] [''a'']) (Path ''/'' [''r'']) [(?q, Dir)]")
  have "inside ?q ?q" by (simp add: inside_def)
  moreover have "\<not> inside (path_join (Path ''/'' [''r'']) (uuid_str 1 @ ''.md'')) ?q"
    by (simp add: inside_def join_uuid) (simp add: path_join_def Let_def)
  ultimately show ?thesis using cleanup_leaves_artifacts [OF run, of 2 ?q] by (simp add: run)
qed

end
