(* ===== verification/FailureReports.thy ===== *)
theory FailureReports
  imports Runs
begin

section \<open>The failure report pack\<close>

text \<open>
  \<open>cli/failure_reports.py\<close>: the scenarios of the pack, their check and their rendering, one file for each. The
  values of the metrics are the integers, floats and texts of JSON.
\<close>

record failure_scenario_report =
  fr_slug :: pystr
  fr_title :: pystr
  fr_command :: pystr
  fr_expected_behavior :: "pystr list"
  fr_expected_lifecycle :: "pystr list"
  fr_actual_lifecycle :: "pystr list"
  fr_event_trail :: "pystr list"
  fr_metrics :: "(pystr \<times> json) list"
  fr_artifact_evidence :: "pystr list"
  fr_known_limits :: "pystr list"

definition bullets :: "pystr list \<Rightarrow> pystr list" where
  "bullets xs = map (\<lambda>x. ''- '' @ x) xs"

definition render_failure_report :: "platform \<Rightarrow> failure_scenario_report \<Rightarrow> pystr" where
  "render_failure_report pf s = join [CHR 0x0A]
     ([''# '' @ fr_title s, [], ''## Scenario'', [], fr_title s, [], ''## Command'', [], ''```bash'', fr_command s, ''```'', [],
       ''## Expected Behavior'', []]
      @ bullets (fr_expected_behavior s)
      @ [[], ''## Actual Lifecycle'', []] @ bullets (fr_actual_lifecycle s)
      @ [[], ''## Event Trail'', []] @ bullets (fr_event_trail s)
      @ [[], ''## Metrics'', []] @ bullets (map (\<lambda>(k, v). k @ '': '' @ py_str (float_repr pf) v) (sort_key fst (fr_metrics s)))
      @ [[], ''## Artifact Evidence'', []]
      @ bullets (if fr_artifact_evidence s = [] then [''no artifact expected''] else fr_artifact_evidence s)
      @ [[], ''## Known Limits'', []]
      @ bullets (if fr_known_limits s = [] then [''local T1 evidence only''] else fr_known_limits s)
      @ [[]])"

text \<open>A tuple of texts in an f-string\<close>

definition tuple_text :: "pystr list \<Rightarrow> pystr" where
  "tuple_text xs = ''('' @ join '', '' (map repr_str xs) @ (if length xs = 1 then '','' else []) @ '')''"

definition validate_scenarios :: "failure_scenario_report list \<Rightarrow> pystr list" where
  "validate_scenarios scenarios = map (\<lambda>s. fr_slug s @ '': actual lifecycle '' @ tuple_text (fr_actual_lifecycle s)
       @ '' does not match expected '' @ tuple_text (fr_expected_lifecycle s))
     (filter (\<lambda>s. fr_actual_lifecycle s \<noteq> fr_expected_lifecycle s) scenarios)"

definition transient_retry_scenario :: failure_scenario_report where
  "transient_retry_scenario = \<lparr>
     fr_slug = ''transient-retry'',
     fr_title = ''Transient Retry'',
     fr_command = ''python -m pytest tests/integration/test_worker_lifecycle.py::test_transient_error_requeues_until_retry_limit -q'',
     fr_expected_behavior = [''retryable transient error records retry_scheduled'',
       ''next attempt is published through Redis Streams'', ''retry budget exhaustion finalizes failed once''],
     fr_expected_lifecycle = [''submitted'', ''running'', ''retry_scheduled'', ''running'', ''failed''],
     fr_actual_lifecycle = [''submitted'', ''running'', ''retry_scheduled'', ''running'', ''failed''],
     fr_event_trail = [''submitted'', ''running attempt=1'', ''retry_scheduled attempt=1 next_attempt=2'',
       ''running attempt=2'', ''failed error_class=TransientRunnerError''],
     fr_metrics = [(''retry_count'', JInt 1), (''duplicate_finalization_count'', JInt 0), (''dlq_count'', JInt 0)],
     fr_artifact_evidence = [''no completed artifact expected for exhausted transient failure''],
     fr_known_limits = []\<rparr>"

definition timeout_scenario :: failure_scenario_report where
  "timeout_scenario = \<lparr>
     fr_slug = ''timeout'',
     fr_title = ''Timeout'',
     fr_command = ''python -m pytest tests/integration/test_timeout_cancellation.py::test_timeout_marks_job_timed_out -q'',
     fr_expected_behavior = [''slow job is bounded by timeout_seconds'', ''worker records timed_out terminal state'',
       ''no completed artifact is written''],
     fr_expected_lifecycle = [''submitted'', ''running'', ''timed_out''],
     fr_actual_lifecycle = [''submitted'', ''running'', ''timed_out''],
     fr_event_trail = [''submitted'', ''running'', ''timed_out error_class=JobTimedOutError''],
     fr_metrics = [(''timeout_count'', JInt 1), (''duplicate_finalization_count'', JInt 0)],
     fr_artifact_evidence = [''artifact root remains absent for timed_out job''],
     fr_known_limits = []\<rparr>"

definition cancellation_scenario :: failure_scenario_report where
  "cancellation_scenario = \<lparr>
     fr_slug = ''cancellation'',
     fr_title = ''Cancellation'',
     fr_command = ''python -m pytest tests/integration/test_timeout_cancellation.py::test_cancel_running_job_records_worker_shutdown -q'',
     fr_expected_behavior = [''running cancellation stops bounded execution'',
       ''worker records cancelled terminal state'', ''Redis entry is acknowledged after state is recorded''],
     fr_expected_lifecycle = [''submitted'', ''running'', ''cancelled''],
     fr_actual_lifecycle = [''submitted'', ''running'', ''cancelled''],
     fr_event_trail = [''submitted'', ''running'', ''cancelled cancelled_while=running''],
     fr_metrics = [(''cancelled_count'', JInt 1), (''duplicate_finalization_count'', JInt 0)],
     fr_artifact_evidence = [''no completed artifact expected for cancelled job''],
     fr_known_limits = []\<rparr>"

definition stale_worker_scenario :: failure_scenario_report where
  "stale_worker_scenario = \<lparr>
     fr_slug = ''stale-worker'',
     fr_title = ''Stale Worker Recovery'',
     fr_command = ''python -m pytest tests/integration/test_stale_lease_recovery.py::test_stale_job_requeues_and_completes_once -q'',
     fr_expected_behavior = [''stale Redis pending entry is detected'',
       ''unfinished job is requeued once for the recovery cycle'', ''replacement worker completes the job once''],
     fr_expected_lifecycle = [''submitted'', ''running'', ''stale_lease_recovered'', ''running'', ''completed''],
     fr_actual_lifecycle = [''submitted'', ''running'', ''stale_lease_recovered'', ''running'', ''completed''],
     fr_event_trail = [''submitted'', ''running worker=crashed-worker'', ''stale_lease_recovered next_attempt=2'',
       ''running worker=replacement-worker'', ''completed attempt=2''],
     fr_metrics = [(''requeued_count'', JInt 1), (''duplicate_finalization_count'', JInt 0), (''dlq_count'', JInt 0)],
     fr_artifact_evidence = [''completed artifact is validated through artifact integrity checks''],
     fr_known_limits = []\<rparr>"

definition duplicate_finalization_scenario :: failure_scenario_report where
  "duplicate_finalization_scenario = \<lparr>
     fr_slug = ''duplicate-finalization'',
     fr_title = ''Duplicate Finalization Prevention'',
     fr_command = ''python -m pytest tests/integration/test_idempotent_finalization.py::test_racing_workers_produce_one_terminal_event -q'',
     fr_expected_behavior = [''racing terminal finalization attempts share one database guard'',
       ''only one terminal event is recorded'', ''duplicate-finalization metric remains zero in replay tests''],
     fr_expected_lifecycle = [''submitted'', ''completed''],
     fr_actual_lifecycle = [''submitted'', ''completed''],
     fr_event_trail = [''submitted'', ''completed finalized=True'', ''duplicate attempt finalized=False''],
     fr_metrics = [(''terminal_event_count'', JInt 1), (''finalization_rows'', JInt 1)],
     fr_artifact_evidence = [''no artifact is required for direct finalization race proof''],
     fr_known_limits = []\<rparr>"

definition dlq_scenario :: failure_scenario_report where
  "dlq_scenario = \<lparr>
     fr_slug = ''dlq'',
     fr_title = ''DLQ Routing'',
     fr_command = ''python -m pytest tests/integration/test_stale_lease_recovery.py::test_exhausted_stale_recovery_routes_to_dlq_without_duplicate_finalization -q'',
     fr_expected_behavior = [''stale recovery respects retry limits'', ''exhausted work is finalized failed once'',
       ''stale message is moved to the Redis dead-letter stream''],
     fr_expected_lifecycle = [''submitted'', ''running'', ''failed''],
     fr_actual_lifecycle = [''submitted'', ''running'', ''failed''],
     fr_event_trail = [''submitted'', ''running'', ''failed error_class=StaleLeaseExhaustedError''],
     fr_metrics = [(''dlq_count'', JInt 1), (''duplicate_finalization_count'', JInt 0)],
     fr_artifact_evidence = [''DLQ stream entry records final error class and attempt count''],
     fr_known_limits = []\<rparr>"

definition default_failure_scenarios :: "failure_scenario_report list" where
  "default_failure_scenarios = [transient_retry_scenario, timeout_scenario, cancellation_scenario, stale_worker_scenario, duplicate_finalization_scenario, dlq_scenario]"

definition scenario_path :: "path \<Rightarrow> failure_scenario_report \<Rightarrow> path" where
  "scenario_path output_dir s = path_join output_dir (fr_slug s @ ''.md'')"

definition write_scenario :: "platform \<Rightarrow> path \<Rightarrow> failure_scenario_report \<Rightarrow> (files, path) prog" where
  "write_scenario pf output_dir s =
     thenM (write_text (scenario_path output_dir s) (render_failure_report pf s)) (returnM (scenario_path output_dir s))"

definition write_failure_report_pack ::
    "platform \<Rightarrow> path \<Rightarrow> failure_scenario_report list option \<Rightarrow> (files, path list) prog" where
  "write_failure_report_pack pf output_dir scenarios =
     (let selected_scenarios = (case scenarios of Some (s # ss) \<Rightarrow> s # ss | _ \<Rightarrow> default_failure_scenarios);
          errors = validate_scenarios selected_scenarios
      in if errors \<noteq> [] then raiseM (FailureReportValidationError errors)
         else thenM (mkdir_parents output_dir) (mapM (write_scenario pf output_dir) selected_scenarios))"

definition write_pack_caught :: "exc \<Rightarrow> bool" where
  "write_pack_caught e = (case e of FailureReportValidationError _ \<Rightarrow> True | _ \<Rightarrow> False)"

definition write_pack_command :: "(exc \<Rightarrow> pystr) \<Rightarrow> platform \<Rightarrow> path \<Rightarrow> files \<Rightarrow> command_outcome \<times> files" where
  "write_pack_command other pf output_dir =
     run_command (reported other write_pack_caught ''failure report generation failed'' (map (\<lambda>p. ''wrote: '' @ path_str p)))
       (write_failure_report_pack pf output_dir None)"

subsection \<open>The check of the pack\<close>

text \<open>
  A scenario with another lifecycle than the expected one stops the pack before anything is written. The
  scenarios of the program state both lifecycles themselves, so their check never fails.
\<close>

lemma mismatch_writes_nothing:
  assumes "s \<in> set ss" "fr_actual_lifecycle s \<noteq> fr_expected_lifecycle s"
  shows "write_failure_report_pack pf dir (Some ss) fs = (Inl (FailureReportValidationError (validate_scenarios ss)), fs)"
proof -
  have "validate_scenarios ss \<noteq> []" using assms by (auto simp: validate_scenarios_def filter_empty_conv)
  with assms(1) show ?thesis by (cases ss) (simp_all add: write_failure_report_pack_def raiseM_def)
qed

lemma default_pack_valid: "validate_scenarios default_failure_scenarios = []"
  by (simp add: validate_scenarios_def default_failure_scenarios_def transient_retry_scenario_def timeout_scenario_def cancellation_scenario_def stale_worker_scenario_def duplicate_finalization_scenario_def dlq_scenario_def)

end
