(* ===== verification/Metrics.thy ===== *)
theory Metrics
  imports Inspection
begin

section \<open>Metrics\<close>

text \<open>
  \<open>observability/metrics.py\<close>: the metrics that \<open>RuntimeMetrics\<close> registers, with their kinds, names and help
  texts, and the gauges that a backpressure snapshot sets. A registry holds the value of every gauge by its
  attribute. The exposition format is \<open>prometheus_client\<close>'s and a parameter of \<open>render\<close>.
\<close>

datatype metric_kind = Gauge | Histogram | Counter

record metric =
  mt_attribute :: pystr
  mt_kind :: metric_kind
  mt_name :: pystr
  mt_help :: pystr

definition RUNTIME_METRICS :: "metric list" where
  "RUNTIME_METRICS = [
     \<lparr>mt_attribute = ''queue_depth'', mt_kind = Gauge, mt_name = ''agent_runtime_grid_queue_depth'',
      mt_help = ''Current Redis stream queue depth.''\<rparr>,
     \<lparr>mt_attribute = ''queue_lag_seconds'', mt_kind = Gauge, mt_name = ''agent_runtime_grid_queue_lag_seconds'',
      mt_help = ''Current age of the oldest queued job.''\<rparr>,
     \<lparr>mt_attribute = ''queue_oldest_pending_age_seconds'', mt_kind = Gauge, mt_name = ''agent_runtime_grid_queue_oldest_pending_age_seconds'',
      mt_help = ''Age of the oldest pending leased Redis Streams entry.''\<rparr>,
     \<lparr>mt_attribute = ''queue_consumer_lag'', mt_kind = Gauge, mt_name = ''agent_runtime_grid_queue_consumer_lag'',
      mt_help = ''Redis Streams consumer-group lag.''\<rparr>,
     \<lparr>mt_attribute = ''queue_leased_jobs'', mt_kind = Gauge, mt_name = ''agent_runtime_grid_queue_leased_jobs'',
      mt_help = ''Redis Streams pending entries leased by workers.''\<rparr>,
     \<lparr>mt_attribute = ''queue_running_jobs'', mt_kind = Gauge, mt_name = ''agent_runtime_grid_queue_running_jobs'',
      mt_help = ''Jobs currently marked running in Postgres.''\<rparr>,
     \<lparr>mt_attribute = ''worker_utilization'', mt_kind = Gauge, mt_name = ''agent_runtime_grid_worker_utilization'',
      mt_help = ''Worker utilization ratio.''\<rparr>,
     \<lparr>mt_attribute = ''queue_retry_rate'', mt_kind = Gauge, mt_name = ''agent_runtime_grid_queue_retry_rate'',
      mt_help = ''Retry decisions divided by submitted jobs.''\<rparr>,
     \<lparr>mt_attribute = ''queue_dlq_count'', mt_kind = Gauge, mt_name = ''agent_runtime_grid_queue_dlq_count'',
      mt_help = ''Current Redis dead-letter stream length.''\<rparr>,
     \<lparr>mt_attribute = ''queue_wait_p95_seconds'', mt_kind = Gauge, mt_name = ''agent_runtime_grid_queue_wait_p95_seconds'',
      mt_help = ''P95 time from submitted event to first running event.''\<rparr>,
     \<lparr>mt_attribute = ''queue_execution_p95_seconds'', mt_kind = Gauge, mt_name = ''agent_runtime_grid_queue_execution_p95_seconds'',
      mt_help = ''P95 time from first running event to terminal event.''\<rparr>,
     \<lparr>mt_attribute = ''job_duration_seconds'', mt_kind = Histogram, mt_name = ''agent_runtime_grid_job_duration_seconds'',
      mt_help = ''Job execution duration.''\<rparr>,
     \<lparr>mt_attribute = ''retry_total'', mt_kind = Counter, mt_name = ''agent_runtime_grid_retry_total'',
      mt_help = ''Retry decisions recorded by the runtime.''\<rparr>,
     \<lparr>mt_attribute = ''timeout_total'', mt_kind = Counter, mt_name = ''agent_runtime_grid_timeout_total'',
      mt_help = ''Timed-out jobs recorded by the runtime.''\<rparr>,
     \<lparr>mt_attribute = ''failure_total'', mt_kind = Counter, mt_name = ''agent_runtime_grid_failure_total'',
      mt_help = ''Failed jobs recorded by the runtime.''\<rparr>,
     \<lparr>mt_attribute = ''dlq_total'', mt_kind = Counter, mt_name = ''agent_runtime_grid_dlq_total'',
      mt_help = ''Jobs moved to the dead-letter stream.''\<rparr>,
     \<lparr>mt_attribute = ''duplicate_finalization_total'', mt_kind = Counter, mt_name = ''agent_runtime_grid_duplicate_finalization_total'',
      mt_help = ''Actual duplicate terminal-event invariant violations.''\<rparr>,
     \<lparr>mt_attribute = ''finalization_conflict_attempt_total'', mt_kind = Counter, mt_name = ''agent_runtime_grid_finalization_conflict_attempt_total'',
      mt_help = ''Terminal finalization attempts rejected by the database guard.''\<rparr>,
     \<lparr>mt_attribute = ''artifact_total'', mt_kind = Counter, mt_name = ''agent_runtime_grid_artifact_total'',
      mt_help = ''Artifacts written by the runtime.''\<rparr>,
     \<lparr>mt_attribute = ''estimated_cost_usd'', mt_kind = Counter, mt_name = ''agent_runtime_grid_estimated_cost_usd'',
      mt_help = ''Estimated model cost in USD.''\<rparr>]"

record runtime_metrics =
  rm_registry :: "metric list"
  rm_gauges :: "(pystr \<times> rat) list"

definition new_runtime_metrics :: runtime_metrics where
  "new_runtime_metrics = \<lparr>rm_registry = RUNTIME_METRICS,
     rm_gauges = map (\<lambda>m. (mt_attribute m, 0)) (filter (\<lambda>m. mt_kind m = Gauge) RUNTIME_METRICS)\<rparr>"

definition render :: "(runtime_metrics \<Rightarrow> bytes) \<Rightarrow> runtime_metrics \<Rightarrow> exc + pystr" where
  "render generate_latest m = (case utf8_decode (generate_latest m) of None \<Rightarrow> Inl UnicodeDecodeError | Some s \<Rightarrow> Inr s)"

text \<open>\<open>self.<attribute>.set(<value>)\<close>, in the order of the code\<close>

definition snapshot_values :: "backpressure_snapshot \<Rightarrow> (pystr \<times> rat) list" where
  "snapshot_values s = [
      (''queue_depth'', of_int (bs_queue_depth s)),
      (''queue_lag_seconds'', bs_p95_queue_wait_seconds s),
      (''queue_oldest_pending_age_seconds'', bs_oldest_pending_age_seconds s),
      (''queue_consumer_lag'', of_int (bs_consumer_lag s)),
      (''queue_leased_jobs'', of_int (bs_leased_jobs s)),
      (''queue_running_jobs'', of_nat (bs_running_jobs s)),
      (''worker_utilization'', bs_worker_utilization s),
      (''queue_retry_rate'', bs_retry_rate s),
      (''queue_dlq_count'', of_int (bs_dlq_count s)),
      (''queue_wait_p95_seconds'', bs_p95_queue_wait_seconds s),
      (''queue_execution_p95_seconds'', bs_p95_execution_seconds s)]"

definition record_backpressure_snapshot :: "backpressure_snapshot \<Rightarrow> runtime_metrics \<Rightarrow> runtime_metrics" where
  "record_backpressure_snapshot s m =
     m\<lparr>rm_gauges := fold (\<lambda>(k, v) gauges. AList.update k v gauges) (snapshot_values s) (rm_gauges m)\<rparr>"

definition required_metric_names :: "pystr list" where
  "required_metric_names = [
     ''agent_runtime_grid_queue_depth'',
     ''agent_runtime_grid_queue_lag_seconds'',
     ''agent_runtime_grid_queue_oldest_pending_age_seconds'',
     ''agent_runtime_grid_queue_consumer_lag'',
     ''agent_runtime_grid_queue_leased_jobs'',
     ''agent_runtime_grid_queue_running_jobs'',
     ''agent_runtime_grid_worker_utilization'',
     ''agent_runtime_grid_queue_retry_rate'',
     ''agent_runtime_grid_queue_dlq_count'',
     ''agent_runtime_grid_queue_wait_p95_seconds'',
     ''agent_runtime_grid_queue_execution_p95_seconds'',
     ''agent_runtime_grid_job_duration_seconds'',
     ''agent_runtime_grid_retry_total'',
     ''agent_runtime_grid_timeout_total'',
     ''agent_runtime_grid_failure_total'',
     ''agent_runtime_grid_dlq_total'',
     ''agent_runtime_grid_duplicate_finalization_total'',
     ''agent_runtime_grid_finalization_conflict_attempt_total'',
     ''agent_runtime_grid_artifact_total'',
     ''agent_runtime_grid_estimated_cost_usd'']"

subsection \<open>What is registered and recorded\<close>

text \<open>The metrics that are registered are those that are required, each once.\<close>

lemma registered_names: "map mt_name RUNTIME_METRICS = required_metric_names" "distinct required_metric_names"
  by (simp_all add: RUNTIME_METRICS_def required_metric_names_def)

lemma gauge_after:
  assumes "distinct (map fst values_set)"
  shows "map_of (fold (\<lambda>(k, v) gauges. AList.update k v gauges) values_set gauges) a =
     (case map_of values_set a of None \<Rightarrow> map_of gauges a | Some v \<Rightarrow> Some v)"
  using assms
proof (induction values_set arbitrary: gauges)
  case (Cons p ps)
  obtain k v where p: "p = (k, v)" by (cases p)
  have "map_of ps k = None" using Cons.prems by (simp add: p map_of_eq_None_iff)
  with Cons show ?case by (auto simp: p update_conv split: option.splits)
qed simp

lemma distinct_snapshot: "distinct (map fst (snapshot_values s))"
  by (simp add: snapshot_values_def)

text \<open>
  A snapshot sets every gauge, whatever was recorded before. The gauge \<open>queue_lag_seconds\<close>, which is registered
  as the age of the oldest queued job, gets the 95th percentile of the waits of jobs that have started.
\<close>

lemma snapshot_recorded:
  "map_of (rm_gauges (record_backpressure_snapshot s m)) a =
     (case map_of (snapshot_values s) a of None \<Rightarrow> map_of (rm_gauges m) a | Some v \<Rightarrow> Some v)"
  "map fst (snapshot_values s) = map fst (rm_gauges new_runtime_metrics)"
  by (simp add: record_backpressure_snapshot_def gauge_after distinct_snapshot)
     (simp add: snapshot_values_def new_runtime_metrics_def RUNTIME_METRICS_def)

end
