(* ===== verification/Settings.thy ===== *)
theory Settings
  imports Boundary
begin

section \<open>Settings\<close>

text \<open>
  \<open>config.py\<close>: \<open>Settings\<close>, the record that \<open>pydantic\<close> fills from the environment, with the defaults and the
  bounds of its fields. How the library reads an integer from a text is a parameter; a missing or an invalid
  field is its \<open>ValidationError\<close>, a \<open>ValueError\<close>.
\<close>

record settings =
  st_database_url :: pystr
  st_redis_url :: pystr
  st_artifact_root :: pystr
  st_api_token :: "pystr option"
  st_api_bind_host :: pystr
  st_llm_mode :: pystr
  st_openai_api_key :: "pystr option"
  st_github_token :: "pystr option"
  st_worker_concurrency :: int
  st_job_default_timeout_seconds :: int
  st_job_max_retries :: int
  st_otel_exporter_otlp_endpoint :: "pystr option"
  st_prometheus_port :: "int option"

definition invalid_setting :: "pystr \<Rightarrow> exc" where
  "invalid_setting name = ValueError (''validation error for '' @ name)"

definition required_text :: "environ \<Rightarrow> pystr \<Rightarrow> exc + pystr" where
  "required_text env name = (case env name of
     Some s \<Rightarrow> if s = [] then Inl (invalid_setting name) else Inr s | None \<Rightarrow> Inl (invalid_setting name))"

definition bounded_int :: "(pystr \<Rightarrow> int option) \<Rightarrow> environ \<Rightarrow> pystr \<Rightarrow> int option \<Rightarrow> int \<Rightarrow> exc + int option" where
  "bounded_int read_int env name fallback least = (case env name of None \<Rightarrow> Inr fallback
     | Some s \<Rightarrow> (case read_int s of Some i \<Rightarrow> if least \<le> i then Inr (Some i) else Inl (invalid_setting name)
         | None \<Rightarrow> Inl (invalid_setting name)))"

definition text_or :: "environ \<Rightarrow> pystr \<Rightarrow> pystr \<Rightarrow> pystr" where
  "text_or env name fallback = (case env name of None \<Rightarrow> fallback | Some s \<Rightarrow> s)"

definition load_settings :: "(pystr \<Rightarrow> int option) \<Rightarrow> environ \<Rightarrow> exc + settings" where
  "load_settings read_int env =
     (case required_text env ''DATABASE_URL'' of Inl e \<Rightarrow> Inl e | Inr database_url \<Rightarrow>
     (case required_text env ''REDIS_URL'' of Inl e \<Rightarrow> Inl e | Inr redis_url \<Rightarrow>
     (case required_text env ''ARTIFACT_ROOT'' of Inl e \<Rightarrow> Inl e | Inr artifact_root \<Rightarrow>
     (case bounded_int read_int env ''WORKER_CONCURRENCY'' (Some 1) 1 of Inl e \<Rightarrow> Inl e | Inr concurrency \<Rightarrow>
     (case bounded_int read_int env ''JOB_DEFAULT_TIMEOUT_SECONDS'' (Some 300) 1 of Inl e \<Rightarrow> Inl e | Inr timeout \<Rightarrow>
     (case bounded_int read_int env ''JOB_MAX_RETRIES'' (Some 3) 0 of Inl e \<Rightarrow> Inl e | Inr retries \<Rightarrow>
     (case bounded_int read_int env ''PROMETHEUS_PORT'' None 1 of Inl e \<Rightarrow> Inl e | Inr port \<Rightarrow>
       Inr \<lparr>st_database_url = database_url, st_redis_url = redis_url, st_artifact_root = artifact_root,
         st_api_token = env ''API_TOKEN'', st_api_bind_host = text_or env ''API_BIND_HOST'' ''127.0.0.1'',
         st_llm_mode = text_or env ''LLM_MODE'' ''stub'', st_openai_api_key = env ''OPENAI_API_KEY'',
         st_github_token = env ''GITHUB_TOKEN'', st_worker_concurrency = the concurrency,
         st_job_default_timeout_seconds = the timeout, st_job_max_retries = the retries,
         st_otel_exporter_otlp_endpoint = env ''OTEL_EXPORTER_OTLP_ENDPOINT'', st_prometheus_port = port\<rparr>)))))))"

lemma bounded_int_bounds:
  "bounded_int read_int env name (Some d) least = Inr i \<Longrightarrow> least \<le> d \<Longrightarrow> \<exists>n. i = Some n \<and> least \<le> n"
  by (auto simp: bounded_int_def split: option.splits if_split_asm) metis

text \<open>Settings that load are within their bounds.\<close>

lemma loaded_settings_bounds:
  assumes "load_settings read_int env = Inr s"
  shows "1 \<le> st_worker_concurrency s" "1 \<le> st_job_default_timeout_seconds s" "0 \<le> st_job_max_retries s"
    "st_database_url s \<noteq> []" "st_redis_url s \<noteq> []" "st_artifact_root s \<noteq> []"
proof -
  obtain c t r p where parts: "bounded_int read_int env ''WORKER_CONCURRENCY'' (Some 1) 1 = Inr c"
      "bounded_int read_int env ''JOB_DEFAULT_TIMEOUT_SECONDS'' (Some 300) 1 = Inr t"
      "bounded_int read_int env ''JOB_MAX_RETRIES'' (Some 3) 0 = Inr r"
    and req: "required_text env ''DATABASE_URL'' = Inr (st_database_url s)" "required_text env ''REDIS_URL'' = Inr (st_redis_url s)"
      "required_text env ''ARTIFACT_ROOT'' = Inr (st_artifact_root s)"
    and s: "st_worker_concurrency s = the c" "st_job_default_timeout_seconds s = the t" "st_job_max_retries s = the r"
    using assms by (auto simp: load_settings_def split: sum.splits)
  from bounded_int_bounds [OF parts(1)] s(1) show "1 \<le> st_worker_concurrency s" by auto
  from bounded_int_bounds [OF parts(2)] s(2) show "1 \<le> st_job_default_timeout_seconds s" by auto
  from bounded_int_bounds [OF parts(3)] s(3) show "0 \<le> st_job_max_retries s" by auto
  from req show "st_database_url s \<noteq> []" "st_redis_url s \<noteq> []" "st_artifact_root s \<noteq> []"
    by (auto simp: required_text_def split: option.splits if_split_asm)
qed

end
