(* ===== verification/Spec2Isabelle.thy ===== *)
theory Spec2Isabelle
  imports Isolation Commands FailureReports Metrics Settings
begin

text \<open>
  Agent Runtime Grid: a verification library of the Python package under
  \<open>src/src/agent_runtime_grid\<close>. File names below are relative to that directory.

  \<^bold>\<open>The program.\<close> It runs jobs at least once over two stores. PostgreSQL is the registry: jobs, their events, one
  finalization per job, and conflict attempts. Redis Streams delivers messages: a stream with a consumer group,
  pending leases, and a dead-letter stream. A submitter creates a job and publishes a message; a worker leases a
  message, opens it in a transaction, runs the job under a timeout while a heartbeat renews the lease, records
  the outcome and acknowledges; a recovery scan requeues or dead-letters messages whose lease went stale. The
  command line submits runs, drains them with a pool of workers, inspects the result, checks it and writes
  evidence. The theories follow that order.

  \<^bold>\<open>Python.\<close> \<open>Prelude\<close> holds the theorem collections and facts on lists and maps. \<open>Program\<close> is how Python functions
  are written: \<open>('s, 'a) prog\<close> takes a state and gives a result or an exception and the state, with \<open>bindM\<close>,
  \<open>thenM\<close>, \<open>try_exceptM\<close>, \<open>finallyM\<close>, \<open>transaction\<close> (rolled back on an exception) and the calculus \<open>keeps\<close> of
  properties that a program leaves in force. \<open>PyText\<close>, \<open>Decimal\<close>, \<open>Json\<close>, \<open>JsonText\<close>, \<open>PyValue\<close>, \<open>Formats\<close> and
  \<open>Files\<close> are the built-in operations that the source uses of \<open>str\<close>, \<open>UUID\<close>, \<open>Decimal\<close>, \<open>json\<close> (writer and
  parser), equality and truth of JSON values, format specifications, and \<open>pathlib\<close> over a file system with
  symbolic links.

  \<^bold>\<open>The registry.\<close>
  \<^item> \<open>Storage\<close>: \<open>domain/jobs.py\<close> and \<open>storage/models.py\<close>; rows are records, a table is a list of rows, a statement
    checks the constraints of its table.
  \<^item> \<open>Finalization\<close>: \<open>storage/finalization.py\<close>; \<open>Repository\<close>: \<open>storage/repositories.py\<close>.
  \<^item> \<open>Schema\<close>: the seven tables of \<open>storage/models.py\<close> as data, and the migration \<open>0001_jobs.sql\<close>, which creates the
    same. \<open>Statements\<close>: what the database does with \<open>INSERT\<close>, \<open>INSERT ... ON CONFLICT DO NOTHING\<close>, \<open>UPDATE\<close> and
    \<open>SELECT\<close> for any declared table; the statements of \<open>Storage\<close> and the row mappings of
    \<open>storage/repositories.py\<close> are these at the declared tables. \<open>Constraints\<close>: the locale \<open>schema\<close>, in which the
    statements are shown to keep every declared constraint, interpreted for the tables of the registry. \<open>Declared\<close>:
    hence every interleaving of the processes keeps them; and what happens to two submissions that race for a key.
  \<^item> \<open>StateMachine\<close>: \<open>worker/state_machine.py\<close>, \<open>worker/lease.py\<close>, \<open>cancel_queued_job\<close>. The locales
    \<open>job_invariant\<close> and \<open>lifecycle_invariant\<close> are the properties of the registry that these operations keep; the
    worker, the recovery, the submitters and the interleaved system keep any such property, proved once for each.
    They are interpreted for the invariant \<open>db_inv\<close>, the append-only history \<open>extends\<close>, the column types
    \<open>registry_typed\<close>, the ledger \<open>in_ledger\<close> and the declared constraints \<open>declared_ok\<close>.
  \<^item> \<open>Ledger\<close>: the types of the columns, and the abstract ledger of outcomes that the registry refines.

  \<^bold>\<open>The queue.\<close> \<open>RedisStreams\<close> is \<open>queue/types.py\<close> and \<open>queue/redis_streams.py\<close> over a client that is a parameter.
  \<open>JobQueue\<close> has the interface \<open>queue_api\<close> and two locales: \<open>redis_streams\<close>, what the Redis documentation says of
  the client's commands, and \<open>job_queue\<close>, what the callers of a queue rely on; a \<open>sublocale\<close> derives the second from
  the first through the model of \<open>RedisStreamsQueue\<close>. \<open>RedisReference\<close> is a Redis server in memory that satisfies
  the laws. \<open>Inspection\<close> is \<open>queue/inspection.py\<close> with the locale \<open>redis_inspection\<close>; \<open>Metrics\<close> is
  \<open>observability/metrics.py\<close>.

  \<^bold>\<open>Jobs and their cost.\<close> \<open>StubRunner\<close> (\<open>jobs/stub.py\<close>, \<open>worker/timeouts.py\<close>, \<open>worker/cancellation.py\<close>),
  \<open>FailurePlan\<close> (\<open>jobs/failure_injection.py\<close>), \<open>EvalLab\<close> (\<open>jobs/eval_lab.py\<close>), \<open>Gdev\<close> (\<open>jobs/gdev_agent.py\<close>),
  \<open>Budget\<close> and \<open>Telemetry\<close> (\<open>cost/telemetry.py\<close>), \<open>Rollup\<close> (\<open>cost/rollup.py\<close>).

  \<^bold>\<open>Execution.\<close>
  \<^item> \<open>Worker\<close>: \<open>worker/loop.py\<close>; \<open>Recovery\<close>: \<open>worker/recovery.py\<close>. A \<open>world\<close> is the registry, the server, the
    cancellation events and what the job functions see.
  \<^item> \<open>Delivery\<close>: their properties. A job is \<open>accounted\<close> for when it is finalized or has a message that waits or
    is leased; no message that is processed and no scan changes that.
  \<^item> \<open>Drain\<close>: the run loop of a pool, a partial function that is shown to end, with all jobs finalized.
  \<^item> \<open>Submission\<close>: the three submitters of \<open>cli/main.py\<close>, \<open>cli/smoke.py\<close> and \<open>cli/benchmark.py\<close>.
  \<^item> \<open>Grid\<close>: submitters, workers and recoveries at the same time. \<open>grid_step\<close> is a step relation on the world and
    the multiset of tasks in flight, one transaction or queue command a step, crashes included. \<open>GridRuns\<close>: the
    sequential models above are runs of it, no interleaving loses a job or spoils the registry, and after any of them one
    recovery scan and one run loop finish every job.
  \<^item> \<open>Transactions\<close> and \<open>Isolation\<close>: the transactions of the grid, statement by statement, with the row locks that
    PostgreSQL takes. Whatever their interleaving, rollbacks and deadlock victims included, the registry is what whole
    transactions produce in the order of their commits; a deadlock that the code can run into.

  \<^bold>\<open>Runs and evidence.\<close> \<open>Artifacts\<close> (\<open>artifacts/store.py\<close>), \<open>Evidence\<close> (\<open>evidence.py\<close>), \<open>Reports\<close> and
  \<open>SmokeReport\<close> (the reports of \<open>cli/smoke.py\<close>, \<open>cli/benchmark.py\<close>, \<open>cli/proof.py\<close> and their checks), \<open>Runs\<close>
  (\<open>run_smoke\<close>, \<open>run_reliability_proof\<close> and their commands), \<open>FullStack\<close> (\<open>cli/proof.py\<close>), \<open>Commands\<close>
  (\<open>cli/main.py\<close>, \<open>cli/operator.py\<close>, \<open>cli/cleanup.py\<close>, \<open>cli/cost.py\<close>), \<open>FailureReports\<close>
  (\<open>cli/failure_reports.py\<close>), \<open>Boundary\<close> (\<open>api/\<close>, \<open>storage/safety.py\<close>, \<open>logging.py\<close>,
  \<open>observability/tracing.py\<close>) and \<open>Settings\<close> (\<open>config.py\<close>). A run of the command line is \<open>drain\<close> between a submission
  and a report, and is shown to end with checked evidence or with an exception.

  \<^bold>\<open>Parameters and bounds.\<close>
  \<^item> Code that is not in the repository is an argument: the Redis client, the random generator, the clock, SHA-256
    and HMAC, the HTTP exchange with the gdev agent (with its time limit), \<open>git\<close>, \<open>make_url\<close>, \<open>fromisoformat\<close>, the
    reading of integers by \<open>pydantic\<close>, the Prometheus registry, the rounding of \<open>jobs * failure_rate\<close>, and
    \<open>Decimal\<close> of values that are neither numbers nor texts. What the proofs use of one is a hypothesis.
  \<^item> Characters are those of Latin-1, \<open>char\<close> of HOL. A float is an exact rational, an infinity or
    \<open>NaN\<close>; \<open>repr\<close>, the parsing of a float and the rounding of an operation are arguments (\<open>platform\<close>,
    \<open>surroundings\<close>).
  \<^item> A path follows at most 40 symbolic links, as the kernel does. The loops of \<open>Drain\<close> and of the sleeping stub
    job have no bound: their ends are proved.
  \<^item> A transaction is one step, which \<open>Isolation\<close> justifies for those that work on stored jobs: their statements
    interleave as PostgreSQL has it at the level \<open>READ COMMITTED\<close>, with the locks of its documentation. The time of a
    transaction is that of the registry, and the numbers of events are drawn at the commit. \<open>create_job\<close> takes no
    lock: two of them can interfere, which is the property \<open>Declared.racing_submission_raises\<close>. Within \<open>open_message\<close>
    the acknowledgement, which the code sends before the commit, belongs to the step; a raise there is modelled, and is
    the one window in which a job can be lost (the property \<open>Delivery.refused_job_lost_on_failed_acknowledgement\<close>).
  \<^item> The two sequences of the registry are \<open>bigserial\<close>: the statements about the declared schema are for registries
    that have given out fewer than \<open>2 ^ 63\<close> numbers. A number that a failed insert or a rolled back transaction
    draws is not lost in the model; the program uses the numbers only for their order.
  \<^item> In \<open>drain\<close> the workers of a round take turns, where the code gathers them concurrently; \<open>Grid\<close> covers every
    order of their steps for the safety properties, and termination is proved for the turns.
  \<^item> Cancellation events are per worker process, as in the code.

  \<^bold>\<open>Not modelled.\<close> Option parsing (\<open>typer\<close>), the routing of FastAPI, the exposition format of Prometheus, opening
  and closing connections, and the advisory lock of the database reset: libraries that leave no state of the
  program. The tables \<open>artifacts\<close>, \<open>job_retry_records\<close> and \<open>job_cost_records\<close> are declared, and never read or
  written by the program. The data base also refuses a NUL character in a text and a \<open>NaN\<close> or an infinity in a
  JSON column, which the model stores.
\<close>

end
